(* ===== verification/Prelude.thy ===== *)
theory Prelude
  imports Main "HOL-Library.Word" "HOL-Library.Char_ord" "HOL-Library.List_Lexorder"
begin

text \<open>
  What the components share: the machine integers of the Rust code, the JSON values the channel
  carries, the ordered map behind \<open>BTreeMap<String, _>\<close>, and two interfaces, one for keyed
  stores of records and one for state machines with an invariant.

  Types. Unsigned Rust integers are words of their width. File descriptor numbers
  (\<open>RawFd\<close>) and process ids are \<open>i32\<close> in the code and are only compared or carried, so they
  are \<open>int\<close>. An \<open>f64\<close> time stamp is only ever carried, so it is its 64-bit pattern.
  \<open>Duration\<close> and \<open>Instant\<close> are natural numbers of milliseconds.
\<close>

type_synonym u8 = "8 word"
type_synonym u16 = "16 word"
type_synonym u32 = "32 word"
type_synonym u64 = "64 word"
type_synonym f64 = "64 word"
type_synonym fd = int
type_synonym pid = int
type_synonym uid = string
type_synonym bytes = "8 word list"
type_synonym millis = nat

named_theorems store_simps
named_theorems holder_inv_intros

text \<open>A JSON value as \<open>serde_json::Value\<close> has it: a number is an integer or a float.\<close>

datatype json =
    JNull
  | JBool bool
  | JInt int
  | JFloat f64
  | JStr string
  | JArr "json list"
  | JObj "(string \<times> json) list"

section \<open>The ordered map\<close>

text \<open>
  \<open>BTreeMap\<close> as the list of its entries in key order, which is the order its iterators use.
  \<open>String\<close> compares bytewise, and so do lists of characters.
\<close>

definition bt_sorted :: "('k::linorder \<times> 'v) list \<Rightarrow> bool" where
  "bt_sorted m = sorted_wrt (<) (map fst m)"

definition bt_get :: "('k \<times> 'v) list \<Rightarrow> 'k \<Rightarrow> 'v option" where
  "bt_get m k = map_of m k"

definition bt_insert :: "'k::linorder \<Rightarrow> 'v \<Rightarrow> ('k \<times> 'v) list \<Rightarrow> ('k \<times> 'v) list" where
  "bt_insert k v m = takeWhile (\<lambda>e. fst e < k) m @ (k, v) # dropWhile (\<lambda>e. fst e \<le> k) m"

definition bt_remove :: "'k \<Rightarrow> ('k \<times> 'v) list \<Rightarrow> ('k \<times> 'v) list" where
  "bt_remove k m = filter (\<lambda>e. fst e \<noteq> k) m"

definition bt_adjust :: "'k \<Rightarrow> ('v \<Rightarrow> 'v) \<Rightarrow> ('k \<times> 'v) list \<Rightarrow> ('k \<times> 'v) list" where
  "bt_adjust k f m = map (\<lambda>e. if fst e = k then (k, f (snd e)) else e) m"

lemma bt_sorted_Nil [simp]: "bt_sorted []"
  by (simp add: bt_sorted_def)

lemma bt_sorted_Cons:
  "bt_sorted (e # m) \<longleftrightarrow> (\<forall>x\<in>set m. fst e < fst x) \<and> bt_sorted m"
  by (auto simp: bt_sorted_def)

lemma bt_sorted_distinct: "bt_sorted m \<Longrightarrow> distinct (map fst m)"
  unfolding bt_sorted_def by (induction m) auto

lemma bt_get_insert:
  "bt_sorted m \<Longrightarrow> bt_get (bt_insert k v m) k' = (if k' = k then Some v else bt_get m k')"
proof (induction m)
  case Nil
  then show ?case by (simp add: bt_get_def bt_insert_def)
next
  case (Cons e m)
  then have IH: "bt_get (bt_insert k v m) k' = (if k' = k then Some v else bt_get m k')"
    and gt: "\<forall>x\<in>set m. fst e < fst x"
    by (auto simp: bt_sorted_Cons)
  show ?case
  proof (cases "fst e < k")
    case True
    with IH show ?thesis
      by (cases e) (auto simp: bt_get_def bt_insert_def)
  next
    case False
    then have "dropWhile (\<lambda>e. fst e \<le> k) m = m"
      using gt by (cases m) auto
    with False show ?thesis
      by (cases e) (auto simp: bt_get_def bt_insert_def)
  qed
qed

lemma bt_get_remove: "bt_get (bt_remove k m) k' = (if k' = k then None else bt_get m k')"
  unfolding bt_get_def bt_remove_def by (induction m) auto

lemma bt_get_adjust:
  "bt_get (bt_adjust k f m) k' = (if k' = k then map_option f (bt_get m k) else bt_get m k')"
  unfolding bt_get_def bt_adjust_def by (induction m) auto

lemma set_bt_insert: "set (bt_insert k v m) \<subseteq> insert (k, v) (set m)"
  by (auto simp: bt_insert_def dest: set_takeWhileD set_dropWhileD)

lemma bt_sorted_insert: "bt_sorted m \<Longrightarrow> bt_sorted (bt_insert k v m)"
proof (induction m)
  case Nil
  then show ?case by (simp add: bt_insert_def bt_sorted_def)
next
  case (Cons e m)
  then have IH: "bt_sorted (bt_insert k v m)" and gt: "\<forall>x\<in>set m. fst e < fst x"
    and s: "bt_sorted m"
    by (auto simp: bt_sorted_Cons)
  show ?case
  proof (cases "fst e < k")
    case True
    then have "bt_insert k v (e # m) = e # bt_insert k v m"
      by (simp add: bt_insert_def)
    with IH gt True show ?thesis
      using set_bt_insert [of k v m] by (auto simp: bt_sorted_Cons)
  next
    case False
    then have "dropWhile (\<lambda>e. fst e \<le> k) m = m"
      using gt by (cases m) auto
    with False gt s show ?thesis
      by (auto simp: bt_insert_def bt_sorted_Cons)
  qed
qed

lemma bt_sorted_remove: "bt_sorted m \<Longrightarrow> bt_sorted (bt_remove k m)"
  by (induction m) (auto simp: bt_remove_def bt_sorted_Cons)

lemma bt_keys_adjust [simp]: "map fst (bt_adjust k f m) = map fst m"
  by (induction m) (auto simp: bt_adjust_def)

lemma bt_sorted_adjust: "bt_sorted m \<Longrightarrow> bt_sorted (bt_adjust k f m)"
  by (simp add: bt_sorted_def)

lemma bt_get_eq_SomeD: "bt_get m k = Some v \<Longrightarrow> (k, v) \<in> set m"
  by (simp add: bt_get_def map_of_SomeD)

lemma bt_get_iff: "bt_sorted m \<Longrightarrow> bt_get m k = Some v \<longleftrightarrow> (k, v) \<in> set m"
  by (simp add: bt_get_def bt_sorted_distinct map_of_eq_Some_iff)

section \<open>Interface: a keyed store of records\<close>

text \<open>
  What the holder's handlers use of a map: look a record up, insert it, change it in place,
  remove it. The client lemmas carry a property of all records through each operation, so an
  invariant proof looks at the one record a handler touches.
\<close>

locale keyed_store =
  fixes get :: "'m \<Rightarrow> 'k \<Rightarrow> 'v option"
    and ins :: "'k \<Rightarrow> 'v \<Rightarrow> 'm \<Rightarrow> 'm"
    and del :: "'k \<Rightarrow> 'm \<Rightarrow> 'm"
    and adj :: "'k \<Rightarrow> ('v \<Rightarrow> 'v) \<Rightarrow> 'm \<Rightarrow> 'm"
    and wf :: "'m \<Rightarrow> bool"
  assumes get_ins: "wf m \<Longrightarrow> get (ins k v m) k' = (if k' = k then Some v else get m k')"
    and get_del: "wf m \<Longrightarrow> get (del k m) k' = (if k' = k then None else get m k')"
    and get_adj: "wf m \<Longrightarrow> get (adj k f m) k' = (if k' = k then map_option f (get m k) else get m k')"
    and wf_ins: "wf m \<Longrightarrow> wf (ins k v m)"
    and wf_del: "wf m \<Longrightarrow> wf (del k m)"
    and wf_adj: "wf m \<Longrightarrow> wf (adj k f m)"
begin

definition every :: "('k \<Rightarrow> 'v \<Rightarrow> bool) \<Rightarrow> 'm \<Rightarrow> bool" where
  "every P m \<longleftrightarrow> (\<forall>k v. get m k = Some v \<longrightarrow> P k v)"

lemma everyD: "every P m \<Longrightarrow> get m k = Some v \<Longrightarrow> P k v"
  by (simp add: every_def)

lemma every_ins: "wf m \<Longrightarrow> every P m \<Longrightarrow> P k v \<Longrightarrow> every P (ins k v m)"
  by (auto simp: every_def get_ins split: if_splits)

lemma every_del: "wf m \<Longrightarrow> every P m \<Longrightarrow> every P (del k m)"
  by (auto simp: every_def get_del split: if_splits)

lemma every_adj:
  "wf m \<Longrightarrow> every P m \<Longrightarrow> (\<And>v. get m k = Some v \<Longrightarrow> P k v \<Longrightarrow> P k (f v)) \<Longrightarrow> every P (adj k f m)"
  by (auto simp: every_def get_adj split: if_splits)

lemma every_mono: "every P m \<Longrightarrow> (\<And>k v. P k v \<Longrightarrow> Q k v) \<Longrightarrow> every Q m"
  by (auto simp: every_def)

lemma every_conj: "every (\<lambda>k v. P k v \<and> Q k v) m \<longleftrightarrow> every P m \<and> every Q m"
  by (auto simp: every_def)

end

interpretation bt: keyed_store bt_get bt_insert bt_remove bt_adjust bt_sorted
  by unfold_locales
    (simp_all add: bt_get_insert bt_get_remove bt_get_adjust bt_sorted_insert bt_sorted_remove
      bt_sorted_adjust)

lemmas bt_get_simps [store_simps] = bt.get_ins bt.get_del bt.get_adj
lemmas bt_wf_simps [store_simps] = bt.wf_ins bt.wf_del bt.wf_adj

lemma bt_every_iff:
  "bt_sorted m \<Longrightarrow> bt.every P m \<longleftrightarrow> (\<forall>e\<in>set m. P (fst e) (snd e))"
  by (auto simp: bt.every_def bt_get_iff)

section \<open>Interface: a state machine with an invariant\<close>

text \<open>
  A deterministic machine driven by events. \<open>ok s e\<close> says that event \<open>e\<close> may happen in
  state \<open>s\<close>; a run is a list of events each of which may happen in the state before it.
\<close>

locale invariant_system =
  fixes step :: "'s \<Rightarrow> 'e \<Rightarrow> 's"
    and ok :: "'s \<Rightarrow> 'e \<Rightarrow> bool"
    and inv :: "'s \<Rightarrow> bool"
  assumes step_inv: "inv s \<Longrightarrow> ok s e \<Longrightarrow> inv (step s e)"
begin

fun run :: "'s \<Rightarrow> 'e list \<Rightarrow> 's" where
  "run s [] = s"
| "run s (e # es) = run (step s e) es"

fun may_run :: "'s \<Rightarrow> 'e list \<Rightarrow> bool" where
  "may_run s [] = True"
| "may_run s (e # es) = (ok s e \<and> may_run (step s e) es)"

lemma run_inv: "inv s \<Longrightarrow> may_run s es \<Longrightarrow> inv (run s es)"
  by (induction es arbitrary: s) (auto intro: step_inv)

lemma run_append: "run s (es @ fs) = run (run s es) fs"
  by (induction es arbitrary: s) auto

lemma may_run_append: "may_run s (es @ fs) \<longleftrightarrow> may_run s es \<and> may_run (run s es) fs"
  by (induction es arbitrary: s) auto

lemma may_run_trivial: "(\<And>s e. ok s e) \<Longrightarrow> may_run s es"
  by (induction es arbitrary: s) auto

text \<open>A property that no allowed step breaks once it holds persists along a run.\<close>

lemma run_persists:
  assumes "\<And>s e. inv s \<Longrightarrow> ok s e \<Longrightarrow> P s \<Longrightarrow> P (step s e)"
  shows "inv s \<Longrightarrow> may_run s es \<Longrightarrow> P s \<Longrightarrow> P (run s es)"
  by (induction es arbitrary: s) (auto intro: assms step_inv)

end

section \<open>Words as little-endian bytes\<close>

text \<open>\<open>u32::to_le_bytes\<close> and friends: \<open>n\<close> bytes, least significant first.\<close>

fun to_le :: "nat \<Rightarrow> nat \<Rightarrow> bytes" where
  "to_le 0 x = []"
| "to_le (Suc n) x = word_of_nat (x mod 256) # to_le n (x div 256)"

fun from_le :: "bytes \<Rightarrow> nat" where
  "from_le [] = 0"
| "from_le (b # bs) = unat b + 256 * from_le bs"

lemma length_to_le [simp]: "length (to_le n x) = n"
  by (induction n arbitrary: x) auto

lemma unat_byte [simp]: "unat (word_of_nat (x mod 256) :: 8 word) = x mod 256"
  by (simp add: unat_of_nat)

lemma from_to_le: "x < 256 ^ n \<Longrightarrow> from_le (to_le n x) = x"
proof (induction n arbitrary: x)
  case 0
  then show ?case by simp
next
  case (Suc n)
  then have "x div 256 < 256 ^ n"
    by (simp add: less_mult_imp_div_less mult.commute)
  with Suc.IH have "from_le (to_le n (x div 256)) = x div 256" by blast
  then show ?case by simp
qed

lemma from_le_less: "from_le bs < 256 ^ length bs"
proof (induction bs)
  case Nil
  then show ?case by simp
next
  case (Cons b bs)
  have "unat b < 256" using unsigned_less [of b] by simp
  with Cons show ?case by simp
qed

lemma to_from_le: "to_le (length bs) (from_le bs) = bs"
proof (induction bs)
  case Nil
  then show ?case by simp
next
  case (Cons b bs)
  have b: "unat b < 256" using unsigned_less [of b] by simp
  then have "(unat b + 256 * from_le bs) mod 256 = unat b"
    and "(unat b + 256 * from_le bs) div 256 = from_le bs" by simp_all
  with Cons show ?case by simp
qed

end
