(* ===== verification/Channel.thy ===== *)
theory Channel
  imports Prelude "HOL-Library.Monad_Syntax"
begin

text \<open>
  The channel between the holder and the brain, \<open>holder-proto/src/channel.rs\<close>: the verbs, the
  payload structs with what their derived (de)serializers accept, the frame envelope, the send
  loop, and the incremental \<open>FrameReader\<close> with its SCM_RIGHTS law.

  What is not under \<open>src/\<close> is a parameter: \<open>enc\<close> and \<open>dec\<close> stand for
  \<open>serde_json::to_vec\<close> and \<open>serde_json::from_slice\<close> on a whole frame, and the answers of
  \<open>sendmsg\<close>, \<open>send\<close> and \<open>recvmsg\<close> are inputs. Deserializing a payload from a JSON value
  follows the struct's fields and its \<open>serde(default)\<close> attributes.

  An error text of the code is a constructor of \<open>msg\<close> with the values it interpolates, one
  constructor for each format string.
\<close>

section \<open>Constants and verbs\<close>

definition PROTO_VERSION_MIN :: u32 where
  "PROTO_VERSION_MIN = 1"

definition PROTO_VERSION_MAX :: u32 where
  "PROTO_VERSION_MAX = 1"

definition MAX_FRAME_BYTES :: u32 where
  "MAX_FRAME_BYTES = 1024 * 1024"

definition MAX_FDS_PER_RECV :: nat where
  "MAX_FDS_PER_RECV = 8"

datatype verb =
    V_HELLO | V_HELLO_REPLY | V_SPAWN | V_ARM_REAP | V_ADOPT | V_ADOPT_RECORD
  | V_ADOPT_LISTENERS | V_ADOPT_DONE | V_SIGNAL | V_ABORT_SPAWN | V_UPDATE_CHECKPOINT
  | V_STORE_LISTENER | V_FORGET | V_EXIT_EVENT | V_ACK_EXIT | V_RESTART_BRAIN
  | V_ROLLBACK_BRAIN | V_CANCEL_PENDING | V_REEXEC_HOLDER | V_ROLLBACK_RECORD
  | V_SPLIT_ROLLBACK | V_REHELLO | V_STATUS | V_PING | V_PONG | V_OK | V_ERR

fun verb_name :: "verb \<Rightarrow> string" where
  "verb_name V_HELLO = ''hello''"
| "verb_name V_HELLO_REPLY = ''hello_reply''"
| "verb_name V_SPAWN = ''spawn''"
| "verb_name V_ARM_REAP = ''arm_reap''"
| "verb_name V_ADOPT = ''adopt''"
| "verb_name V_ADOPT_RECORD = ''adopt_record''"
| "verb_name V_ADOPT_LISTENERS = ''adopt_listeners''"
| "verb_name V_ADOPT_DONE = ''adopt_done''"
| "verb_name V_SIGNAL = ''signal''"
| "verb_name V_ABORT_SPAWN = ''abort_spawn''"
| "verb_name V_UPDATE_CHECKPOINT = ''update_checkpoint''"
| "verb_name V_STORE_LISTENER = ''store_listener''"
| "verb_name V_FORGET = ''forget''"
| "verb_name V_EXIT_EVENT = ''exit_event''"
| "verb_name V_ACK_EXIT = ''ack_exit''"
| "verb_name V_RESTART_BRAIN = ''restart_brain''"
| "verb_name V_ROLLBACK_BRAIN = ''rollback_brain''"
| "verb_name V_CANCEL_PENDING = ''cancel_pending''"
| "verb_name V_REEXEC_HOLDER = ''reexec_holder''"
| "verb_name V_ROLLBACK_RECORD = ''rollback_record''"
| "verb_name V_SPLIT_ROLLBACK = ''split_rollback''"
| "verb_name V_REHELLO = ''rehello''"
| "verb_name V_STATUS = ''status''"
| "verb_name V_PING = ''ping''"
| "verb_name V_PONG = ''pong''"
| "verb_name V_OK = ''ok''"
| "verb_name V_ERR = ''err''"

text \<open>Matching a frame's \<open>v\<close> against the constants: the verb it names, if any.\<close>

definition all_verbs :: "verb list" where
  "all_verbs =
     [V_HELLO, V_HELLO_REPLY, V_SPAWN, V_ARM_REAP, V_ADOPT, V_ADOPT_RECORD, V_ADOPT_LISTENERS,
      V_ADOPT_DONE, V_SIGNAL, V_ABORT_SPAWN, V_UPDATE_CHECKPOINT, V_STORE_LISTENER, V_FORGET,
      V_EXIT_EVENT, V_ACK_EXIT, V_RESTART_BRAIN, V_ROLLBACK_BRAIN, V_CANCEL_PENDING,
      V_REEXEC_HOLDER, V_ROLLBACK_RECORD, V_SPLIT_ROLLBACK, V_REHELLO, V_STATUS, V_PING, V_PONG,
      V_OK, V_ERR]"

definition verb_of :: "string \<Rightarrow> verb option" where
  "verb_of s = List.find (\<lambda>v. verb_name v = s) all_verbs"

lemma verb_of_name [simp]: "verb_of (verb_name v) = Some v"
  by (cases v) (simp_all add: verb_of_def all_verbs_def)

lemma verb_of_SomeD: "verb_of s = Some v \<Longrightarrow> verb_name v = s"
  by (auto simp: verb_of_def find_Some_iff)

declare verb_name.simps [simp del]

lemma verb_name_eq_iff [simp]: "verb_name v = verb_name w \<longleftrightarrow> v = w"
  by (metis option.inject verb_of_name)

section \<open>Deserializing from a JSON value\<close>

text \<open>
  A derived \<open>Deserialize\<close> takes a struct from an object (unknown keys are ignored) or from an
  array of the fields in order. A field with \<open>serde(default)\<close> may be missing.
\<close>

definition de_fields :: "string list \<Rightarrow> json \<Rightarrow> (string \<Rightarrow> json option) option" where
  "de_fields names j =
     (case j of
        JObj kvs \<Rightarrow> Some (map_of kvs)
      | JArr vs \<Rightarrow> if length vs \<le> length names then Some (map_of (zip names vs)) else None
      | _ \<Rightarrow> None)"

definition de_req :: "(string \<Rightarrow> json option) \<Rightarrow> string \<Rightarrow> (json \<Rightarrow> 'a option) \<Rightarrow> 'a option" where
  "de_req m k f = (case m k of None \<Rightarrow> None | Some j \<Rightarrow> f j)"

definition de_default ::
  "(string \<Rightarrow> json option) \<Rightarrow> string \<Rightarrow> (json \<Rightarrow> 'a option) \<Rightarrow> 'a \<Rightarrow> 'a option" where
  "de_default m k f d = (case m k of None \<Rightarrow> Some d | Some j \<Rightarrow> f j)"

definition de_word :: "json \<Rightarrow> 'a::len word option" where
  "de_word j =
     (case j of
        JInt i \<Rightarrow> if 0 \<le> i \<and> i < 2 ^ LENGTH('a) then Some (word_of_int i) else None
      | _ \<Rightarrow> None)"

definition de_i32 :: "json \<Rightarrow> int option" where
  "de_i32 j =
     (case j of JInt i \<Rightarrow> if - (2 ^ 31) \<le> i \<and> i < 2 ^ 31 then Some i else None | _ \<Rightarrow> None)"

definition de_string :: "json \<Rightarrow> string option" where
  "de_string j = (case j of JStr s \<Rightarrow> Some s | _ \<Rightarrow> None)"

definition de_value :: "json \<Rightarrow> json option" where
  "de_value j = Some j"

definition de_option :: "(json \<Rightarrow> 'a option) \<Rightarrow> json \<Rightarrow> 'a option option" where
  "de_option f j = (case j of JNull \<Rightarrow> Some None | _ \<Rightarrow> map_option Some (f j))"

definition de_list :: "(json \<Rightarrow> 'a option) \<Rightarrow> json \<Rightarrow> 'a list option" where
  "de_list f j = (case j of JArr js \<Rightarrow> those (map f js) | _ \<Rightarrow> None)"

definition de_map :: "(json \<Rightarrow> 'a option) \<Rightarrow> json \<Rightarrow> (string \<times> 'a) list option" where
  "de_map f j =
     (case j of
        JObj kvs \<Rightarrow>
          map_option (\<lambda>es. fold (\<lambda>e m. bt_insert (fst e) (snd e) m) es [])
            (those (map (\<lambda>e. map_option (Pair (fst e)) (f (snd e))) kvs))
      | _ \<Rightarrow> None)"

definition ser_word :: "'a::len word \<Rightarrow> json" where
  "ser_word w = JInt (uint w)"

definition ser_option :: "('a \<Rightarrow> json) \<Rightarrow> 'a option \<Rightarrow> json" where
  "ser_option f x = (case x of None \<Rightarrow> JNull | Some a \<Rightarrow> f a)"

lemma de_ser_word [simp]: "de_word (ser_word w) = Some w"
  using unsigned_less [of w] by (simp add: de_word_def ser_word_def)

lemma de_ser_string [simp]: "de_string (JStr s) = Some s"
  by (simp add: de_string_def)

lemma de_ser_value [simp]: "de_value j = Some j"
  by (simp add: de_value_def)

lemma de_ser_option_string [simp]: "de_option de_string (ser_option JStr x) = Some x"
  by (cases x) (simp_all add: de_option_def ser_option_def)

lemma those_map_Some [simp]: "those (map (\<lambda>x. Some (f x)) xs) = Some (map f xs)"
  by (induction xs) auto

lemma de_ser_strings [simp]: "de_list de_string (JArr (map JStr xs)) = Some xs"
  by (simp add: de_list_def comp_def)

lemma bt_insert_last:
  "\<forall>e\<in>set m. fst e < k \<Longrightarrow> bt_insert k v m = m @ [(k, v)]"
proof -
  assume "\<forall>e\<in>set m. fst e < k"
  then have "takeWhile (\<lambda>e. fst e < k) m = m" and "dropWhile (\<lambda>e. fst e \<le> k) m = []"
    by (auto intro: less_imp_le)
  then show ?thesis by (simp add: bt_insert_def)
qed

lemma fold_bt_insert_sorted:
  "bt_sorted (acc @ m) \<Longrightarrow> fold (\<lambda>e m. bt_insert (fst e) (snd e) m) m acc = acc @ m"
proof (induction m arbitrary: acc)
  case Nil
  then show ?case by simp
next
  case (Cons e m)
  then have "\<forall>x\<in>set acc. fst x < fst e"
    by (auto simp: bt_sorted_def sorted_wrt_append)
  then have "bt_insert (fst e) (snd e) acc = acc @ [e]"
    by (simp add: bt_insert_last)
  with Cons.IH [of "acc @ [e]"] Cons.prems show ?case by simp
qed

lemma de_ser_env:
  "bt_sorted env \<Longrightarrow> de_map de_string (JObj (map (\<lambda>e. (fst e, JStr (snd e))) env)) = Some env"
  using fold_bt_insert_sorted [of "[]" env] by (simp add: de_map_def comp_def)

lemma de_ser_i32: "- (2 ^ 31) \<le> i \<Longrightarrow> i < 2 ^ 31 \<Longrightarrow> de_i32 (JInt i) = Some i"
  by (simp add: de_i32_def)

section \<open>Payloads from the brain\<close>

record hello_body =
  hb_proto_min :: u32
  hb_proto_max :: u32
  hb_brain_build_id :: string

record spawn_body =
  sb_uid :: uid
  sb_generation_meta :: u64
  sb_argv :: "string list"
  sb_env :: "(string \<times> string) list"
  sb_cwd :: "string option"
  sb_cols :: u16
  sb_rows :: u16
  sb_cgroup_prefix :: "string option"

record arm_reap_body =
  ar_uid :: uid
  ar_incarnation :: u64
  ar_cgroup_path :: "string option"

record signal_body =
  sg_uid :: uid
  sg_incarnation :: u64
  sg_sig :: int
  sg_attribution :: string

record update_checkpoint_body =
  uc_uid :: uid
  uc_incarnation :: u64
  uc_watcher_checkpoint :: json

record listener_meta =
  lm_kind :: string
  lm_meta :: string

text \<open>\<open>AbortSpawnBody\<close>, \<open>ForgetBody\<close> and \<open>AckExitBody\<close> have the same two fields.\<close>

record record_key =
  rk_uid :: uid
  rk_incarnation :: u64

record rollback_record_body =
  rr_uid :: uid
  rr_incarnation :: u64
  rr_record :: json

record split_rollback_body =
  sr_reexec_generation :: u64
  sr_manifest_schema_version :: u32

definition parse_hello :: "json \<Rightarrow> hello_body option" where
  "parse_hello j = do {
     m \<leftarrow> de_fields [''proto_min'', ''proto_max'', ''brain_build_id''] j;
     lo \<leftarrow> de_req m ''proto_min'' de_word;
     hi \<leftarrow> de_req m ''proto_max'' de_word;
     b \<leftarrow> de_req m ''brain_build_id'' de_string;
     Some \<lparr> hb_proto_min = lo, hb_proto_max = hi, hb_brain_build_id = b \<rparr> }"

definition parse_spawn :: "json \<Rightarrow> spawn_body option" where
  "parse_spawn j = do {
     m \<leftarrow> de_fields [''uid'', ''generation_meta'', ''argv'', ''env'', ''cwd'', ''cols'', ''rows'',
       ''cgroup_prefix''] j;
     u \<leftarrow> de_req m ''uid'' de_string;
     g \<leftarrow> de_default m ''generation_meta'' de_word 0;
     av \<leftarrow> de_req m ''argv'' (de_list de_string);
     ev \<leftarrow> de_req m ''env'' (de_map de_string);
     cw \<leftarrow> de_default m ''cwd'' (de_option de_string) None;
     co \<leftarrow> de_req m ''cols'' de_word;
     ro \<leftarrow> de_req m ''rows'' de_word;
     cg \<leftarrow> de_default m ''cgroup_prefix'' (de_option de_string) None;
     Some \<lparr> sb_uid = u, sb_generation_meta = g, sb_argv = av, sb_env = ev, sb_cwd = cw,
       sb_cols = co, sb_rows = ro, sb_cgroup_prefix = cg \<rparr> }"

definition parse_arm_reap :: "json \<Rightarrow> arm_reap_body option" where
  "parse_arm_reap j = do {
     m \<leftarrow> de_fields [''uid'', ''incarnation'', ''cgroup_path''] j;
     u \<leftarrow> de_req m ''uid'' de_string;
     i \<leftarrow> de_req m ''incarnation'' de_word;
     c \<leftarrow> de_default m ''cgroup_path'' (de_option de_string) None;
     Some \<lparr> ar_uid = u, ar_incarnation = i, ar_cgroup_path = c \<rparr> }"

definition parse_signal :: "json \<Rightarrow> signal_body option" where
  "parse_signal j = do {
     m \<leftarrow> de_fields [''uid'', ''incarnation'', ''sig'', ''attribution''] j;
     u \<leftarrow> de_req m ''uid'' de_string;
     i \<leftarrow> de_req m ''incarnation'' de_word;
     s \<leftarrow> de_req m ''sig'' de_i32;
     a \<leftarrow> de_req m ''attribution'' de_string;
     Some \<lparr> sg_uid = u, sg_incarnation = i, sg_sig = s, sg_attribution = a \<rparr> }"

definition parse_update_checkpoint :: "json \<Rightarrow> update_checkpoint_body option" where
  "parse_update_checkpoint j = do {
     m \<leftarrow> de_fields [''uid'', ''incarnation'', ''watcher_checkpoint''] j;
     u \<leftarrow> de_req m ''uid'' de_string;
     i \<leftarrow> de_req m ''incarnation'' de_word;
     w \<leftarrow> de_req m ''watcher_checkpoint'' de_value;
     Some \<lparr> uc_uid = u, uc_incarnation = i, uc_watcher_checkpoint = w \<rparr> }"

definition parse_listener_meta :: "json \<Rightarrow> listener_meta option" where
  "parse_listener_meta j = do {
     m \<leftarrow> de_fields [''kind'', ''meta''] j;
     k \<leftarrow> de_req m ''kind'' de_string;
     p \<leftarrow> de_req m ''meta'' de_string;
     Some \<lparr> lm_kind = k, lm_meta = p \<rparr> }"

definition parse_store_listener :: "json \<Rightarrow> listener_meta option" where
  "parse_store_listener j = do {
     m \<leftarrow> de_fields [''listener''] j;
     de_req m ''listener'' parse_listener_meta }"

definition parse_record_key :: "json \<Rightarrow> record_key option" where
  "parse_record_key j = do {
     m \<leftarrow> de_fields [''uid'', ''incarnation''] j;
     u \<leftarrow> de_req m ''uid'' de_string;
     i \<leftarrow> de_req m ''incarnation'' de_word;
     Some \<lparr> rk_uid = u, rk_incarnation = i \<rparr> }"

definition parse_rollback_record :: "json \<Rightarrow> rollback_record_body option" where
  "parse_rollback_record j = do {
     m \<leftarrow> de_fields [''uid'', ''incarnation'', ''record''] j;
     u \<leftarrow> de_req m ''uid'' de_string;
     i \<leftarrow> de_req m ''incarnation'' de_word;
     r \<leftarrow> de_req m ''record'' de_value;
     Some \<lparr> rr_uid = u, rr_incarnation = i, rr_record = r \<rparr> }"

definition parse_split_rollback :: "json \<Rightarrow> split_rollback_body option" where
  "parse_split_rollback j = do {
     m \<leftarrow> de_fields [''reexec_generation'', ''manifest_schema_version''] j;
     g \<leftarrow> de_req m ''reexec_generation'' de_word;
     v \<leftarrow> de_req m ''manifest_schema_version'' de_word;
     Some \<lparr> sr_reexec_generation = g, sr_manifest_schema_version = v \<rparr> }"

text \<open>The derived serializers of the same structs, as the brain uses them.\<close>

definition ser_hello :: "hello_body \<Rightarrow> json" where
  "ser_hello b = JObj [(''proto_min'', ser_word (hb_proto_min b)),
     (''proto_max'', ser_word (hb_proto_max b)), (''brain_build_id'', JStr (hb_brain_build_id b))]"

definition ser_spawn :: "spawn_body \<Rightarrow> json" where
  "ser_spawn b = JObj [(''uid'', JStr (sb_uid b)),
     (''generation_meta'', ser_word (sb_generation_meta b)),
     (''argv'', JArr (map JStr (sb_argv b))),
     (''env'', JObj (map (\<lambda>e. (fst e, JStr (snd e))) (sb_env b))),
     (''cwd'', ser_option JStr (sb_cwd b)), (''cols'', ser_word (sb_cols b)),
     (''rows'', ser_word (sb_rows b)), (''cgroup_prefix'', ser_option JStr (sb_cgroup_prefix b))]"

definition ser_arm_reap :: "arm_reap_body \<Rightarrow> json" where
  "ser_arm_reap b = JObj [(''uid'', JStr (ar_uid b)),
     (''incarnation'', ser_word (ar_incarnation b)),
     (''cgroup_path'', ser_option JStr (ar_cgroup_path b))]"

definition ser_signal :: "signal_body \<Rightarrow> json" where
  "ser_signal b = JObj [(''uid'', JStr (sg_uid b)),
     (''incarnation'', ser_word (sg_incarnation b)), (''sig'', JInt (sg_sig b)),
     (''attribution'', JStr (sg_attribution b))]"

definition ser_update_checkpoint :: "update_checkpoint_body \<Rightarrow> json" where
  "ser_update_checkpoint b = JObj [(''uid'', JStr (uc_uid b)),
     (''incarnation'', ser_word (uc_incarnation b)),
     (''watcher_checkpoint'', uc_watcher_checkpoint b)]"

definition ser_store_listener :: "listener_meta \<Rightarrow> json" where
  "ser_store_listener l = JObj [(''listener'',
     JObj [(''kind'', JStr (lm_kind l)), (''meta'', JStr (lm_meta l))])]"

definition ser_record_key :: "record_key \<Rightarrow> json" where
  "ser_record_key b = JObj [(''uid'', JStr (rk_uid b)),
     (''incarnation'', ser_word (rk_incarnation b))]"

definition ser_rollback_record :: "rollback_record_body \<Rightarrow> json" where
  "ser_rollback_record b = JObj [(''uid'', JStr (rr_uid b)),
     (''incarnation'', ser_word (rr_incarnation b)), (''record'', rr_record b)]"

definition ser_split_rollback :: "split_rollback_body \<Rightarrow> json" where
  "ser_split_rollback b = JObj [(''reexec_generation'', ser_word (sr_reexec_generation b)),
     (''manifest_schema_version'', ser_word (sr_manifest_schema_version b))]"

lemmas parse_defs = parse_hello_def parse_spawn_def parse_arm_reap_def parse_signal_def
  parse_update_checkpoint_def parse_listener_meta_def parse_store_listener_def
  parse_record_key_def parse_rollback_record_def parse_split_rollback_def

lemmas ser_defs = ser_hello_def ser_spawn_def ser_arm_reap_def ser_signal_def
  ser_update_checkpoint_def ser_store_listener_def ser_record_key_def ser_rollback_record_def
  ser_split_rollback_def

lemmas de_defs = de_fields_def de_req_def de_default_def

section \<open>Payloads to the brain\<close>

record last_signal_request =
  ls_sig :: int
  ls_attribution :: string
  ls_at :: f64

record exit_event =
  ev_uid :: uid
  ev_incarnation :: u64
  ev_code :: "int option"
  ev_signal :: "int option"
  ev_exited_at :: f64
  ev_last_signal_request :: "last_signal_request option"
  ev_memory_events_snapshot :: "string option"

record hello_info =
  hi_build_id :: string
  hi_proto_min :: u32
  hi_proto_max :: u32
  hi_epoch :: u64
  hi_session_count :: nat
  hi_capabilities :: "string list"

record spawn_ok_body =
  so_incarnation :: u64
  so_pid :: pid
  so_child_start_time :: u64

record adopt_record_body =
  ad_uid :: uid
  ad_incarnation :: u64
  ad_generation_meta :: u64
  ad_child_pid :: pid
  ad_child_start_time :: u64
  ad_cgroup_prefix :: "string option"
  ad_cgroup_path :: "string option"
  ad_watcher_checkpoint :: "json option"
  ad_last_signal_request :: "last_signal_request option"
  ad_reap_armed :: bool
  ad_reaped :: bool
  ad_exit_event_pending :: bool

record status_reply_body =
  st_sessions :: nat
  st_pending_exit_events :: nat
  st_epoch :: u64
  st_brain_restarts :: u64
  st_breaker_state :: string
  st_holder_build_id :: string
  st_pings_unanswered :: u64
  st_previous_pin :: bool

datatype err_code =
    ERR_UNSUPPORTED_VERB | ERR_PROTO_MISMATCH | ERR_UID_EXISTS | ERR_OPENPTY_FAILED
  | ERR_EXEC_FAILED | ERR_NOT_FOUND | ERR_NOT_EXITED | ERR_UNACKED | ERR_ALREADY_EXITED
  | ERR_INVALID | ERR_NOT_DRAINED

datatype violation_note =
    ExitEventPending uid
  | ReapedButUnforgotten uid
  | LiveWithoutRollbackRecord uid

datatype deploy_conflict_reason =
    DeployAlreadyArmed
  | HolderUpgradeInFlight

datatype spawn_error =
    EmptyArgv
  | Openpty string
  | Exec string
  | PostSpawn string

datatype msg =
    M_serde
  | M_proto_mismatch u32 u32
  | M_deploy_conflict deploy_conflict_reason
  | M_no_previous_pin
  | M_no_session uid
  | M_no_record uid
  | M_incarnation_mismatch_for uid
  | M_incarnation_mismatch
  | M_session_is_incarnation uid u64 u64
  | M_split_refused nat
  | M_bad_upgrade_pin
  | M_unsupported_verb string
  | M_uid_exists uid
  | M_spawn spawn_error
  | M_no_raw_fd
  | M_fd_dup_failed
  | M_adopt_record_dup uid
  | M_adopt_listener_dup string
  | M_already_exited uid
  | M_esrch
  | M_pidfd_send_signal
  | M_still_alive uid
  | M_unacked uid

datatype detail =
    D_incarnation u64
  | D_exited_at "f64 option"
  | D_violations "violation_note list"
  | D_disarmed bool
  | D_known bool

datatype out_body =
    HelloReplyBody u32 hello_info
  | RehelloBody hello_info
  | SpawnOkBody spawn_ok_body
  | AdoptRecordBody adopt_record_body
  | AdoptListenersBody "listener_meta list"
  | AdoptDoneBody nat
  | ExitEventBody exit_event
  | StatusReplyBody status_reply_body
  | PingBody u64
  | OkBody "detail option"
  | ErrBody err_code msg "detail option"

section \<open>The frame envelope\<close>

record 'b frame =
  fr_v :: string
  fr_req_id :: "u64 option"
  fr_nfds :: u8
  fr_body :: 'b

definition frame_new :: "verb \<Rightarrow> u64 option \<Rightarrow> u8 \<Rightarrow> 'b \<Rightarrow> 'b frame" where
  "frame_new v req_id nfds b =
     \<lparr> fr_v = verb_name v, fr_req_id = req_id, fr_nfds = nfds, fr_body = b \<rparr>"

text \<open>\<open>Frame::to_wire\<close>; \<open>None\<close> is the failed assertion on the length, a panic.\<close>

definition to_wire :: "('f \<Rightarrow> bytes) \<Rightarrow> 'f \<Rightarrow> bytes option" where
  "to_wire enc f =
     (let payload = enc f
      in if (word_of_nat (length payload) :: u32) \<le> MAX_FRAME_BYTES
         then Some (to_le 4 (unat (word_of_nat (length payload) :: u32)) @ payload)
         else None)"

section \<open>Sending\<close>

datatype errno = EAGAIN | EINTR | EPIPE | ECONNRESET | Eother int

datatype send_answer = Sent nat | SendErr errno

text \<open>
  What one \<open>sendmsg\<close> or \<open>send\<close> put on the stream: some bytes, with the fds that ride their
  first byte.
\<close>

type_synonym segment = "bytes \<times> fd list"

datatype send_result = SendOk | SendFailed errno

text \<open>
  The loop of \<open>send_frame_blocking\<close> over the answers of the system calls. The first component
  is what went on the stream; the result is \<open>None\<close> while the answers given so far leave the
  loop running.
\<close>

fun send_frame_loop ::
  "send_answer list \<Rightarrow> bytes \<Rightarrow> fd list \<Rightarrow> nat \<Rightarrow> segment list \<times> send_result option" where
  "send_frame_loop [] bs fds sent = ([], None)"
| "send_frame_loop (Sent n # as) bs fds sent =
     (let seg = (take n (drop sent bs), if sent = 0 then fds else []);
          sent' = sent + n
      in if length bs \<le> sent' then ([seg], Some SendOk)
         else (let (segs, r) = send_frame_loop as bs fds sent' in (seg # segs, r)))"
| "send_frame_loop (SendErr e # as) bs fds sent =
     (if e = EAGAIN \<or> e = EINTR then send_frame_loop as bs fds sent
      else ([], Some (SendFailed e)))"

section \<open>Receiving\<close>

datatype violation =
    V_frame_length u32
  | V_frame_json
  | V_declared_fds string nat nat
  | V_undeclared_fds nat string
  | V_ctrunc
  | V_recvmsg errno
  | V_eof_mid_frame

datatype feed_status = Progress | WouldBlock | Eof

record frame_reader =
  rd_buf :: bytes
  rd_pending_fds :: "fd list"

definition frame_reader_new :: frame_reader where
  "frame_reader_new = \<lparr> rd_buf = [], rd_pending_fds = [] \<rparr>"

definition is_idle :: "frame_reader \<Rightarrow> bool" where
  "is_idle r \<longleftrightarrow> rd_buf r = [] \<and> rd_pending_fds r = []"

text \<open>The answer of one \<open>recvmsg\<close>: an error, or the bytes, the fds and \<open>MSG_CTRUNC\<close>.\<close>

datatype recv_answer = RecvErr errno | Received bytes "fd list" bool

definition feed :: "recv_answer \<Rightarrow> frame_reader \<Rightarrow> violation + frame_reader \<times> feed_status" where
  "feed a r =
     (case a of
        RecvErr e \<Rightarrow>
          (case e of
             EAGAIN \<Rightarrow> Inr (r, WouldBlock)
           | EINTR \<Rightarrow> Inr (r, WouldBlock)
           | ECONNRESET \<Rightarrow> Inr (r, Eof)
           | _ \<Rightarrow> Inl (V_recvmsg e))
      | Received data fds ctrunc \<Rightarrow>
          if ctrunc then Inl V_ctrunc
          else (let r' = r\<lparr> rd_pending_fds := rd_pending_fds r @ fds \<rparr>
                in if data = [] then Inr (r', Eof)
                   else Inr (r'\<lparr> rd_buf := rd_buf r' @ data \<rparr>, Progress)))"

text \<open>\<open>next_frame\<close>: the reader after the call, and a frame when one is complete.\<close>

definition next_frame ::
  "(bytes \<Rightarrow> 'b frame option) \<Rightarrow> frame_reader
     \<Rightarrow> violation + frame_reader \<times> ('b frame \<times> fd list) option" where
  "next_frame dec r =
     (if length (rd_buf r) < 4 then Inr (r, None)
      else
        let len = (word_of_nat (from_le (take 4 (rd_buf r))) :: u32)
        in if MAX_FRAME_BYTES < len then Inl (V_frame_length len)
           else
             let total = 4 + unat len
             in if length (rd_buf r) < total then Inr (r, None)
                else
                  (case dec (take (unat len) (drop 4 (rd_buf r))) of
                     None \<Rightarrow> Inl V_frame_json
                   | Some f \<Rightarrow>
                       let buf = drop total (rd_buf r);
                           want = unat (fr_nfds f);
                           pending = rd_pending_fds r
                       in if length pending < want
                          then Inl (V_declared_fds (fr_v f) want (length pending))
                          else
                            let fds = take want pending;
                                rest = drop want pending
                            in if rest \<noteq> [] \<and> buf = []
                               then Inl (V_undeclared_fds (length rest) (fr_v f))
                               else Inr (\<lparr> rd_buf = buf, rd_pending_fds = rest \<rparr>,
                                         Some (f, fds))))"

text \<open>
  \<open>recv_frame_blocking\<close> over the answers of \<open>recvmsg\<close>; \<open>None\<close> while it still waits. The
  inner \<open>None\<close> of its result is the orderly end of the stream.
\<close>

fun recv_frame_blocking ::
  "(bytes \<Rightarrow> 'b frame option) \<Rightarrow> recv_answer list \<Rightarrow> frame_reader
     \<Rightarrow> (violation + frame_reader \<times> ('b frame \<times> fd list) option) option" where
  "recv_frame_blocking dec as r =
     (case next_frame dec r of
        Inl v \<Rightarrow> Some (Inl v)
      | Inr (r', Some hit) \<Rightarrow> Some (Inr (r', Some hit))
      | Inr (r', None) \<Rightarrow>
          (case as of
             [] \<Rightarrow> None
           | a # as' \<Rightarrow>
               (case feed a r' of
                  Inl v \<Rightarrow> Some (Inl v)
                | Inr (r'', Eof) \<Rightarrow>
                    if rd_buf r'' = [] then Some (Inr (r'', None)) else Some (Inl V_eof_mid_frame)
                | Inr (r'', _) \<Rightarrow> recv_frame_blocking dec as' r'')))"

declare recv_frame_blocking.simps [simp del]


text \<open>
  The receive loop of \<open>Holder::serve_inner\<close>: hand every complete frame to a handler until the
  reader wants more bytes, the handler stops the loop, or the frame breaks the law.
\<close>

datatype 'o loop_end = Drained | Violated violation | Stopped 'o

lemma next_frame_shrinks:
  "next_frame dec r = Inr (r', Some hit) \<Longrightarrow> length (rd_buf r') < length (rd_buf r)"
  by (auto simp: next_frame_def Let_def split: if_splits option.splits)

function each_frame ::
  "(bytes \<Rightarrow> 'b frame option) \<Rightarrow> ('b frame \<Rightarrow> fd list \<Rightarrow> 's \<Rightarrow> 's \<times> 'o option)
     \<Rightarrow> frame_reader \<Rightarrow> 's \<Rightarrow> frame_reader \<times> 's \<times> 'o loop_end" where
  "each_frame dec handle r s =
     (case next_frame dec r of
        Inl v \<Rightarrow> (r, s, Violated v)
      | Inr (r', None) \<Rightarrow> (r', s, Drained)
      | Inr (r', Some (f, fds)) \<Rightarrow>
          (case handle f fds s of
             (s', Some out) \<Rightarrow> (r', s', Stopped out)
           | (s', None) \<Rightarrow> each_frame dec handle r' s'))"
  by pat_completeness auto
termination
  by (relation "measure (\<lambda>(dec, handle, r, s). length (rd_buf r))")
    (auto dest: next_frame_shrinks)

declare each_frame.simps [simp del]

end
