(* ===== verification/ChannelLaws.thy ===== *)
theory ChannelLaws
  imports Channel
begin

text \<open>
  What holds of the channel: payloads survive serialization and tolerate added fields, and the
  fds a lawful sender attaches to a frame reach exactly that frame at the receiver, however the
  kernel cuts the stream into segments and however the receiver's reads cut it again.
\<close>

section \<open>Payloads\<close>

text \<open>Two objects that agree on the named fields deserialize alike.\<close>

definition same_fields :: "string list \<Rightarrow> (string \<times> json) list \<Rightarrow> (string \<times> json) list \<Rightarrow> bool" where
  "same_fields names kvs kvs' \<longleftrightarrow> (\<forall>k\<in>set names. map_of kvs k = map_of kvs' k)"

text \<open>A payload is read back as it was written, for every verb the brain sends.\<close>
theorem payload_roundtrip:
  fixes sig_body :: signal_body
  assumes "bt_sorted (sb_env sp)"
    and "- (2 ^ 31) \<le> sg_sig sig_body" and "sg_sig sig_body < 2 ^ 31"
  shows "parse_hello (ser_hello he) = Some he \<and>
    parse_spawn (ser_spawn sp) = Some sp \<and>
    parse_arm_reap (ser_arm_reap ar) = Some ar \<and>
    parse_signal (ser_signal sig_body) = Some sig_body \<and>
    parse_update_checkpoint (ser_update_checkpoint uc) = Some uc \<and>
    parse_store_listener (ser_store_listener l) = Some l \<and>
    parse_record_key (ser_record_key rk) = Some rk \<and>
    parse_rollback_record (ser_rollback_record rr) = Some rr \<and>
    parse_split_rollback (ser_split_rollback sr) = Some sr"
  using assms by (auto simp: parse_defs ser_defs de_defs de_ser_env de_ser_i32)

definition sample_spawn :: spawn_body where
  "sample_spawn = \<lparr> sb_uid = ''s1'', sb_generation_meta = 0, sb_argv = [''sh'', ''-c'', ''true''],
     sb_env = [(''HOME'', ''/root''), (''PATH'', ''/bin'')], sb_cwd = None, sb_cols = 80,
     sb_rows = 24, sb_cgroup_prefix = Some ''cm'' \<rparr>"

definition sample_signal :: signal_body where
  "sample_signal = \<lparr> sg_uid = ''s1'', sg_incarnation = 1, sg_sig = 15, sg_attribution = ''op'' \<rparr>"

lemma sample_spawn_sorted: "bt_sorted (sb_env sample_spawn)"
  by (simp add: sample_spawn_def bt_sorted_def less_char_def)

theorem payload_roundtrip_witness:
  "parse_spawn (ser_spawn sample_spawn) = Some sample_spawn \<and>
   parse_signal (ser_signal sample_signal) = Some sample_signal"
  using payload_roundtrip [OF sample_spawn_sorted, of sample_signal]
  by (auto simp: sample_signal_def)

text \<open>Additive tolerance: a payload with extra fields, or with its fields in another order,
  is read as the payload without them. No struct of the channel refuses an unknown field.\<close>
theorem unknown_fields_ignored:
  assumes "same_fields [''proto_min'', ''proto_max'', ''brain_build_id'', ''uid'',
      ''generation_meta'', ''argv'', ''env'', ''cwd'', ''cols'', ''rows'', ''cgroup_prefix'',
      ''incarnation'', ''cgroup_path'', ''sig'', ''attribution'', ''watcher_checkpoint'',
      ''listener'', ''record'', ''reexec_generation'', ''manifest_schema_version''] kvs kvs'"
  shows "parse_hello (JObj kvs) = parse_hello (JObj kvs') \<and>
    parse_spawn (JObj kvs) = parse_spawn (JObj kvs') \<and>
    parse_arm_reap (JObj kvs) = parse_arm_reap (JObj kvs') \<and>
    parse_signal (JObj kvs) = parse_signal (JObj kvs') \<and>
    parse_update_checkpoint (JObj kvs) = parse_update_checkpoint (JObj kvs') \<and>
    parse_store_listener (JObj kvs) = parse_store_listener (JObj kvs') \<and>
    parse_record_key (JObj kvs) = parse_record_key (JObj kvs') \<and>
    parse_rollback_record (JObj kvs) = parse_rollback_record (JObj kvs') \<and>
    parse_split_rollback (JObj kvs) = parse_split_rollback (JObj kvs')"
  using assms by (simp add: same_fields_def parse_defs de_defs)

theorem unknown_fields_ignored_witness:
  "parse_record_key (JObj [(''shiny'', JBool True), (''incarnation'', JInt 3), (''uid'', JStr ''s1'')])
   = Some \<lparr> rk_uid = ''s1'', rk_incarnation = 3 \<rparr>"
proof -
  have "parse_record_key (JObj [(''shiny'', JBool True), (''incarnation'', JInt 3), (''uid'', JStr ''s1'')])
      = parse_record_key (JObj [(''uid'', JStr ''s1''), (''incarnation'', JInt 3)])"
    by (rule unknown_fields_ignored [THEN conjunct2, THEN conjunct2, THEN conjunct2, THEN conjunct2,
        THEN conjunct2, THEN conjunct2, THEN conjunct1]) (simp add: same_fields_def)
  then show ?thesis
    by (simp add: parse_record_key_def de_defs de_string_def de_word_def)
qed

section \<open>The stream\<close>

text \<open>
  A \<open>SOCK_STREAM\<close> socket carries bytes in order, and SCM_RIGHTS fds travel with the first byte
  of the segment they were sent with (unix(7)). The stream is a list of bytes, each with the
  fds attached to it.
\<close>

type_synonym stream = "(8 word \<times> fd list) list"

definition plain :: "bytes \<Rightarrow> stream" where
  "plain bs = map (\<lambda>b. (b, [])) bs"

fun mark :: "bytes \<Rightarrow> fd list \<Rightarrow> stream" where
  "mark [] fds = []"
| "mark (b # bs) fds = (b, fds) # plain bs"

definition stream_of :: "segment list \<Rightarrow> stream" where
  "stream_of segs = concat (map (\<lambda>s. mark (fst s) (snd s)) segs)"

definition stream_bytes :: "stream \<Rightarrow> bytes" where
  "stream_bytes s = map fst s"

definition stream_fds :: "stream \<Rightarrow> fd list" where
  "stream_fds s = concat (map snd s)"

lemma stream_bytes_simps [simp]:
  "stream_bytes [] = []" "stream_bytes (x # s) = fst x # stream_bytes s"
  "stream_bytes (s @ t) = stream_bytes s @ stream_bytes t"
  "stream_bytes (plain bs) = bs"
  by (simp_all add: stream_bytes_def plain_def comp_def)

lemma stream_fds_simps [simp]:
  "stream_fds [] = []" "stream_fds (x # s) = snd x @ stream_fds s"
  "stream_fds (s @ t) = stream_fds s @ stream_fds t"
  "stream_fds (plain bs) = []"
  by (simp_all add: stream_fds_def plain_def comp_def)

lemma length_stream_bytes [simp]: "length (stream_bytes s) = length s"
  by (simp add: stream_bytes_def)

lemma stream_bytes_mark [simp]: "stream_bytes (mark bs fds) = bs"
  by (cases bs) simp_all

lemma stream_fds_mark [simp]: "bs \<noteq> [] \<Longrightarrow> stream_fds (mark bs fds) = fds"
  by (cases bs) simp_all

lemma length_mark [simp]: "length (mark bs fds) = length bs"
  by (cases bs) (simp_all add: plain_def)

lemma plain_append: "plain (a @ b) = plain a @ plain b"
  by (simp add: plain_def)

lemma mark_append: "a \<noteq> [] \<Longrightarrow> mark (a @ b) fds = mark a fds @ plain b"
  by (cases a) (simp_all add: plain_append)

subsection \<open>The sender\<close>

text \<open>A system call that accepts bytes accepts at least one.\<close>

definition makes_progress :: "send_answer list \<Rightarrow> bool" where
  "makes_progress as \<longleftrightarrow> (\<forall>n. Sent n \<in> set as \<longrightarrow> 0 < n)"

text \<open>What is still to be sent of a frame of which \<open>sent\<close> bytes went out.\<close>

definition unsent :: "bytes \<Rightarrow> fd list \<Rightarrow> nat \<Rightarrow> stream" where
  "unsent bs fds sent = (if sent = 0 then mark bs fds else plain (drop sent bs))"

lemma unsent_step:
  assumes "0 < n"
  shows "mark (take n (drop sent bs)) (if sent = 0 then fds else []) @ unsent bs fds (sent + n)
    = unsent bs fds sent"
proof -
  have plain_mark: "mark xs [] = plain xs" for xs
    by (cases xs) (simp_all add: plain_def)
  have d: "drop (sent + n) bs = drop n (drop sent bs)" by (simp add: add.commute)
  show ?thesis
  proof (cases "sent = 0")
    case True
    show ?thesis
    proof (cases "bs = []")
      case True
      with \<open>sent = 0\<close> show ?thesis using assms by (simp add: unsent_def plain_def)
    next
      case False
      then have "mark bs fds = mark (take n bs) fds @ plain (drop n bs)"
        using assms mark_append [of "take n bs" "drop n bs" fds] by simp
      with True assms show ?thesis by (simp add: unsent_def)
    qed
  next
    case False
    then show ?thesis
      by (simp add: unsent_def plain_mark d plain_append [symmetric] del: drop_drop)
  qed
qed

lemma unsent_done: "length bs \<le> sent \<Longrightarrow> bs \<noteq> [] \<Longrightarrow> unsent bs fds sent = []"
  by (auto simp: unsent_def plain_def)

lemma send_frame_loop_stream:
  assumes "makes_progress as" and "bs \<noteq> []"
  shows "\<exists>rest. stream_of (fst (send_frame_loop as bs fds sent)) @ rest = unsent bs fds sent \<and>
    (snd (send_frame_loop as bs fds sent) = Some SendOk \<longrightarrow> rest = [])"
  using assms
proof (induction as bs fds sent rule: send_frame_loop.induct)
  case (1 bs fds sent)
  then show ?case by (simp add: stream_of_def)
next
  case (2 n as bs fds sent)
  then have n: "0 < n" and prog: "makes_progress as" by (auto simp: makes_progress_def)
  note st = unsent_step [OF n, of sent bs fds]
  show ?case
  proof (cases "length bs \<le> sent + n")
    case True
    with st unsent_done [OF True] 2(3) show ?thesis by (simp add: stream_of_def)
  next
    case False
    obtain rest where r: "stream_of (fst (send_frame_loop as bs fds (sent + n))) @ rest
        = unsent bs fds (sent + n)"
      and ok: "snd (send_frame_loop as bs fds (sent + n)) = Some SendOk \<longrightarrow> rest = []"
      using "2.IH" [OF refl refl False prog 2(3)] by blast
    obtain segs res where sr: "send_frame_loop as bs fds (sent + n) = (segs, res)"
      by (cases "send_frame_loop as bs fds (sent + n)")
    show ?thesis
    proof (intro exI conjI)
      have "stream_of (fst (send_frame_loop (Sent n # as) bs fds sent)) @ rest
        = mark (take n (drop sent bs)) (if sent = 0 then fds else []) @ stream_of segs @ rest"
        using False sr by (simp add: stream_of_def Let_def)
      also have "stream_of segs @ rest = unsent bs fds (sent + n)" using r sr by simp
      finally show "stream_of (fst (send_frame_loop (Sent n # as) bs fds sent)) @ rest
        = unsent bs fds sent" using st by simp
      show "snd (send_frame_loop (Sent n # as) bs fds sent) = Some SendOk \<longrightarrow> rest = []"
        using ok sr False by (simp add: Let_def)
    qed
  qed
next
  case (3 e as bs fds sent)
  then have prog: "makes_progress as" by (auto simp: makes_progress_def)
  show ?case
  proof (cases "e = EAGAIN \<or> e = EINTR")
    case True
    with "3.IH" [OF True prog 3(3)] show ?thesis by simp
  next
    case False
    then show ?thesis by (simp add: stream_of_def)
  qed
qed


subsection \<open>The receiver\<close>

definition recv_of :: "stream \<Rightarrow> recv_answer" where
  "recv_of c = Received (stream_bytes c) (stream_fds c) (MAX_FDS_PER_RECV < length (stream_fds c))"

definition collect :: "'b frame \<Rightarrow> fd list \<Rightarrow> ('b frame \<times> fd list) list
    \<Rightarrow> ('b frame \<times> fd list) list \<times> unit option" where
  "collect f fds acc = (acc @ [(f, fds)], None)"

text \<open>Read chunk after chunk, taking all complete frames after each, as the serve loop does.\<close>

fun receive :: "(bytes \<Rightarrow> 'b frame option) \<Rightarrow> stream list \<Rightarrow> frame_reader
    \<Rightarrow> ('b frame \<times> fd list) list \<Rightarrow> violation + frame_reader \<times> ('b frame \<times> fd list) list" where
  "receive dec [] r acc = Inr (r, acc)"
| "receive dec (c # cs) r acc =
     (case feed (recv_of c) r of
        Inl v \<Rightarrow> Inl v
      | Inr (r1, _) \<Rightarrow>
          (case each_frame dec collect r1 acc of
             (r2, acc', Violated v) \<Rightarrow> Inl v
           | (r2, acc', _) \<Rightarrow> receive dec cs r2 acc'))"

text \<open>
  A sendable frame: within the cap, declaring the fds it carries, and decoded from its own
  encoding.
\<close>

definition sendable ::
  "('b frame \<Rightarrow> bytes) \<Rightarrow> (bytes \<Rightarrow> 'b frame option) \<Rightarrow> 'b frame \<times> fd list \<Rightarrow> bool" where
  "sendable enc dec x \<longleftrightarrow>
     length (enc (fst x)) \<le> 1024 * 1024 \<and> unat (fr_nfds (fst x)) = length (snd x) \<and>
     dec (enc (fst x)) = Some (fst x)"

definition frame_stream :: "('b frame \<Rightarrow> bytes) \<Rightarrow> 'b frame \<times> fd list \<Rightarrow> stream" where
  "frame_stream enc x = mark (the (to_wire enc (fst x))) (snd x)"

definition frames_stream :: "('b frame \<Rightarrow> bytes) \<Rightarrow> ('b frame \<times> fd list) list \<Rightarrow> stream" where
  "frames_stream enc fs = concat (map (frame_stream enc) fs)"

definition reader_of :: "stream \<Rightarrow> frame_reader" where
  "reader_of p = \<lparr> rd_buf = stream_bytes p, rd_pending_fds = stream_fds p \<rparr>"

lemma to_wire_sendable:
  assumes "length (enc f) \<le> 1024 * 1024"
  shows "to_wire enc f = Some (to_le 4 (length (enc f)) @ enc f)"
proof -
  have u: "unat (word_of_nat (length (enc f)) :: u32) = length (enc f)"
    using assms by (simp add: unat_of_nat)
  then have "(word_of_nat (length (enc f)) :: u32) \<le> MAX_FRAME_BYTES"
    using assms by (simp add: word_le_nat_alt MAX_FRAME_BYTES_def)
  with u show ?thesis by (simp add: to_wire_def Let_def)
qed

lemma len_prefix:
  assumes "n \<le> 1024 * 1024"
  shows "unat (word_of_nat (from_le (to_le 4 n)) :: u32) = n"
    and "\<not> MAX_FRAME_BYTES < (word_of_nat (from_le (to_le 4 n)) :: u32)"
proof -
  have f: "from_le (to_le 4 n) = n"
    using assms by (intro from_to_le) simp
  show u: "unat (word_of_nat (from_le (to_le 4 n)) :: u32) = n"
    using assms unfolding f by (simp add: unat_of_nat)
  show "\<not> MAX_FRAME_BYTES < (word_of_nat (from_le (to_le 4 n)) :: u32)"
    using assms u by (simp add: word_less_nat_alt MAX_FRAME_BYTES_def)
qed

lemma length_frame_stream:
  "sendable enc dec x \<Longrightarrow> length (frame_stream enc x) = 4 + length (enc (fst x))"
  by (simp add: sendable_def frame_stream_def to_wire_sendable)

lemma next_frame_partial:
  assumes x: "sendable enc dec x" and pq: "p @ q = frame_stream enc x @ rest"
    and short: "length p < length (frame_stream enc x)"
  shows "next_frame dec (reader_of p) = Inr (reader_of p, None)"
proof (cases "length p < 4")
  case True
  then show ?thesis by (simp add: next_frame_def reader_of_def)
next
  case False
  let ?n = "length (enc (fst x))"
  have n: "?n \<le> 1024 * 1024" using x by (simp add: sendable_def)
  have "stream_bytes p @ stream_bytes q = to_le 4 ?n @ enc (fst x) @ stream_bytes rest"
    using arg_cong [OF pq, of stream_bytes] n by (simp add: frame_stream_def to_wire_sendable)
  then have "take 4 (stream_bytes p @ stream_bytes q) = to_le 4 ?n" by simp
  then have t: "take 4 (stream_bytes p) = to_le 4 ?n" using False by simp
  show ?thesis
    using False short length_frame_stream [OF x] len_prefix [OF n]
    by (simp add: next_frame_def reader_of_def t Let_def)
qed

lemma next_frame_full:
  assumes x: "sendable enc dec x"
  shows "next_frame dec (reader_of (frame_stream enc x @ p)) = Inr (reader_of p, Some x)"
proof -
  let ?n = "length (enc (fst x))"
  have n: "?n \<le> 1024 * 1024" and d: "dec (enc (fst x)) = Some (fst x)"
    and w: "unat (fr_nfds (fst x)) = length (snd x)"
    using x by (simp_all add: sendable_def)
  have b: "stream_bytes (frame_stream enc x @ p) = to_le 4 ?n @ enc (fst x) @ stream_bytes p"
    using n by (simp add: frame_stream_def to_wire_sendable)
  have "to_le 4 ?n @ enc (fst x) \<noteq> []"
    using length_to_le [of 4 ?n] by (metis Nil_is_append_conv list.size(3) zero_neq_numeral)
  then have f: "stream_fds (frame_stream enc x @ p) = snd x @ stream_fds p"
    using n by (simp add: frame_stream_def to_wire_sendable)
  have r: "reader_of (frame_stream enc x @ p)
      = \<lparr> rd_buf = to_le 4 ?n @ enc (fst x) @ stream_bytes p, rd_pending_fds = snd x @ stream_fds p \<rparr>"
    by (simp only: reader_of_def b f)
  have nil: "stream_bytes p = [] \<Longrightarrow> stream_fds p = []" by (cases p) simp_all
  show ?thesis
    unfolding r next_frame_def using nil w d len_prefix [OF n]
    by (auto simp: Let_def reader_of_def)
qed

lemma each_frame_collects:
  assumes "\<forall>x\<in>set fs. sendable enc dec x" and "p @ q = frames_stream enc fs"
  shows "\<exists>k p'. each_frame dec collect (reader_of p) acc = (reader_of p', acc @ take k fs, Drained) \<and>
    p' @ q = frames_stream enc (drop k fs) \<and>
    (drop k fs = [] \<or> length p' < length (frame_stream enc (hd (drop k fs))))"
  using assms
proof (induction fs arbitrary: p acc)
  case Nil
  then have "p = []" by (simp add: frames_stream_def)
  then have "each_frame dec collect (reader_of p) acc = (reader_of p, acc, Drained)"
    by (subst each_frame.simps) (simp add: next_frame_def reader_of_def)
  with Nil show ?case by (intro exI [of _ 0] exI [of _ p]) simp
next
  case (Cons x fs)
  then have x: "sendable enc dec x" and fs: "\<forall>x\<in>set fs. sendable enc dec x"
    and pq: "p @ q = frame_stream enc x @ frames_stream enc fs"
    by (auto simp: frames_stream_def)
  show ?case
  proof (cases "length p < length (frame_stream enc x)")
    case True
    then have "each_frame dec collect (reader_of p) acc = (reader_of p, acc, Drained)"
      using next_frame_partial [OF x pq True] by (subst each_frame.simps) simp
    with True Cons.prems(2) show ?thesis by (intro exI [of _ 0] exI [of _ p]) simp
  next
    case False
    define p2 where "p2 = drop (length (frame_stream enc x)) p"
    have "take (length (frame_stream enc x)) (p @ q) = frame_stream enc x" using pq by simp
    then have p2: "p = frame_stream enc x @ p2"
      using False by (simp add: p2_def) (metis append_take_drop_id)
    then have q: "p2 @ q = frames_stream enc fs" using pq by simp
    obtain k p' where IH: "each_frame dec collect (reader_of p2) (acc @ [x])
        = (reader_of p', (acc @ [x]) @ take k fs, Drained)"
      "p' @ q = frames_stream enc (drop k fs)"
      "drop k fs = [] \<or> length p' < length (frame_stream enc (hd (drop k fs)))"
      using Cons.IH [OF fs q] by blast
    have "each_frame dec collect (reader_of p) acc
        = each_frame dec collect (reader_of p2) (acc @ [x])"
      unfolding p2 by (subst each_frame.simps)
        (simp add: next_frame_full [OF x] collect_def split: prod.split)
    with IH show ?thesis by (intro exI [of _ "Suc k"] exI [of _ p']) simp
  qed
qed

lemma feed_chunk:
  assumes "c \<noteq> []" and "length (stream_fds c) \<le> MAX_FDS_PER_RECV"
  shows "feed (recv_of c) (reader_of p) = Inr (reader_of (p @ c), Progress)"
  using assms by (cases c) (auto simp: feed_def recv_of_def reader_of_def Let_def)

lemma receive_from:
  assumes "\<forall>x\<in>set fs. sendable enc dec x" and "p @ concat cs = frames_stream enc fs"
    and "\<forall>c\<in>set cs. c \<noteq> [] \<and> length (stream_fds c) \<le> MAX_FDS_PER_RECV"
    and "fs = [] \<or> length p < length (frame_stream enc (hd fs))"
  shows "receive dec cs (reader_of p) acc = Inr (frame_reader_new, acc @ fs)"
  using assms
proof (induction cs arbitrary: p fs acc)
  case Nil
  then have "fs = [] \<and> p = []"
    by (cases fs) (auto simp: frames_stream_def)
  then show ?case by (simp add: reader_of_def frame_reader_new_def)
next
  case (Cons c cs)
  have c: "c \<noteq> []" "length (stream_fds c) \<le> MAX_FDS_PER_RECV" using Cons.prems(3) by auto
  have "(p @ c) @ concat cs = frames_stream enc fs" using Cons.prems(2) by simp
  from each_frame_collects [OF Cons.prems(1) this, of acc] obtain k p'
    where k: "each_frame dec collect (reader_of (p @ c)) acc = (reader_of p', acc @ take k fs, Drained)"
      "p' @ concat cs = frames_stream enc (drop k fs)"
      "drop k fs = [] \<or> length p' < length (frame_stream enc (hd (drop k fs)))"
    by blast
  have "receive dec cs (reader_of p') (acc @ take k fs)
      = Inr (frame_reader_new, (acc @ take k fs) @ drop k fs)"
    using Cons.prems(1,3) k(2,3) by (intro Cons.IH) (auto dest: in_set_dropD)
  with k(1) show ?case by (simp add: feed_chunk [OF c])
qed

text \<open>C9. The fd-association law. Frames go out in order, each with its fds on its first byte; the
  kernel may cut the stream anywhere and the receiver may read any chunks. As long as no read
  carries more fds than the control buffer holds, the receiver gets exactly the frames sent, in
  order, each with exactly its own fds, reports no violation, and ends idle.\<close>
theorem fds_reach_their_frame:
  assumes "\<forall>x\<in>set fs. sendable enc dec x" and "concat chunks = frames_stream enc fs"
    and "\<forall>c\<in>set chunks. c \<noteq> [] \<and> length (stream_fds c) \<le> MAX_FDS_PER_RECV"
  shows "receive dec chunks frame_reader_new [] = Inr (frame_reader_new, fs)"
proof -
  have r: "reader_of [] = frame_reader_new" by (simp add: reader_of_def frame_reader_new_def)
  have "receive dec chunks (reader_of []) [] = Inr (frame_reader_new, [] @ fs)"
  proof (rule receive_from [OF assms(1) _ assms(3)])
    show "[] @ concat chunks = frames_stream enc fs" using assms(2) by simp
    show "fs = [] \<or> length [] < length (frame_stream enc (hd fs))"
      using assms(1) length_frame_stream by (cases fs) force+
  qed
  then show ?thesis by (simp add: r)
qed

text \<open>A codec for the witness: a frame with an empty verb is the one byte of its \<open>nfds\<close>.\<close>

definition toy_enc :: "unit frame \<Rightarrow> bytes" where
  "toy_enc f = [fr_nfds f]"

definition toy_dec :: "bytes \<Rightarrow> unit frame option" where
  "toy_dec bs = (case bs of
       [b] \<Rightarrow> Some \<lparr> fr_v = [], fr_req_id = None, fr_nfds = b, fr_body = () \<rparr>
     | _ \<Rightarrow> None)"

lemma frame_stream_toy:
  "frame_stream toy_enc (f, fds) = [(1, fds), (0, []), (0, []), (0, []), (fr_nfds f, [])]"
proof -
  have "to_le 4 1 = [1, 0, 0, 0]" by code_simp
  then have "to_wire toy_enc f = Some [1, 0, 0, 0, fr_nfds f]"
    by (simp add: to_wire_sendable toy_enc_def)
  then show ?thesis by (simp add: frame_stream_def plain_def)
qed

definition toy_frame :: "unit frame" where
  "toy_frame = \<lparr> fr_v = [], fr_req_id = None, fr_nfds = 1, fr_body = () \<rparr>"

theorem fds_reach_their_frame_witness:
  "receive toy_dec
     [[(1, [7]), (0, [])], [(0, []), (0, []), (1, []), (1, [9]), (0, []), (0, [])], [(0, []), (1, [])]]
     frame_reader_new []
   = Inr (frame_reader_new, [(toy_frame, [7]), (toy_frame, [9])])"
  by (rule fds_reach_their_frame [where enc = toy_enc])
    (simp_all add: sendable_def toy_enc_def toy_dec_def frames_stream_def frame_stream_toy
      toy_frame_def MAX_FDS_PER_RECV_def)

end
