(* ===== verification/Kernel.thy ===== *)
theory Kernel
  imports Channel
begin

text \<open>
  The holder's view of the operating system: \<open>holder/src/reap.rs\<close> and \<open>holder/src/spawn.rs\<close>.

  The kernel itself is a parameter, the record \<open>kernel\<close> of the answers its calls give during
  one step. What the code computes from those answers is modelled: the retry loop of
  \<open>waitid\<close>, the parse of \<open>/proc/<pid>/stat\<close>, the spawn sequence with its tear-down, and the
  bounded read of \<open>memory.events\<close>. What a step does to the world is a list of \<open>io\<close> actions in
  the order the code performs them.
\<close>

section \<open>Consuming an exit status\<close>

record exit_status =
  xs_code :: "int option"
  xs_signal :: "int option"

datatype si_code = CLD_EXITED | CLD_KILLED | CLD_DUMPED | CLD_other

datatype wait_errno = W_EINTR | W_EINVAL | W_other

text \<open>An answer of \<open>waitid\<close>: success with \<open>si_code\<close> and \<open>si_status\<close>, or an error.\<close>

datatype waitid_answer = WaitidOk si_code int | WaitidErr wait_errno

text \<open>An answer of \<open>waitpid\<close>, with the decoded status word.\<close>

datatype wait_status = WExited int | WSignaled int | WStatus_other

datatype waitpid_answer = WaitpidOk wait_status | WaitpidErr wait_errno

definition no_status :: exit_status where
  "no_status = \<lparr> xs_code = None, xs_signal = None \<rparr>"

definition status_of_siginfo :: "si_code \<Rightarrow> int \<Rightarrow> exit_status" where
  "status_of_siginfo c st =
     (case c of
        CLD_EXITED \<Rightarrow> \<lparr> xs_code = Some st, xs_signal = None \<rparr>
      | CLD_KILLED \<Rightarrow> \<lparr> xs_code = None, xs_signal = Some st \<rparr>
      | CLD_DUMPED \<Rightarrow> \<lparr> xs_code = None, xs_signal = Some st \<rparr>
      | CLD_other \<Rightarrow> no_status)"

text \<open>The loops over the kernel's answers; \<open>None\<close> is "still blocked in the call".\<close>

fun wait_for_child :: "waitpid_answer list \<Rightarrow> exit_status option" where
  "wait_for_child [] = None"
| "wait_for_child (WaitpidOk (WExited c) # _) = Some \<lparr> xs_code = Some c, xs_signal = None \<rparr>"
| "wait_for_child (WaitpidOk (WSignaled s) # _) = Some \<lparr> xs_code = None, xs_signal = Some s \<rparr>"
| "wait_for_child (WaitpidOk WStatus_other # _) = Some no_status"
| "wait_for_child (WaitpidErr e # as) = (if e = W_EINTR then wait_for_child as else Some no_status)"

fun consume_exit_status ::
  "waitid_answer list \<Rightarrow> waitpid_answer list \<Rightarrow> exit_status option" where
  "consume_exit_status [] ps = None"
| "consume_exit_status (WaitidOk c st # _) ps = Some (status_of_siginfo c st)"
| "consume_exit_status (WaitidErr W_EINTR # as) ps = consume_exit_status as ps"
| "consume_exit_status (WaitidErr W_EINVAL # _) ps = wait_for_child ps"
| "consume_exit_status (WaitidErr W_other # _) ps = Some no_status"

section \<open>The start time in /proc\<close>

text \<open>
  \<open>str::split_whitespace\<close> and \<open>str::parse::<u64>\<close> on the ASCII text of a stat line.
\<close>

definition is_ws :: "char \<Rightarrow> bool" where
  "is_ws c \<longleftrightarrow> c \<in> set [CHR '' '', CHR 0x09, CHR 0x0A, CHR 0x0B, CHR 0x0C, CHR 0x0D]"

function split_ws :: "string \<Rightarrow> string list" where
  "split_ws s =
     (let s' = dropWhile is_ws s
      in if s' = [] then []
         else takeWhile (\<lambda>c. \<not> is_ws c) s' # split_ws (dropWhile (\<lambda>c. \<not> is_ws c) s'))"
  by pat_completeness auto
termination
proof (relation "measure length")
  fix s s' :: string
  assume s': "s' = dropWhile is_ws s" and ne: "s' \<noteq> []"
  then have "\<not> is_ws (hd s')" by (metis hd_dropWhile)
  with ne have "length (dropWhile (\<lambda>c. \<not> is_ws c) s') < length s'"
    by (cases s') (auto simp: le_imp_less_Suc length_dropWhile_le)
  also have "length s' \<le> length s" by (simp add: s' length_dropWhile_le)
  finally show "(dropWhile (\<lambda>c. \<not> is_ws c) s', s) \<in> measure length" by simp
qed simp

declare split_ws.simps [simp del]

definition digit_val :: "char \<Rightarrow> nat option" where
  "digit_val c = (let n = of_char c in if 48 \<le> n \<and> n \<le> (57 :: nat) then Some (n - 48) else None)"

fun digits_val :: "nat \<Rightarrow> string \<Rightarrow> nat option" where
  "digits_val acc [] = Some acc"
| "digits_val acc (c # cs) =
     (case digit_val c of None \<Rightarrow> None | Some d \<Rightarrow> digits_val (10 * acc + d) cs)"

definition parse_u64 :: "string \<Rightarrow> u64 option" where
  "parse_u64 s =
     (let ds = (case s of c # cs \<Rightarrow> if c = CHR ''+'' then cs else s | [] \<Rightarrow> [])
      in if ds = [] then None
         else (case digits_val 0 ds of
                 None \<Rightarrow> None
               | Some n \<Rightarrow> if n < 2 ^ 64 then Some (word_of_nat n) else None))"

text \<open>\<open>&stat[stat.rfind(c)? + 1..]\<close>\<close>

fun after_last :: "char \<Rightarrow> string \<Rightarrow> string option" where
  "after_last c [] = None"
| "after_last c (x # xs) =
     (case after_last c xs of
        Some r \<Rightarrow> Some r
      | None \<Rightarrow> if x = c then Some xs else None)"

definition parse_proc_stat_starttime :: "string \<Rightarrow> u64 option" where
  "parse_proc_stat_starttime stat =
     (case after_last (CHR '')'') stat of
        None \<Rightarrow> None
      | Some rest \<Rightarrow>
          (let fields = split_ws rest
           in if 19 < length fields then parse_u64 (fields ! 19) else None))"

section \<open>The kernel's answers and the actions of a step\<close>

datatype signal_answer = Delivered | Gone | SignalErr

record kernel =
  k_consume_exit :: "fd \<Rightarrow> pid \<Rightarrow> exit_status"
  k_now :: "fd \<Rightarrow> f64"
  k_read_file :: "string \<Rightarrow> bytes option"
  k_from_utf8 :: "bytes \<Rightarrow> string option"
  k_send_signal :: "fd \<Rightarrow> int \<Rightarrow> signal_answer"
  k_exit_ready :: "fd \<Rightarrow> bool"
  k_dup :: "fd \<Rightarrow> fd option"
  k_exec_shaped :: "fd \<Rightarrow> bool"
  k_openpty :: "u16 \<Rightarrow> u16 \<Rightarrow> string + fd option"
  k_spawn_command :: "string list \<Rightarrow> (string \<times> string) list \<Rightarrow> string option \<Rightarrow> string + pid option"
  k_open_pidfd :: "pid \<Rightarrow> string + fd"
  k_read_starttime :: "pid \<Rightarrow> string + u64"
  k_instant :: millis

datatype io =
    Push "out_body frame" "fd list"
  | SendSignal fd int
  | WaitExit fd pid
  | ChildKill "pid option"
  | ChildWait "pid option"
  | OomScoreAdjZero pid

definition SIGKILL :: int where
  "SIGKILL = 9"

definition SIGTERM :: int where
  "SIGTERM = 15"

text \<open>The frames an action list pushes, in order, with the fds each carries.\<close>

definition pushed :: "io list \<Rightarrow> (out_body frame \<times> fd list) list" where
  "pushed ios = concat (map (\<lambda>a. case a of Push f fds \<Rightarrow> [(f, fds)] | _ \<Rightarrow> []) ios)"

definition waited :: "io list \<Rightarrow> fd list" where
  "waited ios = concat (map (\<lambda>a. case a of WaitExit d _ \<Rightarrow> [d] | _ \<Rightarrow> []) ios)"

lemma pushed_simps [simp]:
  "pushed [] = []" "pushed (Push f fds # ios) = (f, fds) # pushed ios"
  "pushed (SendSignal d s # ios) = pushed ios" "pushed (WaitExit d p # ios) = pushed ios"
  "pushed (ChildKill q # ios) = pushed ios" "pushed (ChildWait q # ios) = pushed ios"
  "pushed (OomScoreAdjZero p # ios) = pushed ios" "pushed (ios @ ios') = pushed ios @ pushed ios'"
  by (simp_all add: pushed_def)

lemma waited_simps [simp]:
  "waited [] = []" "waited (WaitExit d p # ios) = d # waited ios"
  "waited (Push f fds # ios) = waited ios" "waited (SendSignal d s # ios) = waited ios"
  "waited (ChildKill q # ios) = waited ios" "waited (ChildWait q # ios) = waited ios"
  "waited (OomScoreAdjZero p # ios) = waited ios" "waited (ios @ ios') = waited ios @ waited ios'"
  by (simp_all add: waited_def)

section \<open>Spawning a session child\<close>

record spawned =
  sp_master :: "fd option"
  sp_pidfd :: fd
  sp_pid :: pid
  sp_child_start_time :: u64

definition do_spawn :: "kernel \<Rightarrow> spawn_body \<Rightarrow> (spawn_error + spawned) \<times> io list" where
  "do_spawn k spec =
     (if sb_argv spec = [] then (Inl EmptyArgv, [])
      else
        case k_openpty k (sb_rows spec) (sb_cols spec) of
          Inl e \<Rightarrow> (Inl (Openpty e), [])
        | Inr master \<Rightarrow>
            (case k_spawn_command k (sb_argv spec) (sb_env spec) (sb_cwd spec) of
               Inl e \<Rightarrow> (Inl (Exec e), [])
             | Inr None \<Rightarrow>
                 (Inl (PostSpawn ''portable-pty yielded no child pid''),
                  [ChildKill None, ChildWait None])
             | Inr (Some p) \<Rightarrow>
                 (case k_open_pidfd k p of
                    Inl e \<Rightarrow> (Inl (PostSpawn (''pidfd_open: '' @ e)),
                              [ChildKill (Some p), ChildWait (Some p)])
                  | Inr pidfd \<Rightarrow>
                      (case k_read_starttime k p of
                         Inl e \<Rightarrow> (Inl (PostSpawn (''starttime read: '' @ e)),
                                   [SendSignal pidfd SIGKILL, ChildWait (Some p)])
                       | Inr t \<Rightarrow>
                           (Inr \<lparr> sp_master = master, sp_pidfd = pidfd, sp_pid = p,
                              sp_child_start_time = t \<rparr>, [])))))"

definition path_join :: "string \<Rightarrow> string \<Rightarrow> string" where
  "path_join a b =
     (if a = [] then b else if last a = CHR ''/'' then a @ b else a @ CHR ''/'' # b)"

definition read_memory_events_snapshot :: "kernel \<Rightarrow> string \<Rightarrow> string option" where
  "read_memory_events_snapshot k cgroup_path =
     (case k_read_file k (path_join cgroup_path ''memory.events'') of
        None \<Rightarrow> None
      | Some data \<Rightarrow> k_from_utf8 k (if 4096 < length data then take 4096 data else data))"

section \<open>Laws\<close>

subsection \<open>The wait loops return\<close>

lemma wait_for_child_returns:
  "\<exists>a\<in>set ps. a \<noteq> WaitpidErr W_EINTR \<Longrightarrow> \<exists>st. wait_for_child ps = Some st"
proof (induction ps)
  case Nil
  then show ?case by simp
next
  case (Cons a ps)
  then show ?case
    by (cases a) (auto split: wait_status.splits, metis wait_for_child.simps(2-4) wait_status.exhaust)
qed

text \<open>Consuming an exit status returns as soon as the kernel gives one answer that is not an
  interruption, whatever came before, and a wait that reports an exit or a death by signal is
  passed on as exactly that.\<close>
theorem consume_exit_status_returns:
  assumes "\<exists>a\<in>set as. a \<noteq> WaitidErr W_EINTR" and "\<exists>a\<in>set ps. a \<noteq> WaitpidErr W_EINTR"
  shows "(\<exists>st. consume_exit_status as ps = Some st) \<and>
    consume_exit_status (replicate n (WaitidErr W_EINTR) @ WaitidOk CLD_EXITED c # rest) ps
      = Some \<lparr> xs_code = Some c, xs_signal = None \<rparr> \<and>
    consume_exit_status (replicate n (WaitidErr W_EINTR) @ WaitidOk CLD_KILLED s # rest) ps
      = Some \<lparr> xs_code = None, xs_signal = Some s \<rparr>"
proof (intro conjI)
  show "\<exists>st. consume_exit_status as ps = Some st"
    using assms(1)
  proof (induction as)
    case Nil
    then show ?case by simp
  next
    case (Cons a as)
    show ?case
    proof (cases a)
      case (WaitidOk c st)
      then show ?thesis by simp
    next
      case (WaitidErr e)
      with Cons wait_for_child_returns [OF assms(2)] show ?thesis by (cases e) auto
    qed
  qed
  show "consume_exit_status (replicate n (WaitidErr W_EINTR) @ WaitidOk CLD_EXITED c # rest) ps
      = Some \<lparr> xs_code = Some c, xs_signal = None \<rparr>"
    by (induction n) (simp_all add: status_of_siginfo_def)
  show "consume_exit_status (replicate n (WaitidErr W_EINTR) @ WaitidOk CLD_KILLED s # rest) ps
      = Some \<lparr> xs_code = None, xs_signal = Some s \<rparr>"
    by (induction n) (simp_all add: status_of_siginfo_def)
qed

theorem consume_exit_status_returns_witness:
  "\<exists>st. consume_exit_status [WaitidErr W_EINTR, WaitidErr W_EINVAL] [WaitpidOk (WExited 3)] = Some st"
  by (rule consume_exit_status_returns [THEN conjunct1]) simp_all

subsection \<open>The stat line\<close>

lemma after_last_None: "c \<notin> set s \<Longrightarrow> after_last c s = None"
  by (induction s) auto

lemma after_last_append: "c \<notin> set s \<Longrightarrow> after_last c (p @ c # s) = Some s"
  by (induction p) (auto simp: after_last_None)

lemma split_ws_Nil [simp]: "split_ws [] = []"
  by (simp add: split_ws.simps)

lemma split_ws_space: "is_ws w \<Longrightarrow> split_ws (w # s) = split_ws s"
  by (subst split_ws.simps, subst (2) split_ws.simps) simp

lemma split_ws_token:
  assumes "t \<noteq> []" and "\<forall>c\<in>set t. \<not> is_ws c" and "s = [] \<or> is_ws (hd s)"
  shows "split_ws (t @ s) = t # split_ws s"
proof -
  have d: "dropWhile is_ws (t @ s) = t @ s"
    using assms(1,2) by (cases t) auto
  have "takeWhile (\<lambda>c. \<not> is_ws c) (t @ s) = t" and "dropWhile (\<lambda>c. \<not> is_ws c) (t @ s) = s"
    using assms(2,3) by (cases s; auto simp: takeWhile_append dropWhile_append)+
  with d assms(1) show ?thesis by (subst split_ws.simps) simp
qed

definition is_token :: "string \<Rightarrow> bool" where
  "is_token t \<longleftrightarrow> t \<noteq> [] \<and> (\<forall>c\<in>set t. \<not> is_ws c \<and> c \<noteq> CHR '')'')"

definition spaced :: "string list \<Rightarrow> string" where
  "spaced ts = concat (map (\<lambda>t. CHR '' '' # t) ts)"

lemma split_ws_spaced: "\<forall>t\<in>set ts. is_token t \<Longrightarrow> split_ws (spaced ts) = ts"
proof (induction ts)
  case Nil
  then show ?case by (simp add: spaced_def)
next
  case (Cons t ts)
  have "spaced ts = [] \<or> is_ws (hd (spaced ts))"
    by (cases ts) (simp_all add: spaced_def is_ws_def)
  then have "split_ws (t @ spaced ts) = t # split_ws (spaced ts)"
    using Cons.prems by (intro split_ws_token) (auto simp: is_token_def)
  moreover have "spaced (t # ts) = CHR '' '' # t @ spaced ts" by (simp add: spaced_def)
  ultimately show ?case using Cons by (simp add: split_ws_space is_ws_def)
qed

text \<open>The start time is read from the right field whatever the process calls itself: the
  \<open>comm\<close> field may hold spaces and closing parentheses, and the parse still yields field 22.\<close>
theorem starttime_survives_hostile_comm:
  assumes "\<forall>t\<in>set fs. is_token t" and "19 < length fs"
  shows "parse_proc_stat_starttime (pid_text @ '' ('' @ comm @ '')'' @ spaced fs)
    = parse_u64 (fs ! 19)"
proof -
  have "CHR '')'' \<notin> set (spaced fs)"
    using assms(1) by (auto simp: spaced_def is_token_def)
  from after_last_append [OF this, of "pid_text @ '' ('' @ comm"]
  have "after_last (CHR '')'') (pid_text @ '' ('' @ comm @ '')'' @ spaced fs) = Some (spaced fs)"
    by simp
  with split_ws_spaced [OF assms(1)] assms(2) show ?thesis
    by (simp add: parse_proc_stat_starttime_def)
qed

theorem starttime_survives_hostile_comm_witness:
  "parse_proc_stat_starttime (''4242'' @ '' ('' @ ''sh) 0 0 0'' @ '')''
     @ spaced (''S'' # replicate 18 ''1'' @ [''777'', ''21''])) = Some 777"
proof -
  have v: "parse_u64 ''777'' = Some 777"
    by (simp add: parse_u64_def digit_val_def Let_def)
  have "parse_proc_stat_starttime (''4242'' @ '' ('' @ ''sh) 0 0 0'' @ '')''
       @ spaced (''S'' # replicate 18 ''1'' @ [''777'', ''21'']))
     = parse_u64 ((''S'' # replicate 18 ''1'' @ [''777'', ''21'']) ! 19)"
    by (rule starttime_survives_hostile_comm) (auto simp: is_token_def is_ws_def)
  also have "(''S'' # replicate 18 ''1'' @ [''777'', ''21'']) ! 19 = ''777''"
    by (simp add: nth_append nth_Cons')
  finally show ?thesis using v by simp
qed

subsection \<open>A failed spawn leaves no child\<close>

text \<open>Spawning either yields the child or leaves none: whenever the child exists and a later
  step fails, the child is killed and then waited for; a success, and a failure before the
  child exists, do neither.\<close>
theorem do_spawn_tears_down:
  "case do_spawn k spec of
      (Inr sp, ios) \<Rightarrow> ios = []
        \<and> k_spawn_command k (sb_argv spec) (sb_env spec) (sb_cwd spec) = Inr (Some (sp_pid sp))
        \<and> k_open_pidfd k (sp_pid sp) = Inr (sp_pidfd sp)
        \<and> k_read_starttime k (sp_pid sp) = Inr (sp_child_start_time sp)
    | (Inl (PostSpawn e), ios) \<Rightarrow>
        \<exists>q. k_spawn_command k (sb_argv spec) (sb_env spec) (sb_cwd spec) = Inr q
        \<and> (ios = [ChildKill q, ChildWait q] \<or> (\<exists>d. ios = [SendSignal d SIGKILL, ChildWait q]))
    | (Inl e, ios) \<Rightarrow> ios = []
        \<and> (\<forall>q. e = Exec q \<longleftrightarrow> sb_argv spec \<noteq> [] \<and> (\<exists>m. k_openpty k (sb_rows spec) (sb_cols spec) = Inr m)
              \<and> k_spawn_command k (sb_argv spec) (sb_env spec) (sb_cwd spec) = Inl q)"
  by (auto simp: do_spawn_def split: sum.splits option.splits)

text \<open>The answers of a well-behaved kernel, for the concrete examples of the other theories.\<close>

definition sample_kernel :: kernel where
  "sample_kernel =
     \<lparr> k_consume_exit = (\<lambda>d p. \<lparr> xs_code = Some 0, xs_signal = None \<rparr>),
       k_now = (\<lambda>d. 1000),
       k_read_file = (\<lambda>path. None),
       k_from_utf8 = (\<lambda>bs. None),
       k_send_signal = (\<lambda>d s. Delivered),
       k_exit_ready = (\<lambda>d. False),
       k_dup = (\<lambda>d. Some (d + 100)),
       k_exec_shaped = (\<lambda>d. True),
       k_openpty = (\<lambda>r c. Inr (Some 10)),
       k_spawn_command = (\<lambda>av ev cw. Inr (Some 4242)),
       k_open_pidfd = (\<lambda>p. Inr 11),
       k_read_starttime = (\<lambda>p. Inr 777),
       k_instant = 5000 \<rparr>"

lemmas sample_kernel_simps [simp] = sample_kernel_def

end
