(* ===== verification/Manifests.thy ===== *)
theory Manifests
  imports Channel
begin

text \<open>
  The sealed manifests that carry the holder's and the daemon's state across an exec:
  \<open>holder-proto/src/reexec_manifest.rs\<close> and \<open>holder-proto/src/holder_manifest.rs\<close>.

  The records, the structural validation, the binary envelope, both readers with every check in
  the code's order, the probes of the named fds, and the consume-and-clear environment
  variables. Parameters: \<open>sha\<close> for SHA-256, \<open>dec\<close>/\<open>enc\<close> for \<open>serde_json\<close> on a whole manifest,
  the record \<open>memfd_view\<close> for what the kernel says of the manifest fd, and \<open>fd_probes\<close> for what
  it says of the fds the manifest names.
\<close>

section \<open>Checks in sequence\<close>

text \<open>A list of fallible checks that thread a state and stop at the first error.\<close>

fun run_checks :: "('s \<Rightarrow> 'e + 's) list \<Rightarrow> 's \<Rightarrow> 'e + 's" where
  "run_checks [] s = Inr s"
| "run_checks (c # cs) s = (case c s of Inl e \<Rightarrow> Inl e | Inr s' \<Rightarrow> run_checks cs s')"

lemma run_checks_append:
  "run_checks (cs @ ds) s = (case run_checks cs s of Inl e \<Rightarrow> Inl e | Inr s' \<Rightarrow> run_checks ds s')"
  by (induction cs arbitrary: s) (auto split: sum.split)

definition guard :: "bool \<Rightarrow> 'e \<Rightarrow> 's \<Rightarrow> 'e + 's" where
  "guard bad e s = (if bad then Inl e else Inr s)"

section \<open>Floats of the records\<close>

text \<open>\<open>f64::is_finite\<close> and \<open>< 0.0\<close> on a bit pattern (for a finite value).\<close>

definition f64_is_finite :: "f64 \<Rightarrow> bool" where
  "f64_is_finite w \<longleftrightarrow> take_bit 11 (drop_bit 52 w) \<noteq> (2047 :: 64 word)"

definition f64_negative :: "f64 \<Rightarrow> bool" where
  "f64_negative w \<longleftrightarrow> bit w 63 \<and> take_bit 63 w \<noteq> (0 :: 64 word)"

section \<open>The re-exec manifest\<close>

definition MANIFEST_FORMAT_VERSION :: nat where
  "MANIFEST_FORMAT_VERSION = 1"

definition MANIFEST_SCHEMA_VERSION :: u32 where
  "MANIFEST_SCHEMA_VERSION = 3"

definition MANIFEST_SCHEMA_VERSION_SPLIT :: u32 where
  "MANIFEST_SCHEMA_VERSION_SPLIT = 4"

definition MIN_SUPPORTED_SCHEMA_VERSION :: u32 where
  "MIN_SUPPORTED_SCHEMA_VERSION = 3"

definition MAX_MANIFEST_BYTES :: nat where
  "MAX_MANIFEST_BYTES = 8 * 1024 * 1024"

definition MAX_SESSIONS :: nat where
  "MAX_SESSIONS = 4096"

definition HEADER_LEN :: nat where
  "HEADER_LEN = 4 + 4 + 8 + 32"

record done_report_record =
  dr_at_unix :: f64
  dr_age_s :: f64
  dr_reason :: "string option"

record session_record =
  sr_uid :: uid
  sr_generation :: u64
  sr_transcript_id :: "string option"
  sr_transcript_path :: "string option"
  sr_session_type :: string
  sr_title :: string
  sr_workspace_id :: string
  sr_task_id :: "string option"
  sr_managed_by_uid :: "string option"
  sr_workflow_run_id :: "string option"
  sr_workflow_role :: "string option"
  sr_continuous_task_id :: "string option"
  sr_global_perms :: bool
  sr_memory_cap_soft_bytes :: "u64 option"
  sr_memory_cap_hard_bytes :: "u64 option"
  sr_last_activity_age_s :: "f64 option"
  sr_last_input_age_s :: "f64 option"
  sr_last_operator_input_age_s :: "f64 option"
  sr_last_turn_end_age_s :: "f64 option"
  sr_done_report :: "done_report_record option"
  sr_child_pid :: pid
  sr_child_start_time :: u64
  sr_pty_master_fd :: fd
  sr_pidfd :: fd
  sr_cgroup_prefix :: "string option"
  sr_watcher_checkpoint :: "json option"
  sr_org :: "(string \<times> json) list option"

record split_roles =
  sl_channel_fd :: fd
  sl_brain_pid :: pid
  sl_brain_pidfd :: fd
  sl_brain_pin_fd :: fd
  sl_brain_pin_previous_fd :: "fd option"
  sl_brain_path :: string

record reexec_manifest =
  rm_schema_version :: u32
  rm_attempt :: u8
  rm_reexec_generation :: u64
  rm_rollback_bin_fd :: fd
  rm_sessions :: "session_record list"
  rm_listener_fd :: fd
  rm_tls_listener_fd :: "fd option"
  rm_rollback_schema_version :: "u32 option"
  rm_split :: "split_roles option"

datatype not_memfd_reason = NotRegularFile | NotTmpfs | WrongLink string | SealQueryFailed

datatype payload_reason =
    PayloadJson
  | SplitBlockMissing
  | SplitBlockNotAllowed u32
  | RollbackVersionRange u32

datatype role_reason =
    FstatFailed | NotCharDevice | WinsizeRefused | ReadlinkFailed | NotPidfdLink
  | SockoptFailed | NotUnixDomain | NotStream | ChannelListening | NotListening
  | NotRegular | NotExecutable

datatype manifest_error =
    NotMemfd not_memfd_reason
  | MissingSeals
  | Oversize nat
  | TooSmall nat
  | BadMagic bytes
  | UnsupportedFormatVersion nat
  | BadLength nat nat
  | ChecksumMismatch
  | Payload payload_reason
  | UnsupportedSchemaVersion u32
  | TooManySessions nat
  | NegativeFd string fd
  | StdioRangeFd string fd
  | DuplicateFd fd
  | BadChildPid uid pid
  | BadChildStartTime uid
  | EmptySessionType uid
  | BadAge uid string f64
  | FdRoleMismatch string fd role_reason
  | ManifestIo string

definition check_fd :: "string \<Rightarrow> fd \<Rightarrow> fd set \<Rightarrow> manifest_error + fd set" where
  "check_fd role d seen =
     (if d < 0 then Inl (NegativeFd role d)
      else if d \<le> 2 then Inl (StdioRangeFd role d)
      else if d \<in> seen then Inl (DuplicateFd d)
      else Inr (insert d seen))"

definition check_fd_opt :: "string \<Rightarrow> fd option \<Rightarrow> (fd set \<Rightarrow> manifest_error + fd set) list" where
  "check_fd_opt role d = (case d of None \<Rightarrow> [] | Some x \<Rightarrow> [check_fd role x])"

definition check_age :: "uid \<Rightarrow> string \<Rightarrow> f64 option \<Rightarrow> fd set \<Rightarrow> manifest_error + fd set" where
  "check_age u field v seen =
     (case v of
        None \<Rightarrow> Inr seen
      | Some w \<Rightarrow> if \<not> f64_is_finite w \<or> f64_negative w then Inl (BadAge u field w) else Inr seen)"

definition session_checks :: "session_record \<Rightarrow> (fd set \<Rightarrow> manifest_error + fd set) list" where
  "session_checks s =
     [check_fd ''pty_master_fd'' (sr_pty_master_fd s),
      check_fd ''pidfd'' (sr_pidfd s),
      guard (sr_child_pid s \<le> 0) (BadChildPid (sr_uid s) (sr_child_pid s)),
      guard (sr_child_start_time s = 0) (BadChildStartTime (sr_uid s)),
      guard (sr_session_type s = []) (EmptySessionType (sr_uid s)),
      check_age (sr_uid s) ''last_activity_age_s'' (sr_last_activity_age_s s),
      check_age (sr_uid s) ''last_input_age_s'' (sr_last_input_age_s s),
      check_age (sr_uid s) ''last_operator_input_age_s'' (sr_last_operator_input_age_s s),
      check_age (sr_uid s) ''last_turn_end_age_s'' (sr_last_turn_end_age_s s)]
     @ (case sr_done_report s of
          None \<Rightarrow> []
        | Some dr \<Rightarrow> [check_age (sr_uid s) ''done_report.age_s'' (Some (dr_age_s dr)),
                     check_age (sr_uid s) ''done_report.at_unix'' (Some (dr_at_unix dr))])"

definition split_checks :: "split_roles \<Rightarrow> (fd set \<Rightarrow> manifest_error + fd set) list" where
  "split_checks sp =
     [check_fd ''split.channel_fd'' (sl_channel_fd sp),
      check_fd ''split.brain_pidfd'' (sl_brain_pidfd sp),
      check_fd ''split.brain_pin_fd'' (sl_brain_pin_fd sp)]
     @ check_fd_opt ''split.brain_pin_previous_fd'' (sl_brain_pin_previous_fd sp)
     @ [guard (sl_brain_pid sp \<le> 0) (BadChildPid ''<parked brain>'' (sl_brain_pid sp))]"

definition structure_checks :: "reexec_manifest \<Rightarrow> (fd set \<Rightarrow> manifest_error + fd set) list" where
  "structure_checks m =
         [guard (rm_schema_version m < MIN_SUPPORTED_SCHEMA_VERSION \<or>
                 MANIFEST_SCHEMA_VERSION_SPLIT < rm_schema_version m)
            (UnsupportedSchemaVersion (rm_schema_version m)),
          guard (rm_schema_version m = MANIFEST_SCHEMA_VERSION_SPLIT \<and> rm_split m = None)
            (Payload SplitBlockMissing),
          guard (rm_schema_version m \<noteq> MANIFEST_SCHEMA_VERSION_SPLIT \<and> rm_split m \<noteq> None)
            (Payload (SplitBlockNotAllowed (rm_schema_version m)))]
         @ (case rm_rollback_schema_version m of
              None \<Rightarrow> []
            | Some rv \<Rightarrow> [guard (\<not> (MIN_SUPPORTED_SCHEMA_VERSION \<le> rv \<and>
                                   rv \<le> MANIFEST_SCHEMA_VERSION_SPLIT))
                           (Payload (RollbackVersionRange rv))])
         @ [guard (MAX_SESSIONS < length (rm_sessions m)) (TooManySessions (length (rm_sessions m))),
            check_fd ''rollback_bin_fd'' (rm_rollback_bin_fd m),
            check_fd ''listener_fd'' (rm_listener_fd m)]
         @ check_fd_opt ''tls_listener_fd'' (rm_tls_listener_fd m)
         @ (case rm_split m of None \<Rightarrow> [] | Some sp \<Rightarrow> split_checks sp)
         @ concat (map session_checks (rm_sessions m))"

definition validate_structure :: "reexec_manifest \<Rightarrow> manifest_error + unit" where
  "validate_structure m =
     (case run_checks (structure_checks m) {} of Inl e \<Rightarrow> Inl e | Inr _ \<Rightarrow> Inr ())"

section \<open>The envelope\<close>

text \<open>magic (4), format version (4), payload length (8), SHA-256 (32), payload.\<close>

definition encode_envelope :: "(bytes \<Rightarrow> bytes) \<Rightarrow> bytes \<Rightarrow> nat \<Rightarrow> bytes \<Rightarrow> bytes" where
  "encode_envelope sha magic version payload =
     magic @ to_le 4 version @ to_le 8 (length payload) @ sha payload @ payload"

definition MAGIC_CMRX :: bytes where
  "MAGIC_CMRX = [67, 77, 82, 88]"

datatype 'a io_result = IoErr string | IoOk 'a

text \<open>What the kernel reports of the manifest fd.\<close>

record memfd_view =
  mv_fstat :: "(bool \<times> nat) option"
  mv_fs_is_tmpfs :: "bool option"
  mv_link :: "string option"
  mv_seals :: "bool option"
  mv_content :: bytes

datatype pread_answer = PreadOk nat | PreadEintr | PreadErr

text \<open>
  The positional read loop: \<open>file\<close> is the content, an answer \<open>PreadOk n\<close> returns up to \<open>n\<close>
  bytes at the current offset. \<open>None\<close> while the answers given leave the loop running.
\<close>

fun pread_exact ::
  "pread_answer list \<Rightarrow> bytes \<Rightarrow> nat \<Rightarrow> bytes \<Rightarrow> (manifest_error + bytes) option" where
  "pread_exact as file len buf =
     (if len \<le> length buf then Some (Inr buf)
      else
        case as of
          [] \<Rightarrow> None
        | PreadEintr # as' \<Rightarrow> pread_exact as' file len buf
        | PreadErr # as' \<Rightarrow> Some (Inl (ManifestIo ''pread''))
        | PreadOk n # as' \<Rightarrow>
            (let got = take (min n (len - length buf)) (drop (length buf) file)
             in if got = [] then Some (Inl (ManifestIo ''pread: unexpected EOF''))
                else pread_exact as' file len (buf @ got)))"

declare pread_exact.simps [simp del]

text \<open>The checks of \<open>read_manifest\<close> on the bytes, after the fd itself is accepted.\<close>

definition open_envelope ::
  "(bytes \<Rightarrow> bytes) \<Rightarrow> bytes \<Rightarrow> nat \<Rightarrow> nat \<Rightarrow> bytes \<Rightarrow> manifest_error + bytes" where
  "open_envelope sha magic version sz bs =
     (if take 4 bs \<noteq> magic then Inl (BadMagic (take 4 bs))
      else if from_le (take 4 (drop 4 bs)) \<noteq> version
      then Inl (UnsupportedFormatVersion (from_le (take 4 (drop 4 bs))))
      else if from_le (take 8 (drop 8 bs)) \<noteq> sz - HEADER_LEN
      then Inl (BadLength (from_le (take 8 (drop 8 bs))) (sz - HEADER_LEN))
      else if sha (drop HEADER_LEN bs) \<noteq> take 32 (drop 16 bs) then Inl ChecksumMismatch
      else Inr (drop HEADER_LEN bs))"

definition LINK_CMRX :: string where
  "LINK_CMRX = ''/memfd:cm-reexec-manifest''"

definition accept_memfd :: "memfd_view \<Rightarrow> manifest_error + nat" where
  "accept_memfd v =
     (case mv_fstat v of
        None \<Rightarrow> Inl (ManifestIo ''fstat'')
      | Some (regular, sz) \<Rightarrow>
          if \<not> regular then Inl (NotMemfd NotRegularFile)
          else
            (case mv_fs_is_tmpfs v of
               None \<Rightarrow> Inl (ManifestIo ''fstatfs'')
             | Some False \<Rightarrow> Inl (NotMemfd NotTmpfs)
             | Some True \<Rightarrow>
                 (case mv_link v of
                    None \<Rightarrow> Inl (ManifestIo ''readlink'')
                  | Some l \<Rightarrow>
                      if l \<noteq> LINK_CMRX \<and> l \<noteq> LINK_CMRX @ '' (deleted)'' then Inl (NotMemfd (WrongLink l))
                      else
                        (case mv_seals v of
                           None \<Rightarrow> Inl (NotMemfd SealQueryFailed)
                         | Some sealed \<Rightarrow>
                             if \<not> sealed then Inl MissingSeals
                             else if MAX_MANIFEST_BYTES < sz then Inl (Oversize sz)
                             else if sz < HEADER_LEN then Inl (TooSmall sz)
                             else Inr sz))))"

definition read_manifest ::
  "(bytes \<Rightarrow> bytes) \<Rightarrow> (bytes \<Rightarrow> reexec_manifest option) \<Rightarrow> pread_answer list \<Rightarrow> memfd_view
     \<Rightarrow> (manifest_error + reexec_manifest) option" where
  "read_manifest sha dec as v =
     (case accept_memfd v of
        Inl e \<Rightarrow> Some (Inl e)
      | Inr sz \<Rightarrow>
          (case pread_exact as (mv_content v) sz [] of
             None \<Rightarrow> None
           | Some (Inl e) \<Rightarrow> Some (Inl e)
           | Some (Inr bs) \<Rightarrow>
               Some (case open_envelope sha MAGIC_CMRX MANIFEST_FORMAT_VERSION sz bs of
                  Inl e \<Rightarrow> Inl e
                | Inr payload \<Rightarrow>
                    (case dec payload of
                       None \<Rightarrow> Inl (Payload PayloadJson)
                     | Some m \<Rightarrow> (case validate_structure m of Inl e \<Rightarrow> Inl e | Inr _ \<Rightarrow> Inr m)))))"

text \<open>\<open>write_manifest\<close>: the sealed file it leaves behind, or why it refuses.\<close>

definition write_manifest ::
  "(bytes \<Rightarrow> bytes) \<Rightarrow> (reexec_manifest \<Rightarrow> bytes) \<Rightarrow> reexec_manifest \<Rightarrow> manifest_error + bytes" where
  "write_manifest sha enc m =
     (case validate_structure m of
        Inl e \<Rightarrow> Inl e
      | Inr _ \<Rightarrow>
          (let total = HEADER_LEN + length (enc m)
           in if MAX_MANIFEST_BYTES < total then Inl (Oversize total)
              else Inr (encode_envelope sha MAGIC_CMRX MANIFEST_FORMAT_VERSION (enc m))))"

text \<open>The file \<open>create_manifest_memfd\<close>, \<open>pwrite_all\<close> and \<open>seal_memfd\<close> make of those bytes.\<close>

definition sealed_memfd :: "string \<Rightarrow> bytes \<Rightarrow> memfd_view" where
  "sealed_memfd link bs =
     \<lparr> mv_fstat = Some (True, length bs), mv_fs_is_tmpfs = Some True,
       mv_link = Some (link @ '' (deleted)''), mv_seals = Some True, mv_content = bs \<rparr>"

section \<open>The probes of the named fds\<close>

datatype file_kind = KRegular | KCharDevice | KOther

record fd_probes =
  pr_fstat :: "fd \<Rightarrow> (file_kind \<times> bool) option"
  pr_winsize :: "fd \<Rightarrow> bool"
  pr_link :: "fd \<Rightarrow> string option"
  pr_so_domain_unix :: "fd \<Rightarrow> bool option"
  pr_so_type_stream :: "fd \<Rightarrow> bool option"
  pr_so_acceptconn :: "fd \<Rightarrow> bool option"

definition validate_pty_master_fd :: "fd_probes \<Rightarrow> fd \<Rightarrow> manifest_error + unit" where
  "validate_pty_master_fd pr d =
     (case pr_fstat pr d of
        None \<Rightarrow> Inl (FdRoleMismatch ''pty_master_fd'' d FstatFailed)
      | Some (kind, _) \<Rightarrow>
          if kind \<noteq> KCharDevice then Inl (FdRoleMismatch ''pty_master_fd'' d NotCharDevice)
          else if \<not> pr_winsize pr d then Inl (FdRoleMismatch ''pty_master_fd'' d WinsizeRefused)
          else Inr ())"

definition validate_pidfd_role :: "fd_probes \<Rightarrow> string \<Rightarrow> fd \<Rightarrow> manifest_error + unit" where
  "validate_pidfd_role pr role d =
     (case pr_link pr d of
        None \<Rightarrow> Inl (FdRoleMismatch role d ReadlinkFailed)
      | Some l \<Rightarrow>
          if l \<noteq> ''anon_inode:[pidfd]'' then Inl (FdRoleMismatch role d NotPidfdLink) else Inr ())"

definition validate_channel_fd :: "fd_probes \<Rightarrow> string \<Rightarrow> fd \<Rightarrow> manifest_error + unit" where
  "validate_channel_fd pr role d =
     (case pr_so_domain_unix pr d of
        None \<Rightarrow> Inl (FdRoleMismatch role d SockoptFailed)
      | Some False \<Rightarrow> Inl (FdRoleMismatch role d NotUnixDomain)
      | Some True \<Rightarrow>
          (case pr_so_type_stream pr d of
             None \<Rightarrow> Inl (FdRoleMismatch role d SockoptFailed)
           | Some False \<Rightarrow> Inl (FdRoleMismatch role d NotStream)
           | Some True \<Rightarrow>
               (case pr_so_acceptconn pr d of
                  None \<Rightarrow> Inl (FdRoleMismatch role d SockoptFailed)
                | Some True \<Rightarrow> Inl (FdRoleMismatch role d ChannelListening)
                | Some False \<Rightarrow> Inr ())))"

definition validate_listener_fd :: "fd_probes \<Rightarrow> string \<Rightarrow> fd \<Rightarrow> manifest_error + unit" where
  "validate_listener_fd pr role d =
     (case pr_so_acceptconn pr d of
        None \<Rightarrow> Inl (FdRoleMismatch role d SockoptFailed)
      | Some False \<Rightarrow> Inl (FdRoleMismatch role d NotListening)
      | Some True \<Rightarrow> Inr ())"

definition validate_exec_fd :: "fd_probes \<Rightarrow> string \<Rightarrow> fd \<Rightarrow> manifest_error + unit" where
  "validate_exec_fd pr role d =
     (case pr_fstat pr d of
        None \<Rightarrow> Inl (FdRoleMismatch role d FstatFailed)
      | Some (kind, executable) \<Rightarrow>
          if kind \<noteq> KRegular then Inl (FdRoleMismatch role d NotRegular)
          else if \<not> executable then Inl (FdRoleMismatch role d NotExecutable)
          else Inr ())"

definition opt_probe :: "(fd \<Rightarrow> manifest_error + unit) \<Rightarrow> fd option
    \<Rightarrow> (unit \<Rightarrow> manifest_error + unit) list" where
  "opt_probe f d = (case d of None \<Rightarrow> [] | Some x \<Rightarrow> [\<lambda>_. f x])"

definition validate_fd_roles :: "fd_probes \<Rightarrow> reexec_manifest \<Rightarrow> manifest_error + unit" where
  "validate_fd_roles pr m =
     run_checks
       ([\<lambda>_. validate_exec_fd pr ''rollback_bin_fd'' (rm_rollback_bin_fd m),
         \<lambda>_. validate_listener_fd pr ''listener_fd'' (rm_listener_fd m)]
        @ opt_probe (validate_listener_fd pr ''tls_listener_fd'') (rm_tls_listener_fd m)
        @ (case rm_split m of
             None \<Rightarrow> []
           | Some sp \<Rightarrow>
               [\<lambda>_. validate_channel_fd pr ''split.channel_fd'' (sl_channel_fd sp),
                \<lambda>_. validate_pidfd_role pr ''split.brain_pidfd'' (sl_brain_pidfd sp),
                \<lambda>_. validate_exec_fd pr ''split.brain_pin_fd'' (sl_brain_pin_fd sp)]
               @ opt_probe (validate_exec_fd pr ''split.brain_pin_previous_fd'')
                   (sl_brain_pin_previous_fd sp))
        @ concat (map (\<lambda>s. [\<lambda>_. validate_pty_master_fd pr (sr_pty_master_fd s),
                            \<lambda>_. validate_pidfd_role pr ''pidfd'' (sr_pidfd s)])
            (rm_sessions m)))
       ()"

section \<open>The holder-upgrade manifest\<close>

definition HOLDER_MANIFEST_FORMAT_VERSION :: nat where
  "HOLDER_MANIFEST_FORMAT_VERSION = 1"

definition HOLDER_MANIFEST_SCHEMA_VERSION :: u32 where
  "HOLDER_MANIFEST_SCHEMA_VERSION = 1"

definition MAX_HOLDER_MANIFEST_BYTES :: nat where
  "MAX_HOLDER_MANIFEST_BYTES = 8 * 1024 * 1024"

definition MAX_HOLDER_SESSIONS :: nat where
  "MAX_HOLDER_SESSIONS = 4096"

definition MAGIC_CMHU :: bytes where
  "MAGIC_CMHU = [67, 77, 72, 85]"

definition LINK_CMHU :: string where
  "LINK_CMHU = ''/memfd:cm-holder-upgrade-manifest''"

record exit_carry =
  xc_exited_at :: f64
  xc_pending_event :: "exit_event option"

record holder_session_record =
  hs_uid :: uid
  hs_incarnation :: u64
  hs_generation_meta :: u64
  hs_child_pid :: pid
  hs_child_start_time :: u64
  hs_master_fd :: fd
  hs_pidfd :: fd
  hs_reap_armed :: bool
  hs_delivery_ready :: bool
  hs_exit_latched :: bool
  hs_cgroup_prefix :: "string option"
  hs_cgroup_path :: "string option"
  hs_watcher_checkpoint :: "json option"
  hs_last_signal_request :: "last_signal_request option"
  hs_exit :: "exit_carry option"
  hs_rollback_record :: "json option"

record brain_runtime =
  bn_pid :: pid
  bn_pidfd :: fd
  bn_channel_fd :: fd

record listener_record =
  lr_kind :: string
  lr_meta :: listener_meta
  lr_fd :: fd

record holder_upgrade_manifest =
  hu_schema_version :: u32
  hu_epoch :: u64
  hu_next_incarnation :: u64
  hu_breaker_consecutive_failures :: u32
  hu_brain_path :: string
  hu_brain :: "brain_runtime option"
  hu_brain_pin_fd :: "fd option"
  hu_brain_pin_previous_fd :: "fd option"
  hu_sessions :: "holder_session_record list"
  hu_listeners :: "listener_record list"

datatype structure_reason =
    SR_too_many_sessions nat
  | SR_stdio_fd string fd
  | SR_duplicate_fd fd
  | SR_brain_pid pid
  | SR_pid_or_starttime uid
  | SR_incarnation uid u64 u64
  | SR_role manifest_error

datatype holder_manifest_error =
    H_envelope manifest_error
  | H_structure structure_reason
  | H_schema_version u32

definition h_check_fd :: "string \<Rightarrow> fd \<Rightarrow> fd set \<Rightarrow> holder_manifest_error + fd set" where
  "h_check_fd role d seen =
     (if d \<le> 2 then Inl (H_structure (SR_stdio_fd role d))
      else if d \<in> seen then Inl (H_structure (SR_duplicate_fd d))
      else Inr (insert d seen))"

definition h_check_fd_opt ::
  "string \<Rightarrow> fd option \<Rightarrow> (fd set \<Rightarrow> holder_manifest_error + fd set) list" where
  "h_check_fd_opt role d = (case d of None \<Rightarrow> [] | Some x \<Rightarrow> [h_check_fd role x])"

definition h_session_checks ::
  "u64 \<Rightarrow> holder_session_record \<Rightarrow> (fd set \<Rightarrow> holder_manifest_error + fd set) list" where
  "h_session_checks next_inc s =
     [h_check_fd ''session master_fd'' (hs_master_fd s),
      h_check_fd ''session pidfd'' (hs_pidfd s),
      guard (hs_child_pid s \<le> 0 \<or> hs_child_start_time s = 0)
        (H_structure (SR_pid_or_starttime (hs_uid s))),
      guard (next_inc \<le> hs_incarnation s)
        (H_structure (SR_incarnation (hs_uid s) (hs_incarnation s) next_inc))]"

definition h_structure_checks ::
  "holder_upgrade_manifest \<Rightarrow> (fd set \<Rightarrow> holder_manifest_error + fd set) list" where
  "h_structure_checks m =
         [guard (hu_schema_version m \<noteq> HOLDER_MANIFEST_SCHEMA_VERSION)
            (H_schema_version (hu_schema_version m)),
          guard (MAX_HOLDER_SESSIONS < length (hu_sessions m))
            (H_structure (SR_too_many_sessions (length (hu_sessions m))))]
         @ (case hu_brain m of
              None \<Rightarrow> []
            | Some b \<Rightarrow>
                [guard (bn_pid b \<le> 0) (H_structure (SR_brain_pid (bn_pid b))),
                 h_check_fd ''brain.pidfd'' (bn_pidfd b),
                 h_check_fd ''brain.channel_fd'' (bn_channel_fd b)])
         @ h_check_fd_opt ''brain_pin_fd'' (hu_brain_pin_fd m)
         @ h_check_fd_opt ''brain_pin_previous_fd'' (hu_brain_pin_previous_fd m)
         @ concat (map (h_session_checks (hu_next_incarnation m)) (hu_sessions m))
         @ map (\<lambda>l. h_check_fd ''listener fd'' (lr_fd l)) (hu_listeners m)"

definition h_validate_structure :: "holder_upgrade_manifest \<Rightarrow> holder_manifest_error + unit" where
  "h_validate_structure m =
     (case run_checks (h_structure_checks m) {} of Inl e \<Rightarrow> Inl e | Inr _ \<Rightarrow> Inr ())"

definition write_holder_manifest ::
  "(bytes \<Rightarrow> bytes) \<Rightarrow> (holder_upgrade_manifest \<Rightarrow> bytes) \<Rightarrow> holder_upgrade_manifest
     \<Rightarrow> holder_manifest_error + bytes" where
  "write_holder_manifest sha enc m =
     (case h_validate_structure m of
        Inl e \<Rightarrow> Inl e
      | Inr _ \<Rightarrow>
          (let total = HEADER_LEN + length (enc m)
           in if MAX_HOLDER_MANIFEST_BYTES < total then Inl (H_envelope (Oversize total))
              else Inr (encode_envelope sha MAGIC_CMHU HOLDER_MANIFEST_FORMAT_VERSION (enc m))))"

text \<open>The holder's reader does not ask for the file system, and a failed seal query is a
  missing seal.\<close>

definition h_accept_memfd :: "memfd_view \<Rightarrow> manifest_error + nat" where
  "h_accept_memfd v =
     (case mv_fstat v of
        None \<Rightarrow> Inl (ManifestIo ''fstat'')
      | Some (regular, sz) \<Rightarrow>
          if \<not> regular then Inl (NotMemfd NotRegularFile)
          else
            (case mv_link v of
               None \<Rightarrow> Inl (ManifestIo ''readlink'')
             | Some l \<Rightarrow>
                 if l \<noteq> LINK_CMHU \<and> l \<noteq> LINK_CMHU @ '' (deleted)'' then Inl (NotMemfd (WrongLink l))
                 else if mv_seals v \<noteq> Some True then Inl MissingSeals
                 else if MAX_HOLDER_MANIFEST_BYTES < sz then Inl (Oversize sz)
                 else if sz < HEADER_LEN then Inl (TooSmall sz)
                 else Inr sz))"

definition read_holder_manifest ::
  "(bytes \<Rightarrow> bytes) \<Rightarrow> (bytes \<Rightarrow> holder_upgrade_manifest option) \<Rightarrow> pread_answer list \<Rightarrow> memfd_view
     \<Rightarrow> (holder_manifest_error + holder_upgrade_manifest) option" where
  "read_holder_manifest sha dec as v =
     (case h_accept_memfd v of
        Inl e \<Rightarrow> Some (Inl (H_envelope e))
      | Inr sz \<Rightarrow>
          (case pread_exact as (mv_content v) sz [] of
             None \<Rightarrow> None
           | Some (Inl e) \<Rightarrow> Some (Inl (H_envelope e))
           | Some (Inr bs) \<Rightarrow>
               Some (case open_envelope sha MAGIC_CMHU HOLDER_MANIFEST_FORMAT_VERSION sz bs of
                  Inl e \<Rightarrow> Inl (H_envelope e)
                | Inr payload \<Rightarrow>
                    (case dec payload of
                       None \<Rightarrow> Inl (H_envelope (Payload PayloadJson))
                     | Some m \<Rightarrow> (case h_validate_structure m of Inl e \<Rightarrow> Inl e | Inr _ \<Rightarrow> Inr m)))))"

definition validate_holder_fd_roles ::
  "fd_probes \<Rightarrow> holder_upgrade_manifest \<Rightarrow> holder_manifest_error + unit" where
  "validate_holder_fd_roles pr m =
     (case run_checks
        ((case hu_brain m of
            None \<Rightarrow> []
          | Some b \<Rightarrow> [\<lambda>_. validate_pidfd_role pr ''brain.pidfd'' (bn_pidfd b),
                      \<lambda>_. validate_channel_fd pr ''brain.channel_fd'' (bn_channel_fd b)])
         @ opt_probe (validate_exec_fd pr ''brain_pin_fd'') (hu_brain_pin_fd m)
         @ opt_probe (validate_exec_fd pr ''brain_pin_previous_fd'') (hu_brain_pin_previous_fd m)
         @ concat (map (\<lambda>s. [\<lambda>_. validate_pty_master_fd pr (hs_master_fd s),
                             \<lambda>_. validate_pidfd_role pr ''pidfd'' (hs_pidfd s)]) (hu_sessions m))
         @ map (\<lambda>l. \<lambda>_. validate_listener_fd pr ''listener_fd'' (lr_fd l)) (hu_listeners m)) () of
        Inl e \<Rightarrow> Inl (H_structure (SR_role e))
      | Inr _ \<Rightarrow> Inr ())"

section \<open>The environment variables\<close>

text \<open>
  The process environment as an association list of byte strings. A value that is not UTF-8 is
  not all ASCII digits, so it is refused by the same test.
\<close>

definition ENV_MANIFEST_FD :: string where
  "ENV_MANIFEST_FD = ''CM_REEXEC_MANIFEST_FD''"

definition ENV_HOLDER_MANIFEST_FD :: string where
  "ENV_HOLDER_MANIFEST_FD = ''CM_HOLDER_UPGRADE_MANIFEST_FD''"

definition is_digit :: "char \<Rightarrow> bool" where
  "is_digit c \<longleftrightarrow> (48 :: nat) \<le> of_char c \<and> of_char c \<le> (57 :: nat)"

definition digits_nat :: "string \<Rightarrow> nat" where
  "digits_nat s = foldl (\<lambda>acc c. 10 * acc + (of_char c - 48)) 0 s"

definition parse_fd :: "string \<Rightarrow> fd option" where
  "parse_fd s =
     (if s = [] \<or> \<not> list_all is_digit s then None
      else if digits_nat s < 2 ^ 31 then Some (int (digits_nat s)) else None)"

definition consume_env ::
  "string \<Rightarrow> (string \<times> string) list \<Rightarrow> (string \<times> string) list \<times> fd option" where
  "consume_env key env =
     (case map_of env key of
        None \<Rightarrow> (env, None)
      | Some v \<Rightarrow> (filter (\<lambda>e. fst e \<noteq> key) env, parse_fd v))"

end
