(* ===== verification/HolderState.thy ===== *)
theory HolderState
  imports Kernel Manifests "HOL-Library.AList"
begin

text \<open>
  The holder's state and the operations on it that involve no request:
  \<open>holder/src/holder.rs\<close> up to the serve loop. The sessions are the ordered map of the prelude,
  keyed by uid; the listeners are a list with at most one entry for each kind.

  A function that talks to the kernel takes a \<open>kernel\<close> and returns the actions it performed, in
  order, beside the new state. \<open>exited_at\<close> and the other clock readings are keyed by the pidfd
  they were taken for.
\<close>

section \<open>Configuration, outcomes, deploys\<close>

record holder_config =
  hc_handshake_timeout :: millis
  hc_ping_interval :: "millis option"
  hc_outbound_max_frames :: nat
  hc_holder_build_id :: string
  hc_extra_fd :: "fd option"

definition holder_config_default :: "string \<Rightarrow> holder_config" where
  "holder_config_default pkg_version =
     \<lparr> hc_handshake_timeout = 30 * 1000, hc_ping_interval = Some (30 * 1000),
       hc_outbound_max_frames = 4096, hc_holder_build_id = ''cm-holder/'' @ pkg_version,
       hc_extra_fd = None \<rparr>"

record status_snapshot =
  ss_sessions :: nat
  ss_pending_exit_events :: nat
  ss_epoch :: u64

datatype signal_directive = SigContinue | SigShutdown

datatype protocol_reason =
    PR_violation violation
  | PR_poll errno
  | PR_send errno
  | PR_unexpected_fds string nat
  | PR_no_req_id string
  | PR_first_not_hello string
  | PR_hello_body
  | PR_rehello_body
  | PR_upgrade_proto_mismatch u32 u32
  | PR_fd_count verb nat
  | PR_duplicate_hello

datatype wedge_reason = WR_pings u64 | WR_outbound nat

datatype serve_outcome =
    BrainEof
  | Protocol protocol_reason
  | Wedged wedge_reason
  | HelloTimeout
  | HelloRefused
  | ShutdownRequested
  | HolderUpgrade fd fd

text \<open>The \<open>PartialEq\<close> of the code: upgrades compare by the pin's number only.\<close>

fun same_outcome :: "serve_outcome \<Rightarrow> serve_outcome \<Rightarrow> bool" where
  "same_outcome (HolderUpgrade a _) (HolderUpgrade b _) = (a = b)"
| "same_outcome a b = (a = b)"

definition WEDGE_MISSED_PONGS :: u64 where
  "WEDGE_MISSED_PONGS = 3"

datatype armed_deploy =
    NewPin fd
  | UsePrevious
  | ArmedSplitRollback fd u64 u32

definition ARM_AUTO_DISARM :: millis where
  "ARM_AUTO_DISARM = 30 * 1000"

section \<open>The holder's state\<close>

record exit_rec =
  xr_exited_at :: f64
  xr_pending :: "exit_event option"

datatype master_hold = Pty "fd option" | Raw fd

fun master_raw_fd :: "master_hold \<Rightarrow> fd option" where
  "master_raw_fd (Pty m) = m"
| "master_raw_fd (Raw d) = Some d"

record session_entry =
  se_incarnation :: u64
  se_generation_meta :: u64
  se_pid :: pid
  se_child_start_time :: u64
  se_master :: master_hold
  se_pidfd :: fd
  se_reap_armed :: bool
  se_delivery_ready :: bool
  se_exit_latched :: bool
  se_cgroup_prefix :: "string option"
  se_cgroup_path :: "string option"
  se_watcher_checkpoint :: "json option"
  se_last_signal_request :: "last_signal_request option"
  se_exit :: "exit_rec option"
  se_rollback_record :: "json option"

type_synonym sessions = "(uid \<times> session_entry) list"

record holder =
  hd_cfg :: holder_config
  hd_sessions :: sessions
  hd_listeners :: "(listener_meta \<times> fd) list"
  hd_armed_deploy :: "(armed_deploy \<times> millis) option"
  hd_breaker_label :: string
  hd_previous_pin_available :: bool
  hd_next_incarnation :: u64
  hd_epoch :: u64
  hd_ping_seq :: u64
  hd_pings_unanswered :: u64
  hd_helloed_this_generation :: bool
  hd_rehello_pending :: "u64 option"
  hd_pending_upgrade :: "fd option"

definition holder_new :: "holder_config \<Rightarrow> holder" where
  "holder_new cfg =
     \<lparr> hd_cfg = cfg, hd_sessions = [], hd_listeners = [], hd_armed_deploy = None,
       hd_breaker_label = ''running'', hd_previous_pin_available = False, hd_next_incarnation = 1,
       hd_epoch = 0, hd_ping_seq = 0, hd_pings_unanswered = 0, hd_helloed_this_generation = False,
       hd_rehello_pending = None, hd_pending_upgrade = None \<rparr>"

definition session_count :: "holder \<Rightarrow> nat" where
  "session_count h = length (hd_sessions h)"

definition set_supervisor_status :: "string \<Rightarrow> bool \<Rightarrow> holder \<Rightarrow> holder" where
  "set_supervisor_status breaker previous_pin h =
     h\<lparr> hd_breaker_label := breaker, hd_previous_pin_available := previous_pin \<rparr>"

definition take_armed_deploy :: "holder \<Rightarrow> holder \<times> armed_deploy option" where
  "take_armed_deploy h = (h\<lparr> hd_armed_deploy := None \<rparr>, map_option fst (hd_armed_deploy h))"

definition custodied_unix_path :: "holder \<Rightarrow> string option" where
  "custodied_unix_path h =
     map_option (\<lambda>l. lm_meta (fst l)) (List.find (\<lambda>l. lm_kind (fst l) = ''unix'') (hd_listeners h))"

definition event_pending :: "session_entry \<Rightarrow> bool" where
  "event_pending e \<longleftrightarrow> (case se_exit e of None \<Rightarrow> False | Some x \<Rightarrow> xr_pending x \<noteq> None)"

definition pending_exit_events :: "holder \<Rightarrow> nat" where
  "pending_exit_events h = length (filter (\<lambda>x. event_pending (snd x)) (hd_sessions h))"

definition deploy_conflict :: "holder \<Rightarrow> deploy_conflict_reason option" where
  "deploy_conflict h =
     (if hd_armed_deploy h \<noteq> None then Some DeployAlreadyArmed
      else if hd_pending_upgrade h \<noteq> None then Some HolderUpgradeInFlight
      else None)"

definition split_rollback_armed :: "holder \<Rightarrow> bool" where
  "split_rollback_armed h \<longleftrightarrow>
     (case hd_armed_deploy h of Some (ArmedSplitRollback _ _ _, _) \<Rightarrow> True | _ \<Rightarrow> False)"

section \<open>Consuming an exit\<close>

definition exit_frame :: "exit_event \<Rightarrow> io" where
  "exit_frame ev = Push (frame_new V_EXIT_EVENT None 0 (ExitEventBody ev)) []"

definition exit_event_of :: "kernel \<Rightarrow> uid \<Rightarrow> session_entry \<Rightarrow> exit_event" where
  "exit_event_of k u e =
     (let st = k_consume_exit k (se_pidfd e) (se_pid e)
      in \<lparr> ev_uid = u, ev_incarnation = se_incarnation e, ev_code = xs_code st,
           ev_signal = xs_signal st, ev_exited_at = k_now k (se_pidfd e),
           ev_last_signal_request = se_last_signal_request e,
           ev_memory_events_snapshot =
             (case se_cgroup_path e of
                None \<Rightarrow> None | Some p \<Rightarrow> read_memory_events_snapshot k p) \<rparr>)"

definition consume_exit :: "kernel \<Rightarrow> uid \<Rightarrow> session_entry \<Rightarrow> session_entry \<times> io list" where
  "consume_exit k u e =
     (let ev = exit_event_of k u e
      in (e\<lparr> se_exit := Some \<lparr> xr_exited_at = ev_exited_at ev, xr_pending = Some ev \<rparr>,
             se_exit_latched := False \<rparr>,
          WaitExit (se_pidfd e) (se_pid e) #
            (if se_delivery_ready e then [exit_frame ev] else [])))"

text \<open>Run a function over every record in key order and collect what it did.\<close>

definition over_sessions ::
  "(uid \<Rightarrow> session_entry \<Rightarrow> session_entry \<times> io list) \<Rightarrow> sessions \<Rightarrow> sessions \<times> io list" where
  "over_sessions f m =
     (map (\<lambda>x. (fst x, fst (f (fst x) (snd x)))) m,
      concat (map (\<lambda>x. snd (f (fst x) (snd x))) m))"

definition sweep_entry :: "kernel \<Rightarrow> uid \<Rightarrow> session_entry \<Rightarrow> session_entry \<times> io list" where
  "sweep_entry k u e =
     (if se_exit_latched e \<and> se_reap_armed e \<and> se_exit e = None then consume_exit k u e
      else (e, []))"

definition sweep_latched_exits_into :: "kernel \<Rightarrow> holder \<Rightarrow> holder \<times> io list" where
  "sweep_latched_exits_into k h =
     (let (m, ios) = over_sessions (sweep_entry k) (hd_sessions h)
      in (h\<lparr> hd_sessions := m \<rparr>, ios))"

text \<open>Without a channel the frames go to a scratch queue that is dropped.\<close>

definition sweep_latched_exits :: "kernel \<Rightarrow> holder \<Rightarrow> holder \<times> io list" where
  "sweep_latched_exits k h =
     (let (h', ios) = sweep_latched_exits_into k h
      in (h', filter (\<lambda>a. \<forall>f fds. a \<noteq> Push f fds) ios))"

definition kill_and_reap :: "session_entry \<Rightarrow> io list" where
  "kill_and_reap e = [SendSignal (se_pidfd e) SIGKILL, WaitExit (se_pidfd e) (se_pid e)]"

definition shutdown_kill_all :: "holder \<Rightarrow> holder \<times> nat \<times> io list" where
  "shutdown_kill_all h =
     (let live = filter (\<lambda>x. se_exit (snd x) = None) (hd_sessions h)
      in (h\<lparr> hd_sessions := [] \<rparr>, length live, concat (map (\<lambda>x. kill_and_reap (snd x)) live)))"

section \<open>Adoption, custody, upgrade\<close>

definition adopt_migrated_session :: "session_record \<Rightarrow> fd \<Rightarrow> fd \<Rightarrow> holder \<Rightarrow> holder" where
  "adopt_migrated_session rec master pidfd h =
     h\<lparr> hd_next_incarnation := hd_next_incarnation h + 1,
        hd_sessions := bt_insert (sr_uid rec)
          \<lparr> se_incarnation = hd_next_incarnation h, se_generation_meta = sr_generation rec,
            se_pid = sr_child_pid rec, se_child_start_time = sr_child_start_time rec,
            se_master = Raw master, se_pidfd = pidfd, se_reap_armed = True,
            se_delivery_ready = False, se_exit_latched = False,
            se_cgroup_prefix = sr_cgroup_prefix rec, se_cgroup_path = None,
            se_watcher_checkpoint = sr_watcher_checkpoint rec, se_last_signal_request = None,
            se_exit = None, se_rollback_record = None \<rparr>
          (hd_sessions h) \<rparr>"

definition store_listener_custody :: "listener_meta \<Rightarrow> fd \<Rightarrow> holder \<Rightarrow> holder" where
  "store_listener_custody meta d h =
     h\<lparr> hd_listeners :=
          filter (\<lambda>l. lm_kind (fst l) \<noteq> lm_kind meta) (hd_listeners h) @ [(meta, d)] \<rparr>"

definition carry_of_entry :: "uid \<Rightarrow> session_entry \<Rightarrow> holder_session_record" where
  "carry_of_entry u e =
     \<lparr> hs_uid = u, hs_incarnation = se_incarnation e, hs_generation_meta = se_generation_meta e,
       hs_child_pid = se_pid e, hs_child_start_time = se_child_start_time e,
       hs_master_fd = (case master_raw_fd (se_master e) of None \<Rightarrow> -1 | Some d \<Rightarrow> d),
       hs_pidfd = se_pidfd e, hs_reap_armed = se_reap_armed e,
       hs_delivery_ready = se_delivery_ready e, hs_exit_latched = se_exit_latched e,
       hs_cgroup_prefix = se_cgroup_prefix e, hs_cgroup_path = se_cgroup_path e,
       hs_watcher_checkpoint = se_watcher_checkpoint e,
       hs_last_signal_request = se_last_signal_request e,
       hs_exit = map_option
         (\<lambda>x. \<lparr> xc_exited_at = xr_exited_at x, xc_pending_event = xr_pending x \<rparr>) (se_exit e),
       hs_rollback_record = se_rollback_record e \<rparr>"

definition upgrade_snapshot ::
  "holder \<Rightarrow> brain_runtime option \<Rightarrow> fd option \<Rightarrow> fd option \<Rightarrow> u32 \<Rightarrow> string
     \<Rightarrow> holder_upgrade_manifest" where
  "upgrade_snapshot h brain pin_fd previous_fd failures path =
     \<lparr> hu_schema_version = HOLDER_MANIFEST_SCHEMA_VERSION, hu_epoch = hd_epoch h,
       hu_next_incarnation = hd_next_incarnation h, hu_breaker_consecutive_failures = failures,
       hu_brain_path = path, hu_brain = brain, hu_brain_pin_fd = pin_fd,
       hu_brain_pin_previous_fd = previous_fd,
       hu_sessions = map (\<lambda>x. carry_of_entry (fst x) (snd x)) (hd_sessions h),
       hu_listeners = map (\<lambda>l. \<lparr> lr_kind = lm_kind (fst l), lr_meta = fst l, lr_fd = snd l \<rparr>)
         (hd_listeners h) \<rparr>"

definition entry_of_carry :: "holder_session_record \<Rightarrow> session_entry" where
  "entry_of_carry r =
     \<lparr> se_incarnation = hs_incarnation r, se_generation_meta = hs_generation_meta r,
       se_pid = hs_child_pid r, se_child_start_time = hs_child_start_time r,
       se_master = Raw (hs_master_fd r), se_pidfd = hs_pidfd r, se_reap_armed = hs_reap_armed r,
       se_delivery_ready = hs_delivery_ready r, se_exit_latched = hs_exit_latched r,
       se_cgroup_prefix = hs_cgroup_prefix r, se_cgroup_path = hs_cgroup_path r,
       se_watcher_checkpoint = hs_watcher_checkpoint r,
       se_last_signal_request = hs_last_signal_request r,
       se_exit = map_option
         (\<lambda>x. \<lparr> xr_exited_at = xc_exited_at x, xr_pending = xc_pending_event x \<rparr>) (hs_exit r),
       se_rollback_record = hs_rollback_record r \<rparr>"

definition restore_from_upgrade :: "holder_config \<Rightarrow> holder_upgrade_manifest \<Rightarrow> holder" where
  "restore_from_upgrade cfg m =
     (holder_new cfg)
       \<lparr> hd_epoch := hu_epoch m, hd_next_incarnation := hu_next_incarnation m,
         hd_sessions :=
           fold (\<lambda>r. bt_insert (hs_uid r) (entry_of_carry r)) (hu_sessions m) [],
         hd_listeners := map (\<lambda>l. (lr_meta l, lr_fd l)) (hu_listeners m) \<rparr>"

section \<open>The rollback manifest\<close>

text \<open>
  The derived \<open>Deserialize\<close> of \<open>SessionRecord\<close>: an \<open>Option\<close> field may be missing. \<open>f64_of_int\<close>
  is the conversion \<open>serde\<close> applies to an integer where a float is wanted.
\<close>

definition de_bool :: "json \<Rightarrow> bool option" where
  "de_bool j = (case j of JBool b \<Rightarrow> Some b | _ \<Rightarrow> None)"

definition de_f64 :: "(int \<Rightarrow> f64) \<Rightarrow> json \<Rightarrow> f64 option" where
  "de_f64 f64_of_int j = (case j of JFloat w \<Rightarrow> Some w | JInt i \<Rightarrow> Some (f64_of_int i) | _ \<Rightarrow> None)"

definition de_object :: "json \<Rightarrow> (string \<times> json) list option" where
  "de_object j = (case j of JObj kvs \<Rightarrow> Some kvs | _ \<Rightarrow> None)"

definition de_opt_field ::
  "(string \<Rightarrow> json option) \<Rightarrow> string \<Rightarrow> (json \<Rightarrow> 'a option) \<Rightarrow> 'a option option" where
  "de_opt_field m k f = de_default m k (de_option f) None"

definition parse_done_report :: "(int \<Rightarrow> f64) \<Rightarrow> json \<Rightarrow> done_report_record option" where
  "parse_done_report fi j = do {
     m \<leftarrow> de_fields [''at_unix'', ''age_s'', ''reason''] j;
     a \<leftarrow> de_req m ''at_unix'' (de_f64 fi);
     g \<leftarrow> de_req m ''age_s'' (de_f64 fi);
     r \<leftarrow> de_opt_field m ''reason'' de_string;
     Some \<lparr> dr_at_unix = a, dr_age_s = g, dr_reason = r \<rparr> }"

definition session_record_fields :: "string list" where
  "session_record_fields =
     [''uid'', ''generation'', ''transcript_id'', ''transcript_path'', ''session_type'', ''title'',
      ''workspace_id'', ''task_id'', ''managed_by_uid'', ''workflow_run_id'', ''workflow_role'',
      ''continuous_task_id'', ''global_perms'', ''memory_cap_soft_bytes'',
      ''memory_cap_hard_bytes'', ''last_activity_age_s'', ''last_input_age_s'',
      ''last_operator_input_age_s'', ''last_turn_end_age_s'', ''done_report'', ''child_pid'',
      ''child_start_time'', ''pty_master_fd'', ''pidfd'', ''cgroup_prefix'',
      ''watcher_checkpoint'', ''org'']"

definition parse_session_record :: "(int \<Rightarrow> f64) \<Rightarrow> json \<Rightarrow> session_record option" where
  "parse_session_record fi j = do {
     m \<leftarrow> de_fields session_record_fields j;
     u \<leftarrow> de_req m ''uid'' de_string;
     g \<leftarrow> de_req m ''generation'' de_word;
     ti \<leftarrow> de_opt_field m ''transcript_id'' de_string;
     tp \<leftarrow> de_opt_field m ''transcript_path'' de_string;
     st \<leftarrow> de_req m ''session_type'' de_string;
     tt \<leftarrow> de_req m ''title'' de_string;
     wi \<leftarrow> de_req m ''workspace_id'' de_string;
     ta \<leftarrow> de_opt_field m ''task_id'' de_string;
     mb \<leftarrow> de_opt_field m ''managed_by_uid'' de_string;
     wr \<leftarrow> de_opt_field m ''workflow_run_id'' de_string;
     wo \<leftarrow> de_opt_field m ''workflow_role'' de_string;
     ct \<leftarrow> de_opt_field m ''continuous_task_id'' de_string;
     gp \<leftarrow> de_req m ''global_perms'' de_bool;
     ms \<leftarrow> de_opt_field m ''memory_cap_soft_bytes'' de_word;
     mh \<leftarrow> de_opt_field m ''memory_cap_hard_bytes'' de_word;
     la \<leftarrow> de_opt_field m ''last_activity_age_s'' (de_f64 fi);
     li \<leftarrow> de_opt_field m ''last_input_age_s'' (de_f64 fi);
     lo \<leftarrow> de_opt_field m ''last_operator_input_age_s'' (de_f64 fi);
     lt \<leftarrow> de_opt_field m ''last_turn_end_age_s'' (de_f64 fi);
     dr \<leftarrow> de_opt_field m ''done_report'' (parse_done_report fi);
     cp \<leftarrow> de_req m ''child_pid'' de_i32;
     cs \<leftarrow> de_req m ''child_start_time'' de_word;
     pm \<leftarrow> de_req m ''pty_master_fd'' de_i32;
     pf \<leftarrow> de_req m ''pidfd'' de_i32;
     cg \<leftarrow> de_opt_field m ''cgroup_prefix'' de_string;
     wc \<leftarrow> de_opt_field m ''watcher_checkpoint'' de_value;
     og \<leftarrow> de_opt_field m ''org'' de_object;
     Some \<lparr> sr_uid = u, sr_generation = g, sr_transcript_id = ti, sr_transcript_path = tp,
       sr_session_type = st, sr_title = tt, sr_workspace_id = wi, sr_task_id = ta,
       sr_managed_by_uid = mb, sr_workflow_run_id = wr, sr_workflow_role = wo,
       sr_continuous_task_id = ct, sr_global_perms = gp, sr_memory_cap_soft_bytes = ms,
       sr_memory_cap_hard_bytes = mh, sr_last_activity_age_s = la, sr_last_input_age_s = li,
       sr_last_operator_input_age_s = lo, sr_last_turn_end_age_s = lt, sr_done_report = dr,
       sr_child_pid = cp, sr_child_start_time = cs, sr_pty_master_fd = pm, sr_pidfd = pf,
       sr_cgroup_prefix = cg, sr_watcher_checkpoint = wc, sr_org = og \<rparr> }"

datatype rollback_error =
    NoRollbackRecord uid
  | BlobNotObject uid
  | NoMasterFd uid
  | BlobNotSessionRecord uid
  | NoUnixListener

definition patch_blob :: "uid \<Rightarrow> fd \<Rightarrow> session_entry \<Rightarrow> (string \<times> json) list \<Rightarrow> json" where
  "patch_blob u master e kvs =
     JObj (AList.update ''child_start_time'' (ser_word (se_child_start_time e))
       (AList.update ''child_pid'' (JInt (se_pid e))
         (AList.update ''pidfd'' (JInt (se_pidfd e))
           (AList.update ''pty_master_fd'' (JInt master)
             (AList.update ''uid'' (JStr u) kvs)))))"

definition project_session ::
  "(int \<Rightarrow> f64) \<Rightarrow> uid \<Rightarrow> session_entry \<Rightarrow> rollback_error + session_record" where
  "project_session fi u e =
     (case se_rollback_record e of
        None \<Rightarrow> Inl (NoRollbackRecord u)
      | Some (JObj kvs) \<Rightarrow>
          (case master_raw_fd (se_master e) of
             None \<Rightarrow> Inl (NoMasterFd u)
           | Some master \<Rightarrow>
               (case parse_session_record fi (patch_blob u master e kvs) of
                  None \<Rightarrow> Inl (BlobNotSessionRecord u)
                | Some r \<Rightarrow> Inr r))
      | Some _ \<Rightarrow> Inl (BlobNotObject u))"

fun project_sessions ::
  "(int \<Rightarrow> f64) \<Rightarrow> sessions \<Rightarrow> rollback_error + session_record list" where
  "project_sessions fi [] = Inr []"
| "project_sessions fi ((u, e) # m) =
     (case project_session fi u e of
        Inl err \<Rightarrow> Inl err
      | Inr r \<Rightarrow> (case project_sessions fi m of Inl err \<Rightarrow> Inl err | Inr rs \<Rightarrow> Inr (r # rs)))"

definition listener_of_kind :: "string \<Rightarrow> (listener_meta \<times> fd) list \<Rightarrow> fd option" where
  "listener_of_kind kind ls = map_option snd (List.find (\<lambda>l. lm_kind (fst l) = kind) ls)"

definition rollback_manifest ::
  "(int \<Rightarrow> f64) \<Rightarrow> holder \<Rightarrow> u32 \<Rightarrow> u64 \<Rightarrow> fd \<Rightarrow> rollback_error + reexec_manifest" where
  "rollback_manifest fi h schema_version reexec_generation rollback_bin_fd =
     (case project_sessions fi (hd_sessions h) of
        Inl err \<Rightarrow> Inl err
      | Inr rs \<Rightarrow>
          (case listener_of_kind ''unix'' (hd_listeners h) of
             None \<Rightarrow> Inl NoUnixListener
           | Some lfd \<Rightarrow>
               Inr \<lparr> rm_schema_version = schema_version, rm_attempt = 0,
                 rm_reexec_generation = reexec_generation,
                 rm_rollback_bin_fd = rollback_bin_fd, rm_sessions = rs, rm_listener_fd = lfd,
                 rm_tls_listener_fd = listener_of_kind ''tls'' (hd_listeners h),
                 rm_rollback_schema_version = None, rm_split = None \<rparr>))"

definition escrow_fds :: "holder \<Rightarrow> fd list" where
  "escrow_fds h =
     concat (map (\<lambda>x. (case master_raw_fd (se_master (snd x)) of None \<Rightarrow> [] | Some d \<Rightarrow> [d])
                      @ [se_pidfd (snd x)]) (hd_sessions h))
     @ map snd (hd_listeners h)"

end
