(* ===== verification/HolderVerbs.thy ===== *)
theory HolderVerbs
  imports HolderState
begin

text \<open>
  The holder's request handlers and \<open>Holder::dispatch\<close> of \<open>holder/src/holder.rs\<close>. A handler
  takes the kernel's answers, the request id and the request's body, and returns the holder after
  it with the actions it performed in order; the frames it queues are \<open>Push\<close> actions among them.
  \<open>dispatch\<close> adds the outcome when the frame ends the generation.
\<close>

section \<open>Replies\<close>

definition reply_frame :: "verb \<Rightarrow> u64 \<Rightarrow> out_body \<Rightarrow> io" where
  "reply_frame v req b = Push (frame_new v (Some req) 0 b) []"

definition ok_frame :: "u64 \<Rightarrow> io" where
  "ok_frame req = reply_frame V_OK req (OkBody None)"

definition ok_frame_with :: "u64 \<Rightarrow> detail \<Rightarrow> io" where
  "ok_frame_with req d = reply_frame V_OK req (OkBody (Some d))"

definition err_frame :: "u64 \<Rightarrow> err_code \<Rightarrow> msg \<Rightarrow> io" where
  "err_frame req c m = reply_frame V_ERR req (ErrBody c m None)"

definition err_frame_with :: "u64 \<Rightarrow> err_code \<Rightarrow> msg \<Rightarrow> detail \<Rightarrow> io" where
  "err_frame_with req c m d = reply_frame V_ERR req (ErrBody c m (Some d))"

lemmas reply_defs = reply_frame_def ok_frame_def ok_frame_with_def err_frame_def
  err_frame_with_def

text \<open>The record of a uid, and the record changed in place (\<open>get\<close> and \<open>get_mut\<close>).\<close>

definition record_of :: "holder \<Rightarrow> uid \<Rightarrow> session_entry option" where
  "record_of h u = bt_get (hd_sessions h) u"

definition set_record :: "uid \<Rightarrow> session_entry \<Rightarrow> holder \<Rightarrow> holder" where
  "set_record u e h = h\<lparr> hd_sessions := bt_adjust u (\<lambda>_. e) (hd_sessions h) \<rparr>"

definition remove_record :: "uid \<Rightarrow> holder \<Rightarrow> holder" where
  "remove_record u h = h\<lparr> hd_sessions := bt_remove u (hd_sessions h) \<rparr>"

section \<open>The session verbs\<close>

definition spawn_err_code :: "spawn_error \<Rightarrow> err_code" where
  "spawn_err_code e =
     (case e of Openpty _ \<Rightarrow> ERR_OPENPTY_FAILED | EmptyArgv \<Rightarrow> ERR_INVALID | _ \<Rightarrow> ERR_EXEC_FAILED)"

definition new_session :: "u64 \<Rightarrow> spawn_body \<Rightarrow> spawned \<Rightarrow> session_entry" where
  "new_session inc spec sp =
     \<lparr> se_incarnation = inc, se_generation_meta = sb_generation_meta spec, se_pid = sp_pid sp,
       se_child_start_time = sp_child_start_time sp, se_master = Pty (sp_master sp),
       se_pidfd = sp_pidfd sp, se_reap_armed = False, se_delivery_ready = False,
       se_exit_latched = False, se_cgroup_prefix = sb_cgroup_prefix spec, se_cgroup_path = None,
       se_watcher_checkpoint = None, se_last_signal_request = None, se_exit = None,
       se_rollback_record = None \<rparr>"

definition install_spawned ::
  "kernel \<Rightarrow> u64 \<Rightarrow> spawn_body \<Rightarrow> spawned \<Rightarrow> holder \<Rightarrow> holder \<times> io list" where
  "install_spawned k req spec sp h =
     (let inc = hd_next_incarnation h;
          h1 = h\<lparr> hd_next_incarnation := inc + 1 \<rparr>;
          tear_down = [SendSignal (sp_pidfd sp) SIGKILL, WaitExit (sp_pidfd sp) (sp_pid sp)]
      in case sp_master sp of
           None \<Rightarrow>
             (h1, OomScoreAdjZero (sp_pid sp) # tear_down
                    @ [err_frame req ERR_EXEC_FAILED M_no_raw_fd])
         | Some master \<Rightarrow>
             (case (k_dup k master, k_dup k (sp_pidfd sp)) of
                (Some mdup, Some pdup) \<Rightarrow>
                  (h1\<lparr> hd_sessions := bt_insert (sb_uid spec) (new_session inc spec sp) (hd_sessions h1) \<rparr>,
                   [OomScoreAdjZero (sp_pid sp),
                    Push (frame_new V_OK (Some req) 2
                      (SpawnOkBody \<lparr> so_incarnation = inc, so_pid = sp_pid sp,
                         so_child_start_time = sp_child_start_time sp \<rparr>)) [mdup, pdup]])
              | _ \<Rightarrow>
                  (h1, OomScoreAdjZero (sp_pid sp) # tear_down
                         @ [err_frame req ERR_EXEC_FAILED M_fd_dup_failed])))"

definition handle_spawn :: "kernel \<Rightarrow> u64 \<Rightarrow> json \<Rightarrow> holder \<Rightarrow> holder \<times> io list" where
  "handle_spawn k req body h =
     (case parse_spawn body of
        None \<Rightarrow> (h, [err_frame req ERR_INVALID M_serde])
      | Some spec \<Rightarrow>
          (case record_of h (sb_uid spec) of
             Some existing \<Rightarrow>
               (h, [err_frame_with req ERR_UID_EXISTS (M_uid_exists (sb_uid spec))
                      (D_incarnation (se_incarnation existing))])
           | None \<Rightarrow>
               (case do_spawn k spec of
                  (Inl e, ios) \<Rightarrow> (h, ios @ [err_frame req (spawn_err_code e) (M_spawn e)])
                | (Inr sp, ios) \<Rightarrow>
                    (let (h', ios') = install_spawned k req spec sp h in (h', ios @ ios')))))"

definition arm_entry :: "string option \<Rightarrow> session_entry \<Rightarrow> session_entry" where
  "arm_entry path e =
     e\<lparr> se_reap_armed := True, se_delivery_ready := True,
        se_cgroup_path := (if path \<noteq> None then path else se_cgroup_path e) \<rparr>"

definition handle_arm_reap :: "kernel \<Rightarrow> u64 \<Rightarrow> json \<Rightarrow> holder \<Rightarrow> holder \<times> io list" where
  "handle_arm_reap k req body h =
     (case parse_arm_reap body of
        None \<Rightarrow> (h, [err_frame req ERR_INVALID M_serde])
      | Some b \<Rightarrow>
          (case record_of h (ar_uid b) of
             None \<Rightarrow> (h, [err_frame req ERR_NOT_FOUND (M_no_record (ar_uid b))])
           | Some e \<Rightarrow>
               if se_incarnation e \<noteq> ar_incarnation b
               then (h, [err_frame req ERR_NOT_FOUND (M_incarnation_mismatch_for (ar_uid b))])
               else
                 let e1 = arm_entry (ar_cgroup_path b) e
                 in if se_exit_latched e1 \<and> se_exit e1 = None
                    then (let (e2, ios) = consume_exit k (ar_uid b) e1
                          in (set_record (ar_uid b) e2 h, ok_frame req # ios))
                    else (set_record (ar_uid b) e1 h,
                          ok_frame req #
                          (case se_exit e1 of
                             None \<Rightarrow> []
                           | Some x \<Rightarrow>
                               (case xr_pending x of None \<Rightarrow> [] | Some ev \<Rightarrow> [exit_frame ev])))))"

definition adopt_record_body_of :: "uid \<Rightarrow> session_entry \<Rightarrow> adopt_record_body" where
  "adopt_record_body_of u e =
     \<lparr> ad_uid = u, ad_incarnation = se_incarnation e, ad_generation_meta = se_generation_meta e,
       ad_child_pid = se_pid e, ad_child_start_time = se_child_start_time e,
       ad_cgroup_prefix = se_cgroup_prefix e, ad_cgroup_path = se_cgroup_path e,
       ad_watcher_checkpoint = se_watcher_checkpoint e,
       ad_last_signal_request = se_last_signal_request e, ad_reap_armed = se_reap_armed e,
       ad_reaped = (se_exit e \<noteq> None), ad_exit_event_pending = event_pending e \<rparr>"

definition adopt_entry :: "kernel \<Rightarrow> u64 \<Rightarrow> uid \<Rightarrow> session_entry \<Rightarrow> io" where
  "adopt_entry k req u e =
     (case (Option.bind (master_raw_fd (se_master e)) (k_dup k), k_dup k (se_pidfd e)) of
        (Some mdup, Some pdup) \<Rightarrow>
          Push (frame_new V_ADOPT_RECORD (Some req) 2 (AdoptRecordBody (adopt_record_body_of u e)))
            [mdup, pdup]
      | _ \<Rightarrow> err_frame req ERR_INVALID (M_adopt_record_dup u))"

definition adopt_listeners_frame :: "u64 \<Rightarrow> (listener_meta \<times> fd) list \<Rightarrow> io" where
  "adopt_listeners_frame req dups =
     Push (frame_new V_ADOPT_LISTENERS (Some req) (word_of_nat (length dups))
       (AdoptListenersBody (map fst dups))) (map snd dups)"

definition dup_listeners :: "kernel \<Rightarrow> (listener_meta \<times> fd) list \<Rightarrow> (listener_meta \<times> fd) list" where
  "dup_listeners k ls = List.map_filter (\<lambda>l. map_option (Pair (fst l)) (k_dup k (snd l))) ls"

definition handle_adopt :: "kernel \<Rightarrow> u64 \<Rightarrow> holder \<Rightarrow> holder \<times> io list" where
  "handle_adopt k req h =
     (h, map (\<lambda>x. adopt_entry k req (fst x) (snd x)) (hd_sessions h)
         @ map (\<lambda>l. err_frame req ERR_INVALID (M_adopt_listener_dup (lm_kind (fst l))))
             (filter (\<lambda>l. k_dup k (snd l) = None) (hd_listeners h))
         @ [adopt_listeners_frame req (dup_listeners k (hd_listeners h)),
            reply_frame V_ADOPT_DONE req (AdoptDoneBody (pending_exit_events h))])"

definition handle_signal :: "kernel \<Rightarrow> u64 \<Rightarrow> json \<Rightarrow> holder \<Rightarrow> holder \<times> io list" where
  "handle_signal k req body h =
     (case parse_signal body of
        None \<Rightarrow> (h, [err_frame req ERR_INVALID M_serde])
      | Some b \<Rightarrow>
          (case record_of h (sg_uid b) of
             None \<Rightarrow> (h, [err_frame req ERR_NOT_FOUND (M_no_record (sg_uid b))])
           | Some e \<Rightarrow>
               if se_incarnation e \<noteq> sg_incarnation b
               then (h, [err_frame req ERR_NOT_FOUND M_incarnation_mismatch])
               else if se_exit e \<noteq> None \<or> se_exit_latched e \<or> k_exit_ready k (se_pidfd e)
               then (h, [err_frame_with req ERR_ALREADY_EXITED (M_already_exited (sg_uid b))
                           (D_exited_at (map_option xr_exited_at (se_exit e)))])
               else
                 (case k_send_signal k (se_pidfd e) (sg_sig b) of
                    Delivered \<Rightarrow>
                      (set_record (sg_uid b)
                         (e\<lparr> se_last_signal_request := Some
                               \<lparr> ls_sig = sg_sig b, ls_attribution = sg_attribution b,
                                 ls_at = k_now k (se_pidfd e) \<rparr> \<rparr>) h,
                       [SendSignal (se_pidfd e) (sg_sig b), ok_frame req])
                  | Gone \<Rightarrow>
                      (h, [SendSignal (se_pidfd e) (sg_sig b),
                           err_frame req ERR_ALREADY_EXITED M_esrch])
                  | SignalErr \<Rightarrow>
                      (h, [SendSignal (se_pidfd e) (sg_sig b),
                           err_frame req ERR_INVALID M_pidfd_send_signal]))))"

definition handle_abort_spawn :: "u64 \<Rightarrow> json \<Rightarrow> holder \<Rightarrow> holder \<times> io list" where
  "handle_abort_spawn req body h =
     (case parse_record_key body of
        None \<Rightarrow> (h, [err_frame req ERR_INVALID M_serde])
      | Some b \<Rightarrow>
          (case record_of h (rk_uid b) of
             Some e \<Rightarrow>
               if se_incarnation e = rk_incarnation b
               then (remove_record (rk_uid b) h, kill_and_reap e @ [ok_frame req])
               else (h, [err_frame req ERR_NOT_FOUND (M_no_record (rk_uid b))])
           | None \<Rightarrow> (h, [err_frame req ERR_NOT_FOUND (M_no_record (rk_uid b))])))"

definition handle_update_checkpoint :: "u64 \<Rightarrow> json \<Rightarrow> holder \<Rightarrow> holder \<times> io list" where
  "handle_update_checkpoint req body h =
     (case parse_update_checkpoint body of
        None \<Rightarrow> (h, [err_frame req ERR_INVALID M_serde])
      | Some b \<Rightarrow>
          (case record_of h (uc_uid b) of
             Some e \<Rightarrow>
               if se_incarnation e = uc_incarnation b
               then (set_record (uc_uid b)
                       (e\<lparr> se_watcher_checkpoint := Some (uc_watcher_checkpoint b) \<rparr>) h,
                     [ok_frame req])
               else (h, [err_frame req ERR_NOT_FOUND (M_no_record (uc_uid b))])
           | None \<Rightarrow> (h, [err_frame req ERR_NOT_FOUND (M_no_record (uc_uid b))])))"

definition handle_store_listener ::
  "u64 \<Rightarrow> json \<Rightarrow> fd list \<Rightarrow> holder \<Rightarrow> (holder \<times> io list) \<times> serve_outcome option" where
  "handle_store_listener req body fds h =
     (case parse_store_listener body of
        None \<Rightarrow> ((h, [err_frame req ERR_INVALID M_serde]), None)
      | Some l \<Rightarrow>
          (case fds of
             [d] \<Rightarrow> ((store_listener_custody l d h, [ok_frame req]), None)
           | _ \<Rightarrow> ((h, []), Some (Protocol (PR_fd_count V_STORE_LISTENER (length fds))))))"

definition handle_forget :: "u64 \<Rightarrow> json \<Rightarrow> holder \<Rightarrow> holder \<times> io list" where
  "handle_forget req body h =
     (case parse_record_key body of
        None \<Rightarrow> (h, [err_frame req ERR_INVALID M_serde])
      | Some b \<Rightarrow>
          (case record_of h (rk_uid b) of
             None \<Rightarrow> (h, [err_frame req ERR_NOT_FOUND (M_no_record (rk_uid b))])
           | Some e \<Rightarrow>
               if se_incarnation e \<noteq> rk_incarnation b
               then (h, [err_frame req ERR_NOT_FOUND M_incarnation_mismatch])
               else if se_exit e = None
               then (h, [err_frame req ERR_NOT_EXITED (M_still_alive (rk_uid b))])
               else if event_pending e
               then (h, [err_frame req ERR_UNACKED (M_unacked (rk_uid b))])
               else (remove_record (rk_uid b) h, [ok_frame req])))"

definition ack_entry :: "session_entry \<Rightarrow> session_entry" where
  "ack_entry e = e\<lparr> se_exit := map_option (\<lambda>x. x\<lparr> xr_pending := None \<rparr>) (se_exit e) \<rparr>"

definition handle_ack_exit :: "u64 \<Rightarrow> json \<Rightarrow> holder \<Rightarrow> holder \<times> io list" where
  "handle_ack_exit req body h =
     (case parse_record_key body of
        None \<Rightarrow> (h, [err_frame req ERR_INVALID M_serde])
      | Some b \<Rightarrow>
          (case record_of h (rk_uid b) of
             Some e \<Rightarrow>
               if se_incarnation e = rk_incarnation b
               then (set_record (rk_uid b) (ack_entry e) h,
                     [ok_frame_with req (D_known (event_pending e))])
               else (h, [ok_frame_with req (D_known False)])
           | None \<Rightarrow> (h, [ok_frame_with req (D_known False)])))"

end
