(* ===== verification/HolderDispatch.thy ===== *)
theory HolderDispatch
  imports HolderVerbs
begin

text \<open>
  \<open>Holder::dispatch\<close>: the guards every frame passes, the two handshakes, the deploy verbs, and
  the table of verbs. A result pairs the holder and the actions with \<open>Some outcome\<close> when the
  frame ends the generation (the code's \<open>Err(outcome)\<close>).
\<close>

type_synonym verb_result = "(holder \<times> io list) \<times> serve_outcome option"

definition carry_on :: "holder \<times> io list \<Rightarrow> verb_result" where
  "carry_on r = (r, None)"

definition abort :: "holder \<Rightarrow> serve_outcome \<Rightarrow> verb_result" where
  "abort h out = ((h, []), Some out)"

definition preserved_capabilities :: "string list" where
  "preserved_capabilities = [''org_preserve_v1'']"

definition hello_info_of :: "holder \<Rightarrow> hello_info" where
  "hello_info_of h =
     \<lparr> hi_build_id = hc_holder_build_id (hd_cfg h), hi_proto_min = PROTO_VERSION_MIN,
       hi_proto_max = PROTO_VERSION_MAX, hi_epoch = hd_epoch h,
       hi_session_count = length (hd_sessions h), hi_capabilities = preserved_capabilities \<rparr>"

section \<open>The handshakes\<close>

definition lowest_common :: "hello_body \<Rightarrow> u32" where
  "lowest_common b = max (hb_proto_min b) PROTO_VERSION_MIN"

definition highest_common :: "hello_body \<Rightarrow> u32" where
  "highest_common b = min (hb_proto_max b) PROTO_VERSION_MAX"

text \<open>The first frame. The second component of the result is the new \<open>hello_done\<close>.\<close>

definition first_frame ::
  "u64 \<Rightarrow> json frame \<Rightarrow> holder \<Rightarrow> verb_result \<times> bool" where
  "first_frame req f h =
     (if verb_of (fr_v f) \<noteq> Some V_HELLO
      then (abort h (Protocol (PR_first_not_hello (fr_v f))), False)
      else
        case parse_hello (fr_body f) of
          None \<Rightarrow> (abort h (Protocol PR_hello_body), False)
        | Some b \<Rightarrow>
            if highest_common b < lowest_common b
            then (((h, [err_frame req ERR_PROTO_MISMATCH
                          (M_proto_mismatch (hb_proto_min b) (hb_proto_max b))]),
                   Some HelloRefused), False)
            else (carry_on (h\<lparr> hd_helloed_this_generation := True \<rparr>,
                    [reply_frame V_HELLO_REPLY req
                       (HelloReplyBody (highest_common b) (hello_info_of h))]), True))"

definition rehello_reply :: "json frame \<Rightarrow> holder \<Rightarrow> verb_result" where
  "rehello_reply f h =
     (case parse_hello (fr_body f) of
        None \<Rightarrow> abort h (Protocol PR_rehello_body)
      | Some b \<Rightarrow>
          if highest_common b < lowest_common b
          then abort h (Protocol (PR_upgrade_proto_mismatch (hb_proto_min b) (hb_proto_max b)))
          else carry_on (h\<lparr> hd_rehello_pending := None, hd_helloed_this_generation := True \<rparr>, []))"

section \<open>The deploy verbs\<close>

definition restart_brain :: "kernel \<Rightarrow> u64 \<Rightarrow> fd list \<Rightarrow> holder \<Rightarrow> verb_result" where
  "restart_brain k req fds h =
     (case deploy_conflict h of
        Some why \<Rightarrow> carry_on (h, [err_frame req ERR_INVALID (M_deploy_conflict why)])
      | None \<Rightarrow>
          (case fds of
             [pin] \<Rightarrow>
               carry_on (h\<lparr> hd_armed_deploy := Some (NewPin pin, k_instant k) \<rparr>, [ok_frame req])
           | _ \<Rightarrow> abort h (Protocol (PR_fd_count V_RESTART_BRAIN (length fds)))))"

definition rollback_brain :: "kernel \<Rightarrow> u64 \<Rightarrow> holder \<Rightarrow> holder \<times> io list" where
  "rollback_brain k req h =
     (case deploy_conflict h of
        Some why \<Rightarrow> (h, [err_frame req ERR_INVALID (M_deploy_conflict why)])
      | None \<Rightarrow>
          if \<not> hd_previous_pin_available h
          then (h, [err_frame req ERR_NOT_FOUND M_no_previous_pin])
          else (h\<lparr> hd_armed_deploy := Some (UsePrevious, k_instant k) \<rparr>, [ok_frame req]))"

definition cancel_pending :: "kernel \<Rightarrow> u64 \<Rightarrow> holder \<Rightarrow> holder \<times> io list" where
  "cancel_pending k req h =
     (let had = hd_armed_deploy h \<noteq> None;
          (h', ios) = sweep_latched_exits_into k (h\<lparr> hd_armed_deploy := None \<rparr>)
      in (h', ios @ [ok_frame_with req (D_disarmed had)]))"

definition rollback_record :: "u64 \<Rightarrow> json \<Rightarrow> holder \<Rightarrow> holder \<times> io list" where
  "rollback_record req body h =
     (case parse_rollback_record body of
        None \<Rightarrow> (h, [err_frame req ERR_INVALID M_serde])
      | Some b \<Rightarrow>
          (case record_of h (rr_uid b) of
             None \<Rightarrow> (h, [err_frame req ERR_NOT_FOUND (M_no_session (rr_uid b))])
           | Some e \<Rightarrow>
               if se_incarnation e \<noteq> rr_incarnation b
               then (h, [err_frame req ERR_NOT_FOUND
                           (M_session_is_incarnation (rr_uid b) (se_incarnation e)
                              (rr_incarnation b))])
               else (set_record (rr_uid b) (e\<lparr> se_rollback_record := Some (rr_record b) \<rparr>) h,
                     [ok_frame req])))"

definition drain_violation :: "uid \<times> session_entry \<Rightarrow> violation_note option" where
  "drain_violation x =
     (case se_exit (snd x) of
        Some r \<Rightarrow>
          if xr_pending r \<noteq> None then Some (ExitEventPending (fst x))
          else Some (ReapedButUnforgotten (fst x))
      | None \<Rightarrow>
          if se_rollback_record (snd x) = None then Some (LiveWithoutRollbackRecord (fst x))
          else None)"

definition drain_violations :: "sessions \<Rightarrow> violation_note list" where
  "drain_violations m = List.map_filter drain_violation m"

definition split_rollback :: "kernel \<Rightarrow> u64 \<Rightarrow> json \<Rightarrow> fd list \<Rightarrow> holder \<Rightarrow> verb_result" where
  "split_rollback k req body fds h =
     (case fds of
        [pin] \<Rightarrow>
          carry_on
            (case deploy_conflict h of
               Some why \<Rightarrow> (h, [err_frame req ERR_INVALID (M_deploy_conflict why)])
             | None \<Rightarrow>
                 (case parse_split_rollback body of
                    None \<Rightarrow> (h, [err_frame req ERR_INVALID M_serde])
                  | Some b \<Rightarrow>
                      let vs = drain_violations (hd_sessions h)
                      in if vs \<noteq> []
                         then (h, [err_frame_with req ERR_NOT_DRAINED (M_split_refused (length vs))
                                     (D_violations vs)])
                         else (h\<lparr> hd_armed_deploy := Some
                                    (ArmedSplitRollback pin (sr_reexec_generation b)
                                       (sr_manifest_schema_version b), k_instant k) \<rparr>,
                               [ok_frame req])))
      | _ \<Rightarrow> abort h (Protocol (PR_fd_count V_SPLIT_ROLLBACK (length fds))))"

definition reexec_holder :: "kernel \<Rightarrow> u64 \<Rightarrow> fd list \<Rightarrow> holder \<Rightarrow> verb_result" where
  "reexec_holder k req fds h =
     (case fds of
        [pin] \<Rightarrow>
          carry_on
            (case deploy_conflict h of
               Some why \<Rightarrow> (h, [err_frame req ERR_INVALID (M_deploy_conflict why)])
             | None \<Rightarrow>
                 if \<not> k_exec_shaped k pin then (h, [err_frame req ERR_INVALID M_bad_upgrade_pin])
                 else (h\<lparr> hd_pending_upgrade := Some pin \<rparr>, [ok_frame req]))
      | _ \<Rightarrow> abort h (Protocol (PR_fd_count V_REEXEC_HOLDER (length fds))))"

definition status_reply :: "holder \<Rightarrow> status_reply_body" where
  "status_reply h =
     \<lparr> st_sessions = length (hd_sessions h), st_pending_exit_events = pending_exit_events h,
       st_epoch = hd_epoch h,
       st_brain_restarts = (if hd_epoch h = 0 then 0 else hd_epoch h - 1),
       st_breaker_state = hd_breaker_label h,
       st_holder_build_id = hc_holder_build_id (hd_cfg h),
       st_pings_unanswered = hd_pings_unanswered h,
       st_previous_pin = hd_previous_pin_available h \<rparr>"

section \<open>The table\<close>

definition dispatch_verb ::
  "kernel \<Rightarrow> u64 \<Rightarrow> json frame \<Rightarrow> fd list \<Rightarrow> holder \<Rightarrow> verb_result" where
  "dispatch_verb k req f fds h =
     (case verb_of (fr_v f) of
        Some V_SPAWN \<Rightarrow> carry_on (handle_spawn k req (fr_body f) h)
      | Some V_ARM_REAP \<Rightarrow> carry_on (handle_arm_reap k req (fr_body f) h)
      | Some V_ADOPT \<Rightarrow> carry_on (handle_adopt k req h)
      | Some V_SIGNAL \<Rightarrow> carry_on (handle_signal k req (fr_body f) h)
      | Some V_ABORT_SPAWN \<Rightarrow> carry_on (handle_abort_spawn req (fr_body f) h)
      | Some V_UPDATE_CHECKPOINT \<Rightarrow> carry_on (handle_update_checkpoint req (fr_body f) h)
      | Some V_STORE_LISTENER \<Rightarrow> handle_store_listener req (fr_body f) fds h
      | Some V_RESTART_BRAIN \<Rightarrow> restart_brain k req fds h
      | Some V_ROLLBACK_BRAIN \<Rightarrow> carry_on (rollback_brain k req h)
      | Some V_CANCEL_PENDING \<Rightarrow> carry_on (cancel_pending k req h)
      | Some V_ROLLBACK_RECORD \<Rightarrow> carry_on (rollback_record req (fr_body f) h)
      | Some V_SPLIT_ROLLBACK \<Rightarrow> split_rollback k req (fr_body f) fds h
      | Some V_REEXEC_HOLDER \<Rightarrow> reexec_holder k req fds h
      | Some V_FORGET \<Rightarrow> carry_on (handle_forget req (fr_body f) h)
      | Some V_ACK_EXIT \<Rightarrow> carry_on (handle_ack_exit req (fr_body f) h)
      | Some V_STATUS \<Rightarrow>
          carry_on (h, [reply_frame V_OK req (StatusReplyBody (status_reply h))])
      | Some V_HELLO \<Rightarrow> abort h (Protocol PR_duplicate_hello)
      | _ \<Rightarrow> carry_on (h, [err_frame req ERR_UNSUPPORTED_VERB (M_unsupported_verb (fr_v f))]))"

definition takes_fds :: "string \<Rightarrow> bool" where
  "takes_fds v \<longleftrightarrow>
     v = verb_name V_STORE_LISTENER \<or> v = verb_name V_RESTART_BRAIN \<or>
     v = verb_name V_SPLIT_ROLLBACK \<or> v = verb_name V_REEXEC_HOLDER"

definition dispatch ::
  "kernel \<Rightarrow> json frame \<Rightarrow> fd list \<Rightarrow> holder \<times> bool
     \<Rightarrow> (holder \<times> bool) \<times> io list \<times> serve_outcome option" where
  "dispatch k f fds hb =
     (let (h, hello_done) = hb
      in if \<not> takes_fds (fr_v f) \<and> fds \<noteq> []
         then (hb, [], Some (Protocol (PR_unexpected_fds (fr_v f) (length fds))))
         else if fr_v f = verb_name V_PONG
         then ((h\<lparr> hd_pings_unanswered := 0 \<rparr>, hello_done), [], None)
         else
           case fr_req_id f of
             None \<Rightarrow> (hb, [], Some (Protocol (PR_no_req_id (fr_v f))))
           | Some req \<Rightarrow>
               if \<not> hello_done
               then (let (((h', ios), out), done) = first_frame req f h
                     in ((h', done), ios, out))
               else
                 (let ((h', ios), out) =
                    (if fr_v f = verb_name V_HELLO \<and> hd_rehello_pending h = Some req
                     then rehello_reply f h
                     else dispatch_verb k req f fds h)
                  in ((h', hello_done), ios, out)))"

end
