(* ===== verification/HolderServe.thy ===== *)
theory HolderServe
  imports HolderDispatch
begin

text \<open>
  The serve loop, \<open>Holder::serve_inner\<close> with its outbound queue. One pass of the loop is a
  function of the state and of a \<open>round\<close>: what \<open>poll\<close>, the clock, \<open>recvmsg\<close>, \<open>send\<close> and the
  signal callback answer during the pass. \<open>enc\<close> and \<open>dec\<close> are the JSON codec of a frame.

  An exhausted list of \<open>send\<close> answers stands for \<open>EAGAIN\<close>: the socket takes no more now.
\<close>

section \<open>The outbound queue\<close>

record out_frame =
  of_bytes :: bytes
  of_fds :: "fd list"
  of_sent :: nat

definition push_frame ::
  "(out_body frame \<Rightarrow> bytes) \<Rightarrow> out_body frame \<times> fd list \<Rightarrow> out_frame list \<Rightarrow> out_frame list option" where
  "push_frame enc x q =
     map_option (\<lambda>bs. q @ [\<lparr> of_bytes = bs, of_fds = snd x, of_sent = 0 \<rparr>]) (to_wire enc (fst x))"

text \<open>Queue the frames of an action list; \<open>None\<close> is the panic of \<open>to_wire\<close>.\<close>

fun push_frames ::
  "(out_body frame \<Rightarrow> bytes) \<Rightarrow> (out_body frame \<times> fd list) list \<Rightarrow> out_frame list
     \<Rightarrow> out_frame list option" where
  "push_frames enc [] q = Some q"
| "push_frames enc (x # xs) q =
     (case push_frame enc x q of None \<Rightarrow> None | Some q' \<Rightarrow> push_frames enc xs q')"

definition push_all ::
  "(out_body frame \<Rightarrow> bytes) \<Rightarrow> io list \<Rightarrow> out_frame list \<Rightarrow> out_frame list option" where
  "push_all enc ios q = push_frames enc (pushed ios) q"

datatype flush_error = PeerGone | FlushFatal errno

text \<open>\<open>flush_outbound\<close>: what went on the stream, what is left, and how it ended.\<close>

fun flush_outbound ::
  "send_answer list \<Rightarrow> out_frame list \<Rightarrow> segment list \<times> out_frame list \<times> flush_error option" where
  "flush_outbound as [] = ([], [], None)"
| "flush_outbound [] q = ([], q, None)"
| "flush_outbound (Sent n # as) (x # q) =
     (let seg = (take n (drop (of_sent x) (of_bytes x)), if of_sent x = 0 then of_fds x else []);
          x' = x\<lparr> of_fds := (if of_sent x = 0 then [] else of_fds x), of_sent := of_sent x + n \<rparr>;
          (segs, q', r) =
            flush_outbound as (if length (of_bytes x) \<le> of_sent x' then q else x' # q)
      in (seg # segs, q', r))"
| "flush_outbound (SendErr e # as) (x # q) =
     ([], x # q,
      case e of
        EAGAIN \<Rightarrow> None
      | EINTR \<Rightarrow> None
      | EPIPE \<Rightarrow> Some PeerGone
      | ECONNRESET \<Rightarrow> Some PeerGone
      | _ \<Rightarrow> Some (FlushFatal e))"

text \<open>\<open>best_effort_flush\<close> over the rounds that fit before its deadline.\<close>

fun best_effort_flush ::
  "send_answer list list \<Rightarrow> out_frame list \<Rightarrow> segment list \<times> out_frame list" where
  "best_effort_flush [] q = ([], q)"
| "best_effort_flush (as # rounds) q =
     (if q = [] then ([], [])
      else case flush_outbound as q of
             (segs, q', Some _) \<Rightarrow> (segs, q')
           | (segs, q', None) \<Rightarrow>
               (let (segs', q'') = best_effort_flush rounds q' in (segs @ segs', q'')))"

section \<open>State and input of a pass\<close>

record serve_state =
  sv_holder :: holder
  sv_channel :: fd
  sv_reader :: frame_reader
  sv_outbound :: "out_frame list"
  sv_hello_done :: bool
  sv_handshake_deadline :: millis
  sv_next_ping :: "millis option"

record poll_round =
  pl_poll_error :: "errno option"
  pl_channel_ready :: bool
  pl_extra_ready :: bool
  pl_exit_ready :: "uid \<Rightarrow> bool"
  pl_signal :: "(status_snapshot \<Rightarrow> signal_directive) option"
  pl_recv :: recv_answer
  pl_send :: "send_answer list"
  pl_flush_rounds :: "send_answer list list"
  pl_at_handshake :: millis
  pl_at_disarm :: millis
  pl_at_ping :: millis
  pl_at_next_ping :: millis
  pl_kernel :: kernel
  pl_frame_kernel :: "nat \<Rightarrow> kernel"

datatype serve_step =
    Go serve_state
  | Return serve_outcome holder
  | Panic

section \<open>Before the loop\<close>

definition fresh_generation :: "holder \<Rightarrow> holder" where
  "fresh_generation h =
     h\<lparr> hd_epoch := hd_epoch h + 1, hd_helloed_this_generation := False,
        hd_sessions := map (\<lambda>x. (fst x, (snd x)\<lparr> se_delivery_ready := False \<rparr>)) (hd_sessions h) \<rparr>"

definition serve_reset :: "holder \<Rightarrow> holder" where
  "serve_reset h =
     h\<lparr> hd_pings_unanswered := 0, hd_rehello_pending := None, hd_pending_upgrade := None \<rparr>"

definition serve_start ::
  "(out_body frame \<Rightarrow> bytes) \<Rightarrow> bool \<Rightarrow> millis \<Rightarrow> millis \<Rightarrow> fd \<Rightarrow> holder \<Rightarrow> serve_step" where
  "serve_start enc resumed t_deadline t_ping channel h =
     (let h1 = (if resumed then serve_reset h else fresh_generation (serve_reset h));
          h2 = (if resumed
                then h1\<lparr> hd_helloed_this_generation := False, hd_rehello_pending := Some 1 \<rparr>
                else h1);
          hello = (if resumed
                   then [reply_frame V_REHELLO 1 (RehelloBody (hello_info_of h2))] else [])
      in case push_all enc hello [] of
           None \<Rightarrow> Panic
         | Some q \<Rightarrow>
             Go \<lparr> sv_holder = h2, sv_channel = channel, sv_reader = frame_reader_new,
                  sv_outbound = q, sv_hello_done = resumed,
                  sv_handshake_deadline = t_deadline + hc_handshake_timeout (hd_cfg h2),
                  sv_next_ping = map_option (\<lambda>d. t_ping + d) (hc_ping_interval (hd_cfg h2)) \<rparr>)"

section \<open>The poll set and its timeout\<close>

definition polled_uids :: "holder \<Rightarrow> uid list" where
  "polled_uids h =
     map fst (filter (\<lambda>x. se_exit (snd x) = None \<and> \<not> se_exit_latched (snd x)) (hd_sessions h))"

definition awaiting_hello :: "serve_state \<Rightarrow> bool" where
  "awaiting_hello st \<longleftrightarrow> \<not> sv_hello_done st \<or> hd_rehello_pending (sv_holder st) \<noteq> None"

definition poll_deadlines :: "serve_state \<Rightarrow> millis list" where
  "poll_deadlines st =
     (if awaiting_hello st then [sv_handshake_deadline st] else [])
     @ (case sv_next_ping st of None \<Rightarrow> [] | Some t \<Rightarrow> [t])
     @ (case hd_armed_deploy (sv_holder st) of None \<Rightarrow> [] | Some (_, at) \<Rightarrow> [at + ARM_AUTO_DISARM])"

definition poll_timeout_ms :: "millis \<Rightarrow> serve_state \<Rightarrow> nat" where
  "poll_timeout_ms now st =
     (case poll_deadlines st of
        [] \<Rightarrow> 60000
      | d # ds \<Rightarrow> max 1 (min 60000 (fold min ds d - now)))"

section \<open>The stages of a pass\<close>

definition auto_disarm :: "kernel \<Rightarrow> millis \<Rightarrow> holder \<Rightarrow> holder \<times> io list" where
  "auto_disarm k t h =
     (case hd_armed_deploy h of
        None \<Rightarrow> (h, [])
      | Some (_, at) \<Rightarrow>
          if at + ARM_AUTO_DISARM \<le> t
          then sweep_latched_exits_into k (h\<lparr> hd_armed_deploy := None \<rparr>)
          else (h, []))"

definition ping_io :: "u64 \<Rightarrow> io" where
  "ping_io seq = Push (frame_new V_PING None 0 (PingBody seq)) []"

text \<open>The ping timer: \<open>None\<close> when nothing is due, else the holder and whether it gives up.\<close>

definition ping_stage :: "millis \<Rightarrow> serve_state \<Rightarrow> (holder \<times> bool) option" where
  "ping_stage t st =
     (case sv_next_ping st of
        None \<Rightarrow> None
      | Some np \<Rightarrow>
          if sv_hello_done st \<and> np \<le> t
          then (let h = sv_holder st;
                    h' = h\<lparr> hd_ping_seq := hd_ping_seq h + 1,
                            hd_pings_unanswered := hd_pings_unanswered h + 1 \<rparr>
                in Some (h', WEDGE_MISSED_PONGS \<le> hd_pings_unanswered h'))
          else None)"

definition status_snapshot_of :: "holder \<Rightarrow> status_snapshot" where
  "status_snapshot_of h =
     \<lparr> ss_sessions = length (hd_sessions h), ss_pending_exit_events = pending_exit_events h,
       ss_epoch = hd_epoch h \<rparr>"

definition asks_shutdown :: "poll_round \<Rightarrow> holder \<Rightarrow> bool" where
  "asks_shutdown rd h \<longleftrightarrow>
     hc_extra_fd (hd_cfg h) \<noteq> None \<and> pl_extra_ready rd \<and>
     (case pl_signal rd of None \<Rightarrow> False | Some cb \<Rightarrow> cb (status_snapshot_of h) = SigShutdown)"

definition child_exit ::
  "kernel \<Rightarrow> bool \<Rightarrow> uid list \<Rightarrow> (uid \<Rightarrow> bool) \<Rightarrow> uid \<Rightarrow> session_entry \<Rightarrow> session_entry \<times> io list" where
  "child_exit k split_armed uids ready u e =
     (if u \<in> set uids \<and> ready u
      then if se_reap_armed e \<and> \<not> split_armed then consume_exit k u e
           else (e\<lparr> se_exit_latched := True \<rparr>, [])
      else (e, []))"

definition child_exits ::
  "kernel \<Rightarrow> uid list \<Rightarrow> (uid \<Rightarrow> bool) \<Rightarrow> holder \<Rightarrow> holder \<times> io list" where
  "child_exits k uids ready h =
     (let (m, ios) = over_sessions (child_exit k (split_rollback_armed h) uids ready) (hd_sessions h)
      in (h\<lparr> hd_sessions := m \<rparr>, ios))"

text \<open>
  One frame: dispatch it and queue its replies. The loop over the frames carries the holder, the
  handshake flag, the actions so far, the queue and the number of frames handled; \<open>Some None\<close>
  stops it with a panic.
\<close>

type_synonym frame_loop = "(holder \<times> bool) \<times> io list \<times> out_frame list \<times> nat"

definition on_frame ::
  "(out_body frame \<Rightarrow> bytes) \<Rightarrow> (nat \<Rightarrow> kernel) \<Rightarrow> json frame \<Rightarrow> fd list \<Rightarrow> frame_loop
     \<Rightarrow> frame_loop \<times> serve_outcome option option" where
  "on_frame enc ks f fds s =
     (let (hb, acc, q, i) = s;
          (hb', ios, out) = dispatch (ks i) f fds hb
      in case push_all enc ios q of
           None \<Rightarrow> ((hb', acc @ ios, q, Suc i), Some None)
         | Some q' \<Rightarrow> ((hb', acc @ ios, q', Suc i), map_option Some out))"

text \<open>After the channel was read: flush, bound the queue, surface an accepted upgrade.\<close>

type_synonym pass_result = "io list \<times> segment list \<times> serve_step"

definition after_io :: "io list \<Rightarrow> pass_result \<Rightarrow> pass_result" where
  "after_io ios r = (ios @ fst r, snd r)"

definition finish_pass :: "poll_round \<Rightarrow> serve_state \<Rightarrow> segment list \<times> serve_step" where
  "finish_pass rd st =
     (case flush_outbound (pl_send rd) (sv_outbound st) of
        (segs, q, Some PeerGone) \<Rightarrow> (segs, Return BrainEof (sv_holder st))
      | (segs, q, Some (FlushFatal e)) \<Rightarrow> (segs, Return (Protocol (PR_send e)) (sv_holder st))
      | (segs, q, None) \<Rightarrow>
          let h = sv_holder st
          in (segs,
              if hc_outbound_max_frames (hd_cfg h) < length q
              then Return (Wedged (WR_outbound (hc_outbound_max_frames (hd_cfg h)))) h
              else
                case hd_pending_upgrade h of
                  Some pin \<Rightarrow>
                    if q = [] \<and> is_idle (sv_reader st)
                    then Return (HolderUpgrade pin (sv_channel st)) (h\<lparr> hd_pending_upgrade := None \<rparr>)
                    else Go (st\<lparr> sv_outbound := q \<rparr>)
                | None \<Rightarrow> Go (st\<lparr> sv_outbound := q \<rparr>)))"

definition flush_and_return ::
  "poll_round \<Rightarrow> out_frame list \<Rightarrow> serve_outcome \<Rightarrow> holder \<Rightarrow> pass_result" where
  "flush_and_return rd q out h =
     ([], fst (best_effort_flush (pl_flush_rounds rd) q), Return out h)"

definition channel_stage ::
  "(out_body frame \<Rightarrow> bytes) \<Rightarrow> (bytes \<Rightarrow> json frame option) \<Rightarrow> poll_round \<Rightarrow> serve_state
     \<Rightarrow> pass_result" where
  "channel_stage enc dec rd st =
     (if \<not> pl_channel_ready rd then ([], finish_pass rd st)
      else
        case feed (pl_recv rd) (sv_reader st) of
          Inl v \<Rightarrow> ([], [], Return (Protocol (PR_violation v)) (sv_holder st))
        | Inr (r, Eof) \<Rightarrow> ([], [], Return BrainEof (sv_holder st))
        | Inr (r, _) \<Rightarrow>
            (case each_frame dec (on_frame enc (pl_frame_kernel rd)) r
                    ((sv_holder st, sv_hello_done st), [], sv_outbound st, 0) of
               (r', ((h, b), ios, q, i), Drained) \<Rightarrow>
                 (ios, finish_pass rd
                    (st\<lparr> sv_holder := h, sv_reader := r', sv_outbound := q, sv_hello_done := b \<rparr>))
             | (r', ((h, b), ios, q, i), Violated v) \<Rightarrow>
                 (ios, [], Return (Protocol (PR_violation v)) h)
             | (r', ((h, b), ios, q, i), Stopped None) \<Rightarrow> (ios, [], Panic)
             | (r', ((h, b), ios, q, i), Stopped (Some out)) \<Rightarrow>
                 after_io ios (flush_and_return rd q out h)))"

text \<open>The part of a pass after the timers: the signal callback, the child exits, the channel.\<close>

definition exits_and_channel ::
  "(out_body frame \<Rightarrow> bytes) \<Rightarrow> (bytes \<Rightarrow> json frame option) \<Rightarrow> poll_round \<Rightarrow> uid list \<Rightarrow> serve_state
     \<Rightarrow> pass_result" where
  "exits_and_channel enc dec rd uids st =
     (if asks_shutdown rd (sv_holder st)
      then flush_and_return rd (sv_outbound st) ShutdownRequested (sv_holder st)
      else
        let (h, ios) = child_exits (pl_kernel rd) uids (pl_exit_ready rd) (sv_holder st)
        in case push_all enc ios (sv_outbound st) of
             None \<Rightarrow> (ios, [], Panic)
           | Some q \<Rightarrow>
               after_io ios (channel_stage enc dec rd (st\<lparr> sv_holder := h, sv_outbound := q \<rparr>)))"

section \<open>A pass and the loop\<close>

definition serve_pass ::
  "(out_body frame \<Rightarrow> bytes) \<Rightarrow> (bytes \<Rightarrow> json frame option) \<Rightarrow> poll_round \<Rightarrow> serve_state
     \<Rightarrow> pass_result" where
  "serve_pass enc dec rd st =
     (case pl_poll_error rd of
        Some EINTR \<Rightarrow> ([], [], Go st)
      | Some e \<Rightarrow> ([], [], Return (Protocol (PR_poll e)) (sv_holder st))
      | None \<Rightarrow>
          if awaiting_hello st \<and> sv_handshake_deadline st \<le> pl_at_handshake rd
          then ([], [], Return HelloTimeout (sv_holder st))
          else
            let uids = polled_uids (sv_holder st);
                (h1, ios1) = auto_disarm (pl_kernel rd) (pl_at_disarm rd) (sv_holder st)
            in case push_all enc ios1 (sv_outbound st) of
                 None \<Rightarrow> (ios1, [], Panic)
               | Some q1 \<Rightarrow>
                   after_io ios1
                     (case ping_stage (pl_at_ping rd) (st\<lparr> sv_holder := h1 \<rparr>) of
                        None \<Rightarrow>
                          exits_and_channel enc dec rd uids
                            (st\<lparr> sv_holder := h1, sv_outbound := q1 \<rparr>)
                      | Some (h2, True) \<Rightarrow>
                          ([], [], Return (Wedged (WR_pings (hd_pings_unanswered h2))) h2)
                      | Some (h2, False) \<Rightarrow>
                          (case push_all enc [ping_io (hd_ping_seq h2)] q1 of
                             None \<Rightarrow> ([], [], Panic)
                           | Some q2 \<Rightarrow>
                               after_io [ping_io (hd_ping_seq h2)]
                                 (exits_and_channel enc dec rd uids
                                    (st\<lparr> sv_holder := h2, sv_outbound := q2,
                                         sv_next_ping := map_option (\<lambda>d. pl_at_next_ping rd + d)
                                           (hc_ping_interval (hd_cfg h2)) \<rparr>)))))"

fun serve_loop ::
  "(out_body frame \<Rightarrow> bytes) \<Rightarrow> (bytes \<Rightarrow> json frame option) \<Rightarrow> poll_round list \<Rightarrow> serve_state
     \<Rightarrow> pass_result" where
  "serve_loop enc dec [] st = ([], [], Go st)"
| "serve_loop enc dec (rd # rds) st =
     (case serve_pass enc dec rd st of
        (ios, segs, Go st') \<Rightarrow>
          (case serve_loop enc dec rds st' of (ios', segs', r) \<Rightarrow> (ios @ ios', segs @ segs', r))
      | (ios, segs, r) \<Rightarrow> (ios, segs, r))"

text \<open>\<open>serve\<close> (\<open>resumed = False\<close>) and \<open>serve_resumed\<close>.\<close>

definition serve_inner ::
  "(out_body frame \<Rightarrow> bytes) \<Rightarrow> (bytes \<Rightarrow> json frame option) \<Rightarrow> bool \<Rightarrow> millis \<Rightarrow> millis
     \<Rightarrow> poll_round list \<Rightarrow> fd \<Rightarrow> holder \<Rightarrow> pass_result" where
  "serve_inner enc dec resumed t_deadline t_ping rds channel h =
     (case serve_start enc resumed t_deadline t_ping channel h of
        Go st \<Rightarrow> serve_loop enc dec rds st
      | r \<Rightarrow> ([], [], r))"

end
