(* ===== verification/Supervisor.thy ===== *)
theory Supervisor
  imports Prelude
begin

text \<open>
  The brain-supervision decisions of \<open>holder/src/supervisor.rs\<close>: the breaker that counts
  consecutive failures and picks a backoff, and the pair of pinned brain binaries. The side
  effects (fork, exec, sleeps) are in the supervisor loop of \<open>holder/src/main.rs\<close>.

  The code's \<open>u32\<close> counter is a 32-bit word whose \<open>+ 1\<close> wraps, as in a release build.
\<close>

section \<open>The breaker\<close>

definition TRIP_AFTER :: u32 where
  "TRIP_AFTER = 3"

datatype breaker_decision =
    Respawn millis
  | Rollback
  | HoldDown

record breaker =
  br_consecutive_failures :: u32
  br_backoff :: millis
  br_backoff_floor :: millis
  br_backoff_cap :: millis
  br_stable_horizon :: millis

definition breaker_default :: breaker where
  "breaker_default =
     \<lparr> br_consecutive_failures = 0,
       br_backoff = 500,
       br_backoff_floor = 500,
       br_backoff_cap = 30 * 1000,
       br_stable_horizon = 600 * 1000 \<rparr>"

definition restore_failures :: "u32 \<Rightarrow> breaker \<Rightarrow> breaker" where
  "restore_failures n b = b\<lparr> br_consecutive_failures := n \<rparr>"

definition note_deploy :: "breaker \<Rightarrow> breaker" where
  "note_deploy b = b\<lparr> br_consecutive_failures := 0, br_backoff := br_backoff_floor b \<rparr>"

definition breaker_reset :: "breaker \<Rightarrow> breaker" where
  "breaker_reset b = b\<lparr> br_consecutive_failures := 0, br_backoff := br_backoff_floor b \<rparr>"

definition note_failure ::
  "breaker \<Rightarrow> millis \<Rightarrow> bool \<Rightarrow> bool \<Rightarrow> breaker \<times> breaker_decision" where
  "note_failure b ran_for helloed has_previous_pin =
     (let b1 = (if helloed \<and> br_stable_horizon b \<le> ran_for
                then b\<lparr> br_consecutive_failures := 0, br_backoff := br_backoff_floor b \<rparr>
                else b);
          n = br_consecutive_failures b1 + 1;
          b2 = b1\<lparr> br_consecutive_failures := n \<rparr>
      in if TRIP_AFTER \<le> n
         then (b2\<lparr> br_consecutive_failures := 0, br_backoff := br_backoff_floor b2 \<rparr>,
               if has_previous_pin then Rollback else HoldDown)
         else (b2\<lparr> br_backoff := min (br_backoff b2 * 2) (br_backoff_cap b2) \<rparr>,
               Respawn (br_backoff b2)))"

text \<open>A generation that answered \<open>hello\<close> and lived for the horizon is a stable run.\<close>

definition stable_run :: "breaker \<Rightarrow> millis \<Rightarrow> bool \<Rightarrow> bool" where
  "stable_run b ran_for helloed \<longleftrightarrow> helloed \<and> br_stable_horizon b \<le> ran_for"

definition is_trip :: "breaker_decision \<Rightarrow> bool" where
  "is_trip d \<longleftrightarrow> (case d of Respawn _ \<Rightarrow> False | _ \<Rightarrow> True)"

text \<open>The decisions a breaker makes over a list of failures \<open>(ran_for, helloed, previous)\<close>.\<close>

fun failure_decisions :: "breaker \<Rightarrow> (millis \<times> bool \<times> bool) list \<Rightarrow> breaker_decision list" where
  "failure_decisions b [] = []"
| "failure_decisions b ((r, h, p) # fs) =
     snd (note_failure b r h p) # failure_decisions (fst (note_failure b r h p)) fs"

definition strikes :: "breaker \<Rightarrow> nat" where
  "strikes b = unat (br_consecutive_failures b)"

lemma strikes_Suc:
  "strikes b < 3 \<Longrightarrow> unat (br_consecutive_failures b + 1) = Suc (strikes b)"
  unfolding strikes_def by (subst unat_plus_if') auto

lemma trip_iff:
  "strikes b < 3 \<Longrightarrow> TRIP_AFTER \<le> br_consecutive_failures b + 1 \<longleftrightarrow> strikes b = 2"
  using strikes_Suc [of b] by (auto simp: TRIP_AFTER_def word_le_nat_alt)

lemma note_failure_unstable:
  assumes "strikes b < 3" and "\<not> stable_run b r h"
  shows "is_trip (snd (note_failure b r h p)) \<longleftrightarrow> strikes b = 2"
    and "strikes (fst (note_failure b r h p)) = (strikes b + 1) mod 3"
    and "br_stable_horizon (fst (note_failure b r h p)) = br_stable_horizon b"
  using assms trip_iff [OF assms(1)] strikes_Suc [OF assms(1)]
  by (auto simp: note_failure_def stable_run_def is_trip_def Let_def strikes_def)

text \<open>The breaker trips on exactly every third strike. In any sequence of failures with no
  stable run among them, whatever their lengths and whether or not each brain said hello, a
  decision is a rollback or a hold-down exactly at every third failure, counted from the strikes
  the breaker already has; a trip starts the count again.\<close>
theorem every_third_strike_trips:
  assumes "strikes b < 3"
    and "\<forall>(r, h, p)\<in>set fs. \<not> stable_run b r h"
    and "i < length fs"
  shows "is_trip (failure_decisions b fs ! i) \<longleftrightarrow> (strikes b + i + 1) mod 3 = 0"
  using assms
proof (induction fs arbitrary: b i)
  case Nil
  then show ?case by simp
next
  case (Cons f fs)
  obtain r h p where f: "f = (r, h, p)" by (cases f)
  let ?b = "fst (note_failure b r h p)"
  have u: "\<not> stable_run b r h" using Cons.prems(2) f by auto
  note nf = note_failure_unstable [OF Cons.prems(1) u, of p]
  show ?case
  proof (cases i)
    case 0
    then show ?thesis using nf(1) f Cons.prems(1) by (auto simp: mod_eq_0_iff_dvd) presburger+
  next
    case (Suc j)
    have "is_trip (failure_decisions ?b fs ! j) \<longleftrightarrow> (strikes ?b + j + 1) mod 3 = 0"
    proof (rule Cons.IH)
      show "strikes ?b < 3" using nf(2) by simp
      show "\<forall>(r, h, p)\<in>set fs. \<not> stable_run ?b r h"
        using Cons.prems(2) nf(3) by (auto simp: stable_run_def)
      show "j < length fs" using Cons.prems(3) Suc by simp
    qed
    also have "(strikes ?b + j + 1) mod 3 = (strikes b + i + 1) mod 3"
      unfolding nf(2) Suc by (simp only: add.assoc mod_add_left_eq add_Suc_right add_Suc
          plus_1_eq_Suc)
    finally show ?thesis using f Suc by simp
  qed
qed

theorem every_third_strike_trips_witness:
  "is_trip (failure_decisions breaker_default
     [(10, True, True), (0, False, True), (600001, False, True)] ! 2)"
  by (subst every_third_strike_trips)
    (simp_all add: strikes_def breaker_default_def stable_run_def)

text \<open>What a breaker starting from the defaults can be: the backoff has doubled at most once for
  each strike.\<close>

definition default_like :: "breaker \<Rightarrow> bool" where
  "default_like b \<longleftrightarrow> strikes b < 3 \<and> br_backoff b \<in> {500 * 2 ^ i |i. i \<le> strikes b} \<and>
     br_backoff_floor b = 500 \<and> br_backoff_cap b = 30000"

lemma default_like_backoff:
  "default_like b \<Longrightarrow> strikes b \<le> 1 \<Longrightarrow> br_backoff b \<in> {500, 1000}"
  by (auto simp: default_like_def le_Suc_eq)

lemma note_failure_default_like:
  assumes "default_like b"
  shows "default_like (fst (note_failure b r h p)) \<and>
    (\<forall>d. snd (note_failure b r h p) = Respawn d \<longrightarrow> d \<in> {500, 1000})"
proof -
  define b1 where "b1 = (if h \<and> br_stable_horizon b \<le> r
      then b\<lparr> br_consecutive_failures := 0, br_backoff := br_backoff_floor b \<rparr> else b)"
  have b1: "default_like b1"
    using assms by (auto simp: b1_def default_like_def strikes_def)
  have nf: "note_failure b r h p =
     (if TRIP_AFTER \<le> br_consecutive_failures b1 + 1
      then (b1\<lparr> br_consecutive_failures := 0, br_backoff := br_backoff_floor b1 \<rparr>,
            if p then Rollback else HoldDown)
      else (b1\<lparr> br_consecutive_failures := br_consecutive_failures b1 + 1,
               br_backoff := min (br_backoff b1 * 2) (br_backoff_cap b1) \<rparr>,
            Respawn (br_backoff b1)))"
    by (simp add: note_failure_def b1_def Let_def)
  have s: "strikes b1 < 3" using b1 by (simp add: default_like_def)
  show ?thesis
  proof (cases "strikes b1 = 2")
    case True
    then have "TRIP_AFTER \<le> br_consecutive_failures b1 + 1" using trip_iff [OF s] by simp
    then show ?thesis using b1 unfolding nf by (auto simp: default_like_def strikes_def)
  next
    case False
    then have le: "strikes b1 \<le> 1" and "\<not> TRIP_AFTER \<le> br_consecutive_failures b1 + 1"
      using s trip_iff [OF s] by auto
    moreover obtain i where i: "br_backoff b1 = 500 * 2 ^ i" "i \<le> strikes b1"
      using b1 by (auto simp: default_like_def)
    moreover have "min (500 * 2 ^ i * 2) 30000 = (500 * 2 ^ Suc i :: nat)"
      using i(2) le by (cases i) (auto simp: le_Suc_eq)
    moreover have "strikes (b1\<lparr> br_consecutive_failures := br_consecutive_failures b1 + 1,
        br_backoff := x \<rparr>) = Suc (strikes b1)" for x
      using strikes_Suc [OF s] by (simp add: strikes_def)
    ultimately show ?thesis
      using b1 default_like_backoff [OF b1] unfolding nf
      by (auto simp: default_like_def intro!: exI [of _ "Suc i"])
  qed
qed

lemma failure_decisions_backoffs:
  "default_like b \<Longrightarrow> Respawn d \<in> set (failure_decisions b fs) \<Longrightarrow> d \<in> {500, 1000}"
proof (induction fs arbitrary: b)
  case Nil
  then show ?case by simp
next
  case (Cons f fs)
  obtain r h p where f: "f = (r, h, p)" by (cases f)
  show ?case
    using Cons note_failure_default_like [OF Cons.prems(1), of r h p] by (auto simp: f dest: sym)
qed

text \<open>With its default settings the breaker waits half a second or one second before a respawn
  and never longer: the third strike trips it before a third doubling, so the thirty-second cap
  on the backoff is never reached, whatever brains it watches.\<close>
theorem default_backoff_is_at_most_a_second:
  assumes "Respawn d \<in> set (failure_decisions breaker_default fs)"
  shows "d = 500 \<or> d = 1000"
proof -
  have "default_like breaker_default"
    by (auto simp: default_like_def breaker_default_def strikes_def)
  from failure_decisions_backoffs [OF this assms] show ?thesis by simp
qed

theorem default_backoff_is_at_most_a_second_witness:
  "snd (note_failure breaker_default 0 False True) = Respawn 500 \<and> (500 = (500 :: nat) \<or> 500 = (1000 :: nat))"
proof
  show d: "snd (note_failure breaker_default 0 False True) = Respawn 500"
    by (simp add: note_failure_def breaker_default_def TRIP_AFTER_def Let_def word_le_nat_alt)
  show "500 = (500 :: nat) \<or> 500 = (1000 :: nat)"
    by (rule default_backoff_is_at_most_a_second [of 500 "[(0, False, True)]"]) (simp add: d)
qed

section \<open>The pair of pins\<close>

record 'p pin_set =
  ps_current :: "'p option"
  ps_previous :: "'p option"

definition pin_set_default :: "'p pin_set" where
  "pin_set_default = \<lparr> ps_current = None, ps_previous = None \<rparr>"

definition install_new :: "'p \<Rightarrow> 'p pin_set \<Rightarrow> 'p pin_set" where
  "install_new pin ps = ps\<lparr> ps_previous := ps_current ps, ps_current := Some pin \<rparr>"

definition pin_rollback :: "'p pin_set \<Rightarrow> 'p pin_set \<times> bool" where
  "pin_rollback ps =
     (case ps_previous ps of
        Some prev \<Rightarrow> (ps\<lparr> ps_previous := None, ps_current := Some prev \<rparr>, True)
      | None \<Rightarrow> (ps\<lparr> ps_current := None \<rparr>, False))"

definition replace_current :: "'p \<Rightarrow> 'p pin_set \<Rightarrow> 'p pin_set" where
  "replace_current pin ps = ps\<lparr> ps_current := Some pin \<rparr>"

definition pins_of :: "'p pin_set \<Rightarrow> 'p set" where
  "pins_of ps = set_option (ps_current ps) \<union> set_option (ps_previous ps)"

datatype 'p pin_op = Install 'p | PinRollback | Replace 'p

fun pin_step :: "'p pin_set \<Rightarrow> 'p pin_op \<Rightarrow> 'p pin_set" where
  "pin_step ps (Install p) = install_new p ps"
| "pin_step ps PinRollback = fst (pin_rollback ps)"
| "pin_step ps (Replace p) = replace_current p ps"

text \<open>The pin an operation brings in from outside.\<close>

fun op_pin :: "'p pin_op \<Rightarrow> 'p option" where
  "op_pin (Install p) = Some p"
| "op_pin PinRollback = None"
| "op_pin (Replace p) = Some p"

lemma pin_step_pins: "pins_of (pin_step ps x) \<subseteq> pins_of ps \<union> set_option (op_pin x)"
  by (cases x)
    (auto simp: pins_of_def install_new_def pin_rollback_def replace_current_def
      split: option.splits)

interpretation absent_pin: invariant_system pin_step "\<lambda>ps x. op_pin x \<noteq> Some q" "\<lambda>ps. q \<notin> pins_of ps"
  for q
proof
  fix s :: "'a pin_set" and e q
  assume "q \<notin> pins_of s" and "op_pin e \<noteq> Some q"
  then show "q \<notin> pins_of (pin_step s e)"
    using pin_step_pins [of s e] by auto
qed

text \<open>A binary that was rolled away from does not come back by itself. A rollback that has a
  previous pin discards the current one, and after that no sequence of rollbacks and installs
  makes the discarded pin current or previous again unless it is installed or substituted anew.\<close>
theorem rolled_back_pin_stays_away:
  assumes "ps_current ps = Some bad" and "ps_previous ps = Some good" and "good \<noteq> bad"
    and "Some bad \<notin> op_pin ` set xs"
  shows "ps_current (fst (pin_rollback ps)) = Some good \<and>
    bad \<notin> pins_of (absent_pin.run (fst (pin_rollback ps)) xs)"
proof
  show "ps_current (fst (pin_rollback ps)) = Some good"
    using assms(2) by (simp add: pin_rollback_def)
  have "absent_pin.may_run bad ps' xs" for ps' :: "'a pin_set"
    using assms(4) by (induction xs arbitrary: ps') auto
  moreover have "bad \<notin> pins_of (fst (pin_rollback ps))"
    using assms(2,3) by (simp add: pin_rollback_def pins_of_def)
  ultimately show "bad \<notin> pins_of (absent_pin.run (fst (pin_rollback ps)) xs)"
    by (intro absent_pin.run_inv) auto
qed

theorem rolled_back_pin_stays_away_witness:
  "ps_current (fst (pin_rollback \<lparr> ps_current = Some 7, ps_previous = Some (5 :: nat) \<rparr>)) = Some 5 \<and>
   7 \<notin> pins_of (absent_pin.run (fst (pin_rollback \<lparr> ps_current = Some 7, ps_previous = Some (5 :: nat) \<rparr>))
     [Install 9, PinRollback, PinRollback])"
  by (rule rolled_back_pin_stays_away) simp_all

end
