(* ===== verification/SupervisorExec.thy ===== *)
theory SupervisorExec
  imports HolderServe Supervisor
begin

text \<open>
  The boot modes and exec paths of \<open>holder/src/main.rs\<close>: reading a manifest and taking over what
  it names (\<open>migration_boot\<close>, \<open>upgrade_boot\<close>), and writing a manifest and replacing the process
  image (\<open>holder_upgrade_exec\<close>, \<open>split_rollback_exec\<close>, \<open>migration_rollback_exec\<close>).

  A successful exec never returns, so its result is the new image: the pinned binary, the
  arguments, the environment and the sealed file it inherits. A failed one returns a reason.
\<close>

section \<open>Parameters and actions\<close>

text \<open>The codecs of \<open>serde_json\<close> and \<open>sha2\<close>, which are not part of the repository.\<close>

record codec =
  cd_sha :: "bytes \<Rightarrow> bytes"
  cd_enc_frame :: "out_body frame \<Rightarrow> bytes"
  cd_dec_frame :: "bytes \<Rightarrow> json frame option"
  cd_enc_manifest :: "reexec_manifest \<Rightarrow> bytes"
  cd_dec_manifest :: "bytes \<Rightarrow> reexec_manifest option"
  cd_enc_upgrade :: "holder_upgrade_manifest \<Rightarrow> bytes"
  cd_dec_upgrade :: "bytes \<Rightarrow> holder_upgrade_manifest option"
  cd_f64_of_int :: "int \<Rightarrow> f64"

record brain_handle =
  bh_pid :: pid
  bh_pidfd :: fd

datatype sup_io =
    HolderIo io
  | BrainSpawned brain_handle
  | BrainSignal brain_handle int
  | BrainReaped brain_handle
  | SetCloexec fd
  | ClearCloexec fd
  | CloseFd fd
  | Execveat fd "string list" "(string \<times> string) list"
  | RemoveFile string

definition sigkill_and_reap :: "brain_handle \<Rightarrow> sup_io list" where
  "sigkill_and_reap b = [BrainSignal b SIGKILL, BrainReaped b]"

definition brain_reap :: "brain_handle \<Rightarrow> sup_io list" where
  "brain_reap b = [BrainReaped b]"

text \<open>\<open>to_string\<close> of a descriptor.\<close>

fun nat_text :: "nat \<Rightarrow> string" where
  "nat_text n =
     (if n < 10 then [char_of (48 + n)] else nat_text (n div 10) @ [char_of (48 + n mod 10)])"

declare nat_text.simps [simp del]

definition fd_text :: "fd \<Rightarrow> string" where
  "fd_text d = (if d < 0 then CHR ''-'' # nat_text (nat (- d)) else nat_text (nat d))"

definition opt_fds :: "fd option \<Rightarrow> fd list" where
  "opt_fds d = (case d of None \<Rightarrow> [] | Some x \<Rightarrow> [x])"

section \<open>Replacing the process image\<close>

record exec_image =
  im_target :: fd
  im_argv :: "string list"
  im_env :: "(string \<times> string) list"
  im_memfd :: "fd \<times> bytes"

text \<open>What the system answers on an exec path: the number of the sealed memfd (\<open>None\<close> when it
  cannot be made), the duplicate of the pin, and whether \<open>execveat\<close> comes back.\<close>

record exec_env =
  xe_memfd :: "fd option"
  xe_dup :: "fd option"
  xe_returns :: bool

datatype exec_failure =
    EF_dup
  | EF_compose rollback_error
  | EF_write manifest_error
  | EF_write_upgrade holder_manifest_error
  | EF_memfd
  | EF_exec

text \<open>Clear the close-on-exec flag of what crosses, exec, and if that returns set it again.\<close>

definition exec_across ::
  "exec_env \<Rightarrow> bool \<Rightarrow> fd \<Rightarrow> string list \<Rightarrow> string \<Rightarrow> fd \<Rightarrow> bytes \<Rightarrow> fd list
     \<Rightarrow> sup_io list \<times> (exec_failure + exec_image)" where
  "exec_across xe restore target argv key memfd bs inherit =
     (let env = [(key, fd_text memfd)];
          out = map ClearCloexec inherit @ [Execveat target argv env]
      in if xe_returns xe
         then (out @ (if restore then map SetCloexec inherit else []), Inl EF_exec)
         else (out, Inr \<lparr> im_target = target, im_argv = argv, im_env = env,
                         im_memfd = (memfd, bs) \<rparr>))"

definition holder_upgrade_exec ::
  "codec \<Rightarrow> exec_env \<Rightarrow> holder \<Rightarrow> fd \<Rightarrow> fd \<Rightarrow> brain_handle \<Rightarrow> fd pin_set \<Rightarrow> breaker \<Rightarrow> string
     \<Rightarrow> sup_io list \<times> (exec_failure + exec_image)" where
  "holder_upgrade_exec cd xe h pin channel b pins br path =
     (let m = upgrade_snapshot h
            (Some \<lparr> bn_pid = bh_pid b, bn_pidfd = bh_pidfd b, bn_channel_fd = channel \<rparr>)
            (ps_current pins) (ps_previous pins) (br_consecutive_failures br) path
      in case write_holder_manifest (cd_sha cd) (cd_enc_upgrade cd) m of
           Inl e \<Rightarrow> ([], Inl (EF_write_upgrade e))
         | Inr bs \<Rightarrow>
             (case xe_memfd xe of
                None \<Rightarrow> ([], Inl EF_memfd)
              | Some memfd \<Rightarrow>
                  exec_across xe True pin [''cm-holder'', ''--brain'', path]
                    ENV_HOLDER_MANIFEST_FD memfd bs
                    (escrow_fds h @ [memfd, channel, bh_pidfd b] @ opt_fds (ps_current pins)
                     @ opt_fds (ps_previous pins))))"

definition split_rollback_exec ::
  "codec \<Rightarrow> exec_env \<Rightarrow> holder \<Rightarrow> fd \<Rightarrow> u64 \<Rightarrow> u32
     \<Rightarrow> sup_io list \<times> (exec_failure + exec_image)" where
  "split_rollback_exec cd xe h pin reexec_generation schema_version =
     (case xe_dup xe of
        None \<Rightarrow> ([], Inl EF_dup)
      | Some rollback_dup \<Rightarrow>
          (case rollback_manifest (cd_f64_of_int cd) h schema_version reexec_generation rollback_dup of
             Inl e \<Rightarrow> ([], Inl (EF_compose e))
           | Inr m \<Rightarrow>
               (case write_manifest (cd_sha cd) (cd_enc_manifest cd) m of
                  Inl e \<Rightarrow> ([], Inl (EF_write e))
                | Inr bs \<Rightarrow>
                    (case xe_memfd xe of
                       None \<Rightarrow> ([], Inl EF_memfd)
                     | Some memfd \<Rightarrow>
                         exec_across xe True pin [''cm-daemon''] ENV_MANIFEST_FD memfd bs
                           (escrow_fds h @ [memfd, rollback_dup])))))"

section \<open>Migration boot\<close>

record migration_rollback =
  mr_manifest :: reexec_manifest
  mr_rollback_fd :: fd
  mr_session_fds :: "(fd \<times> fd) list"
  mr_listener_fd :: fd
  mr_tls_listener_fd :: "fd option"
  mr_brain :: "brain_handle option"

datatype corrupt_reason =
    CR_manifest manifest_error
  | CR_schema_version u32
  | CR_roles manifest_error

datatype init_failure =
    IF_test_hook
  | IF_starttime_mismatch uid u64 u64
  | IF_starttime_read uid string

datatype migration_boot_error =
    Corrupt corrupt_reason
  | InitFailed init_failure migration_rollback

text \<open>What a boot asks of the system: the file behind the named fd and how reading it goes, the
  probes of the fds it names, the kernel, \<open>getsockname\<close>, and the value of the test variable.\<close>

record boot_env =
  be_file :: memfd_view
  be_preads :: "pread_answer list"
  be_probes :: fd_probes
  be_kernel :: kernel
  be_listener_path :: "fd \<Rightarrow> string option"
  be_fail_hook :: "string option"

text \<open>The identity check of the sessions, in order; \<open>None\<close> when all pass.\<close>

fun identity_failure :: "kernel \<Rightarrow> session_record list \<Rightarrow> init_failure option" where
  "identity_failure k [] = None"
| "identity_failure k (s # ss) =
     (if k_exit_ready k (sr_pidfd s) then identity_failure k ss
      else
        case k_read_starttime k (sr_child_pid s) of
          Inl e \<Rightarrow> Some (IF_starttime_read (sr_uid s) e)
        | Inr t \<Rightarrow>
            if t = sr_child_start_time s then identity_failure k ss
            else Some (IF_starttime_mismatch (sr_uid s) t (sr_child_start_time s)))"

definition migration_hygiene :: "reexec_manifest \<Rightarrow> split_roles \<Rightarrow> sup_io list" where
  "migration_hygiene m sp =
     map SetCloexec
       (concat (map (\<lambda>s. [sr_pty_master_fd s, sr_pidfd s]) (rm_sessions m))
        @ [rm_listener_fd m] @ opt_fds (rm_tls_listener_fd m)
        @ [sl_channel_fd sp, sl_brain_pidfd sp, sl_brain_pin_fd sp]
        @ opt_fds (sl_brain_pin_previous_fd sp) @ [rm_rollback_bin_fd m])"

definition migration_holder :: "boot_env \<Rightarrow> holder_config \<Rightarrow> reexec_manifest \<Rightarrow> holder" where
  "migration_holder be cfg m =
     (let h1 = fold (\<lambda>s. adopt_migrated_session s (sr_pty_master_fd s) (sr_pidfd s))
            (rm_sessions m) (holder_new cfg);
          path = (case be_listener_path be (rm_listener_fd m) of None \<Rightarrow> [] | Some p \<Rightarrow> p);
          h2 = store_listener_custody \<lparr> lm_kind = ''unix'', lm_meta = path \<rparr> (rm_listener_fd m) h1
      in case rm_tls_listener_fd m of
           None \<Rightarrow> h2
         | Some d \<Rightarrow> store_listener_custody \<lparr> lm_kind = ''tls'', lm_meta = [] \<rparr> d h2)"

text \<open>
  The whole boot. The outer \<open>None\<close> is a read that has not finished, the inner one the panic of
  \<open>expect("v4 validated \<dots> split present")\<close>. On an init failure the channel and the brain
  pins, which the rollback does not take, are closed on the way out.
\<close>

definition migration_boot ::
  "codec \<Rightarrow> boot_env \<Rightarrow> fd \<Rightarrow> holder_config
     \<Rightarrow> (sup_io list \<times> (migration_boot_error + holder \<times> brain_handle \<times> fd \<times> fd pin_set) option) option"
  where
  "migration_boot cd be fd cfg =
     (case read_manifest (cd_sha cd) (cd_dec_manifest cd) (be_preads be) (be_file be) of
        None \<Rightarrow> None
      | Some (Inl e) \<Rightarrow> Some ([], Some (Inl (Corrupt (CR_manifest e))))
      | Some (Inr m) \<Rightarrow> Some
          (if rm_schema_version m \<noteq> MANIFEST_SCHEMA_VERSION_SPLIT
           then ([], Some (Inl (Corrupt (CR_schema_version (rm_schema_version m)))))
           else
             case validate_fd_roles (be_probes be) m of
               Inl e \<Rightarrow> ([], Some (Inl (Corrupt (CR_roles e))))
             | Inr _ \<Rightarrow>
                 (case rm_split m of
                    None \<Rightarrow> ([], None)
                  | Some sp \<Rightarrow>
                      let b = \<lparr> bh_pid = sl_brain_pid sp, bh_pidfd = sl_brain_pidfd sp \<rparr>;
                          setup = CloseFd fd # migration_hygiene m sp;
                          rb = \<lparr> mr_manifest = m, mr_rollback_fd = rm_rollback_bin_fd m,
                                 mr_session_fds =
                                   map (\<lambda>s. (sr_pty_master_fd s, sr_pidfd s)) (rm_sessions m),
                                 mr_listener_fd = rm_listener_fd m,
                                 mr_tls_listener_fd = rm_tls_listener_fd m, mr_brain = Some b \<rparr>;
                          fail = (\<lambda>why. (setup @ map CloseFd (opt_fds (sl_brain_pin_previous_fd sp)
                                    @ [sl_brain_pin_fd sp, sl_channel_fd sp]),
                                  Some (Inl (InitFailed why rb))))
                      in if be_fail_hook be = Some ''1'' then fail IF_test_hook
                         else
                           case identity_failure (be_kernel be) (rm_sessions m) of
                             Some why \<Rightarrow> fail why
                           | None \<Rightarrow>
                               (setup @ [CloseFd (rm_rollback_bin_fd m)],
                                Some (Inr (migration_holder be cfg m, b, sl_channel_fd sp,
                                  replace_current (sl_brain_pin_fd sp)
                                    (pin_set_default
                                       \<lparr> ps_previous := sl_brain_pin_previous_fd sp \<rparr>)))))))"

definition fresh_manifest :: "reexec_manifest \<Rightarrow> reexec_manifest" where
  "fresh_manifest m =
     m\<lparr> rm_schema_version :=
          (case rm_rollback_schema_version m of None \<Rightarrow> MANIFEST_SCHEMA_VERSION | Some v \<Rightarrow> v),
        rm_attempt := (if rm_attempt m = -1 then -1 else rm_attempt m + 1),
        rm_split := None, rm_rollback_schema_version := None \<rparr>"

definition migration_rollback_exec ::
  "codec \<Rightarrow> exec_env \<Rightarrow> migration_rollback \<Rightarrow> sup_io list \<times> (exec_failure + exec_image)" where
  "migration_rollback_exec cd xe rb =
     (case write_manifest (cd_sha cd) (cd_enc_manifest cd) (fresh_manifest (mr_manifest rb)) of
        Inl e \<Rightarrow> ([], Inl (EF_write e))
      | Inr bs \<Rightarrow>
          (case xe_memfd xe of
             None \<Rightarrow> ([], Inl EF_memfd)
           | Some memfd \<Rightarrow>
               let (ios, r) = exec_across xe False (mr_rollback_fd rb) [''cm-daemon'']
                     ENV_MANIFEST_FD memfd bs
                     ([memfd, mr_rollback_fd rb, mr_listener_fd rb] @ opt_fds (mr_tls_listener_fd rb)
                      @ concat (map (\<lambda>x. [fst x, snd x]) (mr_session_fds rb)))
               in ((case mr_brain rb of None \<Rightarrow> [] | Some b \<Rightarrow> sigkill_and_reap b) @ ios, r)))"

section \<open>Upgrade boot\<close>

datatype upgrade_boot_error =
    UB_manifest holder_manifest_error
  | UB_identity uid u64 "string + u64"

fun upgrade_identity_failure ::
  "kernel \<Rightarrow> holder_session_record list \<Rightarrow> upgrade_boot_error option" where
  "upgrade_identity_failure k [] = None"
| "upgrade_identity_failure k (s # ss) =
     (if k_exit_ready k (hs_pidfd s) then upgrade_identity_failure k ss
      else
        case k_read_starttime k (hs_child_pid s) of
          Inr t \<Rightarrow>
            if t = hs_child_start_time s then upgrade_identity_failure k ss
            else Some (UB_identity (hs_uid s) (hs_child_start_time s) (Inr t))
        | Inl e \<Rightarrow> Some (UB_identity (hs_uid s) (hs_child_start_time s) (Inl e)))"

type_synonym live_brain = "brain_handle \<times> fd \<times> bool"

definition upgrade_boot ::
  "codec \<Rightarrow> boot_env \<Rightarrow> fd \<Rightarrow> holder_config
     \<Rightarrow> (sup_io list \<times> (upgrade_boot_error
          + holder \<times> holder_upgrade_manifest \<times> live_brain option \<times> fd pin_set)) option" where
  "upgrade_boot cd be fd cfg =
     (case read_holder_manifest (cd_sha cd) (cd_dec_upgrade cd) (be_preads be) (be_file be) of
        None \<Rightarrow> None
      | Some (Inl e) \<Rightarrow> Some ([], Inl (UB_manifest e))
      | Some (Inr m) \<Rightarrow> Some
          (case validate_holder_fd_roles (be_probes be) m of
             Inl e \<Rightarrow> ([], Inl (UB_manifest e))
           | Inr _ \<Rightarrow>
               (case upgrade_identity_failure (be_kernel be) (hu_sessions m) of
                  Some e \<Rightarrow> ([], Inl e)
                | None \<Rightarrow>
                    let h = restore_from_upgrade cfg m;
                        pins = \<lparr> ps_current = hu_brain_pin_fd m,
                                 ps_previous = hu_brain_pin_previous_fd m \<rparr>;
                        live = map_option
                          (\<lambda>b. (\<lparr> bh_pid = bn_pid b, bh_pidfd = bn_pidfd b \<rparr>, bn_channel_fd b, True))
                          (hu_brain m)
                    in (CloseFd fd #
                        map SetCloexec
                          (escrow_fds h
                           @ (case live of None \<Rightarrow> [] | Some (b, ch, _) \<Rightarrow> [bh_pidfd b, ch])
                           @ opt_fds (ps_current pins) @ opt_fds (ps_previous pins)),
                        Inr (h, m, live, pins)))))"

end
