(* ===== verification/SupervisorLoop.thy ===== *)
theory SupervisorLoop
  imports SupervisorExec
begin

text \<open>
  The supervisor of \<open>holder/src/main.rs\<close>: its command line and tunables, the signal handling and
  the waits, the stop-everything sequence, the boot and the loop that keeps a brain alive.

  One turn of the loop is a function of the state and of a \<open>turn\<close>: what the system answers while
  it runs. A wait that is not over when its answers run out is \<open>None\<close>.
\<close>

section \<open>Arguments and tunables\<close>

definition env_ms :: "string option \<Rightarrow> nat \<Rightarrow> millis" where
  "env_ms v default_ms =
     (case Option.bind v parse_u64 of None \<Rightarrow> default_ms | Some n \<Rightarrow> unat n)"

fun parse_args :: "string list \<Rightarrow> string option \<Rightarrow> bool \<Rightarrow> string + string option \<times> bool" where
  "parse_args [] path preflight = Inr (path, preflight)"
| "parse_args (a # as) path preflight =
     (if a = ''--brain''
      then (case as of [] \<Rightarrow> Inr (None, preflight) | p # as' \<Rightarrow> parse_args as' (Some p) preflight)
      else if a = ''--holder-preflight'' then parse_args as path True
      else Inl a)"

section \<open>Signals and waits\<close>

definition SIGHUP :: int where "SIGHUP = 1"
definition SIGINT :: int where "SIGINT = 2"
definition SIGUSR1 :: int where "SIGUSR1 = 10"
definition SIGUSR2 :: int where "SIGUSR2 = 12"

text \<open>\<open>drain_signals\<close> over the signal numbers it reads before a short read.\<close>

fun drain_signals_from :: "bool \<Rightarrow> bool \<Rightarrow> int list \<Rightarrow> bool \<times> bool" where
  "drain_signals_from shutdown usr2 [] = (shutdown, usr2)"
| "drain_signals_from shutdown usr2 (s # ss) =
     (if s = SIGTERM \<or> s = SIGINT then drain_signals_from True usr2 ss
      else if s = SIGUSR2 then drain_signals_from shutdown True ss
      else drain_signals_from shutdown usr2 ss)"

definition drain_signals :: "int list \<Rightarrow> bool \<times> bool" where
  "drain_signals = drain_signals_from False False"

definition handle_signal_fd :: "int list \<Rightarrow> status_snapshot \<Rightarrow> signal_directive" where
  "handle_signal_fd pending snap = (if fst (drain_signals pending) then SigShutdown else SigContinue)"

datatype held_down_event = HdRetry | HdShutdown

text \<open>One turn of the wait: the clock, whether \<open>poll\<close> reports the signalfd, what it holds.\<close>

record wait_tick =
  wt_now :: millis
  wt_ready :: bool
  wt_signals :: "int list"

fun held_down_wait :: "millis \<Rightarrow> wait_tick list \<Rightarrow> held_down_event option" where
  "held_down_wait deadline [] = None"
| "held_down_wait deadline (t # ts) =
     (if deadline \<le> wt_now t then Some HdRetry
      else if wt_ready t
      then (let (shutdown, usr2) = drain_signals (wt_signals t)
            in if shutdown then Some HdShutdown
               else if usr2 then Some HdRetry
               else held_down_wait deadline ts)
      else held_down_wait deadline ts)"

definition sleep_or_shutdown :: "millis \<Rightarrow> wait_tick list \<Rightarrow> bool option" where
  "sleep_or_shutdown deadline ts =
     map_option (\<lambda>e. case e of HdShutdown \<Rightarrow> True | HdRetry \<Rightarrow> False) (held_down_wait deadline ts)"

section \<open>The stop-everything sequence\<close>

text \<open>Waiting for the brain: at each tick whether its pidfd is ready, and the clock.\<close>

fun await_brain :: "brain_handle \<Rightarrow> millis \<Rightarrow> (bool \<times> millis) list \<Rightarrow> sup_io list option" where
  "await_brain b deadline [] = None"
| "await_brain b deadline ((ready, now) # ts) =
     (if ready then Some (brain_reap b)
      else if deadline \<le> now then Some (sigkill_and_reap b)
      else await_brain b deadline ts)"

definition BRAIN_STOP_GRACE :: millis where
  "BRAIN_STOP_GRACE = 10 * 1000"

definition stop_brain ::
  "brain_handle option \<Rightarrow> millis \<Rightarrow> (bool \<times> millis) list \<Rightarrow> sup_io list option" where
  "stop_brain brain t0 ts =
     (case brain of
        None \<Rightarrow> Some []
      | Some b \<Rightarrow>
          map_option (\<lambda>ios. BrainSignal b SIGTERM # ios) (await_brain b (t0 + BRAIN_STOP_GRACE) ts))"

definition shutdown_sequence ::
  "brain_handle option \<Rightarrow> millis \<Rightarrow> (bool \<times> millis) list \<Rightarrow> holder
     \<Rightarrow> (sup_io list \<times> holder) option" where
  "shutdown_sequence brain t0 ts h =
     (case stop_brain brain t0 ts of
        None \<Rightarrow> None
      | Some ios \<Rightarrow>
          (case shutdown_kill_all h of
             (h', killed, kills) \<Rightarrow>
               Some (ios @ map HolderIo kills @
                     (case custodied_unix_path h' of
                        None \<Rightarrow> []
                      | Some path \<Rightarrow> if path \<noteq> [] then [RemoveFile path] else []), h')))"

section \<open>The state and the answers of a turn\<close>

record supervisor =
  su_holder :: holder
  su_breaker :: breaker
  su_pins :: "fd pin_set"
  su_live :: "live_brain option"

record turn =
  tn_pin_from_path :: "fd option"
  tn_spawn :: "string + brain_handle \<times> fd"
  tn_wait_deadline_base :: millis
  tn_wait :: "wait_tick list"
  tn_stop_start :: millis
  tn_stop :: "(bool \<times> millis) list"
  tn_ran_for :: millis
  tn_serve_deadline :: millis
  tn_serve_ping :: millis
  tn_rounds :: "poll_round list"
  tn_kernel :: kernel
  tn_exec :: exec_env

text \<open>How a turn ends: the loop goes on, the process exits or is replaced, a panic unwinds it, or
  the answers ran out inside a wait or inside the serve loop.\<close>

datatype sup_step =
    SGo supervisor
  | SExit int holder
  | SReplaced exec_image
  | SPanic
  | SBlocked

type_synonym turn_result = "sup_io list \<times> sup_step"

definition with_io :: "sup_io list \<Rightarrow> turn_result \<Rightarrow> turn_result" where
  "with_io ios r = (ios @ fst r, snd r)"

definition shutdown_turn :: "turn \<Rightarrow> brain_handle option \<Rightarrow> holder \<Rightarrow> turn_result" where
  "shutdown_turn t brain h =
     (case shutdown_sequence brain (tn_stop_start t) (tn_stop t) h of
        None \<Rightarrow> ([], SBlocked)
      | Some (ios, h') \<Rightarrow> (ios, SExit 0 h'))"

text \<open>\<open>apply_failure\<close>; the spawn-failure branch of the loop is the same with a run of length zero
  that never said hello.\<close>

definition apply_failure :: "turn \<Rightarrow> millis \<Rightarrow> bool \<Rightarrow> supervisor \<Rightarrow> turn_result" where
  "apply_failure t ran_for helloed s =
     (let (br, d) = note_failure (su_breaker s) ran_for helloed (ps_previous (su_pins s) \<noteq> None);
          s' = s\<lparr> su_breaker := br \<rparr>
      in case d of
           Respawn backoff \<Rightarrow>
             (case sleep_or_shutdown (tn_wait_deadline_base t + backoff) (tn_wait t) of
                None \<Rightarrow> ([], SBlocked)
              | Some True \<Rightarrow> shutdown_turn t None (su_holder s')
              | Some False \<Rightarrow> ([], SGo s'))
         | Rollback \<Rightarrow> ([], SGo (s'\<lparr> su_pins := fst (pin_rollback (su_pins s')) \<rparr>))
         | HoldDown \<Rightarrow> ([], SGo (s'\<lparr> su_pins := (su_pins s')\<lparr> ps_current := None \<rparr> \<rparr>)))"

section \<open>After a generation\<close>

text \<open>The deploy the brain had armed when it exited.\<close>

definition run_deploy :: "codec \<Rightarrow> turn \<Rightarrow> armed_deploy \<Rightarrow> supervisor \<Rightarrow> turn_result" where
  "run_deploy cd t d s =
     (case d of
        NewPin pin \<Rightarrow>
          ([], SGo (s\<lparr> su_breaker := note_deploy (su_breaker s),
                       su_pins := install_new pin (su_pins s) \<rparr>))
      | UsePrevious \<Rightarrow>
          ([], SGo (s\<lparr> su_breaker := note_deploy (su_breaker s),
                       su_pins := fst (pin_rollback (su_pins s)) \<rparr>))
      | ArmedSplitRollback pin generation schema \<Rightarrow>
          (case split_rollback_exec cd (tn_exec t) (su_holder s) pin generation schema of
             (ios, Inr im) \<Rightarrow> (ios, SReplaced im)
           | (ios, Inl _) \<Rightarrow>
               (let (h, swept) = sweep_latched_exits (tn_kernel t) (su_holder s)
                in (ios @ map HolderIo swept, SGo (s\<lparr> su_holder := h \<rparr>)))))"

definition after_generation ::
  "codec \<Rightarrow> turn \<Rightarrow> string \<Rightarrow> brain_handle \<Rightarrow> serve_outcome \<Rightarrow> supervisor \<Rightarrow> turn_result" where
  "after_generation cd t path b out s =
     (let h = su_holder s;
          helloed = hd_helloed_this_generation h
      in case out of
           ShutdownRequested \<Rightarrow> shutdown_turn t (Some b) h
         | HolderUpgrade pin channel \<Rightarrow>
             (case holder_upgrade_exec cd (tn_exec t) h pin channel b (su_pins s) (su_breaker s) path of
                (ios, Inr im) \<Rightarrow> (ios, SReplaced im)
              | (ios, Inl _) \<Rightarrow> (ios, SGo (s\<lparr> su_live := Some (b, channel, True) \<rparr>)))
         | BrainEof \<Rightarrow>
             with_io (brain_reap b)
               (case take_armed_deploy h of
                  (h', Some d) \<Rightarrow> run_deploy cd t d (s\<lparr> su_holder := h' \<rparr>)
                | (h', None) \<Rightarrow> apply_failure t (tn_ran_for t) helloed (s\<lparr> su_holder := h' \<rparr>))
         | Wedged _ \<Rightarrow>
             with_io (sigkill_and_reap b)
               (apply_failure t (tn_ran_for t) helloed
                  (s\<lparr> su_holder := fst (take_armed_deploy h) \<rparr>))
         | Protocol _ \<Rightarrow>
             with_io (sigkill_and_reap b)
               (apply_failure t (tn_ran_for t) helloed
                  (s\<lparr> su_holder := fst (take_armed_deploy h) \<rparr>))
         | HelloTimeout \<Rightarrow> with_io (sigkill_and_reap b) (apply_failure t (tn_ran_for t) False s)
         | HelloRefused \<Rightarrow> with_io (sigkill_and_reap b) (apply_failure t (tn_ran_for t) False s))"

section \<open>A turn of the loop\<close>

definition serve_generation ::
  "codec \<Rightarrow> turn \<Rightarrow> string \<Rightarrow> live_brain \<Rightarrow> supervisor \<Rightarrow> turn_result" where
  "serve_generation cd t path lb s =
     (case lb of
        (b, channel, resumed) \<Rightarrow>
          with_io [HolderIo (OomScoreAdjZero (bh_pid b))]
            (case serve_inner (cd_enc_frame cd) (cd_dec_frame cd) resumed (tn_serve_deadline t)
                    (tn_serve_ping t) (tn_rounds t) channel (su_holder s) of
               (ios, segs, Go st) \<Rightarrow> (map HolderIo ios, SBlocked)
             | (ios, segs, Panic) \<Rightarrow> (map HolderIo ios, SPanic)
             | (ios, segs, Return out h) \<Rightarrow>
                 with_io (map HolderIo ios) (after_generation cd t path b out (s\<lparr> su_holder := h \<rparr>))))"

definition held_down_turn :: "turn \<Rightarrow> millis \<Rightarrow> supervisor \<Rightarrow> turn_result" where
  "held_down_turn t retry s =
     (let s' = s\<lparr> su_holder :=
                   set_supervisor_status ''held_down'' (ps_previous (su_pins s) \<noteq> None) (su_holder s) \<rparr>
      in case held_down_wait (tn_wait_deadline_base t + retry) (tn_wait t) of
           None \<Rightarrow> ([], SBlocked)
         | Some HdRetry \<Rightarrow>
             ([], SGo (case tn_pin_from_path t of
                         Some pin \<Rightarrow> s'\<lparr> su_pins := replace_current pin (su_pins s'),
                                       su_breaker := breaker_reset (su_breaker s') \<rparr>
                       | None \<Rightarrow> s'))
         | Some HdShutdown \<Rightarrow> shutdown_turn t None (su_holder s'))"

definition supervise_turn ::
  "codec \<Rightarrow> string \<Rightarrow> millis \<Rightarrow> turn \<Rightarrow> supervisor \<Rightarrow> turn_result" where
  "supervise_turn cd path retry t s =
     (if ps_current (su_pins s) = None \<and> su_live s = None then held_down_turn t retry s
      else
        let s' = s\<lparr> su_holder :=
                     set_supervisor_status ''running'' (ps_previous (su_pins s) \<noteq> None) (su_holder s) \<rparr>
        in case su_live s' of
             Some lb \<Rightarrow> serve_generation cd t path lb (s'\<lparr> su_live := None \<rparr>)
           | None \<Rightarrow>
               (case tn_spawn t of
                  Inr (b, channel) \<Rightarrow>
                    with_io [BrainSpawned b] (serve_generation cd t path (b, channel, False) s')
                | Inl _ \<Rightarrow> apply_failure t 0 False s'))"

fun supervise ::
  "codec \<Rightarrow> string \<Rightarrow> millis \<Rightarrow> turn list \<Rightarrow> supervisor \<Rightarrow> turn_result" where
  "supervise cd path retry [] s = ([], SGo s)"
| "supervise cd path retry (t # ts) s =
     (case supervise_turn cd path retry t s of
        (ios, SGo s') \<Rightarrow> with_io ios (supervise cd path retry ts s')
      | r \<Rightarrow> r)"

section \<open>The boot\<close>

text \<open>Which of the three boots runs, over the environment the process starts with. The exit codes
  of the failed ones are the code's.\<close>

datatype boot_step =
    BGo supervisor
  | BExit int
  | BReplaced exec_image
  | BPanic
  | BBlocked

definition breaker_at_boot :: "millis \<Rightarrow> breaker" where
  "breaker_at_boot horizon = breaker_default\<lparr> br_stable_horizon := horizon \<rparr>"

definition pin_at_boot :: "fd option \<Rightarrow> fd pin_set \<Rightarrow> fd pin_set" where
  "pin_at_boot found pins =
     (if ps_current pins = None
      then (case found of Some pin \<Rightarrow> replace_current pin pins | None \<Rightarrow> pins)
      else pins)"

definition boot ::
  "codec \<Rightarrow> boot_env \<Rightarrow> exec_env \<Rightarrow> holder_config \<Rightarrow> millis \<Rightarrow> fd option
     \<Rightarrow> (string \<times> string) list \<Rightarrow> (string \<times> string) list \<times> sup_io list \<times> boot_step" where
  "boot cd be xe cfg horizon found env =
     (let br = breaker_at_boot horizon;
          (env1, up) = consume_env ENV_HOLDER_MANIFEST_FD env
      in case up of
           Some fd \<Rightarrow>
             (env1,
              case upgrade_boot cd be fd cfg of
                None \<Rightarrow> ([], BBlocked)
              | Some (ios, Inl _) \<Rightarrow> (ios, BExit 71)
              | Some (ios, Inr (h, m, live, pins)) \<Rightarrow>
                  (ios, BGo \<lparr> su_holder = h,
                     su_breaker = restore_failures (hu_breaker_consecutive_failures m) br,
                     su_pins = pin_at_boot found pins, su_live = live \<rparr>))
         | None \<Rightarrow>
             (let (env2, mig) = consume_env ENV_MANIFEST_FD env1
              in (env2,
                  case mig of
                    None \<Rightarrow>
                      ([], BGo \<lparr> su_holder = holder_new cfg, su_breaker = br,
                             su_pins = pin_at_boot found pin_set_default, su_live = None \<rparr>)
                  | Some fd \<Rightarrow>
                      (case migration_boot cd be fd cfg of
                         None \<Rightarrow> ([], BBlocked)
                       | Some (ios, None) \<Rightarrow> (ios, BPanic)
                       | Some (ios, Some (Inl (Corrupt _))) \<Rightarrow> (ios, BExit 71)
                       | Some (ios, Some (Inl (InitFailed _ rb))) \<Rightarrow>
                           (case migration_rollback_exec cd xe rb of
                              (ios', Inr im) \<Rightarrow> (ios @ ios', BReplaced im)
                            | (ios', Inl _) \<Rightarrow> (ios @ ios', BExit 70))
                       | Some (ios, Some (Inr (h, b, channel, pins))) \<Rightarrow>
                           (ios, BGo \<lparr> su_holder = h, su_breaker = br,
                                  su_pins = pin_at_boot found pins,
                                  su_live = Some (b, channel, False) \<rparr>)))))"

end
