(* ===== verification/SessionLife.thy ===== *)
theory SessionLife
  imports HolderServe
begin

text \<open>
  The life of one session record, stated apart from the code that drives it: an inductive step
  relation with a label for each thing that can happen to a record. The refinement lemmas show
  that every operation of the holder moves every record along this relation, with labels the
  triggering frame explains; the invariants of a record are then proved once, by cases on the
  relation.
\<close>

section \<open>The step relation\<close>

datatype life_label =
    LSpawn u64
  | LArm
  | LConsume exit_event
  | LLatch
  | LStamp last_signal_request
  | LCheckpoint json
  | LRollbackRecord json
  | LAck u64
  | LAbort u64
  | LForget u64
  | LGeneration
  | LCarry

inductive life :: "uid \<Rightarrow> life_label \<Rightarrow> session_entry option \<Rightarrow> session_entry option \<Rightarrow> bool" where
  life_spawn: "life u (LSpawn i) None (Some (new_session i spec sp))"
| life_arm: "life u LArm (Some e) (Some (arm_entry p e))"
| life_consume:
    "se_exit e = None \<Longrightarrow> se_reap_armed e \<Longrightarrow>
     life u (LConsume (exit_event_of k u e)) (Some e) (Some (fst (consume_exit k u e)))"
| life_latch:
    "se_exit e = None \<Longrightarrow> \<not> se_exit_latched e \<Longrightarrow>
     life u LLatch (Some e) (Some (e\<lparr> se_exit_latched := True \<rparr>))"
| life_stamp:
    "se_exit e = None \<Longrightarrow> \<not> se_exit_latched e \<Longrightarrow>
     life u (LStamp s) (Some e) (Some (e\<lparr> se_last_signal_request := Some s \<rparr>))"
| life_checkpoint:
    "life u (LCheckpoint j) (Some e) (Some (e\<lparr> se_watcher_checkpoint := Some j \<rparr>))"
| life_rollback_record:
    "life u (LRollbackRecord j) (Some e) (Some (e\<lparr> se_rollback_record := Some j \<rparr>))"
| life_ack: "life u (LAck (se_incarnation e)) (Some e) (Some (ack_entry e))"
| life_abort: "life u (LAbort (se_incarnation e)) (Some e) None"
| life_forget:
    "se_exit e \<noteq> None \<Longrightarrow> \<not> event_pending e \<Longrightarrow>
     life u (LForget (se_incarnation e)) (Some e) None"
| life_generation: "life u LGeneration (Some e) (Some (e\<lparr> se_delivery_ready := False \<rparr>))"
| life_carry: "life u LCarry (Some e) (Some (entry_of_carry (carry_of_entry u e)))"

inductive_cases life_None_cases: "life u l None y"
inductive_cases life_Some_cases: "life u l (Some e) y"

inductive lives ::
  "uid \<Rightarrow> life_label list \<Rightarrow> session_entry option \<Rightarrow> session_entry option \<Rightarrow> bool" where
  lives_Nil: "lives u [] x x"
| lives_Cons: "life u l x y \<Longrightarrow> lives u ls y z \<Longrightarrow> lives u (l # ls) x z"

inductive_simps lives_Nil_iff [simp]: "lives u [] x y"
inductive_simps lives_Cons_iff: "lives u (l # ls) x z"

lemma lives_one: "life u l x y \<Longrightarrow> lives u [l] x y"
  by (auto simp: lives_Cons_iff)

lemma lives_two: "life u l x y \<Longrightarrow> life u l' y z \<Longrightarrow> lives u [l, l'] x z"
  by (auto simp: lives_Cons_iff)

lemma lives_append: "lives u ls x y \<Longrightarrow> lives u ls' y z \<Longrightarrow> lives u (ls @ ls') x z"
  by (induction rule: lives.induct) (auto intro: lives_Cons)

section \<open>What holds of every record\<close>

definition event_matches :: "uid \<Rightarrow> session_entry \<Rightarrow> bool" where
  "event_matches u e \<longleftrightarrow>
     (\<forall>x ev. se_exit e = Some x \<longrightarrow> xr_pending x = Some ev \<longrightarrow>
        ev_uid ev = u \<and> ev_incarnation ev = se_incarnation e \<and> ev_exited_at ev = xr_exited_at x)"

text \<open>A consumed exit was authorized and is not latched; only an authorized record delivers; a
  pending event is this record's own.\<close>

definition entry_ok :: "uid \<Rightarrow> session_entry \<Rightarrow> bool" where
  "entry_ok u e \<longleftrightarrow>
     (se_exit e \<noteq> None \<longrightarrow> se_reap_armed e \<and> \<not> se_exit_latched e) \<and>
     (se_delivery_ready e \<longrightarrow> se_reap_armed e) \<and> event_matches u e"

lemma consume_exit_entry:
  "fst (consume_exit k u e) =
     e\<lparr> se_exit := Some \<lparr> xr_exited_at = k_now k (se_pidfd e),
                          xr_pending = Some (exit_event_of k u e) \<rparr>, se_exit_latched := False \<rparr>"
  by (simp add: consume_exit_def exit_event_of_def Let_def)

lemma exit_event_of_simps [simp]:
  "ev_uid (exit_event_of k u e) = u" "ev_incarnation (exit_event_of k u e) = se_incarnation e"
  "ev_exited_at (exit_event_of k u e) = k_now k (se_pidfd e)"
  "ev_last_signal_request (exit_event_of k u e) = se_last_signal_request e"
  by (simp_all add: exit_event_of_def Let_def)

lemmas entry_defs = entry_ok_def event_matches_def new_session_def arm_entry_def ack_entry_def
  consume_exit_entry entry_of_carry_def carry_of_entry_def

lemma life_entry_ok:
  "life u l x y \<Longrightarrow> pred_option (entry_ok u) x \<Longrightarrow> pred_option (entry_ok u) y"
  by (induction rule: life.induct) (auto simp: entry_defs)

lemma lives_entry_ok:
  "lives u ls x y \<Longrightarrow> pred_option (entry_ok u) x \<Longrightarrow> pred_option (entry_ok u) y"
  by (induction rule: lives.induct) (auto dest: life_entry_ok)

text \<open>The incarnation of a record never changes.\<close>

lemma life_incarnation:
  "life u l (Some e) (Some e') \<Longrightarrow> se_incarnation e' = se_incarnation e"
  by (erule life_Some_cases) (auto simp: entry_defs)

lemma life_from_None: "life u l None y \<Longrightarrow> \<exists>i spec sp. l = LSpawn i \<and> y = Some (new_session i spec sp)"
  by (erule life_None_cases) auto

section \<open>A consumed exit stays until it is acked or aborted\<close>

definition holds_event :: "u64 \<Rightarrow> exit_event \<Rightarrow> session_entry option \<Rightarrow> bool" where
  "holds_event i ev x \<longleftrightarrow>
     (case x of
        None \<Rightarrow> False
      | Some e \<Rightarrow> se_incarnation e = i \<and>
          (\<exists>t. se_exit e = Some \<lparr> xr_exited_at = t, xr_pending = Some ev \<rparr>))"

lemma life_holds_event:
  "life u l x y \<Longrightarrow> holds_event i ev x \<Longrightarrow> l \<noteq> LAck i \<Longrightarrow> l \<noteq> LAbort i \<Longrightarrow> holds_event i ev y"
  by (induction rule: life.induct)
    (auto simp: holds_event_def entry_defs event_pending_def)

lemma lives_holds_event:
  "lives u ls x y \<Longrightarrow> holds_event i ev x \<Longrightarrow> LAck i \<notin> set ls \<Longrightarrow> LAbort i \<notin> set ls
     \<Longrightarrow> holds_event i ev y"
  by (induction rule: lives.induct) (auto dest: life_holds_event)

section \<open>An exit is consumed at most once\<close>

definition consumptions :: "life_label list \<Rightarrow> exit_event list" where
  "consumptions ls = List.map_filter (\<lambda>l. case l of LConsume ev \<Rightarrow> Some ev | _ \<Rightarrow> None) ls"

lemma consumptions_simps [simp]:
  "consumptions [] = []"
  "consumptions (LConsume ev # ls) = ev # consumptions ls"
  "(\<And>ev. l \<noteq> LConsume ev) \<Longrightarrow> consumptions (l # ls) = consumptions ls"
  "consumptions (ls @ ls') = consumptions ls @ consumptions ls'"
  by (auto simp: consumptions_def map_filter_simps map_filter_def split: life_label.splits)

definition spawns :: "life_label list \<Rightarrow> bool" where
  "spawns ls \<longleftrightarrow> (\<exists>i. LSpawn i \<in> set ls)"

lemma life_exit_stays:
  "life u l (Some e) (Some e') \<Longrightarrow> se_exit e \<noteq> None \<Longrightarrow> se_exit e' \<noteq> None \<and> (\<forall>ev. l \<noteq> LConsume ev)"
  by (erule life_Some_cases) (auto simp: entry_defs)

lemma lives_None: "lives u ls None y \<Longrightarrow> \<not> spawns ls \<Longrightarrow> ls = []"
  by (cases ls) (auto simp: lives_Cons_iff spawns_def dest!: life_from_None)

lemma lives_exited_consumes_nothing:
  "lives u ls x y \<Longrightarrow> x = Some e \<Longrightarrow> se_exit e \<noteq> None \<Longrightarrow> \<not> spawns ls \<Longrightarrow> consumptions ls = []"
proof (induction arbitrary: e rule: lives.induct)
  case (lives_Nil u x)
  then show ?case by simp
next
  case (lives_Cons u l x y ls z)
  have ns: "\<not> spawns ls" using lives_Cons.prems(3) by (auto simp: spawns_def)
  show ?case
  proof (cases y)
    case None
    with lives_Cons ns have "ls = []" by (auto dest: lives_None)
    moreover have "\<forall>ev. l \<noteq> LConsume ev"
      using lives_Cons.hyps(1) lives_Cons.prems(1) None by (auto elim: life_Some_cases)
    ultimately show ?thesis by (auto simp: consumptions_def map_filter_def split: life_label.splits)
  next
    case (Some e')
    with lives_Cons have "se_exit e' \<noteq> None" and "\<forall>ev. l \<noteq> LConsume ev"
      using life_exit_stays [of u l e e'] by auto
    with lives_Cons.IH [OF Some _ ns] show ?thesis by simp
  qed
qed

lemma life_consumes: "life u (LConsume ev) x y \<Longrightarrow>
    \<exists>e e'. x = Some e \<and> y = Some e' \<and> se_exit e = None \<and> se_reap_armed e \<and> se_exit e' \<noteq> None"
  by (erule life.cases) (auto simp: consume_exit_entry)

lemma lives_consumes_once:
  "lives u ls x y \<Longrightarrow> \<not> spawns ls \<Longrightarrow> length (consumptions ls) \<le> 1"
proof (induction rule: lives.induct)
  case (lives_Nil u x)
  then show ?case by simp
next
  case (lives_Cons u l x y ls z)
  have ns: "\<not> spawns ls" using lives_Cons.prems by (auto simp: spawns_def)
  show ?case
  proof (cases "\<exists>ev. l = LConsume ev")
    case True
    then obtain ev where l: "l = LConsume ev" by blast
    with life_consumes [of u ev x y] lives_Cons.hyps(1) obtain e' where "y = Some e'" "se_exit e' \<noteq> None"
      by auto
    with lives_exited_consumes_nothing [OF lives_Cons.hyps(2)] ns l show ?thesis by simp
  next
    case False
    with lives_Cons.IH [OF ns] show ?thesis by simp
  qed
qed

end
