(* ===== verification/HolderRefines.thy ===== *)
theory HolderRefines
  imports SessionLife
begin

text \<open>
  Every operation of the holder moves every record along the life relation. \<open>moves A h h'\<close> says
  so for all uids at once, with labels that \<open>A\<close> allows; \<open>explained\<close> says which labels a frame
  can cause.
\<close>

section \<open>Records after an operation\<close>

definition moves :: "(uid \<Rightarrow> life_label \<Rightarrow> bool) \<Rightarrow> holder \<Rightarrow> holder \<Rightarrow> bool" where
  "moves A h h' \<longleftrightarrow>
     (\<forall>u. \<exists>ls. lives u ls (record_of h u) (record_of h' u) \<and> (\<forall>l\<in>set ls. A u l))"

lemma record_of_set_record [store_simps]:
  "record_of (set_record u e h) v = (if v = u then map_option (\<lambda>_. e) (record_of h u) else record_of h v)"
  by (simp add: record_of_def set_record_def bt_get_adjust)

lemma record_of_remove [store_simps]:
  "record_of (remove_record u h) v = (if v = u then None else record_of h v)"
  by (simp add: record_of_def remove_record_def bt_get_remove)

lemma bt_get_map:
  "bt_get (map (\<lambda>x. (fst x, f (fst x) (snd x))) m) u = map_option (f u) (bt_get m u)"
  by (induction m) (auto simp: bt_get_def)

lemma record_of_over_sessions [store_simps]:
  "record_of (h\<lparr> hd_sessions := fst (over_sessions f (hd_sessions h)) \<rparr>) u
    = map_option (\<lambda>e. fst (f u e)) (record_of h u)"
  by (simp add: record_of_def over_sessions_def bt_get_map [where f = "\<lambda>u e. fst (f u e)"])

lemma moves_same: "(\<And>u. record_of h' u = record_of h u) \<Longrightarrow> moves A h h'"
  unfolding moves_def by (auto intro!: exI [of _ "[]"])

lemma moves_refl [simp]: "moves A h h"
  by (rule moves_same) simp

lemma moves_trans: "moves A h h' \<Longrightarrow> moves A h' h'' \<Longrightarrow> moves A h h''"
  unfolding moves_def
proof
  fix u
  assume "\<forall>u. \<exists>ls. lives u ls (record_of h u) (record_of h' u) \<and> (\<forall>l\<in>set ls. A u l)"
    and "\<forall>u. \<exists>ls. lives u ls (record_of h' u) (record_of h'' u) \<and> (\<forall>l\<in>set ls. A u l)"
  then obtain ls ls' where "lives u ls (record_of h u) (record_of h' u)" "\<forall>l\<in>set ls. A u l"
    "lives u ls' (record_of h' u) (record_of h'' u)" "\<forall>l\<in>set ls'. A u l" by blast
  then show "\<exists>ls. lives u ls (record_of h u) (record_of h'' u) \<and> (\<forall>l\<in>set ls. A u l)"
    by (intro exI [of _ "ls @ ls'"]) (auto intro: lives_append)
qed

lemma moves_mono: "moves A h h' \<Longrightarrow> (\<And>u l. A u l \<Longrightarrow> B u l) \<Longrightarrow> moves B h h'"
  unfolding moves_def by blast

lemma moves_set_record:
  assumes "record_of h u = Some e" and "lives u ls (Some e) (Some e')" and "\<forall>l\<in>set ls. A u l"
  shows "moves A h (set_record u e' h)"
  using assms unfolding moves_def
  by (auto simp: store_simps intro: exI [of _ ls] exI [of _ "[]"])

lemma moves_remove_record:
  assumes "record_of h u = Some e" and "life u l (Some e) None" and "A u l"
  shows "moves A h (remove_record u h)"
  unfolding moves_def
proof
  fix v
  show "\<exists>ls. lives v ls (record_of h v) (record_of (remove_record u h) v) \<and> (\<forall>l\<in>set ls. A v l)"
    using assms lives_one
    by (cases "v = u") (auto simp: store_simps intro: exI [of _ "[l]"] exI [of _ "[]"])
qed

lemma moves_insert:
  assumes "record_of h u = None" and "A u (LSpawn i)"
    and "\<And>v. record_of h' v = record_of h v \<or>
      v = u \<and> record_of h' v = Some (new_session i spec sp)"
  shows "moves A h h'"
  unfolding moves_def
proof
  fix v
  have "life u (LSpawn i) None (Some (new_session i spec sp))" by (rule life_spawn)
  then show "\<exists>ls. lives v ls (record_of h v) (record_of h' v) \<and> (\<forall>l\<in>set ls. A v l)"
    using assms(3) [of v] assms(1,2) lives_one
    by (auto intro: exI [of _ "[]"] exI [of _ "[LSpawn i]"])
qed

lemma moves_map:
  assumes "\<And>u. record_of h' u = map_option (g u) (record_of h u)"
    and "\<And>u e. record_of h u = Some e \<Longrightarrow>
      \<exists>ls. lives u ls (Some e) (Some (g u e)) \<and> (\<forall>l\<in>set ls. A u l)"
  shows "moves A h h'"
  unfolding moves_def
proof
  fix u
  show "\<exists>ls. lives u ls (record_of h u) (record_of h' u) \<and> (\<forall>l\<in>set ls. A u l)"
  proof (cases "record_of h u")
    case None
    then show ?thesis using assms(1) by (auto intro: exI [of _ "[]"])
  next
    case (Some e)
    then show ?thesis using assms by auto
  qed
qed

text \<open>Changes of the holder outside the sessions move no record.\<close>

lemma record_of_fields [simp]:
  "record_of (h\<lparr> hd_listeners := a1 \<rparr>) u = record_of h u"
  "record_of (h\<lparr> hd_armed_deploy := a2 \<rparr>) u = record_of h u"
  "record_of (h\<lparr> hd_breaker_label := a3 \<rparr>) u = record_of h u"
  "record_of (h\<lparr> hd_previous_pin_available := a4 \<rparr>) u = record_of h u"
  "record_of (h\<lparr> hd_next_incarnation := a5 \<rparr>) u = record_of h u"
  "record_of (h\<lparr> hd_epoch := a6 \<rparr>) u = record_of h u"
  "record_of (h\<lparr> hd_ping_seq := a7 \<rparr>) u = record_of h u"
  "record_of (h\<lparr> hd_pings_unanswered := a8 \<rparr>) u = record_of h u"
  "record_of (h\<lparr> hd_helloed_this_generation := a9 \<rparr>) u = record_of h u"
  "record_of (h\<lparr> hd_rehello_pending := a10 \<rparr>) u = record_of h u"
  "record_of (h\<lparr> hd_pending_upgrade := a11 \<rparr>) u = record_of h u"
  by (simp_all add: record_of_def)

section \<open>What a frame can cause\<close>

definition keyed :: "verb \<Rightarrow> json frame \<Rightarrow> uid \<Rightarrow> u64 \<Rightarrow> bool" where
  "keyed v f u i \<longleftrightarrow> verb_of (fr_v f) = Some v \<and>
     parse_record_key (fr_body f) = Some \<lparr> rk_uid = u, rk_incarnation = i \<rparr>"

fun explained :: "json frame \<Rightarrow> uid \<Rightarrow> life_label \<Rightarrow> bool" where
  "explained f u (LSpawn i) \<longleftrightarrow> verb_of (fr_v f) = Some V_SPAWN \<and>
     map_option sb_uid (parse_spawn (fr_body f)) = Some u"
| "explained f u LArm \<longleftrightarrow> verb_of (fr_v f) = Some V_ARM_REAP \<and>
     map_option ar_uid (parse_arm_reap (fr_body f)) = Some u"
| "explained f u (LConsume ev) \<longleftrightarrow>
     verb_of (fr_v f) = Some V_ARM_REAP \<and> map_option ar_uid (parse_arm_reap (fr_body f)) = Some u
     \<or> verb_of (fr_v f) = Some V_CANCEL_PENDING"
| "explained f u (LStamp s) \<longleftrightarrow> verb_of (fr_v f) = Some V_SIGNAL \<and>
     map_option (\<lambda>b. (sg_uid b, sg_sig b, sg_attribution b)) (parse_signal (fr_body f))
       = Some (u, ls_sig s, ls_attribution s)"
| "explained f u (LCheckpoint j) \<longleftrightarrow> verb_of (fr_v f) = Some V_UPDATE_CHECKPOINT \<and>
     map_option (\<lambda>b. (uc_uid b, uc_watcher_checkpoint b)) (parse_update_checkpoint (fr_body f))
       = Some (u, j)"
| "explained f u (LRollbackRecord j) \<longleftrightarrow> verb_of (fr_v f) = Some V_ROLLBACK_RECORD \<and>
     map_option (\<lambda>b. (rr_uid b, rr_record b)) (parse_rollback_record (fr_body f)) = Some (u, j)"
| "explained f u (LAck i) \<longleftrightarrow> keyed V_ACK_EXIT f u i"
| "explained f u (LAbort i) \<longleftrightarrow> keyed V_ABORT_SPAWN f u i"
| "explained f u (LForget i) \<longleftrightarrow> keyed V_FORGET f u i"
| "explained f u l \<longleftrightarrow> False"

lemma keyed_record:
  "verb_of (fr_v f) = Some v \<Longrightarrow> parse_record_key (fr_body f) = Some b \<Longrightarrow>
   keyed v f (rk_uid b) (rk_incarnation b)"
  by (simp add: keyed_def)

section \<open>The sweeps\<close>

definition only_consumes :: "uid \<Rightarrow> life_label \<Rightarrow> bool" where
  "only_consumes u l \<longleftrightarrow> (\<exists>ev. l = LConsume ev)"

lemma sweep_entry_lives:
  "\<exists>ls. lives u ls (Some e) (Some (fst (sweep_entry k u e))) \<and> (\<forall>l\<in>set ls. only_consumes u l)"
proof (cases "se_exit_latched e \<and> se_reap_armed e \<and> se_exit e = None")
  case True
  then show ?thesis
    by (intro exI [of _ "[LConsume (exit_event_of k u e)]"])
      (auto simp: sweep_entry_def only_consumes_def intro!: lives_one life_consume)
next
  case False
  then show ?thesis by (intro exI [of _ "[]"]) (auto simp: sweep_entry_def)
qed

lemma sweep_into_sessions:
  "fst (sweep_latched_exits_into k h)
    = h\<lparr> hd_sessions := fst (over_sessions (sweep_entry k) (hd_sessions h)) \<rparr>"
  by (simp add: sweep_latched_exits_into_def split_beta)

lemma sweep_into_moves: "moves only_consumes h (fst (sweep_latched_exits_into k h))"
  unfolding sweep_into_sessions
  by (rule moves_map [where g = "\<lambda>u e. fst (sweep_entry k u e)"])
    (simp_all add: store_simps sweep_entry_lives)

lemma sweep_moves: "moves only_consumes h (fst (sweep_latched_exits k h))"
  using sweep_into_moves [of h k] by (simp add: sweep_latched_exits_def split_beta)

section \<open>The handlers\<close>

lemma handle_spawn_moves:
  assumes "bt_sorted (hd_sessions h)" and v: "verb_of (fr_v f) = Some V_SPAWN"
  shows "moves (explained f) h (fst (handle_spawn k req (fr_body f) h))"
proof (cases "parse_spawn (fr_body f)")
  case None
  then show ?thesis by (simp add: handle_spawn_def)
next
  case (Some spec)
  show ?thesis
  proof (cases "record_of h (sb_uid spec)")
    case (Some e)
    with \<open>parse_spawn _ = _\<close> show ?thesis by (simp add: handle_spawn_def)
  next
    case None
    have "moves (explained f) h (fst (install_spawned k req spec sp h))" for sp
    proof -
      have "record_of (fst (install_spawned k req spec sp h)) u = record_of h u \<or>
        u = sb_uid spec \<and> record_of (fst (install_spawned k req spec sp h)) u
          = Some (new_session (hd_next_incarnation h) spec sp)" for u
        using assms(1)
        by (auto simp: install_spawned_def Let_def record_of_def bt_get_insert split: option.splits)
      with None v \<open>parse_spawn _ = _\<close> show ?thesis by (intro moves_insert) simp_all
    qed
    then show ?thesis
      using Some None by (auto simp: handle_spawn_def split_beta split: sum.splits prod.splits)
  qed
qed

lemma arm_entry_simps [simp]:
  "se_exit (arm_entry p e) = se_exit e" "se_reap_armed (arm_entry p e)"
  "se_exit_latched (arm_entry p e) = se_exit_latched e" "se_delivery_ready (arm_entry p e)"
  "se_incarnation (arm_entry p e) = se_incarnation e"
  by (simp_all add: arm_entry_def)

lemma handle_arm_reap_moves:
  assumes v: "verb_of (fr_v f) = Some V_ARM_REAP"
  shows "moves (explained f) h (fst (handle_arm_reap k req (fr_body f) h))"
proof (cases "\<exists>b e. parse_arm_reap (fr_body f) = Some b \<and> record_of h (ar_uid b) = Some e \<and>
    se_incarnation e = ar_incarnation b")
  case False
  then show ?thesis by (auto simp: handle_arm_reap_def split: option.splits)
next
  case True
  then obtain b e where b: "parse_arm_reap (fr_body f) = Some b"
    "record_of h (ar_uid b) = Some e" "se_incarnation e = ar_incarnation b" by blast
  let ?e1 = "arm_entry (ar_cgroup_path b) e"
  let ?e2 = "fst (consume_exit k (ar_uid b) ?e1)"
  have arm: "life (ar_uid b) LArm (Some e) (Some ?e1)" by (rule life_arm)
  show ?thesis
  proof (cases "se_exit_latched e \<and> se_exit e = None")
    case True
    then have "life (ar_uid b) (LConsume (exit_event_of k (ar_uid b) ?e1)) (Some ?e1) (Some ?e2)"
      by (intro life_consume) simp_all
    from moves_set_record [OF b(2) lives_two [OF arm this], of "explained f"] True b v
    show ?thesis by (simp add: handle_arm_reap_def Let_def split_beta)
  next
    case False
    from moves_set_record [OF b(2) lives_one [OF arm], of "explained f"] False b v
    show ?thesis by (auto simp: handle_arm_reap_def Let_def)
  qed
qed

lemma handle_signal_moves:
  assumes v: "verb_of (fr_v f) = Some V_SIGNAL"
  shows "moves (explained f) h (fst (handle_signal k req (fr_body f) h))"
  using v unfolding handle_signal_def
  by (auto split: option.splits signal_answer.splits
      intro!: moves_set_record [where ls = "[LStamp s]" for s] lives_one life_stamp)

lemma handle_abort_spawn_moves:
  assumes "verb_of (fr_v f) = Some V_ABORT_SPAWN"
  shows "moves (explained f) h (fst (handle_abort_spawn req (fr_body f) h))"
  using keyed_record [OF assms] unfolding handle_abort_spawn_def
  by (auto split: option.splits intro!: moves_remove_record [OF _ life_abort])

lemma handle_update_checkpoint_moves:
  assumes "verb_of (fr_v f) = Some V_UPDATE_CHECKPOINT"
  shows "moves (explained f) h (fst (handle_update_checkpoint req (fr_body f) h))"
  using assms unfolding handle_update_checkpoint_def
  by (auto split: option.splits
      intro!: moves_set_record [where ls = "[LCheckpoint j]" for j] lives_one life_checkpoint)

lemma rollback_record_moves:
  assumes "verb_of (fr_v f) = Some V_ROLLBACK_RECORD"
  shows "moves (explained f) h (fst (rollback_record req (fr_body f) h))"
  using assms unfolding rollback_record_def
  by (auto split: option.splits
      intro!: moves_set_record [where ls = "[LRollbackRecord j]" for j] lives_one
        life_rollback_record)

lemma handle_forget_moves:
  assumes "verb_of (fr_v f) = Some V_FORGET"
  shows "moves (explained f) h (fst (handle_forget req (fr_body f) h))"
  using keyed_record [OF assms] unfolding handle_forget_def
  by (auto split: option.splits intro!: moves_remove_record [OF _ life_forget])

lemma handle_ack_exit_moves:
  assumes "verb_of (fr_v f) = Some V_ACK_EXIT"
  shows "moves (explained f) h (fst (handle_ack_exit req (fr_body f) h))"
proof (cases "\<exists>b e. parse_record_key (fr_body f) = Some b \<and> record_of h (rk_uid b) = Some e \<and>
    se_incarnation e = rk_incarnation b")
  case False
  then show ?thesis by (auto simp: handle_ack_exit_def split: option.splits)
next
  case True
  then obtain b e where b: "parse_record_key (fr_body f) = Some b"
    "record_of h (rk_uid b) = Some e" "se_incarnation e = rk_incarnation b" by blast
  from moves_set_record [OF b(2) lives_one [OF life_ack], of "explained f"]
    keyed_record [OF assms b(1)] b
  show ?thesis by (simp add: handle_ack_exit_def)
qed

lemma cancel_pending_moves:
  assumes "verb_of (fr_v f) = Some V_CANCEL_PENDING"
  shows "moves (explained f) h (fst (cancel_pending k req h))"
proof -
  let ?h = "h\<lparr> hd_armed_deploy := None \<rparr>"
  have "moves (explained f) ?h (fst (sweep_latched_exits_into k ?h))"
    using assms by (rule_tac moves_mono [OF sweep_into_moves]) (auto simp: only_consumes_def)
  then have "moves (explained f) h (fst (sweep_latched_exits_into k ?h))"
    by (rule_tac moves_trans [OF moves_same]) auto
  then show ?thesis by (simp add: cancel_pending_def split_beta Let_def)
qed

section \<open>Dispatch\<close>

lemma deploy_verbs_moves:
  "moves A h (fst (fst (restart_brain k req fds h)))"
  "moves A h (fst (rollback_brain k req h))"
  "moves A h (fst (fst (split_rollback k req body fds h)))"
  "moves A h (fst (fst (reexec_holder k req fds h)))"
  "moves A h (fst (fst (handle_store_listener req body fds h)))"
  unfolding restart_brain_def rollback_brain_def split_rollback_def reexec_holder_def
    handle_store_listener_def store_listener_custody_def carry_on_def abort_def
  by (auto simp: Let_def split: option.splits list.splits intro!: moves_same)

lemma dispatch_verb_moves:
  assumes "bt_sorted (hd_sessions h)"
  shows "moves (explained f) h (fst (fst (dispatch_verb k req f fds h)))"
proof (cases "verb_of (fr_v f)")
  case None
  then show ?thesis by (simp add: dispatch_verb_def carry_on_def)
next
  case (Some v)
  then show ?thesis
    using handle_spawn_moves [OF assms] handle_arm_reap_moves handle_signal_moves
      handle_abort_spawn_moves handle_update_checkpoint_moves rollback_record_moves
      handle_forget_moves handle_ack_exit_moves cancel_pending_moves
    by (cases v) (simp_all add: dispatch_verb_def carry_on_def abort_def deploy_verbs_moves
        handle_adopt_def)
qed

lemma handshake_moves:
  "moves A h (fst (fst (fst (first_frame req f h))))"
  "moves A h (fst (fst (rehello_reply f h)))"
  unfolding first_frame_def rehello_reply_def carry_on_def abort_def
  by (auto split: option.splits intro!: moves_same)

lemma dispatch_moves:
  assumes "bt_sorted (hd_sessions (fst hb))"
  shows "moves (explained f) (fst hb) (fst (fst (dispatch k f fds hb)))"
proof -
  obtain h b where hb: "hb = (h, b)" by (cases hb)
  show ?thesis
    using assms handshake_moves dispatch_verb_moves [of h]
    unfolding hb dispatch_def
    by (auto simp: Let_def split_beta split: option.splits intro!: moves_same)
qed

end
