(* ===== verification/HolderInv.thy ===== *)
theory HolderInv
  imports HolderRefines
begin

text \<open>
  The holder as a machine. The events are what the serve loop and the supervisor do to the
  holder, one constructor for each stage; the invariant says that the sessions are well formed,
  that no two records share an incarnation, that a kind has at most one listener, and that an
  armed deploy excludes a holder upgrade.
\<close>

section \<open>The invariant\<close>

definition distinct_incarnations :: "holder \<Rightarrow> bool" where
  "distinct_incarnations h \<longleftrightarrow>
     (\<forall>u v e e'. record_of h u = Some e \<longrightarrow> record_of h v = Some e' \<longrightarrow>
        se_incarnation e = se_incarnation e' \<longrightarrow> u = v)"

definition incarnations_below :: "holder \<Rightarrow> bool" where
  "incarnations_below h \<longleftrightarrow>
     bt.every (\<lambda>u e. se_incarnation e < hd_next_incarnation h) (hd_sessions h)"

definition records_ok :: "holder \<Rightarrow> bool" where
  "records_ok h \<longleftrightarrow> bt.every entry_ok (hd_sessions h)"

definition listeners_ok :: "holder \<Rightarrow> bool" where
  "listeners_ok h \<longleftrightarrow> distinct (map (\<lambda>l. lm_kind (fst l)) (hd_listeners h))"

definition deploys_ok :: "holder \<Rightarrow> bool" where
  "deploys_ok h \<longleftrightarrow> hd_armed_deploy h = None \<or> hd_pending_upgrade h = None"

definition holder_ok :: "holder \<Rightarrow> bool" where
  "holder_ok h \<longleftrightarrow> bt_sorted (hd_sessions h) \<and> records_ok h \<and> incarnations_below h \<and>
     distinct_incarnations h \<and> listeners_ok h \<and> deploys_ok h"

lemma records_ok_iff: "records_ok h \<longleftrightarrow> (\<forall>u. pred_option (entry_ok u) (record_of h u))"
  unfolding records_ok_def bt.every_def record_of_def by (auto simp: pred_option_def)

lemma records_ok_moves: "moves A h h' \<Longrightarrow> records_ok h \<Longrightarrow> records_ok h'"
  unfolding records_ok_iff moves_def using lives_entry_ok by blast

section \<open>How incarnations move\<close>

text \<open>Records keep their incarnation; at most one is new, and it has the next number.\<close>

definition numbered :: "holder \<Rightarrow> holder \<Rightarrow> bool" where
  "numbered h h' \<longleftrightarrow>
     bt_sorted (hd_sessions h') \<and>
     (hd_next_incarnation h' = hd_next_incarnation h \<or>
      hd_next_incarnation h' = hd_next_incarnation h + 1) \<and>
     (\<exists>w. \<forall>u e'. record_of h' u = Some e' \<longrightarrow>
        (\<exists>e. record_of h u = Some e \<and> se_incarnation e' = se_incarnation e) \<or>
        (u = w \<and> se_incarnation e' = hd_next_incarnation h \<and>
         hd_next_incarnation h' = hd_next_incarnation h + 1))"

lemma next_incarnation_grows: "n \<noteq> - 1 \<Longrightarrow> n < n + (1 :: u64)"
  using inc_less_eq_triv_imp [of n] by (metis linorder_not_le)

lemma numbered_below:
  assumes "numbered h h'" and "hd_next_incarnation h \<noteq> - 1" and "incarnations_below h"
  shows "incarnations_below h'"
  unfolding incarnations_below_def bt.every_def record_of_def [symmetric]
proof (intro allI impI)
  fix u e'
  assume e': "record_of h' u = Some e'"
  have below: "record_of h u = Some e \<Longrightarrow> se_incarnation e < hd_next_incarnation h" for e
    using assms(3) unfolding incarnations_below_def bt.every_def record_of_def [symmetric] by auto
  have up: "hd_next_incarnation h \<le> hd_next_incarnation h'"
    using assms(1) next_incarnation_grows [OF assms(2)] unfolding numbered_def by auto
  from assms(1) e' consider (old) e where "record_of h u = Some e" "se_incarnation e' = se_incarnation e"
    | (new) "se_incarnation e' = hd_next_incarnation h"
        "hd_next_incarnation h' = hd_next_incarnation h + 1"
    unfolding numbered_def by blast
  then show "se_incarnation e' < hd_next_incarnation h'"
  proof cases
    case old
    then show ?thesis using up below [of e] by simp
  next
    case new
    then show ?thesis using next_incarnation_grows [OF assms(2)] by simp
  qed
qed

lemma numbered_distinct:
  assumes "numbered h h'" and "incarnations_below h" and "distinct_incarnations h"
  shows "distinct_incarnations h'"
proof -
  obtain w where w: "\<And>u e'. record_of h' u = Some e' \<Longrightarrow>
        (\<exists>e. record_of h u = Some e \<and> se_incarnation e' = se_incarnation e) \<or>
        (u = w \<and> se_incarnation e' = hd_next_incarnation h)"
    using assms(1) unfolding numbered_def by blast
  have old: "record_of h u = Some e \<Longrightarrow> se_incarnation e \<noteq> hd_next_incarnation h" for u e
    using assms(2) unfolding incarnations_below_def bt.every_def record_of_def [symmetric]
    by (metis order_less_irrefl)
  show ?thesis
    unfolding distinct_incarnations_def
  proof (intro allI impI)
    fix u v e e'
    assume u: "record_of h' u = Some e" and v: "record_of h' v = Some e'"
      and eq: "se_incarnation e = se_incarnation e'"
    show "u = v"
      using w [OF u] w [OF v] eq old assms(3) unfolding distinct_incarnations_def by metis
  qed
qed

lemma numbered_refl: "bt_sorted (hd_sessions h) \<Longrightarrow> numbered h h"
  by (auto simp: numbered_def)

lemma numbered_same_sessions:
  "hd_sessions h' = hd_sessions h \<Longrightarrow> hd_next_incarnation h' = hd_next_incarnation h \<Longrightarrow>
   bt_sorted (hd_sessions h) \<Longrightarrow> numbered h h'"
  by (auto simp: numbered_def record_of_def)

lemma numbered_set_record:
  assumes "bt_sorted (hd_sessions h)" and "record_of h u = Some e"
    and "se_incarnation e' = se_incarnation e"
  shows "numbered h (set_record u e' h)"
  unfolding numbered_def
proof (intro conjI)
  show "bt_sorted (hd_sessions (set_record u e' h))"
    using assms(1) by (simp add: set_record_def bt_sorted_adjust)
  show "hd_next_incarnation (set_record u e' h) = hd_next_incarnation h \<or>
      hd_next_incarnation (set_record u e' h) = hd_next_incarnation h + 1"
    by (simp add: set_record_def)
qed (use assms in \<open>auto simp: store_simps split: if_splits\<close>)

lemma numbered_remove_record:
  "bt_sorted (hd_sessions h) \<Longrightarrow> numbered h (remove_record u h)"
  unfolding numbered_def
  by (auto simp: record_of_remove remove_record_def bt_sorted_remove split: if_splits)
    (auto simp: record_of_def bt_get_remove split: if_splits)

lemma sorted_over_sessions: "bt_sorted m \<Longrightarrow> bt_sorted (fst (over_sessions f m))"
  by (simp add: over_sessions_def bt_sorted_def comp_def)

lemma numbered_over_sessions:
  assumes "bt_sorted (hd_sessions h)" and "\<And>u e. se_incarnation (fst (f u e)) = se_incarnation e"
  shows "numbered h (h\<lparr> hd_sessions := fst (over_sessions f (hd_sessions h)) \<rparr>)"
  using assms unfolding numbered_def by (auto simp: store_simps sorted_over_sessions)

lemma numbered_armed: "numbered h h' \<Longrightarrow> record_of h = record_of g \<Longrightarrow>
    hd_next_incarnation h = hd_next_incarnation g \<Longrightarrow> numbered g h'"
  by (simp add: numbered_def)

lemma incarnation_steps [simp]:
  "se_incarnation (fst (consume_exit k u e)) = se_incarnation e"
  "se_incarnation (fst (sweep_entry k u e)) = se_incarnation e"
  "se_incarnation (fst (child_exit k b us r u e)) = se_incarnation e"
  "se_incarnation (ack_entry e) = se_incarnation e"
  by (simp_all add: consume_exit_entry sweep_entry_def child_exit_def ack_entry_def)

lemma install_spawned_numbered:
  assumes s: "bt_sorted (hd_sessions h)"
  shows "numbered h (fst (install_spawned k req spec sp h))"
proof -
  let ?h1 = "h\<lparr> hd_next_incarnation := hd_next_incarnation h + 1 \<rparr>"
  have "numbered h ?h1" using s by (auto simp: numbered_def)
  moreover have "numbered h (?h1\<lparr> hd_sessions := bt_insert (sb_uid spec)
      (new_session (hd_next_incarnation h) spec sp) (hd_sessions h) \<rparr>)"
    unfolding numbered_def using s
    by (auto simp: record_of_def bt_get_insert bt_sorted_insert new_session_def
        intro!: exI [of _ "sb_uid spec"] split: if_splits)
  ultimately show ?thesis
    by (auto simp: install_spawned_def Let_def split: option.splits)
qed

lemma sweep_numbered:
  assumes "bt_sorted (hd_sessions h)"
  shows "numbered h (fst (sweep_latched_exits_into k h))"
  unfolding sweep_into_sessions by (rule numbered_over_sessions) (simp_all add: assms)

lemma dispatch_verb_numbered:
  assumes s: "bt_sorted (hd_sessions h)"
  shows "numbered h (fst (fst (dispatch_verb k req f fds h)))"
proof -
  note r = numbered_refl [OF s]
  have "numbered h (fst (handle_spawn k req j h))" for j
    using r install_spawned_numbered [OF s]
    by (auto simp: handle_spawn_def split_beta split: option.splits sum.splits prod.splits)
  moreover have "numbered h (fst (handle_arm_reap k req j h))" for j
    using r by (auto simp: handle_arm_reap_def Let_def split_beta split: option.splits
        intro!: numbered_set_record [OF s])
  moreover have "numbered h (fst (handle_signal k req j h))" for j
    using r by (auto simp: handle_signal_def split: option.splits signal_answer.splits
        intro!: numbered_set_record [OF s])
  moreover have "numbered h (fst (handle_abort_spawn req j h))" for j
    using r numbered_remove_record [OF s]
    by (auto simp: handle_abort_spawn_def split: option.splits)
  moreover have "numbered h (fst (handle_update_checkpoint req j h))" for j
    using r by (auto simp: handle_update_checkpoint_def split: option.splits
        intro!: numbered_set_record [OF s])
  moreover have "numbered h (fst (rollback_record req j h))" for j
    using r by (auto simp: rollback_record_def split: option.splits
        intro!: numbered_set_record [OF s])
  moreover have "numbered h (fst (handle_forget req j h))" for j
    using r numbered_remove_record [OF s] by (auto simp: handle_forget_def split: option.splits)
  moreover have "numbered h (fst (handle_ack_exit req j h))" for j
    using r by (auto simp: handle_ack_exit_def split: option.splits
        intro!: numbered_set_record [OF s])
  moreover have "numbered h (fst (cancel_pending k req h))"
  proof -
    have "numbered (h\<lparr> hd_armed_deploy := None \<rparr>)
        (fst (sweep_latched_exits_into k (h\<lparr> hd_armed_deploy := None \<rparr>)))"
      using s by (intro sweep_numbered) simp
    then have "numbered h (fst (sweep_latched_exits_into k (h\<lparr> hd_armed_deploy := None \<rparr>)))"
      by (rule numbered_armed) (auto simp: record_of_def)
    then show ?thesis by (simp add: cancel_pending_def Let_def split_beta)
  qed
  moreover have "numbered h (fst (fst (restart_brain k req fds h)))"
    "numbered h (fst (rollback_brain k req h))"
    "numbered h (fst (fst (split_rollback k req j fds h)))"
    "numbered h (fst (fst (reexec_holder k req fds h)))"
    "numbered h (fst (fst (handle_store_listener req j fds h)))" for j
    using s unfolding restart_brain_def rollback_brain_def split_rollback_def reexec_holder_def
      handle_store_listener_def store_listener_custody_def carry_on_def abort_def
    by (auto simp: Let_def split: option.splits list.splits intro!: numbered_same_sessions)
  ultimately show ?thesis
    using r by (auto simp: dispatch_verb_def carry_on_def abort_def handle_adopt_def
        split: option.splits verb.splits)
qed

lemma dispatch_numbered:
  assumes s: "bt_sorted (hd_sessions (fst hb))"
  shows "numbered (fst hb) (fst (fst (dispatch k f fds hb)))"
proof -
  obtain h b where hb: "hb = (h, b)" by (cases hb)
  have "numbered h (fst (fst (fst (first_frame req f h))))"
    "numbered h (fst (fst (rehello_reply f h)))" for req
    using s hb unfolding first_frame_def rehello_reply_def carry_on_def abort_def
    by (auto split: option.splits intro!: numbered_same_sessions)
  then show ?thesis
    using s dispatch_verb_numbered [of h] unfolding hb dispatch_def
    by (auto simp: Let_def split_beta split: option.splits intro!: numbered_same_sessions)
qed

end
