(* ===== verification/HolderMachine.thy ===== *)
theory HolderMachine
  imports HolderInv
begin

text \<open>
  The holder as a machine driven by events: a frame from the brain, the stages of a pass of the
  serve loop, the start of a generation, and what the supervisor does between generations. The
  machine is an instance of the prelude's state machine twice: once for the invariant, and once
  for each session key, to carry a pending exit event along a run.
\<close>

section \<open>Events\<close>

datatype holder_event =
    EvFrame kernel "json frame" "fd list"
  | EvExits kernel "uid list" "uid \<Rightarrow> bool"
  | EvDisarm kernel millis
  | EvPing
  | EvServe bool
  | EvTakeUpgrade
  | EvTakeDeploy
  | EvSweep kernel
  | EvStatus string bool
  | EvUpgrade holder_config "brain_runtime option" "fd option" "fd option" u32 string

fun apply_event :: "holder_event \<Rightarrow> holder \<times> bool \<Rightarrow> holder \<times> bool" where
  "apply_event (EvFrame k f fds) hb = fst (dispatch k f fds hb)"
| "apply_event (EvExits k uids ready) hb = (fst (child_exits k uids ready (fst hb)), snd hb)"
| "apply_event (EvDisarm k t) hb = (fst (auto_disarm k t (fst hb)), snd hb)"
| "apply_event EvPing hb =
     ((fst hb)\<lparr> hd_ping_seq := hd_ping_seq (fst hb) + 1,
                hd_pings_unanswered := hd_pings_unanswered (fst hb) + 1 \<rparr>, snd hb)"
| "apply_event (EvServe resumed) hb =
     (if resumed
      then ((serve_reset (fst hb))
              \<lparr> hd_helloed_this_generation := False, hd_rehello_pending := Some 1 \<rparr>, True)
      else (fresh_generation (serve_reset (fst hb)), False))"
| "apply_event EvTakeUpgrade hb = ((fst hb)\<lparr> hd_pending_upgrade := None \<rparr>, snd hb)"
| "apply_event EvTakeDeploy hb = (fst (take_armed_deploy (fst hb)), snd hb)"
| "apply_event (EvSweep k) hb = (fst (sweep_latched_exits k (fst hb)), snd hb)"
| "apply_event (EvStatus label prev) hb = (set_supervisor_status label prev (fst hb), snd hb)"
| "apply_event (EvUpgrade cfg brain pin prev failures path) hb =
     (restore_from_upgrade cfg (upgrade_snapshot (fst hb) brain pin prev failures path), False)"

text \<open>What a frame costs: the number a spawn would take is still free.\<close>

definition room :: "holder \<times> bool \<Rightarrow> holder_event \<Rightarrow> bool" where
  "room hb ev \<longleftrightarrow> hd_next_incarnation (fst hb) \<noteq> - 1"

section \<open>Events move records along the life relation\<close>

fun event_explains :: "holder_event \<Rightarrow> uid \<Rightarrow> life_label \<Rightarrow> bool" where
  "event_explains (EvFrame k f fds) u l = explained f u l"
| "event_explains (EvExits k uids ready) u l \<longleftrightarrow>
     u \<in> set uids \<and> ready u \<and> (l = LLatch \<or> (\<exists>ev. l = LConsume ev))"
| "event_explains (EvDisarm k t) u l \<longleftrightarrow> (\<exists>ev. l = LConsume ev)"
| "event_explains (EvSweep k) u l \<longleftrightarrow> (\<exists>ev. l = LConsume ev)"
| "event_explains (EvServe resumed) u l \<longleftrightarrow> \<not> resumed \<and> l = LGeneration"
| "event_explains (EvUpgrade _ _ _ _ _ _) u l \<longleftrightarrow> l = LCarry"
| "event_explains _ u l = False"

lemma restored_sessions:
  assumes "bt_sorted (hd_sessions h)"
  shows "hd_sessions (restore_from_upgrade cfg (upgrade_snapshot h brain pin prev n path))
    = map (\<lambda>x. (fst x, entry_of_carry (carry_of_entry (fst x) (snd x)))) (hd_sessions h)"
proof -
  let ?m = "map (\<lambda>x. (fst x, entry_of_carry (carry_of_entry (fst x) (snd x)))) (hd_sessions h)"
  have "hs_uid (carry_of_entry u e) = u" for u e by (simp add: carry_of_entry_def)
  then have "fold (\<lambda>r. bt_insert (hs_uid r) (entry_of_carry r))
      (map (\<lambda>x. carry_of_entry (fst x) (snd x)) (hd_sessions h)) []
    = fold (\<lambda>e m. bt_insert (fst e) (snd e) m) ?m []"
    by (simp add: fold_map comp_def)
  also have "\<dots> = ?m"
    using fold_bt_insert_sorted [of "[]" ?m] assms by (simp add: bt_sorted_def comp_def)
  finally show ?thesis by (simp add: restore_from_upgrade_def upgrade_snapshot_def)
qed

lemma record_of_restored:
  assumes "bt_sorted (hd_sessions h)"
  shows "record_of (restore_from_upgrade cfg (upgrade_snapshot h brain pin prev n path)) u
    = map_option (\<lambda>e. entry_of_carry (carry_of_entry u e)) (record_of h u)"
  unfolding record_of_def restored_sessions [OF assms]
  by (rule bt_get_map [where f = "\<lambda>u e. entry_of_carry (carry_of_entry u e)"])

lemma polled_get:
  assumes "bt_sorted (hd_sessions h)" and "record_of h u = Some e" and "u \<in> set (polled_uids h)"
  shows "se_exit e = None \<and> \<not> se_exit_latched e"
proof -
  from assms(3) obtain e' where e': "(u, e') \<in> set (hd_sessions h)" "se_exit e' = None"
    "\<not> se_exit_latched e'" by (auto simp: polled_uids_def)
  then have "record_of h u = Some e'" using assms(1) by (simp add: record_of_def bt_get_iff)
  with assms(2) e' show ?thesis by simp
qed

text \<open>The pidfds the loop hands to its exit stage are those of live, unlatched records.\<close>

definition polled_ok :: "uid list \<Rightarrow> holder \<Rightarrow> bool" where
  "polled_ok uids h \<longleftrightarrow>
     (\<forall>u\<in>set uids. \<forall>e. record_of h u = Some e \<longrightarrow> se_exit e = None \<and> \<not> se_exit_latched e)"

definition event_ok :: "holder \<times> bool \<Rightarrow> holder_event \<Rightarrow> bool" where
  "event_ok hb ev \<longleftrightarrow> hd_next_incarnation (fst hb) \<noteq> - 1 \<and>
     (\<forall>k uids ready. ev = EvExits k uids ready \<longrightarrow> polled_ok uids (fst hb))"

lemma child_exits_sessions:
  "fst (child_exits k uids ready h) = h\<lparr> hd_sessions :=
     fst (over_sessions (child_exit k (split_rollback_armed h) uids ready) (hd_sessions h)) \<rparr>"
  by (simp add: child_exits_def split_beta)

lemma child_exits_moves:
  assumes "polled_ok uids h"
  shows "moves (event_explains (EvExits k uids ready)) h (fst (child_exits k uids ready h))"
  unfolding child_exits_sessions
proof (rule moves_map)
  fix u e
  assume e: "record_of h u = Some e"
  let ?f = "child_exit k (split_rollback_armed h) uids ready"
  show "\<exists>ls. lives u ls (Some e) (Some (fst (?f u e))) \<and>
    (\<forall>l\<in>set ls. event_explains (EvExits k uids ready) u l)"
  proof (cases "u \<in> set uids \<and> ready u")
    case False
    then show ?thesis by (intro exI [of _ "[]"]) (auto simp: child_exit_def)
  next
    case True
    then have live: "se_exit e = None" "\<not> se_exit_latched e"
      using assms e by (auto simp: polled_ok_def)
    show ?thesis
    proof (cases "se_reap_armed e \<and> \<not> split_rollback_armed h")
      case armed: True
      then show ?thesis using True live
        by (intro exI [of _ "[LConsume (exit_event_of k u e)]"])
          (auto simp: child_exit_def intro!: lives_one life_consume)
    next
      case unarmed: False
      then show ?thesis using True live
        by (intro exI [of _ "[LLatch]"]) (auto simp: child_exit_def intro!: lives_one life_latch)
    qed
  qed
qed (simp add: store_simps)

lemma auto_disarm_moves: "moves only_consumes h (fst (auto_disarm k t h))"
proof -
  have "moves only_consumes h (fst (sweep_latched_exits_into k (h\<lparr> hd_armed_deploy := None \<rparr>)))"
    by (rule moves_trans [OF moves_same sweep_into_moves]) simp
  then show ?thesis by (auto simp: auto_disarm_def split: option.splits)
qed

lemma fresh_generation_record:
  "record_of (fresh_generation (serve_reset h)) u
    = map_option (\<lambda>e. e\<lparr> se_delivery_ready := False \<rparr>) (record_of h u)"
  by (simp add: record_of_def fresh_generation_def serve_reset_def
      bt_get_map [where f = "\<lambda>u e. e\<lparr> se_delivery_ready := False \<rparr>"])

lemma event_moves:
  assumes "bt_sorted (hd_sessions (fst hb))" and "event_ok hb ev"
  shows "moves (event_explains ev) (fst hb) (fst (apply_event ev hb))"
proof (cases ev)
  case (EvFrame k f fds)
  then show ?thesis
    using dispatch_moves [OF assms(1), of f k fds] by (auto intro: moves_mono)
next
  case (EvExits k uids ready)
  then show ?thesis
    using assms(2) child_exits_moves [of uids "fst hb" k ready] by (simp add: event_ok_def)
next
  case (EvDisarm k t)
  then show ?thesis
    using moves_mono [OF auto_disarm_moves [of "fst hb" k t]] by (auto simp: only_consumes_def)
next
  case (EvSweep k)
  then show ?thesis
    using moves_mono [OF sweep_moves [of "fst hb" k]] by (auto simp: only_consumes_def)
next
  case (EvServe resumed)
  show ?thesis
  proof (cases resumed)
    case True
    with EvServe show ?thesis by (auto simp: serve_reset_def intro!: moves_same)
  next
    case False
    then show ?thesis unfolding EvServe
      by (intro moves_map [where g = "\<lambda>u e. e\<lparr> se_delivery_ready := False \<rparr>"])
        (auto simp: fresh_generation_record intro!: exI [of _ "[LGeneration]"] lives_one life_generation)
  qed
next
  case (EvUpgrade cfg brain pin prev failures path)
  then show ?thesis unfolding EvUpgrade
    by (intro moves_map [where g = "\<lambda>u e. entry_of_carry (carry_of_entry u e)"])
      (auto simp: record_of_restored [OF assms(1)] intro!: exI [of _ "[LCarry]"] lives_one life_carry)
qed (auto simp: take_armed_deploy_def set_supervisor_status_def intro!: moves_same)

section \<open>Events keep the invariant\<close>

lemma sorted_map_entries:
  "bt_sorted m \<Longrightarrow> bt_sorted (map (\<lambda>x. (fst x, f x)) m)"
  by (simp add: bt_sorted_def comp_def)

lemma event_numbered:
  assumes s: "bt_sorted (hd_sessions (fst hb))"
  shows "numbered (fst hb) (fst (apply_event ev hb))"
proof (cases ev)
  case (EvFrame k f fds)
  then show ?thesis using dispatch_numbered [OF s] by simp
next
  case (EvExits k uids ready)
  then show ?thesis using s by (simp add: child_exits_sessions numbered_over_sessions)
next
  case (EvDisarm k t)
  have "numbered ((fst hb)\<lparr> hd_armed_deploy := None \<rparr>)
      (fst (sweep_latched_exits_into k ((fst hb)\<lparr> hd_armed_deploy := None \<rparr>)))"
    using s by (intro sweep_numbered) simp
  then have "numbered (fst hb) (fst (sweep_latched_exits_into k ((fst hb)\<lparr> hd_armed_deploy := None \<rparr>)))"
    by (rule numbered_armed) (auto simp: record_of_def)
  then show ?thesis using EvDisarm numbered_refl [OF s]
    by (auto simp: auto_disarm_def split: option.splits)
next
  case (EvSweep k)
  then show ?thesis using sweep_numbered [OF s, of k] by (simp add: sweep_latched_exits_def split_beta)
next
  case (EvServe resumed)
  have "numbered (fst hb) (fresh_generation (serve_reset (fst hb)))"
    unfolding numbered_def using s
    by (auto simp: fresh_generation_record)
      (simp_all add: fresh_generation_def serve_reset_def sorted_map_entries)
  then show ?thesis using EvServe s
    by (auto simp: serve_reset_def intro!: numbered_same_sessions)
next
  case (EvUpgrade cfg brain pin prev failures path)
  have n: "hd_next_incarnation (restore_from_upgrade cfg
      (upgrade_snapshot (fst hb) brain pin prev failures path)) = hd_next_incarnation (fst hb)"
    by (simp add: restore_from_upgrade_def upgrade_snapshot_def)
  show ?thesis
    unfolding EvUpgrade numbered_def using s n
    by (auto simp: record_of_restored [OF s])
      (simp_all add: restored_sessions sorted_map_entries entry_of_carry_def carry_of_entry_def)
qed (auto simp: take_armed_deploy_def set_supervisor_status_def s intro!: numbered_same_sessions)

text \<open>Listeners and deploys: a handler of the session verbs changes neither.\<close>

definition side_state :: "holder \<Rightarrow> (listener_meta \<times> fd) list \<times> (armed_deploy \<times> millis) option \<times> fd option"
  where "side_state h = (hd_listeners h, hd_armed_deploy h, hd_pending_upgrade h)"

definition side_ok :: "holder \<Rightarrow> bool" where
  "side_ok h \<longleftrightarrow> listeners_ok h \<and> deploys_ok h"

lemma side_ok_cong: "side_state h' = side_state h \<Longrightarrow> side_ok h' = side_ok h"
  by (simp add: side_state_def side_ok_def listeners_ok_def deploys_ok_def)

lemma side_record [simp]:
  "side_state (set_record u e h) = side_state h" "side_state (remove_record u h) = side_state h"
  "side_state (h\<lparr> hd_sessions := m \<rparr>) = side_state h"
  by (simp_all add: side_state_def set_record_def remove_record_def)

lemma side_sweep [simp]: "side_state (fst (sweep_latched_exits_into k h)) = side_state h"
  by (simp add: sweep_into_sessions)

lemma side_session_verbs [simp]:
  "side_state (fst (handle_spawn k req j h)) = side_state h"
  "side_state (fst (handle_arm_reap k req j h)) = side_state h"
  "side_state (fst (handle_adopt k req h)) = side_state h"
  "side_state (fst (handle_signal k req j h)) = side_state h"
  "side_state (fst (handle_abort_spawn req j h)) = side_state h"
  "side_state (fst (handle_update_checkpoint req j h)) = side_state h"
  "side_state (fst (rollback_record req j h)) = side_state h"
  "side_state (fst (handle_forget req j h)) = side_state h"
  "side_state (fst (handle_ack_exit req j h)) = side_state h"
proof -
  have "side_state (fst (install_spawned k req spec sp h)) = side_state h" for spec sp
    by (auto simp: install_spawned_def Let_def side_state_def split: option.splits)
  then show "side_state (fst (handle_spawn k req j h)) = side_state h"
    by (auto simp: handle_spawn_def split_beta split: option.splits sum.splits prod.splits)
qed (auto simp: handle_arm_reap_def handle_adopt_def handle_signal_def handle_abort_spawn_def
    handle_update_checkpoint_def rollback_record_def handle_forget_def handle_ack_exit_def
    Let_def split_beta split: option.splits signal_answer.splits)

lemma side_handshakes [simp]:
  "side_state (fst (fst (fst (first_frame req f h)))) = side_state h"
  "side_state (fst (fst (rehello_reply f h))) = side_state h"
  by (auto simp: first_frame_def rehello_reply_def carry_on_def abort_def side_state_def
      split: option.splits)

lemma listeners_ok_store:
  "distinct (map (\<lambda>l. lm_kind (fst l)) ls) \<Longrightarrow>
   distinct (map (\<lambda>l. lm_kind (fst l)) (filter (\<lambda>l. lm_kind (fst l) \<noteq> lm_kind m) ls @ [(m, d)]))"
  by (auto simp: distinct_map_filter)

lemma side_ok_deploy_verbs:
  assumes "side_ok h"
  shows "side_ok (fst (fst (handle_store_listener req j fds h)))"
    and "side_ok (fst (fst (restart_brain k req fds h)))"
    and "side_ok (fst (rollback_brain k req h))"
    and "side_ok (fst (fst (split_rollback k req j fds h)))"
    and "side_ok (fst (fst (reexec_holder k req fds h)))"
    and "side_ok (fst (cancel_pending k req h))"
proof -
  show "side_ok (fst (fst (handle_store_listener req j fds h)))"
    using assms listeners_ok_store
    by (auto simp: handle_store_listener_def store_listener_custody_def side_ok_def
        listeners_ok_def deploys_ok_def split: option.splits list.splits)
  show "side_ok (fst (fst (restart_brain k req fds h)))"
    and "side_ok (fst (rollback_brain k req h))"
    and "side_ok (fst (fst (split_rollback k req j fds h)))"
    using assms
    by (auto simp: restart_brain_def rollback_brain_def split_rollback_def deploy_conflict_def carry_on_def abort_def side_ok_def listeners_ok_def deploys_ok_def
        Let_def split: option.splits list.splits if_splits)
  show "side_ok (fst (fst (reexec_holder k req fds h)))"
    using assms
    by (cases "hd_armed_deploy h")
      (auto simp: reexec_holder_def deploy_conflict_def carry_on_def abort_def side_ok_def
        listeners_ok_def deploys_ok_def split: list.splits option.splits)
  have "side_ok (h\<lparr> hd_armed_deploy := None \<rparr>)"
    using assms by (simp add: side_ok_def listeners_ok_def deploys_ok_def)
  then show "side_ok (fst (cancel_pending k req h))"
    by (simp add: cancel_pending_def Let_def split_beta
        side_ok_cong [OF side_sweep [of k "h\<lparr> hd_armed_deploy := None \<rparr>"]])
qed

lemmas side_ok_unchanged [simp] = side_record [THEN side_ok_cong] side_sweep [THEN side_ok_cong]
  side_session_verbs [THEN side_ok_cong] side_handshakes [THEN side_ok_cong]

lemma dispatch_verb_side_ok: "side_ok h \<Longrightarrow> side_ok (fst (fst (dispatch_verb k req f fds h)))"
  using side_ok_deploy_verbs [of h]
  by (cases "verb_of (fr_v f)"; simp add: dispatch_verb_def carry_on_def abort_def
      split: verb.split)

lemma dispatch_side_ok:
  assumes "side_ok (fst hb)"
  shows "side_ok (fst (fst (dispatch k f fds hb)))"
proof -
  obtain h b where hb: "hb = (h, b)" by (cases hb)
  have "side_ok (h\<lparr> hd_pings_unanswered := 0 \<rparr>)"
    using assms hb by (simp add: side_ok_def listeners_ok_def deploys_ok_def)
  then show ?thesis
    using assms dispatch_verb_side_ok [of h k] unfolding hb dispatch_def
    by (simp add: Let_def split_beta split: option.split)
qed

lemma event_side_ok:
  assumes "side_ok (fst hb)"
  shows "side_ok (fst (apply_event ev hb))"
proof (cases ev)
  case (EvFrame k f fds)
  then show ?thesis using dispatch_side_ok [OF assms] by simp
next
  case (EvExits k uids ready)
  then show ?thesis using assms by (simp add: child_exits_sessions side_ok_cong [OF side_record(3)])
next
  case (EvDisarm k t)
  have "side_ok ((fst hb)\<lparr> hd_armed_deploy := None \<rparr>)"
    using assms by (simp add: side_ok_def listeners_ok_def deploys_ok_def)
  then show ?thesis using assms EvDisarm
    by (auto simp: auto_disarm_def split: option.splits
        simp: side_ok_cong [OF side_sweep [of k "(fst hb)\<lparr> hd_armed_deploy := None \<rparr>"]])
next
  case (EvSweep k)
  then show ?thesis using assms
    by (simp add: sweep_latched_exits_def split_beta side_ok_cong [OF side_sweep])
qed (use assms in \<open>auto simp: side_ok_def listeners_ok_def deploys_ok_def serve_reset_def
      fresh_generation_def take_armed_deploy_def set_supervisor_status_def restore_from_upgrade_def
      upgrade_snapshot_def holder_new_def comp_def\<close>)

lemma holder_ok_iff:
  "holder_ok h \<longleftrightarrow> bt_sorted (hd_sessions h) \<and> records_ok h \<and> incarnations_below h \<and>
     distinct_incarnations h \<and> side_ok h"
  by (simp add: holder_ok_def side_ok_def)

lemma apply_event_ok:
  assumes "holder_ok (fst hb)" and "event_ok hb ev"
  shows "holder_ok (fst (apply_event ev hb))"
  using assms event_numbered [of hb ev] event_moves [of hb ev] event_side_ok [of hb ev]
    records_ok_moves numbered_below numbered_distinct
  unfolding holder_ok_iff event_ok_def by (metis numbered_def)

interpretation machine: invariant_system "\<lambda>hb ev. apply_event ev hb" event_ok "\<lambda>hb. holder_ok (fst hb)"
  by unfold_locales (rule apply_event_ok)

text \<open>The same machine, kept from acking or aborting one session key.\<close>

definition drops_key :: "uid \<Rightarrow> u64 \<Rightarrow> holder_event \<Rightarrow> bool" where
  "drops_key u i ev \<longleftrightarrow>
     (case ev of
        EvFrame k f fds \<Rightarrow> keyed V_ACK_EXIT f u i \<or> keyed V_ABORT_SPAWN f u i
      | _ \<Rightarrow> False)"

definition keeps_key :: "uid \<Rightarrow> u64 \<Rightarrow> holder \<times> bool \<Rightarrow> holder_event \<Rightarrow> bool" where
  "keeps_key u i hb ev \<longleftrightarrow> event_ok hb ev \<and> \<not> drops_key u i ev"

interpretation keeper: invariant_system "\<lambda>hb ev. apply_event ev hb" "keeps_key u i"
  "\<lambda>hb. holder_ok (fst hb)" for u i
  by unfold_locales (auto intro: apply_event_ok simp: keeps_key_def)

lemma drops_key_labels:
  "event_explains ev u (LAck i) \<or> event_explains ev u (LAbort i) \<Longrightarrow> drops_key u i ev"
  by (cases ev) (auto simp: drops_key_def)

lemma event_keeps_event:
  assumes "holder_ok (fst hb)" and "event_ok hb ev" and "\<not> drops_key u i ev"
    and "holds_event i x (record_of (fst hb) u)"
  shows "holds_event i x (record_of (fst (apply_event ev hb)) u)"
proof -
  have "moves (event_explains ev) (fst hb) (fst (apply_event ev hb))"
    using assms(1,2) by (intro event_moves) (simp_all add: holder_ok_def)
  then obtain ls where ls: "lives u ls (record_of (fst hb) u) (record_of (fst (apply_event ev hb)) u)"
    "\<forall>l\<in>set ls. event_explains ev u l" unfolding moves_def by blast
  then show ?thesis
    using assms(3,4) drops_key_labels by (intro lives_holds_event [OF ls(1)]) auto
qed

lemma run_keeps_event:
  "holder_ok (fst hb) \<Longrightarrow> keeper.may_run u i hb evs \<Longrightarrow> holds_event i x (record_of (fst hb) u) \<Longrightarrow>
   holds_event i x (record_of (fst (machine.run hb evs)) u)"
  by (rule keeper.run_persists) (auto intro: event_keeps_event simp: keeps_key_def)

end
