(* ===== verification/HolderLaws.thy ===== *)
theory HolderLaws
  imports HolderMachine
begin

text \<open>
  What the holder promises its brain, as properties of the handlers and of runs of the machine:
  authorization and delivery of exits, the replies, the guards of each verb, and the deploy
  rules. A sample holder at the start serves the witnesses.
\<close>

section \<open>A sample holder\<close>

definition sample_cfg :: holder_config where
  "sample_cfg = \<lparr> hc_handshake_timeout = 30000, hc_ping_interval = Some 30000,
     hc_outbound_max_frames = 4096, hc_holder_build_id = ''b'', hc_extra_fd = None \<rparr>"

definition sample_entry :: session_entry where
  "sample_entry =
     \<lparr> se_incarnation = 1, se_generation_meta = 0, se_pid = 100, se_child_start_time = 5,
       se_master = Raw 10, se_pidfd = 11, se_reap_armed = True, se_delivery_ready = True,
       se_exit_latched = False, se_cgroup_prefix = None, se_cgroup_path = None,
       se_watcher_checkpoint = None, se_last_signal_request = None, se_exit = None,
       se_rollback_record = None \<rparr>"

definition sample_event :: exit_event where
  "sample_event =
     \<lparr> ev_uid = ''s1'', ev_incarnation = 1, ev_code = Some 0, ev_signal = None, ev_exited_at = 7,
       ev_last_signal_request = None, ev_memory_events_snapshot = None \<rparr>"

definition exited_entry :: session_entry where
  "exited_entry = sample_entry
     \<lparr> se_exit := Some \<lparr> xr_exited_at = 7, xr_pending = Some sample_event \<rparr> \<rparr>"

definition sample_holder :: "session_entry \<Rightarrow> holder" where
  "sample_holder e = (holder_new sample_cfg)
     \<lparr> hd_sessions := [(''s1'', e)], hd_next_incarnation := 2 \<rparr>"

lemma sample_record: "record_of (sample_holder e) u = (if u = ''s1'' then Some e else None)"
  by (simp add: sample_holder_def record_of_def bt_get_def)

lemma sample_holder_ok:
  assumes "entry_ok ''s1'' e" and "se_incarnation e = 1"
  shows "holder_ok (sample_holder e)"
  using assms
  by (simp add: holder_ok_def records_ok_iff incarnations_below_def distinct_incarnations_def
      listeners_ok_def deploys_ok_def sample_record bt_sorted_def)
    (simp add: sample_holder_def holder_new_def bt.every_def bt_get_def)

lemma sample_entries_ok: "entry_ok ''s1'' sample_entry" "entry_ok ''s1'' exited_entry"
  by (simp_all add: entry_ok_def event_matches_def sample_entry_def exited_entry_def
      sample_event_def)

definition request :: "verb \<Rightarrow> json \<Rightarrow> json frame" where
  "request v j = frame_new v (Some 9) 0 j"

lemma request_simps [simp]:
  "fr_v (request v j) = verb_name v" "fr_req_id (request v j) = Some 9" "fr_body (request v j) = j"
  by (simp_all add: request_def frame_new_def)

definition sample_key :: json where
  "sample_key = ser_record_key \<lparr> rk_uid = ''s1'', rk_incarnation = 1 \<rparr>"

lemma parse_sample_key [simp]:
  "parse_record_key sample_key = Some \<lparr> rk_uid = ''s1'', rk_incarnation = 1 \<rparr>"
  by (simp add: sample_key_def ser_defs parse_defs de_defs)

section \<open>The invariant\<close>

lemma holder_new_ok: "holder_ok (holder_new cfg)"
  by (simp add: holder_ok_def holder_new_def records_ok_def incarnations_below_def
      distinct_incarnations_def listeners_ok_def deploys_ok_def bt.every_def bt_get_def
      record_of_def)

text \<open>C2. Whatever frames arrive and whatever the loop and the supervisor do, in any order, a
  holder that started empty is well formed: an exit status is held only for a record whose
  reaping was authorized, a pending event belongs to the record that holds it, no two sessions
  share an incarnation, no kind has two listeners, and a deploy is never armed beside a holder
  upgrade.\<close>
theorem holder_well_formed:
  assumes "machine.may_run (holder_new cfg, b) evs"
    and "h = fst (machine.run (holder_new cfg, b) evs)"
  shows "(\<forall>u e x. record_of h u = Some e \<and> se_exit e = Some x \<longrightarrow>
      se_reap_armed e \<and> \<not> se_exit_latched e \<and>
      (\<forall>ev. xr_pending x = Some ev \<longrightarrow> ev_uid ev = u \<and> ev_incarnation ev = se_incarnation e)) \<and>
    (\<forall>u v e e'. record_of h u = Some e \<and> record_of h v = Some e' \<and>
      se_incarnation e = se_incarnation e' \<longrightarrow> u = v) \<and>
    distinct (map (\<lambda>l. lm_kind (fst l)) (hd_listeners h)) \<and>
    (hd_armed_deploy h = None \<or> hd_pending_upgrade h = None)"
proof -
  have "holder_ok (fst (machine.run (holder_new cfg, b) evs))"
    using assms(1) by (intro machine.run_inv) (simp_all add: holder_new_ok)
  with assms(2) have ok: "holder_ok h" by simp
  then have "\<forall>u. pred_option (entry_ok u) (record_of h u)"
    by (simp add: holder_ok_def records_ok_iff)
  then have e: "record_of h u = Some e \<Longrightarrow> entry_ok u e" for u e
    by (metis option.pred_inject(2))
  with ok show ?thesis
    by (auto simp: holder_ok_def distinct_incarnations_def listeners_ok_def deploys_ok_def
        entry_ok_def event_matches_def)
qed

theorem holder_well_formed_witness:
  "hd_armed_deploy (fst (machine.run (holder_new sample_cfg, True)
     [EvServe False, EvStatus ''running'' True, EvPing])) = None \<or>
   hd_pending_upgrade (fst (machine.run (holder_new sample_cfg, True)
     [EvServe False, EvStatus ''running'' True, EvPing])) = None"
  by (rule holder_well_formed [OF _ refl, THEN conjunct2, THEN conjunct2, THEN conjunct2])
    (simp add: event_ok_def holder_new_def serve_reset_def fresh_generation_def
      set_supervisor_status_def)

section \<open>Exit events\<close>

lemma arm_reap_redelivers:
  assumes "parse_arm_reap j = Some b" and "ar_incarnation b = i"
    and "holds_event i ev (record_of h (ar_uid b))"
  shows "snd (handle_arm_reap k req j h) = [ok_frame req, exit_frame ev]"
  using assms by (auto simp: handle_arm_reap_def holds_event_def Let_def split: option.splits)

text \<open>C7. No exit is lost. Once a record holds an exit event, it holds that event through every
  run of frames, passes, generations, disarms and holder upgrades in which the brain neither
  acknowledges nor aborts that session, and whenever the brain arms the record again the event is
  delivered once more.\<close>
theorem exit_event_survives:
  assumes "holder_ok h" and "keeper.may_run u i (h, b) evs"
    and "holds_event i ev (record_of h u)"
    and "parse_arm_reap j = Some \<lparr> ar_uid = u, ar_incarnation = i, ar_cgroup_path = p \<rparr>"
  shows "holds_event i ev (record_of (fst (machine.run (h, b) evs)) u) \<and>
    snd (handle_arm_reap k req j (fst (machine.run (h, b) evs))) = [ok_frame req, exit_frame ev]"
proof
  show h: "holds_event i ev (record_of (fst (machine.run (h, b) evs)) u)"
    using run_keeps_event [of "(h, b)"] assms(1,2,3) by simp
  show "snd (handle_arm_reap k req j (fst (machine.run (h, b) evs))) = [ok_frame req, exit_frame ev]"
    using arm_reap_redelivers [OF assms(4)] h by simp
qed

theorem exit_event_survives_witness:
  "holds_event 1 sample_event (record_of (fst (machine.run (sample_holder exited_entry, True)
     [EvFrame sample_kernel (request V_FORGET sample_key) [], EvServe False])) ''s1'')"
proof -
  let ?j = "ser_arm_reap \<lparr> ar_uid = ''s1'', ar_incarnation = 1, ar_cgroup_path = None \<rparr>"
  have "parse_arm_reap ?j = Some \<lparr> ar_uid = ''s1'', ar_incarnation = 1, ar_cgroup_path = None \<rparr>"
    by (simp add: ser_defs parse_defs de_defs)
  moreover have "holder_ok (sample_holder exited_entry)"
    by (rule sample_holder_ok [OF sample_entries_ok(2)]) (simp add: exited_entry_def sample_entry_def)
  moreover have "keeper.may_run ''s1'' 1 (sample_holder exited_entry, True)
      [EvFrame sample_kernel (request V_FORGET sample_key) [], EvServe False]"
    by (simp only: keeper.may_run.simps)
      (simp add: keeps_key_def event_ok_def drops_key_def keyed_def dispatch_def dispatch_verb_def takes_fds_def
        carry_on_def handle_forget_def record_of_def bt_get_def event_pending_def exited_entry_def
        sample_entry_def sample_holder_def)
  moreover have "holds_event 1 sample_event (record_of (sample_holder exited_entry) ''s1'')"
    by (simp add: sample_record holds_event_def exited_entry_def sample_entry_def)
  ultimately show ?thesis
    using exit_event_survives [of "sample_holder exited_entry" "''s1''" 1 True
        "[EvFrame sample_kernel (request V_FORGET sample_key) [], EvServe False]" sample_event ?j None]
    by blast
qed

end
