(* ===== verification/VerbLaws.thy ===== *)
theory VerbLaws
  imports HolderLaws ChannelLaws
begin

text \<open>
  The verbs one by one: which requests are answered and how often, when a record may be
  forgotten, signalled, aborted or spawned, and which versions a handshake accepts.
\<close>

section \<open>Every request gets one reply\<close>

definition replies :: "u64 \<Rightarrow> io list \<Rightarrow> (out_body frame \<times> fd list) list" where
  "replies req ios = filter (\<lambda>x. fr_req_id (fst x) = Some req) (pushed ios)"

lemma replies_simps [simp]:
  "replies req [] = []"
  "replies req (ios @ ios') = replies req ios @ replies req ios'"
  "replies req (SendSignal d s # ios) = replies req ios"
  "replies req (WaitExit d p # ios) = replies req ios"
  "replies req (ChildKill q # ios) = replies req ios"
  "replies req (ChildWait q # ios) = replies req ios"
  "replies req (OomScoreAdjZero p # ios) = replies req ios"
  "replies req (exit_frame ev # ios) = replies req ios"
  "replies req (Push f fds # ios) =
     (if fr_req_id f = Some req then (f, fds) # replies req ios else replies req ios)"
  by (simp_all add: replies_def exit_frame_def frame_new_def)

lemma replies_reply [simp]:
  "replies req (reply_frame v req b # ios) = (frame_new v (Some req) 0 b, []) # replies req ios"
  by (simp add: reply_frame_def frame_new_def)

lemma replies_ok_err [simp]:
  "length (replies req (ok_frame req # ios)) = Suc (length (replies req ios))"
  "length (replies req (ok_frame_with req d # ios)) = Suc (length (replies req ios))"
  "length (replies req (err_frame req c m # ios)) = Suc (length (replies req ios))"
  "length (replies req (err_frame_with req c m d # ios)) = Suc (length (replies req ios))"
  by (simp_all add: ok_frame_def ok_frame_with_def err_frame_def err_frame_with_def)

lemma replies_consume [simp]: "replies req (snd (consume_exit k u e)) = []"
  by (simp add: consume_exit_def Let_def)

lemma replies_over_sessions:
  "(\<And>u e. replies req (snd (f u e)) = []) \<Longrightarrow> replies req (snd (over_sessions f m)) = []"
  by (induction m) (auto simp: over_sessions_def)

lemma replies_sweep [simp]: "replies req (snd (sweep_latched_exits_into k h)) = []"
  by (simp add: sweep_latched_exits_into_def split_beta replies_over_sessions sweep_entry_def)

lemma replies_do_spawn [simp]: "replies req (snd (do_spawn k spec)) = []"
  by (auto simp: do_spawn_def split: if_splits sum.splits option.splits)

lemma replies_kill [simp]: "replies req (kill_and_reap e) = []"
  by (simp add: kill_and_reap_def)

lemma session_verbs_one_reply:
  "length (replies req (snd (handle_spawn k req j h))) = 1"
  "length (replies req (snd (handle_arm_reap k req j h))) = 1"
  "length (replies req (snd (handle_signal k req j h))) = 1"
  "length (replies req (snd (handle_abort_spawn req j h))) = 1"
  "length (replies req (snd (handle_update_checkpoint req j h))) = 1"
  "length (replies req (snd (rollback_record req j h))) = 1"
  "length (replies req (snd (handle_forget req j h))) = 1"
  "length (replies req (snd (handle_ack_exit req j h))) = 1"
proof -
  have "length (replies req (snd (install_spawned k req spec sp h))) = 1" for spec sp
    by (auto simp: install_spawned_def Let_def frame_new_def split: option.splits)
  then show "length (replies req (snd (handle_spawn k req j h))) = 1"
    by (auto simp: handle_spawn_def split_beta
        split: option.splits sum.splits prod.splits)
qed (auto simp: handle_arm_reap_def handle_signal_def handle_abort_spawn_def
    handle_update_checkpoint_def rollback_record_def handle_forget_def handle_ack_exit_def
    Let_def split_beta split: option.splits signal_answer.splits)

lemma deploy_verbs_one_reply:
  "snd (restart_brain k req fds h) = None \<Longrightarrow>
     length (replies req (snd (fst (restart_brain k req fds h)))) = 1"
  "length (replies req (snd (rollback_brain k req h))) = 1"
  "length (replies req (snd (cancel_pending k req h))) = 1"
  "snd (split_rollback k req j fds h) = None \<Longrightarrow>
     length (replies req (snd (fst (split_rollback k req j fds h)))) = 1"
  "snd (reexec_holder k req fds h) = None \<Longrightarrow>
     length (replies req (snd (fst (reexec_holder k req fds h)))) = 1"
  "snd (handle_store_listener req j fds h) = None \<Longrightarrow>
     length (replies req (snd (fst (handle_store_listener req j fds h)))) = 1"
  by (auto simp: restart_brain_def rollback_brain_def cancel_pending_def split_rollback_def
      reexec_holder_def handle_store_listener_def carry_on_def abort_def Let_def split_beta
      split: option.splits list.splits)

text \<open>Once the handshake is done, every request that does not end the generation is answered
  by exactly one frame that echoes its request id, whatever the verb, known or not, and whether
  it succeeds or fails. The exceptions are \<open>adopt\<close>, which answers with a stream, \<open>pong\<close>, which
  has no id, and the brain's answer to \<open>rehello\<close>.\<close>
theorem one_reply_per_request:
  assumes "dispatch k f fds (h, True) = (hb', ios, None)" and "fr_req_id f = Some req"
    and "fr_v f \<noteq> verb_name V_PONG" and "fr_v f \<noteq> verb_name V_ADOPT"
    and "fr_v f \<noteq> verb_name V_HELLO"
  shows "length (replies req ios) = 1"
proof -
  have d: "snd (dispatch_verb k req f fds h) = None"
    "ios = snd (fst (dispatch_verb k req f fds h))"
    using assms by (auto simp: dispatch_def split_beta Let_def split: if_splits)
  have "verb_of (fr_v f) \<noteq> Some V_ADOPT" "verb_of (fr_v f) \<noteq> Some V_HELLO"
    using assms(4,5) by (metis verb_of_SomeD)+
  then show ?thesis
    using d
    by (cases "verb_of (fr_v f)"; simp add: dispatch_verb_def carry_on_def abort_def
        session_verbs_one_reply deploy_verbs_one_reply split: verb.splits)
qed

theorem one_reply_per_request_witness:
  "length (replies 9 (fst (snd (dispatch sample_kernel (request V_FORGET sample_key) []
     (sample_holder exited_entry, True))))) = 1"
proof (rule one_reply_per_request [where f = "request V_FORGET sample_key"])
  show "dispatch sample_kernel (request V_FORGET sample_key) [] (sample_holder exited_entry, True)
    = (fst (dispatch sample_kernel (request V_FORGET sample_key) [] (sample_holder exited_entry, True)),
       fst (snd (dispatch sample_kernel (request V_FORGET sample_key) []
         (sample_holder exited_entry, True))), None)"
    by (simp add: dispatch_def dispatch_verb_def takes_fds_def carry_on_def split_beta)
qed simp_all

text \<open>Additive tolerance of verbs: a verb the holder does not know, or knows only as one it
  sends itself, gets a typed error and changes nothing, and the channel stays up.\<close>
theorem unknown_verb_tolerated:
  assumes "fr_req_id f = Some req"
    and "verb_of (fr_v f) \<in> {None, Some V_HELLO_REPLY, Some V_ADOPT_RECORD, Some V_ADOPT_LISTENERS,
      Some V_ADOPT_DONE, Some V_EXIT_EVENT, Some V_REHELLO, Some V_PING, Some V_OK, Some V_ERR}"
  shows "dispatch k f [] (h, True)
    = ((h, True), [err_frame req ERR_UNSUPPORTED_VERB (M_unsupported_verb (fr_v f))], None)"
proof -
  have "fr_v f \<noteq> verb_name V_PONG" "fr_v f \<noteq> verb_name V_HELLO" using assms(2) by auto
  with assms show ?thesis
    by (auto simp: dispatch_def dispatch_verb_def carry_on_def)
qed

theorem unknown_verb_tolerated_witness:
  "dispatch sample_kernel \<lparr> fr_v = ''shiny'', fr_req_id = Some 4, fr_nfds = 0, fr_body = JNull \<rparr> []
     (holder_new sample_cfg, True)
   = ((holder_new sample_cfg, True),
      [err_frame 4 ERR_UNSUPPORTED_VERB (M_unsupported_verb ''shiny'')], None)"
  using unknown_verb_tolerated
    [of "\<lparr> fr_v = ''shiny'', fr_req_id = Some 4, fr_nfds = 0, fr_body = JNull \<rparr>" 4 sample_kernel
      "holder_new sample_cfg"]
  by (simp add: verb_of_def all_verbs_def verb_name.simps)

section \<open>Forget, acknowledge, abort\<close>

text \<open>Forgetting is garbage collection after the exit: the record goes exactly when it is the
  named incarnation, its exit was consumed and its event acknowledged. In every other case the
  holder is unchanged, so a live child is never dropped while it is still to be reaped.\<close>
theorem forget_only_after_ack:
  "fst (handle_forget req (ser_record_key b) h) =
     (if \<exists>e x. record_of h (rk_uid b) = Some e \<and> se_incarnation e = rk_incarnation b \<and>
         se_exit e = Some x \<and> xr_pending x = None
      then remove_record (rk_uid b) h else h)"
  by (cases b) (auto simp: handle_forget_def event_pending_def ser_defs parse_defs de_defs
      split: option.splits)

lemma bt_adjust_twice:
  "bt_adjust u (\<lambda>_. e') (bt_adjust u (\<lambda>_. e) m) = bt_adjust u (\<lambda>_. e') m"
  by (simp add: bt_adjust_def)

lemma set_record_twice [simp]: "set_record u e' (set_record u e h) = set_record u e' h"
  by (simp add: set_record_def bt_adjust_twice)

lemma ack_entry_idem [simp]: "ack_entry (ack_entry e) = ack_entry e"
  by (cases "se_exit e") (simp_all add: ack_entry_def)

lemma ack_entry_simps [simp]:
  "se_incarnation (ack_entry e) = se_incarnation e" "\<not> event_pending (ack_entry e)"
  by (auto simp: ack_entry_def event_pending_def split: option.splits)

text \<open>Acknowledging is idempotent: a replayed \<open>ack_exit\<close> leaves the holder as the first one
  left it, and is answered ok with \<open>known = false\<close>, so a brain that crashed after its ack can
  send it again.\<close>
theorem ack_exit_idempotent:
  "handle_ack_exit req' (ser_record_key b) (fst (handle_ack_exit req (ser_record_key b) h))
    = (fst (handle_ack_exit req (ser_record_key b) h), [ok_frame_with req' (D_known False)])"
  by (cases b) (auto simp: handle_ack_exit_def ser_defs parse_defs de_defs store_simps
      split: option.splits)

text \<open>Aborting a spawn kills and then reaps the child, armed or not, without an exit event, and
  the record is gone; a key that does not match touches nothing.\<close>
theorem abort_kills_and_reaps:
  "handle_abort_spawn req (ser_record_key b) h =
     (case record_of h (rk_uid b) of
        Some e \<Rightarrow>
          if se_incarnation e = rk_incarnation b
          then (remove_record (rk_uid b) h,
                [SendSignal (se_pidfd e) SIGKILL, WaitExit (se_pidfd e) (se_pid e), ok_frame req])
          else (h, [err_frame req ERR_NOT_FOUND (M_no_record (rk_uid b))])
      | None \<Rightarrow> (h, [err_frame req ERR_NOT_FOUND (M_no_record (rk_uid b))])) \<and>
   record_of (remove_record (rk_uid b) h) (rk_uid b) = None"
  by (cases b) (auto simp: handle_abort_spawn_def kill_and_reap_def ser_defs parse_defs de_defs
      store_simps split: option.splits)

section \<open>Signals\<close>

definition may_signal :: "kernel \<Rightarrow> signal_body \<Rightarrow> session_entry \<Rightarrow> bool" where
  "may_signal k b e \<longleftrightarrow> se_incarnation e = sg_incarnation b \<and> se_exit e = None \<and>
     \<not> se_exit_latched e \<and> \<not> k_exit_ready k (se_pidfd e)"

text \<open>A signal goes out exactly to a live record of the named incarnation, never to a child
  known or seen to have exited (a zombie would swallow it), through its own pidfd; and the record
  carries a new attribution only if the kernel delivered the signal.\<close>
theorem signal_only_live_and_stamped_on_delivery:
  assumes "parse_signal j = Some b"
  shows "(SendSignal d s \<in> set (snd (handle_signal k req j h)) \<longleftrightarrow>
      s = sg_sig b \<and> (\<exists>e. record_of h (sg_uid b) = Some e \<and> may_signal k b e \<and> d = se_pidfd e)) \<and>
    fst (handle_signal k req j h) =
      (case record_of h (sg_uid b) of
         Some e \<Rightarrow>
           if may_signal k b e \<and> k_send_signal k (se_pidfd e) (sg_sig b) = Delivered
           then set_record (sg_uid b) (e\<lparr> se_last_signal_request := Some
                  \<lparr> ls_sig = sg_sig b, ls_attribution = sg_attribution b,
                    ls_at = k_now k (se_pidfd e) \<rparr> \<rparr>) h
           else h
       | None \<Rightarrow> h)"
  using assms
  by (auto simp: handle_signal_def may_signal_def reply_defs
      split: option.splits signal_answer.splits)

theorem signal_only_live_and_stamped_on_delivery_witness:
  "SendSignal 11 15 \<in> set (snd (handle_signal sample_kernel 9 (ser_signal sample_signal)
     (sample_holder sample_entry)))"
proof -
  have p: "parse_signal (ser_signal sample_signal) = Some sample_signal"
    by (simp add: sample_signal_def ser_defs parse_defs de_defs de_ser_i32)
  show ?thesis
    by (subst signal_only_live_and_stamped_on_delivery [OF p, THEN conjunct1])
      (simp add: sample_record may_signal_def sample_signal_def sample_entry_def)
qed

section \<open>Spawning\<close>

definition spawn_fds_ok :: "kernel \<Rightarrow> spawned \<Rightarrow> bool" where
  "spawn_fds_ok k sp \<longleftrightarrow>
     (case sp_master sp of
        None \<Rightarrow> False | Some m \<Rightarrow> k_dup k m \<noteq> None \<and> k_dup k (sp_pidfd sp) \<noteq> None)"

text \<open>A spawn takes or it leaves nothing behind. It adds a record exactly when the child was
  started and both fds could be duplicated; the record is then unauthorized for reaping, has the
  next incarnation, and the reply carries the two duplicates. Otherwise no record changes, and a
  child that was started is killed and reaped before the error goes out.\<close>
theorem spawn_takes_or_leaves_nothing:
  assumes "parse_spawn j = Some spec" and "record_of h (sb_uid spec) = None"
    and "do_spawn k spec = (Inr sp, [])"
  shows "(if spawn_fds_ok k sp
     then \<exists>m p. handle_spawn k req j h =
       (h\<lparr> hd_next_incarnation := hd_next_incarnation h + 1,
           hd_sessions := bt_insert (sb_uid spec) (new_session (hd_next_incarnation h) spec sp)
             (hd_sessions h) \<rparr>,
        [OomScoreAdjZero (sp_pid sp),
         Push (frame_new V_OK (Some req) 2 (SpawnOkBody \<lparr> so_incarnation = hd_next_incarnation h,
           so_pid = sp_pid sp, so_child_start_time = sp_child_start_time sp \<rparr>)) [m, p]])
     else \<exists>msg. handle_spawn k req j h =
       (h\<lparr> hd_next_incarnation := hd_next_incarnation h + 1 \<rparr>,
        [OomScoreAdjZero (sp_pid sp), SendSignal (sp_pidfd sp) SIGKILL,
         WaitExit (sp_pidfd sp) (sp_pid sp), err_frame req ERR_EXEC_FAILED msg]))"
  using assms
  by (auto simp: handle_spawn_def install_spawned_def spawn_fds_ok_def Let_def
      split: option.splits)

theorem spawn_takes_or_leaves_nothing_witness:
  "\<exists>m p. snd (handle_spawn sample_kernel 9 (ser_spawn sample_spawn) (holder_new sample_cfg)) =
     [OomScoreAdjZero 4242,
      Push (frame_new V_OK (Some 9) 2 (SpawnOkBody \<lparr> so_incarnation = 1, so_pid = 4242,
        so_child_start_time = 777 \<rparr>)) [m, p]]"
proof -
  have p: "parse_spawn (ser_spawn sample_spawn) = Some sample_spawn"
    using de_ser_env [OF sample_spawn_sorted] by (simp add: ser_defs parse_defs de_defs)
  have r: "record_of (holder_new sample_cfg) (sb_uid sample_spawn) = None"
    by (simp add: record_of_def holder_new_def bt_get_def)
  have d: "do_spawn sample_kernel sample_spawn = (Inr \<lparr> sp_master = Some 10, sp_pidfd = 11,
      sp_pid = 4242, sp_child_start_time = 777 \<rparr>, [])"
    by (simp add: do_spawn_def sample_spawn_def)
  show ?thesis
    using spawn_takes_or_leaves_nothing [OF p r d, of 9]
    by (auto simp: spawn_fds_ok_def holder_new_def)
qed

section \<open>The version handshake\<close>

text \<open>The first frame is accepted exactly when it is a \<open>hello\<close> whose version range meets the
  holder's, and then the reply names a version in both ranges; a range that does not meet is
  refused with a typed error and the generation ends.\<close>
theorem hello_agrees_on_a_common_version:
  "first_frame req (f\<lparr> fr_v := verb_name V_HELLO, fr_body := ser_hello b \<rparr>) h =
     (if \<exists>v. hb_proto_min b \<le> v \<and> v \<le> hb_proto_max b \<and> PROTO_VERSION_MIN \<le> v \<and>
            v \<le> PROTO_VERSION_MAX
      then (((h\<lparr> hd_helloed_this_generation := True \<rparr>,
              [reply_frame V_HELLO_REPLY req (HelloReplyBody (highest_common b) (hello_info_of h))]),
             None), True)
      else (((h, [err_frame req ERR_PROTO_MISMATCH
                (M_proto_mismatch (hb_proto_min b) (hb_proto_max b))]), Some HelloRefused), False)) \<and>
   (if lowest_common b \<le> highest_common b
    then hb_proto_min b \<le> highest_common b \<and> highest_common b \<le> hb_proto_max b \<and>
      PROTO_VERSION_MIN \<le> highest_common b \<and> highest_common b \<le> PROTO_VERSION_MAX else True)"
proof -
  let ?meets = "\<exists>v. hb_proto_min b \<le> v \<and> v \<le> hb_proto_max b \<and> PROTO_VERSION_MIN \<le> v \<and>
      v \<le> PROTO_VERSION_MAX"
  have both: "lowest_common b \<le> v \<and> v \<le> highest_common b \<longleftrightarrow>
      hb_proto_min b \<le> v \<and> v \<le> hb_proto_max b \<and> PROTO_VERSION_MIN \<le> v \<and> v \<le> PROTO_VERSION_MAX" for v
    by (auto simp: lowest_common_def highest_common_def)
  have meets: "?meets \<longleftrightarrow> \<not> highest_common b < lowest_common b"
    unfolding not_less both [symmetric] by (auto intro: order_trans)
  have "parse_hello (ser_hello b) = Some b" by (simp add: ser_defs parse_defs de_defs)
  then show ?thesis
    using both [of "highest_common b"] unfolding meets by (simp add: first_frame_def carry_on_def)
qed

end
