(* ===== verification/ManifestLaws.thy ===== *)
theory ManifestLaws
  imports Manifests
begin

text \<open>
  What holds of the sealed manifests: the structural checks accept exactly the manifests of a
  declarative description, the read loop returns the file's bytes under any schedule of partial
  reads, an accepted file is the encoding of what was read from it, and a written manifest reads
  back.
\<close>

section \<open>Check lists\<close>

text \<open>\<open>accepts cs ds p\<close>: the checks \<open>cs\<close> pass exactly when \<open>p\<close> holds and the fds \<open>ds\<close> are above
  the stdio range, distinct, and not seen before; passing adds \<open>ds\<close> to the fds seen.\<close>

definition fresh_fds :: "fd list \<Rightarrow> fd set \<Rightarrow> bool" where
  "fresh_fds ds seen \<longleftrightarrow> (\<forall>d\<in>set ds. 2 < d \<and> d \<notin> seen) \<and> distinct ds"

definition accepts :: "(fd set \<Rightarrow> 'e + fd set) list \<Rightarrow> fd list \<Rightarrow> bool \<Rightarrow> bool" where
  "accepts cs ds p \<longleftrightarrow>
     (\<forall>seen. if p \<and> fresh_fds ds seen then run_checks cs seen = Inr (seen \<union> set ds)
             else \<exists>e. run_checks cs seen = Inl e)"

lemma fresh_fds_append:
  "fresh_fds (ds @ ds') seen \<longleftrightarrow> fresh_fds ds seen \<and> fresh_fds ds' (seen \<union> set ds)"
  by (auto simp: fresh_fds_def)

lemma accepts_Nil: "accepts [] [] True"
  by (simp add: accepts_def fresh_fds_def)

lemma accepts_append:
  assumes "accepts cs ds p" and "accepts cs' ds' p'"
  shows "accepts (cs @ cs') (ds @ ds') (p \<and> p')"
  unfolding accepts_def
proof
  fix seen
  have 1: "if p \<and> fresh_fds ds seen then run_checks cs seen = Inr (seen \<union> set ds)
      else \<exists>e. run_checks cs seen = Inl e"
    using assms(1) unfolding accepts_def by blast
  have 2: "if p' \<and> fresh_fds ds' (seen \<union> set ds)
      then run_checks cs' (seen \<union> set ds) = Inr (seen \<union> set ds \<union> set ds')
      else \<exists>e. run_checks cs' (seen \<union> set ds) = Inl e"
    using assms(2) unfolding accepts_def by blast
  show "if (p \<and> p') \<and> fresh_fds (ds @ ds') seen
      then run_checks (cs @ cs') seen = Inr (seen \<union> set (ds @ ds'))
      else \<exists>e. run_checks (cs @ cs') seen = Inl e"
    using 1 2 by (auto simp: run_checks_append fresh_fds_append Un_assoc split: if_splits)
qed

lemma accepts_Cons:
  "accepts [c] ds p \<Longrightarrow> accepts cs ds' p' \<Longrightarrow> accepts (c # cs) (ds @ ds') (p \<and> p')"
  using accepts_append [of "[c]" ds p cs ds' p'] by simp

lemma accepts_concat:
  assumes "\<And>x. x \<in> set xs \<Longrightarrow> accepts (f x) (g x) (q x)"
  shows "accepts (concat (map f xs)) (concat (map g xs)) (\<forall>x\<in>set xs. q x)"
  using assms
proof (induction xs)
  case Nil
  then show ?case by (simp add: accepts_Nil)
next
  case (Cons x xs)
  then have "accepts (f x @ concat (map f xs)) (g x @ concat (map g xs))
      (q x \<and> (\<forall>x\<in>set xs. q x))"
    by (intro accepts_append) simp_all
  then show ?case by simp
qed

lemma accepts_check_fd: "accepts [check_fd role d] [d] True"
  by (auto simp: accepts_def check_fd_def fresh_fds_def)

lemma accepts_h_check_fd: "accepts [h_check_fd role d] [d] True"
  by (auto simp: accepts_def h_check_fd_def fresh_fds_def)

lemma accepts_guard: "accepts [guard bad e] [] (\<not> bad)"
  by (auto simp: accepts_def guard_def fresh_fds_def)

definition age_ok :: "f64 option \<Rightarrow> bool" where
  "age_ok v \<longleftrightarrow> (case v of None \<Rightarrow> True | Some w \<Rightarrow> f64_is_finite w \<and> \<not> f64_negative w)"

lemma accepts_age: "accepts [check_age u field v] [] (age_ok v)"
  by (auto simp: accepts_def check_age_def age_ok_def fresh_fds_def split: option.splits)

lemma accepts_fd_opt:
  "accepts (check_fd_opt role d) (case d of None \<Rightarrow> [] | Some x \<Rightarrow> [x]) True"
  "accepts (h_check_fd_opt role d) (case d of None \<Rightarrow> [] | Some x \<Rightarrow> [x]) True"
  by (auto simp: check_fd_opt_def h_check_fd_opt_def accepts_Nil accepts_check_fd
      accepts_h_check_fd split: option.split)

lemmas accepts_intros = accepts_check_fd accepts_h_check_fd accepts_guard accepts_age
  accepts_fd_opt accepts_Nil

section \<open>What a well-formed re-exec manifest is\<close>

definition opt_list :: "'a option \<Rightarrow> 'a list" where
  "opt_list x = (case x of None \<Rightarrow> [] | Some a \<Rightarrow> [a])"

definition split_fds :: "split_roles \<Rightarrow> fd list" where
  "split_fds sp = [sl_channel_fd sp, sl_brain_pidfd sp, sl_brain_pin_fd sp]
     @ opt_list (sl_brain_pin_previous_fd sp)"

definition manifest_fds :: "reexec_manifest \<Rightarrow> fd list" where
  "manifest_fds m = [rm_rollback_bin_fd m, rm_listener_fd m] @ opt_list (rm_tls_listener_fd m)
     @ concat (map split_fds (opt_list (rm_split m)))
     @ concat (map (\<lambda>s. [sr_pty_master_fd s, sr_pidfd s]) (rm_sessions m))"

definition session_wf :: "session_record \<Rightarrow> bool" where
  "session_wf s \<longleftrightarrow> 0 < sr_child_pid s \<and> sr_child_start_time s \<noteq> 0 \<and> sr_session_type s \<noteq> [] \<and>
     age_ok (sr_last_activity_age_s s) \<and> age_ok (sr_last_input_age_s s) \<and>
     age_ok (sr_last_operator_input_age_s s) \<and> age_ok (sr_last_turn_end_age_s s) \<and>
     (\<forall>dr. sr_done_report s = Some dr \<longrightarrow>
        age_ok (Some (dr_age_s dr)) \<and> age_ok (Some (dr_at_unix dr)))"

definition manifest_wf :: "reexec_manifest \<Rightarrow> bool" where
  "manifest_wf m \<longleftrightarrow>
     (rm_schema_version m = 3 \<and> rm_split m = None \<or>
      rm_schema_version m = 4 \<and> (\<exists>sp. rm_split m = Some sp \<and> 0 < sl_brain_pid sp)) \<and>
     (rm_rollback_schema_version m \<in> {None, Some 3, Some 4}) \<and>
     length (rm_sessions m) \<le> 4096 \<and>
     (\<forall>d\<in>set (manifest_fds m). 2 < d) \<and> distinct (manifest_fds m) \<and>
     (\<forall>s\<in>set (rm_sessions m). session_wf s)"

lemma accepts_eq: "accepts cs ds p \<Longrightarrow> ds = ds' \<Longrightarrow> (p \<longleftrightarrow> p') \<Longrightarrow> accepts cs ds' p'"
  by simp

lemma accepts_session:
  "accepts (session_checks s) [sr_pty_master_fd s, sr_pidfd s] (session_wf s)"
proof (cases "sr_done_report s")
  case None
  show ?thesis unfolding session_checks_def None
    by (simp only: option.case append.simps, rule accepts_eq, (rule accepts_intros | rule accepts_Cons)+)
      (auto simp: session_wf_def None)
next
  case (Some dr)
  show ?thesis unfolding session_checks_def Some
    by (simp only: option.case append.simps, rule accepts_eq, (rule accepts_intros | rule accepts_Cons)+)
      (auto simp: session_wf_def Some)
qed

lemma accepts_split: "accepts (split_checks sp) (split_fds sp) (0 < sl_brain_pid sp)"
  unfolding split_checks_def split_fds_def opt_list_def
  by (simp only: append.simps, rule accepts_eq,
      (rule accepts_intros | rule accepts_append | rule accepts_Cons)+) auto

lemma accepts_opt_checks:
  "(\<And>x. accepts (f x) (g x) (q x)) \<Longrightarrow>
   accepts (case y of None \<Rightarrow> [] | Some x \<Rightarrow> f x) (concat (map g (opt_list y)))
     (\<forall>x. y = Some x \<longrightarrow> q x)"
  by (cases y) (auto simp: opt_list_def accepts_Nil)

lemma accepts_opt_guard:
  "accepts (case y of None \<Rightarrow> [] | Some x \<Rightarrow> [guard (bad x) (e x)]) []
     (\<forall>x. y = Some x \<longrightarrow> \<not> bad x)"
  by (cases y) (auto simp: accepts_Nil accepts_guard)

lemma run_checks_unit:
  assumes "accepts cs ds p"
  shows "(case run_checks cs {} of Inl e \<Rightarrow> Inl e | Inr _ \<Rightarrow> Inr ()) = Inr () \<longleftrightarrow>
    p \<and> (\<forall>d\<in>set ds. 2 < d) \<and> distinct ds"
proof -
  have "if p \<and> fresh_fds ds {} then run_checks cs {} = Inr ({} \<union> set ds)
      else \<exists>e. run_checks cs {} = Inl e"
    using assms unfolding accepts_def by blast
  then show ?thesis by (auto simp: fresh_fds_def split: sum.splits if_splits)
qed

lemma version_range: "(v :: u32) < 3 \<or> 4 < v \<longleftrightarrow> v \<noteq> 3 \<and> v \<noteq> 4"
  by (auto simp: word_unat_eq_iff word_less_nat_alt)

lemma version_range': "(3 :: u32) \<le> v \<and> v \<le> 4 \<longleftrightarrow> v = 3 \<or> v = 4"
  using version_range [of v] by (auto simp: not_less)

lemmas version_defs = MIN_SUPPORTED_SCHEMA_VERSION_def MANIFEST_SCHEMA_VERSION_SPLIT_def

lemma accepts_structure:
  "accepts (structure_checks m) (manifest_fds m)
     ((rm_schema_version m = 3 \<or> rm_schema_version m = 4) \<and>
      (rm_schema_version m = 4 \<longleftrightarrow> rm_split m \<noteq> None) \<and>
      (\<forall>rv. rm_rollback_schema_version m = Some rv \<longrightarrow> rv = 3 \<or> rv = 4) \<and>
      length (rm_sessions m) \<le> 4096 \<and>
      (\<forall>sp. rm_split m = Some sp \<longrightarrow> 0 < sl_brain_pid sp) \<and>
      (\<forall>s\<in>set (rm_sessions m). session_wf s))"
  unfolding structure_checks_def append.simps
  apply (rule accepts_eq)
  apply (rule accepts_intros | rule accepts_opt_guard accepts_opt_checks [OF accepts_split]
        accepts_concat [OF accepts_session] | rule accepts_append | rule accepts_Cons)+
  apply (simp add: manifest_fds_def opt_list_def)
  apply (auto simp: version_range version_range' version_defs MAX_SESSIONS_def not_less)
  done

lemma validates_iff: "validate_structure m = Inr () \<longleftrightarrow> manifest_wf m"
  unfolding validate_structure_def run_checks_unit [OF accepts_structure] manifest_wf_def
  by (cases "rm_split m"; cases "rm_rollback_schema_version m") auto

text \<open>C39. The re-exec manifest passes the structural checks exactly when it is well formed: a
  supported schema version with the split block present just in the split schema, a rollback
  version in range, at most 4096 sessions, all descriptors distinct and above stdio, and each
  session with a real pid, start time and type and with finite, non-negative ages.\<close>
theorem validate_structure_spec: "validate_structure m = Inr () \<longleftrightarrow> manifest_wf m"
  by (rule validates_iff)

section \<open>What a well-formed holder-upgrade manifest is\<close>

definition brain_fds :: "brain_runtime \<Rightarrow> fd list" where
  "brain_fds b = [bn_pidfd b, bn_channel_fd b]"

definition holder_manifest_fds :: "holder_upgrade_manifest \<Rightarrow> fd list" where
  "holder_manifest_fds m = concat (map brain_fds (opt_list (hu_brain m)))
     @ opt_list (hu_brain_pin_fd m) @ opt_list (hu_brain_pin_previous_fd m)
     @ concat (map (\<lambda>s. [hs_master_fd s, hs_pidfd s]) (hu_sessions m)) @ map lr_fd (hu_listeners m)"

definition holder_manifest_wf :: "holder_upgrade_manifest \<Rightarrow> bool" where
  "holder_manifest_wf m \<longleftrightarrow>
     hu_schema_version m = 1 \<and> length (hu_sessions m) \<le> 4096 \<and>
     (\<forall>b. hu_brain m = Some b \<longrightarrow> 0 < bn_pid b) \<and>
     (\<forall>s\<in>set (hu_sessions m). 0 < hs_child_pid s \<and> hs_child_start_time s \<noteq> 0 \<and>
        hs_incarnation s < hu_next_incarnation m) \<and>
     (\<forall>d\<in>set (holder_manifest_fds m). 2 < d) \<and> distinct (holder_manifest_fds m)"

lemma accepts_h_session:
  "accepts (h_session_checks n s) [hs_master_fd s, hs_pidfd s]
     (0 < hs_child_pid s \<and> hs_child_start_time s \<noteq> 0 \<and> hs_incarnation s < n)"
  unfolding h_session_checks_def
  by (rule accepts_eq, (rule accepts_intros | rule accepts_Cons)+) auto

lemma accepts_h_brain:
  "accepts (case y of None \<Rightarrow> []
      | Some b \<Rightarrow> [guard (bn_pid b \<le> 0) (H_structure (SR_brain_pid (bn_pid b))),
                   h_check_fd ''brain.pidfd'' (bn_pidfd b),
                   h_check_fd ''brain.channel_fd'' (bn_channel_fd b)])
     (concat (map brain_fds (opt_list y))) (\<forall>b. y = Some b \<longrightarrow> 0 < bn_pid b)"
proof (rule accepts_opt_checks)
  fix b
  show "accepts [guard (bn_pid b \<le> 0) (H_structure (SR_brain_pid (bn_pid b))),
      h_check_fd ''brain.pidfd'' (bn_pidfd b), h_check_fd ''brain.channel_fd'' (bn_channel_fd b)]
    (brain_fds b) (0 < bn_pid b)"
    unfolding brain_fds_def by (rule accepts_eq, (rule accepts_intros | rule accepts_Cons)+) auto
qed

lemma accepts_h_listeners:
  "accepts (map (\<lambda>l. h_check_fd ''listener fd'' (lr_fd l)) ls) (map lr_fd ls) True"
proof (induction ls)
  case Nil
  then show ?case by (simp add: accepts_Nil)
next
  case (Cons l ls)
  from accepts_Cons [OF accepts_h_check_fd this] show ?case by simp
qed

lemma accepts_h_structure:
  "accepts (h_structure_checks m) (holder_manifest_fds m)
     (hu_schema_version m = 1 \<and> length (hu_sessions m) \<le> 4096 \<and>
      (\<forall>b. hu_brain m = Some b \<longrightarrow> 0 < bn_pid b) \<and>
      (\<forall>s\<in>set (hu_sessions m). 0 < hs_child_pid s \<and> hs_child_start_time s \<noteq> 0 \<and>
         hs_incarnation s < hu_next_incarnation m))"
  unfolding h_structure_checks_def append.simps
  apply (rule accepts_eq)
  apply (rule accepts_intros | rule accepts_h_brain accepts_concat [OF accepts_h_session]
      accepts_h_listeners | rule accepts_append | rule accepts_Cons)+
  apply (simp add: holder_manifest_fds_def opt_list_def)
  apply (auto simp: HOLDER_MANIFEST_SCHEMA_VERSION_def MAX_HOLDER_SESSIONS_def not_less)
  done

text \<open>The holder-upgrade manifest passes the structural checks exactly when it is well formed:
  its schema version, at most 4096 sessions, every pid and start time real, every incarnation
  below the high-water mark, and all descriptors of brain, pins, sessions and listeners distinct
  and above stdio, so that taking ownership of each of them once is sound.\<close>
theorem h_validate_structure_spec: "h_validate_structure m = Inr () \<longleftrightarrow> holder_manifest_wf m"
  unfolding h_validate_structure_def run_checks_unit [OF accepts_h_structure] holder_manifest_wf_def
  by auto

section \<open>Reading a file under partial reads\<close>

definition read_progress :: "pread_answer list \<Rightarrow> bool" where
  "read_progress as \<longleftrightarrow> (\<forall>a\<in>set as. a = PreadEintr \<or> (\<exists>n. a = PreadOk n \<and> 0 < n))"

definition ok_reads :: "pread_answer list \<Rightarrow> nat" where
  "ok_reads as = length (filter (\<lambda>a. a \<noteq> PreadEintr) as)"

lemma pread_exact_from:
  assumes "read_progress as" and "len \<le> length file" and "buf = take b file" and "b \<le> len"
    and "len - b \<le> ok_reads as"
  shows "pread_exact as file len buf = Some (Inr (take len file))"
  using assms
proof (induction as arbitrary: b buf)
  case Nil
  then show ?case by (subst pread_exact.simps) (auto simp: ok_reads_def)
next
  case (Cons a as)
  have prog: "read_progress as" using Cons.prems(1) by (simp add: read_progress_def)
  have lb: "length buf = b" using Cons.prems(2,3,4) by simp
  show ?case
  proof (cases "len \<le> b")
    case True
    then show ?thesis using Cons.prems lb by (subst pread_exact.simps) simp
  next
    case False
    show ?thesis
    proof (cases "a = PreadEintr")
      case True
      then have "len - b \<le> ok_reads as" using Cons.prems(5) by (simp add: ok_reads_def)
      with Cons.IH [OF prog Cons.prems(2,3,4)] True False lb show ?thesis
        by (subst pread_exact.simps) simp
    next
      case ok: False
      then obtain n where a: "a = PreadOk n" "0 < n"
        using Cons.prems(1) by (auto simp: read_progress_def)
      let ?m = "min n (len - b)"
      have got: "take ?m (drop b file) \<noteq> []" using a False Cons.prems(2) by simp
      have "buf @ take ?m (drop b file) = take (b + ?m) file"
        using Cons.prems(3) by (simp add: take_add)
      moreover have "len - (b + ?m) \<le> ok_reads as"
        using Cons.prems(5) a False ok by (simp add: ok_reads_def)
      ultimately have "pread_exact as file len (buf @ take ?m (drop b file))
          = Some (Inr (take len file))"
        using Cons.IH [OF prog Cons.prems(2)] by (metis False add_diff_inverse_nat linorder_not_le
            min.cobounded2 nat_add_left_cancel_le not_less_iff_gr_or_eq)
      then show ?thesis using a got False lb by (subst pread_exact.simps) (simp add: Let_def)
    qed
  qed
qed

section \<open>The envelope\<close>

lemma encode_parts:
  assumes "length magic = 4" and "length (sha p) = 32"
  shows "take 4 (encode_envelope sha magic v p) = magic"
    and "take 4 (drop 4 (encode_envelope sha magic v p)) = to_le 4 v"
    and "take 8 (drop 8 (encode_envelope sha magic v p)) = to_le 8 (length p)"
    and "take 32 (drop 16 (encode_envelope sha magic v p)) = sha p"
    and "drop HEADER_LEN (encode_envelope sha magic v p) = p"
    and "length (encode_envelope sha magic v p) = HEADER_LEN + length p"
  using assms by (simp_all add: encode_envelope_def HEADER_LEN_def)

lemma open_encode:
  assumes "length magic = 4" and "length (sha p) = 32" and "v < 256 ^ 4" and "length p < 256 ^ 8"
  shows "open_envelope sha magic v (HEADER_LEN + length p) (encode_envelope sha magic v p) = Inr p"
  using from_to_le [OF assms(3)] from_to_le [OF assms(4)]
  by (simp add: open_envelope_def encode_parts assms)

text \<open>An envelope opens to a payload only if the file is exactly the encoding of that payload:
  the magic, the version, the length and the checksum are all determined by it, so no byte of the
  file outside the payload is free and a payload is never read under another's checksum.\<close>
theorem open_envelope_only_encodings:
  assumes "open_envelope sha magic v sz bs = Inr p" and "length bs = sz" and "HEADER_LEN \<le> sz"
  shows "bs = encode_envelope sha magic v p"
proof -
  have p: "p = drop HEADER_LEN bs" and m: "take 4 bs = magic"
    and v: "from_le (take 4 (drop 4 bs)) = v"
    and n: "from_le (take 8 (drop 8 bs)) = length p"
    and s: "sha p = take 32 (drop 16 bs)"
    using assms by (auto simp: open_envelope_def split: if_splits)
  have len: "48 \<le> length bs" using assms(2,3) by (simp add: HEADER_LEN_def)
  have "to_le 4 v = take 4 (drop 4 bs)"
    using to_from_le [of "take 4 (drop 4 bs)"] v len by simp
  moreover have "to_le 8 (length p) = take 8 (drop 8 bs)"
    using to_from_le [of "take 8 (drop 8 bs)"] n len by simp
  moreover have "bs = take 4 bs @ take 4 (drop 4 bs) @ take 8 (drop 8 bs)
      @ take 32 (drop 16 bs) @ drop 48 bs"
    using append_take_drop_id [of 4 bs] append_take_drop_id [of 4 "drop 4 bs"]
      append_take_drop_id [of 8 "drop 8 bs"] append_take_drop_id [of 32 "drop 16 bs"]
    by (simp del: append_take_drop_id)
  ultimately show ?thesis
    using m s p by (simp add: encode_envelope_def HEADER_LEN_def)
qed

text \<open>A checksum for the witnesses: 32 times the first byte's successor.\<close>

definition toy_sha :: "bytes \<Rightarrow> bytes" where
  "toy_sha bs = replicate 32 (case bs of [] \<Rightarrow> 0 | b # _ \<Rightarrow> b + 1)"

lemma length_toy_sha [simp]: "length (toy_sha bs) = 32"
  by (simp add: toy_sha_def)

lemma magic_lengths [simp]: "length MAGIC_CMRX = 4" "length MAGIC_CMHU = 4"
  by (simp_all add: MAGIC_CMRX_def MAGIC_CMHU_def)

theorem open_envelope_only_encodings_witness:
  "encode_envelope toy_sha MAGIC_CMHU 1 [5, 6] = encode_envelope toy_sha MAGIC_CMHU 1 [5, 6]"
proof (rule open_envelope_only_encodings)
  show "open_envelope toy_sha MAGIC_CMHU 1 (HEADER_LEN + length [5, 6 :: 8 word])
      (encode_envelope toy_sha MAGIC_CMHU 1 [5, 6]) = Inr [5, 6]"
    by (rule open_encode) simp_all
qed (simp_all add: encode_parts)

section \<open>Writing and reading back\<close>

text \<open>The reads the kernel may answer a whole-file read with.\<close>

definition full_read :: "pread_answer list \<Rightarrow> memfd_view \<Rightarrow> bool" where
  "full_read as v \<longleftrightarrow> read_progress as \<and> length (mv_content v) \<le> ok_reads as"

lemma pread_full:
  "full_read as v \<Longrightarrow>
   pread_exact as (mv_content v) (length (mv_content v)) [] = Some (Inr (mv_content v))"
  using pread_exact_from [of as "length (mv_content v)" "mv_content v" "[]" 0]
  by (simp add: full_read_def)

lemma sealed_simps [simp]:
  "mv_content (sealed_memfd l bs) = bs" "mv_fstat (sealed_memfd l bs) = Some (True, length bs)"
  "mv_fs_is_tmpfs (sealed_memfd l bs) = Some True"
  "mv_link (sealed_memfd l bs) = Some (l @ '' (deleted)'')" "mv_seals (sealed_memfd l bs) = Some True"
  by (simp_all add: sealed_memfd_def)

lemma MAX_bytes: "MAX_MANIFEST_BYTES < 256 ^ 8" "MAX_HOLDER_MANIFEST_BYTES < 256 ^ 8"
  by (simp_all add: MAX_MANIFEST_BYTES_def MAX_HOLDER_MANIFEST_BYTES_def)

lemma manifest_read_back:
  assumes "write_manifest sha enc m = Inr bs" and "dec (enc m) = Some m"
    and "full_read as (sealed_memfd LINK_CMRX bs)" and "length (sha (enc m)) = 32"
  shows "read_manifest sha dec as (sealed_memfd LINK_CMRX bs) = Some (Inr m)"
proof -
  have bs: "bs = encode_envelope sha MAGIC_CMRX MANIFEST_FORMAT_VERSION (enc m)"
    and ok: "validate_structure m = Inr ()" and le: "HEADER_LEN + length (enc m) \<le> MAX_MANIFEST_BYTES"
    using assms(1) by (auto simp: write_manifest_def Let_def split: sum.splits if_splits)
  have len: "length bs = HEADER_LEN + length (enc m)"
    unfolding bs by (simp add: encode_parts assms(4))
  have acc: "accept_memfd (sealed_memfd LINK_CMRX bs) = Inr (HEADER_LEN + length (enc m))"
    using le by (simp add: accept_memfd_def len)
  have opened: "open_envelope sha MAGIC_CMRX MANIFEST_FORMAT_VERSION (HEADER_LEN + length (enc m)) bs
      = Inr (enc m)"
    unfolding bs using le MAX_bytes assms(4)
    by (intro open_encode) (simp_all add: MANIFEST_FORMAT_VERSION_def)
  have "pread_exact as bs (HEADER_LEN + length (enc m)) [] = Some (Inr bs)"
    using pread_full [OF assms(3)] by (simp add: len)
  then show ?thesis
    using acc opened assms(2) ok by (simp add: read_manifest_def)
qed

text \<open>C38. A re-exec manifest that was written reads back as itself, from the sealed file the writer
  leaves and under every schedule of partial and interrupted reads: validation, size bounds, link,
  seals and checksum of writer and reader agree.\<close>
theorem manifest_roundtrip:
  assumes "write_manifest sha enc m = Inr bs" and "dec (enc m) = Some m"
    and "full_read as (sealed_memfd LINK_CMRX bs)" and "length (sha (enc m)) = 32"
  shows "read_manifest sha dec as (sealed_memfd LINK_CMRX bs) = Some (Inr m)"
  by (rule manifest_read_back [where enc = enc]) (fact assms)+

definition sample_manifest :: reexec_manifest where
  "sample_manifest =
     \<lparr> rm_schema_version = 3, rm_attempt = 0, rm_reexec_generation = 1, rm_rollback_bin_fd = 3,
       rm_sessions = [], rm_listener_fd = 4, rm_tls_listener_fd = None,
       rm_rollback_schema_version = None, rm_split = None \<rparr>"

lemma full_read_ones: "length bs = n \<Longrightarrow> full_read (replicate n (PreadOk 1)) (sealed_memfd l bs)"
  by (simp add: full_read_def read_progress_def ok_reads_def)

theorem manifest_roundtrip_witness:
  "read_manifest toy_sha (\<lambda>_. Some sample_manifest) (replicate 49 (PreadOk 1))
     (sealed_memfd LINK_CMRX (encode_envelope toy_sha MAGIC_CMRX 1 [7])) = Some (Inr sample_manifest)"
proof (rule manifest_roundtrip [where enc = "\<lambda>_. [7]"])
  have "manifest_wf sample_manifest"
    by (simp add: manifest_wf_def sample_manifest_def manifest_fds_def opt_list_def)
  then have "validate_structure sample_manifest = Inr ()" by (simp only: validates_iff)
  then show "write_manifest toy_sha (\<lambda>_. [7]) sample_manifest
      = Inr (encode_envelope toy_sha MAGIC_CMRX 1 [7])"
    by (simp add: write_manifest_def HEADER_LEN_def MAX_MANIFEST_BYTES_def
        MANIFEST_FORMAT_VERSION_def)
  show "full_read (replicate 49 (PreadOk 1))
      (sealed_memfd LINK_CMRX (encode_envelope toy_sha MAGIC_CMRX 1 [7]))"
    by (rule full_read_ones) (simp add: encode_parts HEADER_LEN_def)
qed simp_all

lemma holder_manifest_roundtrip:
  assumes "write_holder_manifest sha enc m = Inr bs" and "dec (enc m) = Some m"
    and "full_read as (sealed_memfd LINK_CMHU bs)" and "length (sha (enc m)) = 32"
  shows "read_holder_manifest sha dec as (sealed_memfd LINK_CMHU bs) = Some (Inr m)"
proof -
  have bs: "bs = encode_envelope sha MAGIC_CMHU HOLDER_MANIFEST_FORMAT_VERSION (enc m)"
    and ok: "h_validate_structure m = Inr ()"
    and le: "HEADER_LEN + length (enc m) \<le> MAX_HOLDER_MANIFEST_BYTES"
    using assms(1) by (auto simp: write_holder_manifest_def Let_def split: sum.splits if_splits)
  have len: "length bs = HEADER_LEN + length (enc m)"
    unfolding bs by (simp add: encode_parts assms(4))
  have acc: "h_accept_memfd (sealed_memfd LINK_CMHU bs) = Inr (HEADER_LEN + length (enc m))"
    using le by (simp add: h_accept_memfd_def len)
  have opened: "open_envelope sha MAGIC_CMHU HOLDER_MANIFEST_FORMAT_VERSION
      (HEADER_LEN + length (enc m)) bs = Inr (enc m)"
    unfolding bs using le MAX_bytes assms(4)
    by (intro open_encode) (simp_all add: HOLDER_MANIFEST_FORMAT_VERSION_def)
  have "pread_exact as bs (HEADER_LEN + length (enc m)) [] = Some (Inr bs)"
    using pread_full [OF assms(3)] by (simp add: len)
  then show ?thesis
    using acc opened assms(2) ok by (simp add: read_holder_manifest_def)
qed


lemma foreign_manifest_refused:
  assumes "length (sha p) = 32" and "mv_content v = encode_envelope sha magic version p"
    and "mv_fstat v = Some (True, length (mv_content v))" and "full_read as v"
  shows "magic = MAGIC_CMHU \<Longrightarrow> \<exists>e. read_manifest sha dec as v = Some (Inl e)"
    and "magic = MAGIC_CMRX \<Longrightarrow> \<exists>e. read_holder_manifest sha hdec as v = Some (Inl e)"
proof -
  have r: "pread_exact as (mv_content v) (length (mv_content v)) [] = Some (Inr (mv_content v))"
    by (rule pread_full [OF assms(4)])
  have ne: "MAGIC_CMHU \<noteq> MAGIC_CMRX" by (simp add: MAGIC_CMHU_def MAGIC_CMRX_def)
  have a: "accept_memfd v = Inr sz \<Longrightarrow> sz = length (mv_content v)" for sz
    using assms(3) by (auto simp: accept_memfd_def split: if_splits option.splits bool.splits)
  have b: "h_accept_memfd v = Inr sz \<Longrightarrow> sz = length (mv_content v)" for sz
    using assms(3) by (auto simp: h_accept_memfd_def split: if_splits option.splits bool.splits)
  show "\<exists>e. read_manifest sha dec as v = Some (Inl e)" if "magic = MAGIC_CMHU"
  proof (cases "accept_memfd v")
    case (Inl e)
    then show ?thesis by (simp add: read_manifest_def)
  next
    case (Inr sz)
    then show ?thesis using a [OF Inr] r ne that
      by (simp add: read_manifest_def open_envelope_def assms(2) encode_parts assms(1))
  qed
  show "\<exists>e. read_holder_manifest sha hdec as v = Some (Inl e)" if "magic = MAGIC_CMRX"
  proof (cases "h_accept_memfd v")
    case (Inl e)
    then show ?thesis by (simp add: read_holder_manifest_def)
  next
    case (Inr sz)
    then show ?thesis using b [OF Inr] r ne that
      by (simp add: read_holder_manifest_def open_envelope_def assms(2) encode_parts assms(1))
  qed
qed

text \<open>A manifest of one kind is never taken for the other, even in a file that passes every
  check of the fd itself: the reader of each kind reports the other's magic.\<close>
theorem manifest_kinds_disjoint:
  assumes "length (sha p) = 32" and "mv_content v = encode_envelope sha magic version p"
    and "mv_fstat v = Some (True, length (mv_content v))" and "full_read as v"
  shows "(magic = MAGIC_CMHU \<longrightarrow> (\<exists>e. read_manifest sha dec as v = Some (Inl e))) \<and>
    (magic = MAGIC_CMRX \<longrightarrow> (\<exists>e. read_holder_manifest sha hdec as v = Some (Inl e)))"
  using foreign_manifest_refused [OF assms] by blast

theorem manifest_kinds_disjoint_witness:
  "\<exists>e. read_manifest toy_sha (\<lambda>_. Some sample_manifest) (replicate 49 (PreadOk 1))
     (sealed_memfd LINK_CMRX (encode_envelope toy_sha MAGIC_CMHU 1 [7])) = Some (Inl e)"
  by (rule manifest_kinds_disjoint [OF _ _ _ full_read_ones, THEN conjunct1, THEN mp, OF _ _ _ _ refl])
    (simp_all add: encode_parts HEADER_LEN_def)

section \<open>The environment variable\<close>

text \<open>The variable that names a manifest fd is consumed: after the call no child can inherit
  it, whatever its value, no other variable changed, and a descriptor is returned only for a value
  that is all decimal digits and fits an \<open>i32\<close>.\<close>
theorem consume_env_scrubs:
  "map_of (fst (consume_env key env)) = (map_of env)(key := None) \<and>
   (case snd (consume_env key env) of
      None \<Rightarrow> True
    | Some d \<Rightarrow> \<exists>v. map_of env key = Some v \<and> v \<noteq> [] \<and> list_all is_digit v \<and>
        d = int (digits_nat v) \<and> 0 \<le> d \<and> d < 2 ^ 31)"
proof -
  have f: "map_of (filter (\<lambda>e. fst e \<noteq> key) env) = (map_of env)(key := None)"
    by (induction env) auto
  show ?thesis
  proof (cases "map_of env key")
    case None
    then show ?thesis by (auto simp: consume_env_def)
  next
    case (Some v)
    then show ?thesis by (auto simp: consume_env_def f parse_fd_def)
  qed
qed

end
