(* ===== verification/DeployLaws.thy ===== *)
theory DeployLaws
  imports VerbLaws ManifestLaws
begin

text \<open>
  Exits and deploys: what the poll loop may reap and what it latches, that a latched exit is not
  left behind, when a reverse migration may be armed and what its manifest says, and that a
  holder upgrade carries the whole state across the exec.
\<close>

section \<open>What the poll loop reaps\<close>

lemma waited_over_sessions:
  "waited (snd (over_sessions f m)) = concat (map (\<lambda>x. waited (snd (f (fst x) (snd x)))) m)"
  by (induction m) (auto simp: over_sessions_def)

lemma waited_exit_frame [simp]: "waited [exit_frame ev] = []" "pushed [exit_frame ev]
    = [(frame_new V_EXIT_EVENT None 0 (ExitEventBody ev), [])]"
  by (simp_all add: exit_frame_def)

lemma waited_consume [simp]: "waited (snd (consume_exit k u e)) = [se_pidfd e]"
  by (simp add: consume_exit_def Let_def exit_frame_def)

text \<open>The poll loop reaps a child exactly when its pidfd was polled and is ready, its reaping
  was authorized and no reverse migration is armed; a ready child it may not reap is latched and
  stays a zombie with its record otherwise untouched.\<close>
theorem poll_reaps_only_authorized:
  "waited (snd (child_exits k uids ready h)) =
     map (\<lambda>x. se_pidfd (snd x)) (filter (\<lambda>x. fst x \<in> set uids \<and> ready (fst x) \<and>
       se_reap_armed (snd x) \<and> \<not> split_rollback_armed h) (hd_sessions h)) \<and>
   record_of (fst (child_exits k uids ready h)) u =
     (case record_of h u of
        None \<Rightarrow> None
      | Some e \<Rightarrow> Some
          (if u \<in> set uids \<and> ready u
           then if se_reap_armed e \<and> \<not> split_rollback_armed h
                then e\<lparr> se_exit := Some \<lparr> xr_exited_at = k_now k (se_pidfd e),
                          xr_pending = Some (exit_event_of k u e) \<rparr>, se_exit_latched := False \<rparr>
                else e\<lparr> se_exit_latched := True \<rparr>
           else e))"
proof
  have "waited (snd (over_sessions (child_exit k (split_rollback_armed h) uids ready) m)) =
     map (\<lambda>x. se_pidfd (snd x)) (filter (\<lambda>x. fst x \<in> set uids \<and> ready (fst x) \<and>
       se_reap_armed (snd x) \<and> \<not> split_rollback_armed h) m)" for m
    unfolding waited_over_sessions by (induction m) (auto simp: child_exit_def)
  then show "waited (snd (child_exits k uids ready h)) =
     map (\<lambda>x. se_pidfd (snd x)) (filter (\<lambda>x. fst x \<in> set uids \<and> ready (fst x) \<and>
       se_reap_armed (snd x) \<and> \<not> split_rollback_armed h) (hd_sessions h))"
    by (simp add: child_exits_def split_beta)
  show "record_of (fst (child_exits k uids ready h)) u =
     (case record_of h u of
        None \<Rightarrow> None
      | Some e \<Rightarrow> Some
          (if u \<in> set uids \<and> ready u
           then if se_reap_armed e \<and> \<not> split_rollback_armed h
                then e\<lparr> se_exit := Some \<lparr> xr_exited_at = k_now k (se_pidfd e),
                          xr_pending = Some (exit_event_of k u e) \<rparr>, se_exit_latched := False \<rparr>
                else e\<lparr> se_exit_latched := True \<rparr>
           else e))"
    unfolding child_exits_sessions
    by (auto simp: store_simps child_exit_def consume_exit_entry split: option.split)
qed

section \<open>No authorized exit stays latched\<close>

text \<open>A record whose child is known to have exited, may be reaped, and was not.\<close>

definition stranded :: "session_entry \<Rightarrow> bool" where
  "stranded e \<longleftrightarrow> se_exit_latched e \<and> se_reap_armed e \<and> se_exit e = None"

definition none_stranded :: "holder \<Rightarrow> bool" where
  "none_stranded h \<longleftrightarrow> (\<forall>u e. record_of h u = Some e \<longrightarrow> \<not> stranded e)"

definition latch_ok :: "holder \<Rightarrow> bool" where
  "latch_ok h \<longleftrightarrow> split_rollback_armed h \<or> none_stranded h"

lemma sweep_none_stranded: "none_stranded (fst (sweep_latched_exits_into k h))"
proof -
  have "\<not> stranded (fst (sweep_entry k u e))" for u e
    by (auto simp: stranded_def sweep_entry_def consume_exit_entry)
  then show ?thesis
    unfolding none_stranded_def sweep_into_sessions by (auto simp: store_simps)
qed

lemma none_stranded_if:
  "none_stranded h \<Longrightarrow> (\<And>u e'. record_of h' u = Some e' \<Longrightarrow> stranded e' \<Longrightarrow>
     \<exists>e. record_of h u = Some e \<and> stranded e) \<Longrightarrow> none_stranded h'"
  unfolding none_stranded_def by blast

lemma armed_eq: "side_state h' = side_state h \<Longrightarrow> split_rollback_armed h' = split_rollback_armed h"
  by (simp add: side_state_def split_rollback_armed_def)

text \<open>The session verbs strand nothing: arming a latched record consumes it in the same step.\<close>

lemma set_record_stranded:
  assumes "none_stranded h" and "\<not> stranded e'"
  shows "none_stranded (set_record u e' h)"
  using assms unfolding none_stranded_def
  by (metis map_option_eq_Some option.inject record_of_set_record)

lemma remove_record_stranded: "none_stranded h \<Longrightarrow> none_stranded (remove_record u h)"
  by (auto simp: none_stranded_def store_simps split: if_splits)

lemma none_stranded_get: "none_stranded h \<Longrightarrow> record_of h u = Some e \<Longrightarrow> \<not> stranded e"
  by (auto simp: none_stranded_def)

lemma stranded_updates [simp]:
  "stranded (e\<lparr> se_watcher_checkpoint := c \<rparr>) = stranded e"
  "stranded (e\<lparr> se_rollback_record := r \<rparr>) = stranded e"
  "stranded (e\<lparr> se_last_signal_request := l \<rparr>) = stranded e"
  "stranded (ack_entry e) = stranded e"
  by (simp_all add: stranded_def ack_entry_def)

lemma session_verbs_strand_nothing:
  assumes n: "none_stranded h" and s: "bt_sorted (hd_sessions h)"
  shows "none_stranded (fst (handle_spawn k req j h))"
    and "none_stranded (fst (handle_arm_reap k req j h))"
    and "none_stranded (fst (handle_signal k req j h))"
    and "none_stranded (fst (handle_abort_spawn req j h))"
    and "none_stranded (fst (handle_update_checkpoint req j h))"
    and "none_stranded (fst (rollback_record req j h))"
    and "none_stranded (fst (handle_forget req j h))"
    and "none_stranded (fst (handle_ack_exit req j h))"
proof -
  note keep = none_stranded_get [OF n] set_record_stranded [OF n] remove_record_stranded [OF n]
  have "none_stranded (fst (install_spawned k req spec sp h))" for spec sp
    using n s by (auto simp: install_spawned_def Let_def none_stranded_def record_of_def
        bt_get_insert stranded_def new_session_def split: option.splits if_splits)
  then show "none_stranded (fst (handle_spawn k req j h))"
    using n by (auto simp: handle_spawn_def split_beta split: option.splits sum.splits prod.splits)
  show "none_stranded (fst (handle_arm_reap k req j h))"
    using n by (auto simp: handle_arm_reap_def Let_def split_beta stranded_def consume_exit_entry
        split: option.splits intro!: set_record_stranded)
  show "none_stranded (fst (handle_signal k req j h))"
    using n keep(1) by (auto simp: handle_signal_def
        split: option.splits signal_answer.splits intro!: set_record_stranded)
  show "none_stranded (fst (handle_abort_spawn req j h))"
    using n keep by (auto simp: handle_abort_spawn_def split: option.splits)
  show "none_stranded (fst (handle_update_checkpoint req j h))"
    using n keep(1) by (auto simp: handle_update_checkpoint_def
        split: option.splits intro!: set_record_stranded)
  show "none_stranded (fst (rollback_record req j h))"
    using n keep(1) by (auto simp: rollback_record_def
        split: option.splits intro!: set_record_stranded)
  show "none_stranded (fst (handle_forget req j h))"
    using n keep by (auto simp: handle_forget_def split: option.splits)
  show "none_stranded (fst (handle_ack_exit req j h))"
    using n keep(1) by (auto simp: handle_ack_exit_def
        split: option.splits intro!: set_record_stranded)
qed

lemma moves_nothing:
  assumes "moves (\<lambda>u l. False) h h'"
  shows "record_of h' u = record_of h u"
proof -
  obtain ls where ls: "lives u ls (record_of h u) (record_of h' u)" "\<forall>l\<in>set ls. False"
    using assms unfolding moves_def by blast
  then have "ls = []" by (cases ls) auto
  with ls(1) show ?thesis by simp
qed

lemma deploy_verbs_latch_ok:
  assumes "none_stranded h"
  shows "none_stranded (fst (fst (restart_brain k req fds h)))"
    and "none_stranded (fst (rollback_brain k req h))"
    and "none_stranded (fst (fst (split_rollback k req j fds h)))"
    and "none_stranded (fst (fst (reexec_holder k req fds h)))"
    and "none_stranded (fst (fst (handle_store_listener req j fds h)))"
    and "none_stranded (fst (cancel_pending k req h'))"
proof -
  have still: "none_stranded h'" if "moves (\<lambda>u l. False) h h'" for h'
    using assms moves_nothing [OF that] by (simp add: none_stranded_def)
  show "none_stranded (fst (fst (restart_brain k req fds h)))"
    "none_stranded (fst (rollback_brain k req h))"
    "none_stranded (fst (fst (split_rollback k req j fds h)))"
    "none_stranded (fst (fst (reexec_holder k req fds h)))"
    "none_stranded (fst (fst (handle_store_listener req j fds h)))"
    by (rule still [OF deploy_verbs_moves(1)] still [OF deploy_verbs_moves(2)]
        still [OF deploy_verbs_moves(3)] still [OF deploy_verbs_moves(4)]
        still [OF deploy_verbs_moves(5)])+
  show "none_stranded (fst (cancel_pending k req h'))"
    by (simp add: cancel_pending_def Let_def split_beta sweep_none_stranded)
qed

text \<open>Under an armed deploy the deploy verbs change neither the deploy nor a record.\<close>

lemma armed_verbs:
  assumes "split_rollback_armed h"
  shows "split_rollback_armed (fst (fst (restart_brain k req fds h)))"
    and "split_rollback_armed (fst (rollback_brain k req h))"
    and "split_rollback_armed (fst (fst (split_rollback k req j fds h)))"
    and "split_rollback_armed (fst (fst (reexec_holder k req fds h)))"
    and "split_rollback_armed (fst (fst (handle_store_listener req j fds h)))"
proof -
  have "deploy_conflict h = Some DeployAlreadyArmed"
    using assms by (auto simp: split_rollback_armed_def deploy_conflict_def split: option.splits)
  with assms show "split_rollback_armed (fst (fst (restart_brain k req fds h)))"
    "split_rollback_armed (fst (rollback_brain k req h))"
    "split_rollback_armed (fst (fst (split_rollback k req j fds h)))"
    "split_rollback_armed (fst (fst (reexec_holder k req fds h)))"
    by (auto simp: restart_brain_def rollback_brain_def split_rollback_def reexec_holder_def
        carry_on_def abort_def split: list.splits)
  from assms show "split_rollback_armed (fst (fst (handle_store_listener req j fds h)))"
    by (auto simp: handle_store_listener_def store_listener_custody_def split_rollback_armed_def
        split: option.splits list.splits)
qed

lemma dispatch_verb_latch_ok:
  assumes "latch_ok h" and s: "bt_sorted (hd_sessions h)"
  shows "latch_ok (fst (fst (dispatch_verb k req f fds h)))"
proof (cases "split_rollback_armed h")
  case True
  note a = armed_eq [OF side_session_verbs(1)] armed_eq [OF side_session_verbs(2)]
    armed_eq [OF side_session_verbs(3)] armed_eq [OF side_session_verbs(4)]
    armed_eq [OF side_session_verbs(5)] armed_eq [OF side_session_verbs(6)]
    armed_eq [OF side_session_verbs(7)] armed_eq [OF side_session_verbs(8)]
    armed_eq [OF side_session_verbs(9)]
  have c: "none_stranded (fst (cancel_pending k req h))"
    by (simp add: cancel_pending_def Let_def split_beta sweep_none_stranded)
  show ?thesis
    using True c by (cases "verb_of (fr_v f)"; simp add: latch_ok_def dispatch_verb_def carry_on_def
        abort_def a armed_verbs split: verb.splits)
next
  case False
  then have n: "none_stranded h" using assms(1) by (simp add: latch_ok_def)
  show ?thesis
    using n session_verbs_strand_nothing [OF n s] deploy_verbs_latch_ok [OF n]
    by (cases "verb_of (fr_v f)"; simp add: latch_ok_def dispatch_verb_def carry_on_def abort_def
        handle_adopt_def split: verb.splits)
qed

lemma none_stranded_fields [simp]:
  "none_stranded (h\<lparr> hd_armed_deploy := a1 \<rparr>) = none_stranded h"
  "none_stranded (h\<lparr> hd_breaker_label := a2 \<rparr>) = none_stranded h"
  "none_stranded (h\<lparr> hd_previous_pin_available := a3 \<rparr>) = none_stranded h"
  "none_stranded (h\<lparr> hd_ping_seq := a4 \<rparr>) = none_stranded h"
  "none_stranded (h\<lparr> hd_pings_unanswered := a5 \<rparr>) = none_stranded h"
  "none_stranded (h\<lparr> hd_helloed_this_generation := a6 \<rparr>) = none_stranded h"
  "none_stranded (h\<lparr> hd_rehello_pending := a7 \<rparr>) = none_stranded h"
  "none_stranded (h\<lparr> hd_pending_upgrade := a8 \<rparr>) = none_stranded h"
  by (simp_all add: none_stranded_def)

lemma latch_ok_fields [simp]:
  "latch_ok (h\<lparr> hd_breaker_label := a2 \<rparr>) = latch_ok h"
  "latch_ok (h\<lparr> hd_previous_pin_available := a3 \<rparr>) = latch_ok h"
  "latch_ok (h\<lparr> hd_ping_seq := a4 \<rparr>) = latch_ok h"
  "latch_ok (h\<lparr> hd_pings_unanswered := a5 \<rparr>) = latch_ok h"
  "latch_ok (h\<lparr> hd_helloed_this_generation := a6 \<rparr>) = latch_ok h"
  "latch_ok (h\<lparr> hd_rehello_pending := a7 \<rparr>) = latch_ok h"
  "latch_ok (h\<lparr> hd_pending_upgrade := a8 \<rparr>) = latch_ok h"
  by (simp_all add: latch_ok_def split_rollback_armed_def)

lemma handshake_latch_ok:
  "latch_ok (fst (fst (fst (first_frame req f h)))) = latch_ok h"
  "latch_ok (fst (fst (rehello_reply f h))) = latch_ok h"
  by (auto simp: first_frame_def rehello_reply_def carry_on_def abort_def
      split: option.splits)

lemma dispatch_latch_ok:
  assumes "latch_ok (fst hb)" and "bt_sorted (hd_sessions (fst hb))"
  shows "latch_ok (fst (fst (dispatch k f fds hb)))"
proof -
  obtain h b where hb: "hb = (h, b)" by (cases hb)
  show ?thesis
    using assms dispatch_verb_latch_ok [of h k] handshake_latch_ok unfolding hb dispatch_def
    by (simp add: Let_def split_beta split: option.split)
qed

lemma child_exits_latch_ok:
  assumes "latch_ok h"
  shows "latch_ok (fst (child_exits k uids ready h))"
proof (cases "split_rollback_armed h")
  case True
  then show ?thesis unfolding latch_ok_def child_exits_sessions by (simp add: split_rollback_armed_def)
next
  case False
  then have "none_stranded h" using assms by (simp add: latch_ok_def)
  then have "\<not> stranded (fst (child_exit k False uids ready u e))" if "record_of h u = Some e" for u e
    using that by (auto simp: none_stranded_def stranded_def child_exit_def consume_exit_entry)
  with False show ?thesis
    unfolding latch_ok_def none_stranded_def child_exits_sessions
    by (auto simp: store_simps split_rollback_armed_def)
qed

lemma auto_disarm_latch_ok: "latch_ok h \<Longrightarrow> latch_ok (fst (auto_disarm k t h))"
  by (auto simp: auto_disarm_def latch_ok_def sweep_none_stranded split: option.splits)

text \<open>The two supervisor events that discard an armed deploy without looking at the latches.\<close>

definition keeps_deploy :: "holder \<times> bool \<Rightarrow> holder_event \<Rightarrow> bool" where
  "keeps_deploy hb ev \<longleftrightarrow> event_ok hb ev \<and>
     (case ev of
        EvTakeDeploy \<Rightarrow> \<not> split_rollback_armed (fst hb)
      | EvUpgrade _ _ _ _ _ _ \<Rightarrow> \<not> split_rollback_armed (fst hb)
      | _ \<Rightarrow> True)"

lemma event_latch_ok:
  assumes "holder_ok (fst hb)" and "latch_ok (fst hb)" and "keeps_deploy hb ev"
  shows "latch_ok (fst (apply_event ev hb))"
proof (cases ev)
  case (EvFrame k f fds)
  then show ?thesis using dispatch_latch_ok assms by (simp add: holder_ok_def)
next
  case (EvExits k uids ready)
  then show ?thesis using child_exits_latch_ok assms by simp
next
  case (EvDisarm k t)
  then show ?thesis using auto_disarm_latch_ok assms by simp
next
  case (EvSweep k)
  then show ?thesis
    by (simp add: latch_ok_def sweep_latched_exits_def split_beta sweep_none_stranded)
next
  case EvTakeDeploy
  then have "none_stranded (fst hb)"
    using assms by (simp add: keeps_deploy_def latch_ok_def)
  then show ?thesis
    using EvTakeDeploy by (simp add: latch_ok_def take_armed_deploy_def)
next
  case (EvServe resumed)
  have "none_stranded h \<Longrightarrow> none_stranded (fresh_generation (serve_reset h))" for h
    by (auto simp: none_stranded_def fresh_generation_record stranded_def)
  then have "latch_ok h \<Longrightarrow> latch_ok (fresh_generation (serve_reset h))" for h
    by (auto simp: latch_ok_def fresh_generation_def serve_reset_def split_rollback_armed_def)
  then show ?thesis using EvServe assms by (simp add: serve_reset_def)
next
  case (EvUpgrade cfg brain pin prev n path)
  have "none_stranded (fst hb)"
    using EvUpgrade assms by (simp add: keeps_deploy_def latch_ok_def)
  then have "none_stranded (restore_from_upgrade cfg (upgrade_snapshot (fst hb) brain pin prev n path))"
    using assms(1) by (auto simp: none_stranded_def record_of_restored holder_ok_def stranded_def
        entry_of_carry_def carry_of_entry_def)
  then show ?thesis using EvUpgrade by (simp add: latch_ok_def)
qed (use assms in \<open>simp_all add: set_supervisor_status_def\<close>)

interpretation latches: invariant_system "\<lambda>hb ev. apply_event ev hb" keeps_deploy
  "\<lambda>hb. holder_ok (fst hb) \<and> latch_ok (fst hb)"
  by unfold_locales (auto intro: apply_event_ok event_latch_ok simp: keeps_deploy_def)

text \<open>C8. No authorized exit stays latched. In any run in which an armed reverse migration is not
  discarded behind the holder's back, a record that may be reaped and whose child is known to have
  exited is unreaped only while a reverse migration is armed: arming a latched record consumes it,
  and every way the holder disarms sweeps.\<close>
theorem no_authorized_exit_stays_latched:
  assumes "holder_ok h" and "none_stranded h" and "latches.may_run (h, b) evs"
    and "h' = fst (latches.run (h, b) evs)" and "record_of h' u = Some e"
    and "se_exit_latched e" and "se_reap_armed e" and "se_exit e = None"
  shows "split_rollback_armed h'"
proof -
  have "latch_ok h'"
    using latches.run_inv [OF _ assms(3)] assms(1,2,4) by (simp add: latch_ok_def)
  with none_stranded_get [OF _ assms(5)] assms(6-8) show ?thesis
    by (auto simp: latch_ok_def stranded_def)
qed

definition noted_entry :: session_entry where
  "noted_entry = sample_entry\<lparr> se_rollback_record := Some (JObj []) \<rparr>"

definition split_request :: "json frame" where
  "split_request = request V_SPLIT_ROLLBACK
     (ser_split_rollback \<lparr> sr_reexec_generation = 4, sr_manifest_schema_version = 3 \<rparr>)"

definition split_holder :: holder where
  "split_holder = (sample_holder noted_entry)
     \<lparr> hd_armed_deploy := Some (ArmedSplitRollback 20 4 3, 5000) \<rparr>"

lemma split_request_arms:
  "dispatch sample_kernel split_request [20] (sample_holder noted_entry, True)
    = ((split_holder, True), [ok_frame 9], None)"
proof -
  have "deploy_conflict (sample_holder noted_entry) = None"
    by (simp add: deploy_conflict_def sample_holder_def holder_new_def)
  moreover have "drain_violations (hd_sessions (sample_holder noted_entry)) = []"
    by (simp add: sample_holder_def drain_violations_def drain_violation_def noted_entry_def
        sample_entry_def map_filter_simps)
  moreover have "parse_split_rollback (fr_body split_request)
      = Some \<lparr> sr_reexec_generation = 4, sr_manifest_schema_version = 3 \<rparr>"
    by (simp add: split_request_def ser_defs parse_defs de_defs)
  ultimately show ?thesis
    by (simp add: dispatch_def dispatch_verb_def takes_fds_def split_rollback_def carry_on_def
        split_holder_def split_request_def)
qed

theorem no_authorized_exit_stays_latched_witness:
  "split_rollback_armed (fst (latches.run (sample_holder noted_entry, True)
     [EvFrame sample_kernel split_request [20], EvExits sample_kernel [''s1''] (\<lambda>_. True)]))"
proof (rule no_authorized_exit_stays_latched [OF _ _ _ refl])
  show "holder_ok (sample_holder noted_entry)"
    by (rule sample_holder_ok) (simp_all add: noted_entry_def sample_entry_def entry_ok_def
        event_matches_def)
  show "none_stranded (sample_holder noted_entry)"
    by (simp add: none_stranded_def sample_record stranded_def noted_entry_def sample_entry_def)
  have r: "record_of split_holder u = (if u = ''s1'' then Some noted_entry else None)" for u
    by (simp add: split_holder_def sample_record)
  show "latches.may_run (sample_holder noted_entry, True)
     [EvFrame sample_kernel split_request [20], EvExits sample_kernel [''s1''] (\<lambda>_. True)]"
    by (simp only: latches.may_run.simps apply_event.simps split_request_arms fst_conv)
      (simp add: keeps_deploy_def event_ok_def polled_ok_def r,
        simp add: split_holder_def sample_holder_def noted_entry_def sample_entry_def)
  let ?e = "noted_entry\<lparr> se_exit_latched := True \<rparr>"
  show "record_of (fst (latches.run (sample_holder noted_entry, True)
     [EvFrame sample_kernel split_request [20], EvExits sample_kernel [''s1''] (\<lambda>_. True)])) ''s1''
     = Some ?e"
    by (simp only: latches.run.simps apply_event.simps split_request_arms fst_conv snd_conv
        child_exits_sessions)
      (simp add: store_simps r child_exit_def split_rollback_armed_def, simp add: split_holder_def)
  show "se_exit_latched ?e" "se_reap_armed ?e" "se_exit ?e = None"
    by (simp_all add: noted_entry_def sample_entry_def)
qed

section \<open>Arming a reverse migration\<close>

definition drained :: "holder \<Rightarrow> bool" where
  "drained h \<longleftrightarrow> (\<forall>u e. record_of h u = Some e \<longrightarrow> se_exit e = None \<and> se_rollback_record e \<noteq> None)"

lemma drain_violations_iff:
  assumes "bt_sorted (hd_sessions h)"
  shows "drain_violations (hd_sessions h) = [] \<longleftrightarrow> drained h"
proof -
  have "drain_violations m = [] \<longleftrightarrow> (\<forall>x\<in>set m. drain_violation x = None)" for m
    by (induction m) (auto simp: drain_violations_def map_filter_simps split: option.splits)
  moreover have "drain_violation x = None \<longleftrightarrow>
      se_exit (snd x) = None \<and> se_rollback_record (snd x) \<noteq> None" for x
    by (auto simp: drain_violation_def split: option.splits)
  ultimately show ?thesis
    using assms unfolding drained_def record_of_def by (auto simp: bt_get_iff)
qed

text \<open>A reverse migration is armed exactly when one binary was sent, no deploy or upgrade is
  under way, and every session is live with a stored record; then nothing else changes. In every
  other case that does not end the generation the holder is unchanged and the reply is an error.\<close>
theorem split_rollback_arms_iff_drained:
  assumes "bt_sorted (hd_sessions h)" and "parse_split_rollback j = Some b"
  shows "split_rollback k req j fds h =
     (if length fds \<noteq> 1
      then ((h, []), Some (Protocol (PR_fd_count V_SPLIT_ROLLBACK (length fds))))
      else if hd_armed_deploy h = None \<and> hd_pending_upgrade h = None \<and> drained h
      then ((h\<lparr> hd_armed_deploy := Some (ArmedSplitRollback (hd fds) (sr_reexec_generation b)
               (sr_manifest_schema_version b), k_instant k) \<rparr>, [ok_frame req]), None)
      else ((h, snd (fst (split_rollback k req j fds h))), None)) \<and>
   (if length fds = 1 \<and> \<not> (hd_armed_deploy h = None \<and> hd_pending_upgrade h = None \<and> drained h)
    then \<exists>c m d. snd (fst (split_rollback k req j fds h)) = [reply_frame V_ERR req (ErrBody c m d)]
    else True)"
  using drain_violations_iff [OF assms(1)] assms(2)
  by (cases fds; cases "tl fds")
    (auto simp: split_rollback_def carry_on_def abort_def deploy_conflict_def err_frame_def
      err_frame_with_def Let_def split: option.splits)

theorem split_rollback_arms_iff_drained_witness:
  "hd_armed_deploy (fst (fst (split_rollback sample_kernel 9
     (ser_split_rollback \<lparr> sr_reexec_generation = 4, sr_manifest_schema_version = 3 \<rparr>) [20]
     (sample_holder noted_entry)))) = Some (ArmedSplitRollback 20 4 3, 5000)"
proof -
  have s: "bt_sorted (hd_sessions (sample_holder noted_entry))"
    by (simp add: sample_holder_def bt_sorted_def)
  have p: "parse_split_rollback (ser_split_rollback
      \<lparr> sr_reexec_generation = 4, sr_manifest_schema_version = 3 \<rparr>)
    = Some \<lparr> sr_reexec_generation = 4, sr_manifest_schema_version = 3 \<rparr>"
    by (simp add: ser_defs parse_defs de_defs)
  have "drained (sample_holder noted_entry)"
    by (simp add: drained_def sample_record noted_entry_def sample_entry_def)
  then show ?thesis
    using split_rollback_arms_iff_drained [OF s p, of sample_kernel 9 "[20]"]
    by (simp add: sample_holder_def holder_new_def)
qed

section \<open>The manifest of a reverse migration\<close>

text \<open>What the holder itself knows of a session, as a record of the manifest must say it.\<close>

definition identity_of :: "uid \<times> session_entry \<Rightarrow> uid \<times> fd option \<times> fd \<times> pid \<times> u64" where
  "identity_of x = (fst x, master_raw_fd (se_master (snd x)), se_pidfd (snd x), se_pid (snd x),
     se_child_start_time (snd x))"

definition record_identity :: "session_record \<Rightarrow> uid \<times> fd option \<times> fd \<times> pid \<times> u64" where
  "record_identity r = (sr_uid r, Some (sr_pty_master_fd r), sr_pidfd r, sr_child_pid r,
     sr_child_start_time r)"

lemma patched_lookups:
  "map_of (AList.update ''child_start_time'' a (AList.update ''child_pid'' b
     (AList.update ''pidfd'' c (AList.update ''pty_master_fd'' d (AList.update ''uid'' e kvs)))))
   = (map_of kvs)(''uid'' \<mapsto> e, ''pty_master_fd'' \<mapsto> d, ''pidfd'' \<mapsto> c, ''child_pid'' \<mapsto> b,
       ''child_start_time'' \<mapsto> a)"
  by (simp add: update_conv')

lemma de_i32_JIntD: "de_i32 (JInt i) = Some j \<Longrightarrow> j = i"
  by (auto simp: de_i32_def split: if_splits)

lemma parse_patched:
  assumes "parse_session_record fi (patch_blob u master e kvs) = Some r"
  shows "sr_uid r = u \<and> sr_pty_master_fd r = master \<and> sr_pidfd r = se_pidfd e \<and>
    sr_child_pid r = se_pid e \<and> sr_child_start_time r = se_child_start_time e"
  using assms unfolding parse_session_record_def patch_blob_def de_fields_def
  by (simp add: patched_lookups de_req_def bind_eq_Some_conv)
    (elim exE conjE, auto dest: de_i32_JIntD)

lemma project_sessions_identity:
  "project_sessions fi m = Inr rs \<Longrightarrow> map record_identity rs = map identity_of m"
proof (induction fi m arbitrary: rs rule: project_sessions.induct)
  case (1 fi)
  then show ?case by simp
next
  case (2 fi u e m)
  then obtain r rs' where r: "project_session fi u e = Inr r" "project_sessions fi m = Inr rs'"
    "rs = r # rs'" by (auto split: sum.splits)
  then obtain kvs master where "se_rollback_record e = Some (JObj kvs)"
    "master_raw_fd (se_master e) = Some master"
    "parse_session_record fi (patch_blob u master e kvs) = Some r"
    by (auto simp: project_session_def split: option.splits json.splits)
  then have "record_identity r = identity_of (u, e)"
    using parse_patched by (simp add: record_identity_def identity_of_def)
  with 2 r show ?case by simp
qed

text \<open>Identity is the holder's. Whatever the brain put into the stored records, each session of
  the manifest for the monolith has the uid it is filed under and the holder's own master, pidfd,
  pid and start time, in the holder's order, and the manifest names the custodied listeners.\<close>
theorem rollback_manifest_identity:
  assumes "rollback_manifest fi h v g pin = Inr m"
  shows "map record_identity (rm_sessions m) = map identity_of (hd_sessions h) \<and>
    Some (rm_listener_fd m) = listener_of_kind ''unix'' (hd_listeners h) \<and>
    rm_tls_listener_fd m = listener_of_kind ''tls'' (hd_listeners h) \<and>
    rm_schema_version m = v \<and> rm_reexec_generation m = g \<and> rm_rollback_bin_fd m = pin \<and>
    rm_split m = None"
  using assms project_sessions_identity
  by (auto simp: rollback_manifest_def split: sum.splits option.splits)

definition forged_blob :: json where
  "forged_blob = JObj [(''uid'', JStr ''someone-else''), (''pidfd'', JInt 99),
     (''generation'', JInt 0), (''session_type'', JStr ''bash''), (''title'', JStr ''t''),
     (''workspace_id'', JStr ''w''), (''global_perms'', JBool False)]"

definition forged_holder :: holder where
  "forged_holder = (sample_holder (sample_entry\<lparr> se_rollback_record := Some forged_blob \<rparr>))
     \<lparr> hd_listeners := [(\<lparr> lm_kind = ''unix'', lm_meta = ''/s'' \<rparr>, 30)] \<rparr>"

lemma forged_manifest: "\<exists>m. rollback_manifest (\<lambda>_. 0) forged_holder 3 4 20 = Inr m"
  by (simp add: rollback_manifest_def forged_holder_def sample_holder_def sample_entry_def
      forged_blob_def project_session_def patch_blob_def parse_session_record_def de_fields_def
      de_req_def de_opt_field_def de_default_def de_string_def de_i32_def de_bool_def
      session_record_fields_def de_word_def ser_word_def listener_of_kind_def)

theorem rollback_manifest_identity_witness:
  "\<exists>m. rollback_manifest (\<lambda>_. 0) forged_holder 3 4 20 = Inr m \<and>
     map record_identity (rm_sessions m) = [(''s1'', Some 10, 11, 100, 5)]"
proof -
  obtain m where m: "rollback_manifest (\<lambda>_. 0) forged_holder 3 4 20 = Inr m"
    using forged_manifest by blast
  have "map identity_of (hd_sessions forged_holder) = [(''s1'', Some 10, 11, 100, 5)]"
    by (simp add: forged_holder_def sample_holder_def identity_of_def sample_entry_def)
  with m rollback_manifest_identity [OF m] show ?thesis by (intro exI [of _ m]) simp
qed

section \<open>A holder upgrade\<close>

lemma snapshot_fds:
  assumes "\<forall>x\<in>set (hd_sessions h). master_raw_fd (se_master (snd x)) \<noteq> None"
  shows "concat (map (\<lambda>s. [hs_master_fd s, hs_pidfd s])
      (hu_sessions (upgrade_snapshot h brain pin prev n path)))
    @ map lr_fd (hu_listeners (upgrade_snapshot h brain pin prev n path)) = escrow_fds h"
proof -
  have "concat (map (\<lambda>s. [hs_master_fd s, hs_pidfd s]) (map (\<lambda>x. carry_of_entry (fst x) (snd x)) m))
    = concat (map (\<lambda>x. (case master_raw_fd (se_master (snd x)) of None \<Rightarrow> [] | Some d \<Rightarrow> [d])
        @ [se_pidfd (snd x)]) m)"
    if "\<forall>x\<in>set m. master_raw_fd (se_master (snd x)) \<noteq> None" for m
    using that by (induction m) (auto simp: carry_of_entry_def split: option.splits)
  from this [OF assms] show ?thesis
    by (simp add: upgrade_snapshot_def escrow_fds_def comp_def)
qed

lemma incarnations_below_iff:
  "incarnations_below h \<longleftrightarrow>
     (\<forall>u e. record_of h u = Some e \<longrightarrow> se_incarnation e < hd_next_incarnation h)"
  by (simp add: incarnations_below_def bt.every_def record_of_def)

lemma carried_incarnation [simp]:
  "se_incarnation (entry_of_carry (carry_of_entry u e)) = se_incarnation e"
  by (simp add: entry_of_carry_def carry_of_entry_def)

lemma restored_ok:
  assumes "holder_ok h"
  shows "holder_ok (restore_from_upgrade cfg (upgrade_snapshot h brain pin prev n path))"
proof -
  let ?h = "restore_from_upgrade cfg (upgrade_snapshot h brain pin prev n path)"
  have s: "bt_sorted (hd_sessions h)" using assms by (simp add: holder_ok_def)
  note r = record_of_restored [OF s, of cfg brain pin prev n path]
  have "moves (\<lambda>u l. l = LCarry) h ?h"
    by (rule moves_map [OF r]) (auto intro!: exI [of _ "[LCarry]"] lives_one life_carry)
  then have "records_ok ?h" using assms records_ok_moves by (auto simp: holder_ok_def)
  moreover have "incarnations_below ?h"
    using assms by (auto simp: holder_ok_def incarnations_below_iff r)
      (simp add: restore_from_upgrade_def upgrade_snapshot_def)
  moreover have "distinct_incarnations ?h"
    using assms by (auto simp: holder_ok_def distinct_incarnations_def r)
  moreover have "side_ok ?h"
    using assms event_side_ok [of "(h, False)" "EvUpgrade cfg brain pin prev n path"]
    by (simp add: holder_ok_iff)
  moreover have "bt_sorted (hd_sessions ?h)"
    using s by (simp add: restored_sessions sorted_map_entries)
  ultimately show ?thesis by (simp add: holder_ok_iff)
qed

text \<open>The holder's own snapshot is one its successor accepts: the structural checks of the
  upgrade manifest pass exactly when the session count is in bounds, every pid and start time is
  real, and the descriptors the holder would carry over the exec are distinct and above stdio. The
  incarnation check never fails, because incarnations stay below the high-water mark.\<close>
theorem upgrade_snapshot_accepted:
  assumes "holder_ok h" and "\<forall>x\<in>set (hd_sessions h). master_raw_fd (se_master (snd x)) \<noteq> None"
    and "fds = concat (map brain_fds (opt_list brain)) @ opt_list pin @ opt_list prev @ escrow_fds h"
  shows "h_validate_structure (upgrade_snapshot h brain pin prev n path) = Inr () \<longleftrightarrow>
    length (hd_sessions h) \<le> 4096 \<and> (case brain of None \<Rightarrow> True | Some b \<Rightarrow> 0 < bn_pid b) \<and>
    list_all (\<lambda>x. 0 < se_pid (snd x) \<and> se_child_start_time (snd x) \<noteq> 0) (hd_sessions h) \<and>
    list_all (\<lambda>d. 2 < d) fds \<and> distinct fds"
proof -
  let ?m = "upgrade_snapshot h brain pin prev n path"
  have fds: "holder_manifest_fds ?m = fds"
    using snapshot_fds [OF assms(2), of brain pin prev n path] assms(3)
    by (simp add: holder_manifest_fds_def) (simp add: upgrade_snapshot_def)
  have "\<forall>x\<in>set (hd_sessions h). se_incarnation (snd x) < hd_next_incarnation h"
    using assms(1) by (auto simp: holder_ok_def incarnations_below_iff record_of_def bt_get_iff)
  then have inc: "\<forall>s\<in>set (hu_sessions ?m). hs_incarnation s < hu_next_incarnation ?m"
    by (simp add: upgrade_snapshot_def carry_of_entry_def)
  have "holder_manifest_wf ?m \<longleftrightarrow> length (hd_sessions h) \<le> 4096 \<and>
      (case brain of None \<Rightarrow> True | Some b \<Rightarrow> 0 < bn_pid b) \<and>
      list_all (\<lambda>x. 0 < se_pid (snd x) \<and> se_child_start_time (snd x) \<noteq> 0) (hd_sessions h) \<and>
      list_all (\<lambda>d. 2 < d) fds \<and> distinct fds"
    using inc unfolding holder_manifest_wf_def fds
    by (auto simp: upgrade_snapshot_def HOLDER_MANIFEST_SCHEMA_VERSION_def list_all_iff
        carry_of_entry_def split: option.split)
  then show ?thesis
    unfolding h_validate_structure_def run_checks_unit [OF accepts_h_structure] holder_manifest_wf_def
    by blast
qed

theorem upgrade_snapshot_accepted_witness:
  "h_validate_structure (upgrade_snapshot (sample_holder sample_entry)
     (Some \<lparr> bn_pid = 7, bn_pidfd = 5, bn_channel_fd = 6 \<rparr>) (Some 8) None 0 ''/b'') = Inr ()"
proof (subst upgrade_snapshot_accepted [OF _ _ refl])
  show "holder_ok (sample_holder sample_entry)"
    by (rule sample_holder_ok [OF sample_entries_ok(1)]) (simp add: sample_entry_def)
qed (simp_all add: sample_holder_def sample_entry_def holder_new_def escrow_fds_def opt_list_def
    brain_fds_def)

text \<open>A holder upgrade loses nothing. What the old image writes, the new image reads back
  through the sealed file under any schedule of partial reads, and the holder it rebuilds has
  every record with every field (the terminal now as a bare descriptor), the same custodied
  listeners, the same epoch and the same incarnation high-water mark, and it is well formed.\<close>
theorem upgrade_carries_state:
  assumes "holder_ok h"
    and "m = upgrade_snapshot h brain pin prev n path"
    and "write_holder_manifest sha enc m = Inr bs" and "dec (enc m) = Some m"
    and "full_read as (sealed_memfd LINK_CMHU bs)" and "length (sha (enc m)) = 32"
  shows "\<exists>m'. read_holder_manifest sha dec as (sealed_memfd LINK_CMHU bs) = Some (Inr m') \<and>
    (\<forall>u. record_of (restore_from_upgrade cfg m') u = map_option (\<lambda>e. e\<lparr> se_master :=
       Raw (case master_raw_fd (se_master e) of None \<Rightarrow> -1 | Some d \<Rightarrow> d) \<rparr>) (record_of h u)) \<and>
    hd_listeners (restore_from_upgrade cfg m') = hd_listeners h \<and>
    hd_epoch (restore_from_upgrade cfg m') = hd_epoch h \<and>
    hd_next_incarnation (restore_from_upgrade cfg m') = hd_next_incarnation h \<and>
    holder_ok (restore_from_upgrade cfg m')"
proof -
  have s: "bt_sorted (hd_sessions h)" using assms(1) by (simp add: holder_ok_def)
  have carry: "entry_of_carry (carry_of_entry u e) = e\<lparr> se_master :=
       Raw (case master_raw_fd (se_master e) of None \<Rightarrow> -1 | Some d \<Rightarrow> d) \<rparr>" for u e
    by (cases "se_exit e") (simp_all add: entry_of_carry_def carry_of_entry_def)
  have "holder_ok (restore_from_upgrade cfg m)"
    unfolding assms(2) by (rule restored_ok [OF assms(1)])
  moreover have "read_holder_manifest sha dec as (sealed_memfd LINK_CMHU bs) = Some (Inr m)"
    by (rule holder_manifest_roundtrip [where enc = enc]) (fact assms)+
  moreover have "hd_listeners (restore_from_upgrade cfg m) = hd_listeners h"
    "hd_epoch (restore_from_upgrade cfg m) = hd_epoch h"
    "hd_next_incarnation (restore_from_upgrade cfg m) = hd_next_incarnation h"
    unfolding assms(2) by (simp_all add: restore_from_upgrade_def upgrade_snapshot_def comp_def)
  ultimately show ?thesis
    using record_of_restored [OF s, of cfg brain pin prev n path] assms(2) carry
    by (intro exI [of _ m]) simp
qed

definition sample_snapshot :: holder_upgrade_manifest where
  "sample_snapshot = upgrade_snapshot (sample_holder sample_entry)
     (Some \<lparr> bn_pid = 7, bn_pidfd = 5, bn_channel_fd = 6 \<rparr>) (Some 8) None 0 ''/b''"

lemma sample_snapshot_written:
  "write_holder_manifest toy_sha (\<lambda>_. [7]) sample_snapshot
    = Inr (encode_envelope toy_sha MAGIC_CMHU 1 [7])"
proof -
  have "holder_manifest_wf sample_snapshot"
    by (simp add: holder_manifest_wf_def sample_snapshot_def upgrade_snapshot_def sample_holder_def
        holder_new_def holder_manifest_fds_def opt_list_def brain_fds_def carry_of_entry_def
        sample_entry_def HOLDER_MANIFEST_SCHEMA_VERSION_def)
  then have "h_validate_structure sample_snapshot = Inr ()"
    unfolding h_validate_structure_def run_checks_unit [OF accepts_h_structure] holder_manifest_wf_def
    by blast
  then show ?thesis
    by (simp add: write_holder_manifest_def HEADER_LEN_def MAX_HOLDER_MANIFEST_BYTES_def
        HOLDER_MANIFEST_FORMAT_VERSION_def)
qed

theorem upgrade_carries_state_witness:
  "\<exists>m. read_holder_manifest toy_sha (\<lambda>_. Some sample_snapshot) (replicate 49 (PreadOk 1))
      (sealed_memfd LINK_CMHU (encode_envelope toy_sha MAGIC_CMHU 1 [7])) = Some (Inr m) \<and>
    record_of (restore_from_upgrade sample_cfg m) ''s1'' = Some sample_entry"
proof -
  have ok: "holder_ok (sample_holder sample_entry)"
    by (rule sample_holder_ok [OF sample_entries_ok(1)]) (simp add: sample_entry_def)
  have "full_read (replicate 49 (PreadOk 1))
      (sealed_memfd LINK_CMHU (encode_envelope toy_sha MAGIC_CMHU 1 [7]))"
    by (rule full_read_ones) (simp add: encode_parts HEADER_LEN_def)
  from upgrade_carries_state [OF ok sample_snapshot_def sample_snapshot_written _ this,
      of "\<lambda>_. Some sample_snapshot" sample_cfg]
  show ?thesis by (auto simp: sample_record sample_entry_def)
qed

declare sample_kernel_def [simp del]

section \<open>A gap: arming while a reverse migration is armed\<close>

definition late_entry :: session_entry where
  "late_entry = sample_entry
     \<lparr> se_reap_armed := False, se_delivery_ready := False, se_exit_latched := True,
       se_rollback_record := Some forged_blob \<rparr>"

definition late_holder :: holder where
  "late_holder = (sample_holder late_entry)
     \<lparr> hd_armed_deploy := Some (ArmedSplitRollback 20 4 3, 5000),
       hd_listeners := [(\<lparr> lm_kind = ''unix'', lm_meta = ''/s'' \<rparr>, 30)] \<rparr>"

definition arm_request :: json where
  "arm_request = ser_arm_reap \<lparr> ar_uid = ''s1'', ar_incarnation = 1, ar_cgroup_path = None \<rparr>"

text \<open>The poll loop never consumes an exit status while a reverse migration is armed, but
  \<open>arm_reap\<close> does: on a latched record it reaps the child although the migration stays armed. The
  holder is then no longer drained, and the manifest for the monolith still names the session,
  whose child can no longer be reaped by anyone.\<close>
theorem arm_reap_consumes_under_split_rollback:
  "split_rollback_armed late_holder \<and>
   waited (snd (handle_arm_reap sample_kernel 9 arm_request late_holder)) = [11] \<and>
   split_rollback_armed (fst (handle_arm_reap sample_kernel 9 arm_request late_holder)) \<and>
   \<not> drained (fst (handle_arm_reap sample_kernel 9 arm_request late_holder)) \<and>
   (\<exists>m. rollback_manifest (\<lambda>_. 0) (fst (handle_arm_reap sample_kernel 9 arm_request late_holder))
      3 4 20 = Inr m \<and> map sr_uid (rm_sessions m) = [''s1''])"
proof -
  let ?e = "fst (consume_exit sample_kernel ''s1'' (arm_entry None late_entry))"
  have p: "parse_arm_reap arm_request
      = Some \<lparr> ar_uid = ''s1'', ar_incarnation = 1, ar_cgroup_path = None \<rparr>"
    by (simp add: arm_request_def ser_defs parse_defs de_defs)
  have r: "record_of late_holder u = (if u = ''s1'' then Some late_entry else None)" for u
    by (simp add: late_holder_def sample_record)
  have h: "handle_arm_reap sample_kernel 9 arm_request late_holder
      = (set_record ''s1'' ?e late_holder,
         ok_frame 9 # snd (consume_exit sample_kernel ''s1'' (arm_entry None late_entry)))"
    by (simp add: handle_arm_reap_def p r Let_def split_beta)
      (simp add: late_entry_def sample_entry_def arm_entry_def)
  have w: "waited (ok_frame 9 # ios) = waited ios" for ios
    by (simp add: reply_defs)
  have "project_session (\<lambda>_. 0) ''s1'' ?e = Inr r \<Longrightarrow> sr_uid r = ''s1''" for r
    by (auto simp: project_session_def split: option.splits json.splits dest: parse_patched)
  moreover have "\<exists>r. project_session (\<lambda>_. 0) ''s1'' ?e = Inr r"
    by (simp add: consume_exit_entry arm_entry_def late_entry_def sample_entry_def forged_blob_def
        project_session_def patch_blob_def parse_session_record_def de_fields_def de_req_def
        de_opt_field_def de_default_def de_string_def de_i32_def de_bool_def de_word_def ser_word_def)
  ultimately obtain r where pr: "project_session (\<lambda>_. 0) ''s1'' ?e = Inr r" "sr_uid r = ''s1''"
    by blast
  have s: "hd_sessions (set_record ''s1'' ?e late_holder) = [(''s1'', ?e)]"
    by (simp add: set_record_def late_holder_def sample_holder_def bt_adjust_def)
  have l: "hd_listeners (set_record ''s1'' ?e late_holder)
      = [(\<lparr> lm_kind = ''unix'', lm_meta = ''/s'' \<rparr>, 30)]"
    by (simp add: set_record_def late_holder_def)
  have "\<exists>m. rollback_manifest (\<lambda>_. 0) (set_record ''s1'' ?e late_holder) 3 4 20 = Inr m \<and>
      map sr_uid (rm_sessions m) = [''s1'']"
    using pr by (simp add: rollback_manifest_def s l listener_of_kind_def)
  moreover have "\<not> drained (set_record ''s1'' ?e late_holder)"
    by (auto simp: drained_def store_simps r consume_exit_entry)
  moreover have "split_rollback_armed (set_record ''s1'' ?e late_holder)"
    by (simp add: split_rollback_armed_def set_record_def late_holder_def)
  ultimately show ?thesis
    unfolding h by (simp add: w split_rollback_armed_def late_holder_def)
      (simp add: arm_entry_def late_entry_def sample_entry_def)
qed

end
