(* ===== verification/ServeLaws.thy ===== *)
theory ServeLaws
  imports DeployLaws
begin

text \<open>
  What holds of the serve loop: every pass is a run of the holder machine, the outbound queue
  puts its frames on the stream in order and whole, the watchdog and the timers, and when an
  accepted holder upgrade surfaces.
\<close>

section \<open>A pass is a run of the machine\<close>

text \<open>
  Every frame takes at least four bytes and at most one incarnation, so the bytes still to be
  handled bound the incarnations a pass can hand out.
\<close>

definition roomy :: "holder \<Rightarrow> nat \<Rightarrow> bool" where
  "roomy h n \<longleftrightarrow> unat (hd_next_incarnation h) + n < 2 ^ 64 - 1"

lemma roomy_next: "roomy h n \<Longrightarrow> hd_next_incarnation h \<noteq> - 1"
  unfolding roomy_def
proof
  assume a: "unat (hd_next_incarnation h) + n < 2 ^ 64 - 1" and "hd_next_incarnation h = - 1"
  then have "unat (hd_next_incarnation h) = 2 ^ 64 - 1"
    by (simp add: unsigned_minus_1_eq_mask mask_eq_exp_minus_1)
  with a show False by simp
qed

lemma roomy_numbered:
  assumes "numbered h h'" and "roomy h n" and "m < n"
  shows "roomy h' m"
proof -
  have "unat (hd_next_incarnation h + 1) \<le> unat (hd_next_incarnation h) + 1"
    by (simp add: unat_plus_if' le_diff_conv)
  with assms show ?thesis unfolding numbered_def roomy_def by auto
qed

lemma dispatch_is_event:
  "fst (dispatch k f fds hb) = apply_event (EvFrame k f fds) hb"
  by simp

lemma each_frame_run:
  assumes "each_frame dec (on_frame enc ks) r ((h, b), acc, q, i) = (r', ((h', b'), acc', q', i'), e)"
    and "holder_ok h" and "roomy h (length (rd_buf r) + n)"
  shows "\<exists>evs. machine.may_run (h, b) evs \<and> machine.run (h, b) evs = (h', b') \<and>
    (\<forall>ev\<in>set evs. \<exists>k f fds. ev = EvFrame k f fds) \<and> roomy h' (length (rd_buf r') + n)"
  using assms
proof (induction "length (rd_buf r)" arbitrary: r h b acc q i rule: less_induct)
  case less
  have refl: "\<exists>evs. machine.may_run (h, b) evs \<and> machine.run (h, b) evs = (h, b) \<and>
    (\<forall>ev\<in>set evs. \<exists>k f fds. ev = EvFrame k f fds) \<and> roomy h (length (rd_buf r) + n)"
    using less.prems(3) by (intro exI [of _ "[]"]) simp
  show ?case
  proof (cases "next_frame dec r")
    case (Inl v)
    then show ?thesis using less.prems refl by (subst (asm) each_frame.simps) auto
  next
    case (Inr res)
    then obtain r1 hit where nf: "next_frame dec r = Inr (r1, hit)" by (cases res) auto
    show ?thesis
    proof (cases hit)
      case None
      with nf have "r1 = r" by (auto simp: next_frame_def Let_def split: if_splits option.splits)
      then show ?thesis using less.prems refl nf None by (subst (asm) each_frame.simps) auto
    next
      case (Some x)
      then obtain f fds where x: "hit = Some (f, fds)" by (cases x) auto
      have short: "length (rd_buf r1) < length (rd_buf r)"
        using next_frame_shrinks nf x by blast
      obtain h1 b1 ios out where d: "dispatch (ks i) f fds (h, b) = ((h1, b1), ios, out)"
        by (metis prod.collapse)
      have ev: "event_ok (h, b) (EvFrame (ks i) f fds)"
        using roomy_next less.prems(3) by (simp add: event_ok_def)
      have ok1: "holder_ok h1"
        using apply_event_ok [of "(h, b)", OF _ ev] less.prems(2) d by simp
      have "numbered h h1"
        using dispatch_numbered [of "(h, b)" "ks i" f fds] less.prems(2) d by (simp add: holder_ok_def)
      then have room1: "roomy h1 (length (rd_buf r1) + n)"
        using roomy_numbered [OF _ less.prems(3)] short by simp
      have one: "machine.may_run (h, b) [EvFrame (ks i) f fds] \<and>
          machine.run (h, b) [EvFrame (ks i) f fds] = (h1, b1)"
        using ev d by simp
      show ?thesis
      proof (cases "on_frame enc ks f fds ((h, b), acc, q, i)")
        case (Pair s stop)
        then have s: "fst s = (h1, b1)"
          using d by (auto simp: on_frame_def split: option.splits)
        show ?thesis
        proof (cases stop)
          case (Some out)
          then have "r' = r1" "(h', b') = (h1, b1)"
            using less.prems(1) nf x Pair s by (auto simp: each_frame.simps [of dec _ r])
          then show ?thesis using one room1
            by (intro exI [of _ "[EvFrame (ks i) f fds]"]) auto
        next
          case None
          obtain acc1 q1 i1 where s1: "s = ((h1, b1), acc1, q1, i1)" using s by (cases s) auto
          have "each_frame dec (on_frame enc ks) r1 ((h1, b1), acc1, q1, i1)
              = (r', ((h', b'), acc', q', i'), e)"
            using less.prems(1) nf x Pair None s1 by (simp add: each_frame.simps [of dec _ r])
          from less.hyps [OF short this ok1 room1] obtain evs where
            "machine.may_run (h1, b1) evs" "machine.run (h1, b1) evs = (h', b')"
            "\<forall>ev\<in>set evs. \<exists>k f fds. ev = EvFrame k f fds" "roomy h' (length (rd_buf r') + n)"
            by blast
          then show ?thesis using one
            by (intro exI [of _ "EvFrame (ks i) f fds # evs"]) auto
        qed
      qed
    qed
  qed
qed

lemma child_exits_polled:
  assumes "holder_ok h" and "holder_ok h2"
    and "\<And>u e. u \<in> set (polled_uids h) \<Longrightarrow> record_of h2 u = Some e \<Longrightarrow> record_of h u = Some e"
  shows "polled_ok (polled_uids h) h2"
  using assms polled_get unfolding polled_ok_def holder_ok_def by blast

text \<open>A sweep touches only latched records, so it leaves the polled ones alone.\<close>

lemma record_of_sweep:
  "record_of (fst (sweep_latched_exits_into k h)) u
    = map_option (\<lambda>e. fst (sweep_entry k u e)) (record_of h u)"
  by (simp add: sweep_into_sessions store_simps)

lemma sweep_keeps_polled:
  assumes "bt_sorted (hd_sessions h)" and "u \<in> set (polled_uids h)"
  shows "record_of (fst (auto_disarm k t h)) u = record_of h u"
proof -
  have "fst (sweep_entry k u e) = e" if "record_of h u = Some e" for e
    using polled_get [OF assms(1) that assms(2)] by (simp add: sweep_entry_def)
  then have "map_option (\<lambda>e. fst (sweep_entry k u e)) (record_of h u) = record_of h u"
    by (cases "record_of h u") simp_all
  then show ?thesis
    by (simp add: auto_disarm_def record_of_sweep split: option.split)
qed

definition received :: "poll_round \<Rightarrow> nat" where
  "received rd = (case pl_recv rd of Received data _ _ \<Rightarrow> length data | _ \<Rightarrow> 0)"

lemma feed_length:
  "feed a r = Inr (r', s) \<Longrightarrow> length (rd_buf r') \<le> length (rd_buf r) +
     (case a of Received data _ _ \<Rightarrow> length data | _ \<Rightarrow> 0)"
  by (auto simp: feed_def Let_def split: recv_answer.splits errno.splits if_splits)

text \<open>A step lands where a run of the machine ends, with room for \<open>n\<close> more bytes if the loop
  goes on.\<close>

definition lands :: "nat \<Rightarrow> holder \<times> bool \<Rightarrow> serve_step \<Rightarrow> bool" where
  "lands n hb r \<longleftrightarrow>
     (\<exists>evs. machine.may_run hb evs \<and>
        (case r of
           Go st \<Rightarrow> machine.run hb evs = (sv_holder st, sv_hello_done st) \<and>
             roomy (sv_holder st) (length (rd_buf (sv_reader st)) + n)
         | Return out h \<Rightarrow> fst (machine.run hb evs) = h
         | Panic \<Rightarrow> True))"

lemma lands_Go:
  "roomy (sv_holder st) (length (rd_buf (sv_reader st)) + n) \<Longrightarrow>
   lands n (sv_holder st, sv_hello_done st) (Go st)"
  unfolding lands_def by (intro exI [of _ "[]"]) simp

lemma lands_Return: "h = fst hb \<Longrightarrow> lands n hb (Return out h)"
  unfolding lands_def by (intro exI [of _ "[]"]) simp

lemma lands_Panic: "lands n hb Panic"
  unfolding lands_def by (intro exI [of _ "[]"]) simp

lemma lands_run:
  assumes "machine.may_run hb evs" and "lands n (machine.run hb evs) r"
  shows "lands n hb r"
proof -
  obtain evs' where "machine.may_run (machine.run hb evs) evs'"
    "case r of
       Go st \<Rightarrow> machine.run (machine.run hb evs) evs' = (sv_holder st, sv_hello_done st) \<and>
         roomy (sv_holder st) (length (rd_buf (sv_reader st)) + n)
     | Return out h \<Rightarrow> fst (machine.run (machine.run hb evs) evs') = h
     | Panic \<Rightarrow> True"
    using assms(2) unfolding lands_def by blast
  with assms(1) show ?thesis unfolding lands_def
    by (intro exI [of _ "evs @ evs'"])
      (simp add: machine.may_run_append machine.run_append split: serve_step.splits)
qed

lemma lands_event: "event_ok hb ev \<Longrightarrow> lands n (apply_event ev hb) r \<Longrightarrow> lands n hb r"
  using lands_run [of hb "[ev]"] by simp

lemma finish_pass_lands:
  assumes room: "roomy (sv_holder st) (length (rd_buf (sv_reader st)) + n)"
  shows "lands n (sv_holder st, sv_hello_done st) (snd (finish_pass rd st))"
proof -
  let ?hb = "(sv_holder st, sv_hello_done st)"
  let ?h = "(sv_holder st)\<lparr> hd_pending_upgrade := None \<rparr>"
  have take: "lands n ?hb (Return out ?h)" for out
    by (rule lands_event [where ev = EvTakeUpgrade])
      (simp_all add: event_ok_def roomy_next [OF room] lands_Return)
  have stay: "lands n ?hb (Return out (sv_holder st))" for out
    by (rule lands_Return) simp
  have go: "lands n ?hb (Go (st\<lparr> sv_outbound := q \<rparr>))" for q
    using lands_Go [of "st\<lparr> sv_outbound := q \<rparr>" n] room by simp
  obtain segs q e where "flush_outbound (pl_send rd) (sv_outbound st) = (segs, q, e)"
    by (metis prod.collapse)
  then show ?thesis
    using take stay go
    by (simp add: finish_pass_def Let_def split: option.split flush_error.split)
qed

lemma channel_stage_lands:
  assumes ok: "holder_ok (sv_holder st)"
    and room: "roomy (sv_holder st) (length (rd_buf (sv_reader st)) + received rd + n)"
  shows "lands n (sv_holder st, sv_hello_done st) (snd (snd (channel_stage enc dec rd st)))"
proof -
  let ?hb = "(sv_holder st, sv_hello_done st)"
  have room0: "roomy (sv_holder st) (length (rd_buf (sv_reader st)) + n)"
    using room by (simp add: roomy_def)
  show ?thesis
  proof (cases "pl_channel_ready rd")
    case False
    then show ?thesis using finish_pass_lands [OF room0] by (simp add: channel_stage_def)
  next
    case ready: True
    show ?thesis
    proof (cases "feed (pl_recv rd) (sv_reader st)")
      case (Inl v)
      then show ?thesis using ready by (simp add: channel_stage_def lands_Return)
    next
      case (Inr x)
      obtain r s where x: "x = (r, s)" by (cases x)
      obtain r' hf bf ios q i e where loop: "each_frame dec (on_frame enc (pl_frame_kernel rd)) r
          (?hb, [], sv_outbound st, 0) = (r', ((hf, bf), ios, q, i), e)"
        by (metis prod.collapse)
      have "roomy (sv_holder st) (length (rd_buf r) + n)"
        using room feed_length [of "pl_recv rd" "sv_reader st" r s] Inr x
        by (simp add: roomy_def received_def)
      from each_frame_run [OF loop ok this] obtain evs where evs: "machine.may_run ?hb evs"
        "machine.run ?hb evs = (hf, bf)" "roomy hf (length (rd_buf r') + n)" by blast
      have there: "lands n (hf, bf) step \<Longrightarrow> lands n ?hb step" for step
        using lands_run [OF evs(1)] evs(2) by simp
      let ?st = "st\<lparr> sv_holder := hf, sv_reader := r', sv_outbound := q, sv_hello_done := bf \<rparr>"
      have fin: "lands n (hf, bf) (snd (finish_pass rd ?st))"
        using finish_pass_lands [of ?st n rd] evs(3) by simp
      show ?thesis
      proof (cases "s = Eof")
        case True
        then show ?thesis using ready Inr x by (simp add: channel_stage_def lands_Return)
      next
        case False
        then have cs: "channel_stage enc dec rd st =
            (case e of
               Drained \<Rightarrow> (ios, finish_pass rd ?st)
             | Violated v \<Rightarrow> (ios, [], Return (Protocol (PR_violation v)) hf)
             | Stopped None \<Rightarrow> (ios, [], Panic)
             | Stopped (Some out) \<Rightarrow> after_io ios (flush_and_return rd q out hf))"
          using ready Inr x loop
          by (cases s) (simp_all add: channel_stage_def split: loop_end.split option.split)
        show ?thesis
          unfolding cs using there [OF fin] there [OF lands_Return, of hf]
          by (simp add: lands_Panic after_io_def flush_and_return_def split: loop_end.split option.split)
      qed
    qed
  qed
qed

lemma exits_and_channel_lands:
  assumes ok: "holder_ok (sv_holder st)" and polled: "polled_ok uids (sv_holder st)"
    and room: "roomy (sv_holder st) (length (rd_buf (sv_reader st)) + received rd + n)"
  shows "lands n (sv_holder st, sv_hello_done st)
    (snd (snd (exits_and_channel enc dec rd uids st)))"
proof (cases "asks_shutdown rd (sv_holder st)")
  case True
  then show ?thesis by (simp add: exits_and_channel_def flush_and_return_def lands_Return)
next
  case False
  let ?ev = "EvExits (pl_kernel rd) uids (pl_exit_ready rd)"
  let ?c = "child_exits (pl_kernel rd) uids (pl_exit_ready rd) (sv_holder st)"
  have ev: "event_ok (sv_holder st, sv_hello_done st) ?ev"
    using roomy_next [OF room] polled by (simp add: event_ok_def)
  have ok1: "holder_ok (fst ?c)" using apply_event_ok [OF _ ev] ok by simp
  have room1: "roomy (fst ?c) (length (rd_buf (sv_reader st)) + received rd + n)"
    using room by (simp add: roomy_def child_exits_sessions)
  show ?thesis
  proof (cases "push_all enc (snd ?c) (sv_outbound st)")
    case None
    with False show ?thesis by (simp add: exits_and_channel_def split_beta lands_Panic)
  next
    case (Some q)
    let ?st = "st\<lparr> sv_holder := fst ?c, sv_outbound := q \<rparr>"
    have "lands n (fst ?c, sv_hello_done st) (snd (snd (channel_stage enc dec rd ?st)))"
      using channel_stage_lands [of ?st rd n enc dec] ok1 room1 by simp
    then show ?thesis
      using lands_event [OF ev] False Some by (simp add: exits_and_channel_def split_beta after_io_def)
  qed
qed

lemma auto_disarm_next [simp]:
  "hd_next_incarnation (fst (auto_disarm k t h)) = hd_next_incarnation h"
  by (simp add: auto_disarm_def sweep_into_sessions split: option.split)

lemma serve_pass_lands:
  assumes ok: "holder_ok (sv_holder st)"
    and room: "roomy (sv_holder st) (length (rd_buf (sv_reader st)) + received rd + n)"
  shows "lands n (sv_holder st, sv_hello_done st) (snd (snd (serve_pass enc dec rd st)))"
proof -
  let ?hb = "(sv_holder st, sv_hello_done st)"
  let ?d = "auto_disarm (pl_kernel rd) (pl_at_disarm rd) (sv_holder st)"
  let ?uids = "polled_uids (sv_holder st)"
  have room0: "roomy (sv_holder st) (length (rd_buf (sv_reader st)) + n)"
    using room by (simp add: roomy_def)
  have ev: "event_ok ?hb (EvDisarm (pl_kernel rd) (pl_at_disarm rd))"
    using roomy_next [OF room] by (simp add: event_ok_def)
  have ok1: "holder_ok (fst ?d)" using apply_event_ok [OF _ ev] ok by simp
  have sorted: "bt_sorted (hd_sessions (sv_holder st))" using ok by (simp add: holder_ok_def)
  have polled: "polled_ok ?uids (fst ?d)"
    unfolding polled_ok_def using sweep_keeps_polled [OF sorted] polled_get [OF sorted] by simp
  have via: "lands n (fst ?d, sv_hello_done st) step \<Longrightarrow> lands n ?hb step" for step
    using lands_event [OF ev] by simp
  let ?ping = "(fst ?d)\<lparr> hd_ping_seq := hd_ping_seq (fst ?d) + 1,
      hd_pings_unanswered := hd_pings_unanswered (fst ?d) + 1 \<rparr>"
  have evp: "event_ok (fst ?d, sv_hello_done st) EvPing"
    using roomy_next [OF room] by (simp add: event_ok_def)
  have viap: "lands n (?ping, sv_hello_done st) step \<Longrightarrow> lands n ?hb step" for step
    using via lands_event [OF evp] by simp
  have okp: "holder_ok ?ping" using apply_event_ok [OF _ evp] ok1 by simp
  have polledp: "polled_ok ?uids ?ping" using polled by (simp add: polled_ok_def)
  have ping: "ping_stage t (st\<lparr> sv_holder := fst ?d \<rparr>) = None \<or>
      (\<exists>w. ping_stage t (st\<lparr> sv_holder := fst ?d \<rparr>) = Some (?ping, w))" for t
    by (auto simp: ping_stage_def Let_def split: option.split)
  have quiet: "lands n ?hb (snd (snd (exits_and_channel enc dec rd ?uids
      (st\<lparr> sv_holder := fst ?d, sv_outbound := q \<rparr>))))" for q
    using exits_and_channel_lands [of "st\<lparr> sv_holder := fst ?d, sv_outbound := q \<rparr>" ?uids rd n enc dec]
      ok1 polled room by (intro via) (simp add: roomy_def)
  have pinged: "lands n ?hb (snd (snd (exits_and_channel enc dec rd ?uids
      (st\<lparr> sv_holder := ?ping, sv_outbound := q, sv_next_ping := np \<rparr>))))" for q np
    using exits_and_channel_lands
        [of "st\<lparr> sv_holder := ?ping, sv_outbound := q, sv_next_ping := np \<rparr>" ?uids rd n enc dec]
      okp polledp room by (intro viap) (simp add: roomy_def)
  have wedged: "lands n ?hb (Return out ?ping)" for out
    by (intro viap lands_Return) simp
  show ?thesis
  proof (cases "pl_poll_error rd")
    case (Some err)
    then show ?thesis using lands_Go [OF room0]
      by (cases err) (simp_all add: serve_pass_def lands_Return)
  next
    case None
    show ?thesis
    proof (cases "awaiting_hello st \<and> sv_handshake_deadline st \<le> pl_at_handshake rd")
      case True
      with None show ?thesis by (simp add: serve_pass_def lands_Return)
    next
      case False
      with None ping [of "pl_at_ping rd"] show ?thesis
        by (auto simp: serve_pass_def Let_def split_beta after_io_def lands_Panic quiet pinged wedged
            split: option.split bool.split)
    qed
  qed
qed

definition total_received :: "poll_round list \<Rightarrow> nat" where
  "total_received rds = sum_list (map received rds)"

lemma serve_loop_lands:
  assumes "holder_ok (sv_holder st)"
    and "roomy (sv_holder st) (length (rd_buf (sv_reader st)) + total_received rds)"
  shows "lands 0 (sv_holder st, sv_hello_done st) (snd (snd (serve_loop enc dec rds st)))"
  using assms
proof (induction rds arbitrary: st)
  case Nil
  then show ?case by (simp add: lands_Go total_received_def)
next
  case (Cons rd rds)
  obtain ios segs r where p: "serve_pass enc dec rd st = (ios, segs, r)" by (metis prod.collapse)
  have l: "lands (total_received rds) (sv_holder st, sv_hello_done st) r"
    using serve_pass_lands [OF Cons.prems(1), of rd "total_received rds" enc dec] Cons.prems(2) p
    by (simp add: total_received_def add.assoc)
  show ?case
  proof (cases r)
    case (Go st')
    obtain evs where evs: "machine.may_run (sv_holder st, sv_hello_done st) evs"
      "machine.run (sv_holder st, sv_hello_done st) evs = (sv_holder st', sv_hello_done st')"
      "roomy (sv_holder st') (length (rd_buf (sv_reader st')) + total_received rds)"
      using l Go by (auto simp: lands_def)
    have "holder_ok (sv_holder st')"
      using machine.run_inv [OF _ evs(1)] Cons.prems(1) evs(2) by simp
    from lands_run [OF evs(1), unfolded evs(2), OF Cons.IH [OF this evs(3)]]
    show ?thesis using p Go by (cases "serve_loop enc dec rds st'") simp
  next
    case (Return out h)
    then have "lands 0 (sv_holder st, sv_hello_done st) r" using l by (simp add: lands_def)
    then show ?thesis using p Return by simp
  next
    case Panic
    then show ?thesis using p by (simp add: lands_Panic)
  qed
qed

lemma serve_inner_refines:
  assumes "holder_ok h" and "unat (hd_next_incarnation h) + total_received rds < 2 ^ 64 - 1"
    and "serve_inner enc dec resumed t_deadline t_ping rds channel h = (ios, segs, Return out h')"
  shows "(\<exists>evs. machine.may_run (h, b) (EvServe resumed # evs) \<and>
      fst (machine.run (h, b) (EvServe resumed # evs)) = h') \<and> holder_ok h'"
proof -
  obtain st where st: "serve_start enc resumed t_deadline t_ping channel h = Go st"
    using assms(3) by (auto simp: serve_inner_def split: serve_step.splits)
      (auto simp: serve_start_def Let_def split: option.splits)
  have loop: "snd (snd (serve_loop enc dec rds st)) = Return out h'"
    using assms(3) st by (simp add: serve_inner_def)
  have start: "apply_event (EvServe resumed) (h, b) = (sv_holder st, sv_hello_done st)"
    and reader: "sv_reader st = frame_reader_new"
    using st by (auto simp: serve_start_def Let_def split: option.splits if_splits)
  have ev: "event_ok (h, b) (EvServe resumed)"
    using roomy_next [of h "total_received rds"] assms(2) by (simp add: event_ok_def roomy_def)
  have ok: "holder_ok (sv_holder st)"
    using apply_event_ok [OF _ ev] assms(1) start by simp
  have "hd_next_incarnation (fst (apply_event (EvServe resumed) (h, b))) = hd_next_incarnation h"
    by (simp add: serve_reset_def fresh_generation_def)
  then have "hd_next_incarnation (sv_holder st) = hd_next_incarnation h"
    using start by simp
  then have "lands 0 (sv_holder st, sv_hello_done st) (Return out h')"
    using serve_loop_lands [OF ok, of rds enc dec] loop assms(2)
    by (simp add: roomy_def reader frame_reader_new_def)
  then obtain evs where evs: "machine.may_run (sv_holder st, sv_hello_done st) evs"
    "fst (machine.run (sv_holder st, sv_hello_done st) evs) = h'" by (auto simp: lands_def)
  then have "machine.may_run (h, b) (EvServe resumed # evs)"
    "fst (machine.run (h, b) (EvServe resumed # evs)) = h'"
    using ev start by simp_all
  moreover have "holder_ok h'"
    using machine.run_inv [OF _ evs(1)] ok evs(2) by simp
  ultimately show ?thesis by blast
qed

text \<open>C1. The serve loop refines the machine. Over any passes, whatever poll, clock, socket and
  callbacks answer, the holder that a generation leaves behind is one that a run of the machine's
  events leaves, starting with the generation's own start; so every property of runs holds of the
  loop, and the holder it returns is well formed. The bound on the bytes received keeps the
  64-bit incarnation counter from wrapping.\<close>
theorem serve_refines_machine:
  assumes "holder_ok h" and "unat (hd_next_incarnation h) + total_received rds < 2 ^ 64 - 1"
    and "serve_inner enc dec resumed t_deadline t_ping rds channel h = (ios, segs, Return out h')"
  shows "(\<exists>evs. machine.may_run (h, b) (EvServe resumed # evs) \<and>
      fst (machine.run (h, b) (EvServe resumed # evs)) = h') \<and> holder_ok h'"
  by (rule serve_inner_refines [OF assms])

definition idle_round :: "kernel \<Rightarrow> poll_round" where
  "idle_round k =
     \<lparr> pl_poll_error = None, pl_channel_ready = False, pl_extra_ready = False,
       pl_exit_ready = (\<lambda>_. False), pl_signal = None, pl_recv = RecvErr EAGAIN, pl_send = [],
       pl_flush_rounds = [], pl_at_handshake = 0, pl_at_disarm = 0, pl_at_ping = 0,
       pl_at_next_ping = 0, pl_kernel = k, pl_frame_kernel = (\<lambda>_. k) \<rparr>"

definition eof_round :: "kernel \<Rightarrow> poll_round" where
  "eof_round k = (idle_round k)\<lparr> pl_channel_ready := True, pl_recv := Received [] [] False \<rparr>"

lemma sample_generation:
  "serve_inner enc dec False 0 0 [eof_round k] 3 (holder_new sample_cfg)
    = ([], [], Return BrainEof (fresh_generation (serve_reset (holder_new sample_cfg))))"
  by (simp add: serve_inner_def serve_start_def push_all_def serve_pass_def eof_round_def
      idle_round_def awaiting_hello_def auto_disarm_def ping_stage_def asks_shutdown_def
      exits_and_channel_def child_exits_def over_sessions_def channel_stage_def feed_def after_io_def
      polled_uids_def holder_new_def fresh_generation_def serve_reset_def sample_cfg_def)

theorem serve_refines_machine_witness:
  "holder_ok (fresh_generation (serve_reset (holder_new sample_cfg)))"
  by (rule serve_refines_machine [OF holder_new_ok _ sample_generation, THEN conjunct2])
    (simp add: holder_new_def total_received_def received_def eof_round_def)

section \<open>What goes on the stream\<close>

text \<open>What the queue still has to send: the first frame's remainder, then whole frames.\<close>

definition queue_stream :: "out_frame list \<Rightarrow> stream" where
  "queue_stream q = concat (map (\<lambda>x. unsent (of_bytes x) (of_fds x) (of_sent x)) q)"

definition queue_ok :: "out_frame list \<Rightarrow> bool" where
  "queue_ok q \<longleftrightarrow> (\<forall>x\<in>set q. of_bytes x \<noteq> [] \<and> of_sent x < length (of_bytes x))"

lemma unsent_fds: "0 < sent \<Longrightarrow> unsent bs fds sent = unsent bs fds' sent"
  by (simp add: unsent_def)

lemma flush_stream:
  assumes "makes_progress as" and "queue_ok q"
  shows "stream_of (fst (flush_outbound as q)) @ queue_stream (fst (snd (flush_outbound as q)))
      = queue_stream q \<and> queue_ok (fst (snd (flush_outbound as q)))"
  using assms
proof (induction as q rule: flush_outbound.induct)
  case (1 as)
  then show ?case by (simp add: stream_of_def)
next
  case (2 x q)
  then show ?case by (simp add: stream_of_def)
next
  case (3 n as x q)
  then have n: "0 < n" and prog: "makes_progress as" by (auto simp: makes_progress_def)
  let ?x = "x\<lparr> of_fds := (if of_sent x = 0 then [] else of_fds x), of_sent := of_sent x + n \<rparr>"
  let ?seg = "(take n (drop (of_sent x) (of_bytes x)), if of_sent x = 0 then of_fds x else [])"
  let ?q = "if length (of_bytes x) \<le> of_sent x + n then q else ?x # q"
  have ne: "of_bytes x \<noteq> []" using 3 by (simp add: queue_ok_def)
  have ok: "queue_ok ?q" using 3 by (auto simp: queue_ok_def)
  have f: "flush_outbound (Sent n # as) (x # q)
    = (?seg # fst (flush_outbound as ?q), snd (flush_outbound as ?q))"
    by (simp add: Let_def split_beta)
  have IH: "stream_of (fst (flush_outbound as ?q)) @ queue_stream (fst (snd (flush_outbound as ?q)))
      = queue_stream ?q \<and> queue_ok (fst (snd (flush_outbound as ?q)))"
    using "3.IH" [OF refl refl] prog ok by simp
  have "mark (fst ?seg) (snd ?seg) @ queue_stream ?q = queue_stream (x # q)"
  proof -
    have "unsent (of_bytes ?x) (of_fds ?x) (of_sent ?x) = unsent (of_bytes x) (of_fds x) (of_sent x + n)"
      using n unsent_fds [of "of_sent x + n"] by simp
    moreover have "length (of_bytes x) \<le> of_sent x + n \<Longrightarrow>
        unsent (of_bytes x) (of_fds x) (of_sent x + n) = []"
      using unsent_done ne by blast
    ultimately show ?thesis
      using unsent_step [OF n, of "of_sent x" "of_bytes x" "of_fds x"]
      by (auto simp: queue_stream_def simp del: append_assoc simp flip: append_assoc)
  qed
  with IH show ?case unfolding f by (simp add: stream_of_def)
next
  case (4 e as x q)
  then show ?case by (simp add: stream_of_def)
qed

lemma queue_stream_append: "queue_stream (q @ q') = queue_stream q @ queue_stream q'"
  by (simp add: queue_stream_def)

text \<open>The outbound queue is faithful. However the socket cuts the writes, what a flush puts on
  the stream followed by what it leaves queued is exactly what was queued before: every frame
  whole, in order, with its descriptors on its first byte and nowhere else.\<close>
theorem flush_keeps_the_stream:
  assumes "makes_progress as" and "queue_ok q" and "push_frame enc x q = Some q'"
  shows "stream_of (fst (flush_outbound as q')) @ queue_stream (fst (snd (flush_outbound as q')))
      = queue_stream q @ frame_stream enc x"
proof -
  obtain bs where bs: "to_wire enc (fst x) = Some bs"
    and q': "q' = q @ [\<lparr> of_bytes = bs, of_fds = snd x, of_sent = 0 \<rparr>]"
    using assms(3) by (auto simp: push_frame_def)
  have "to_le 4 n \<noteq> []" for n by (simp flip: length_0_conv)
  then have "bs \<noteq> []"
    using bs by (auto simp: to_wire_def Let_def split: if_splits)
  then have "queue_ok q'" using assms(2) by (simp add: queue_ok_def q')
  moreover have "queue_stream q' = queue_stream q @ frame_stream enc x"
    by (simp add: q' queue_stream_append) (simp add: queue_stream_def unsent_def frame_stream_def bs)
  ultimately show ?thesis using flush_stream [OF assms(1)] by simp
qed

theorem flush_keeps_the_stream_witness:
  "stream_of (fst (flush_outbound [Sent 2] [\<lparr> of_bytes = [1, 0, 0, 0, 7], of_fds = [9], of_sent = 0 \<rparr>]))
     @ queue_stream (fst (snd (flush_outbound [Sent 2]
         [\<lparr> of_bytes = [1, 0, 0, 0, 7], of_fds = [9], of_sent = 0 \<rparr>])))
   = [(1, [9]), (0, []), (0, []), (0, []), (7, [])]"
proof -
  let ?f = "\<lparr> fr_v = [], fr_req_id = None, fr_nfds = 1, fr_body = OkBody None \<rparr>"
  have le: "to_le 4 1 = [1, 0, 0, 0]" by code_simp
  have w: "to_wire (\<lambda>_. [7]) ?f = Some [1, 0, 0, 0, 7]"
    using to_wire_sendable [of "\<lambda>_. [7]" ?f] le by simp
  then have p: "push_frame (\<lambda>_. [7]) (?f, [9]) []
      = Some [\<lparr> of_bytes = [1, 0, 0, 0, 7], of_fds = [9], of_sent = 0 \<rparr>]"
    by (simp add: push_frame_def)
  have s: "frame_stream (\<lambda>_. [7]) (?f, [9]) = [(1, [9]), (0, []), (0, []), (0, []), (7, [])]"
    by (simp add: frame_stream_def w plain_def)
  show ?thesis
    using flush_keeps_the_stream [OF _ _ p, of "[Sent 2]"] s
    by (simp add: makes_progress_def queue_ok_def queue_stream_def)
qed

section \<open>Timers\<close>

text \<open>The watchdog. Passes in which a ping is due and no \<open>pong\<close> arrives count up; the loop
  gives the brain up as wedged exactly when the third such ping falls due, and a \<open>pong\<close> in between
  starts the count again.\<close>
theorem third_unanswered_ping_wedges:
  assumes "sv_hello_done st" and "sv_next_ping st = Some np" and "np \<le> t"
    and "unat (hd_pings_unanswered (sv_holder st)) < 3"
  shows "(\<exists>h. ping_stage t st = Some (h, hd_pings_unanswered (sv_holder st) = 2) \<and>
      unat (hd_pings_unanswered h) = unat (hd_pings_unanswered (sv_holder st)) + 1) \<and>
    hd_pings_unanswered (fst (fst (dispatch k (request V_PONG j) [] (sv_holder st, d)))) = 0"
proof -
  let ?n = "hd_pings_unanswered (sv_holder st)"
  have u: "unat (?n + 1) = unat ?n + 1" using assms(4) by (simp add: unat_plus_if')
  have "(3 \<le> ?n + 1) = (unat ?n = 2)"
    using assms(4) u by (auto simp: word_le_nat_alt)
  also have "\<dots> = (?n = 2)" by (simp add: word_unat_eq_iff)
  finally show ?thesis
    using assms(1-3) u
    by (simp add: ping_stage_def Let_def WEDGE_MISSED_PONGS_def dispatch_def takes_fds_def)
qed

definition sample_state :: "holder \<Rightarrow> serve_state" where
  "sample_state h =
     \<lparr> sv_holder = h, sv_channel = 3, sv_reader = frame_reader_new, sv_outbound = [],
       sv_hello_done = True, sv_handshake_deadline = 30000, sv_next_ping = Some 100 \<rparr>"

theorem third_unanswered_ping_wedges_witness:
  "\<exists>h. ping_stage 200 (sample_state ((holder_new sample_cfg)\<lparr> hd_pings_unanswered := 2 \<rparr>))
     = Some (h, True)"
  using third_unanswered_ping_wedges [THEN conjunct1,
      of "sample_state ((holder_new sample_cfg)\<lparr> hd_pings_unanswered := 2 \<rparr>)" 100 200]
  by (auto simp: sample_state_def)

text \<open>An armed deploy lapses. In a pass at least 30 seconds after it was armed, with the brain
  still there, the deploy is gone, every exit latched under it is consumed, and nothing else of
  the deploy state changes; before that the pass leaves it armed.\<close>
theorem armed_deploy_lapses:
  assumes "hd_armed_deploy h = Some (a, at)"
  shows "(if at + 30000 \<le> t
      then hd_armed_deploy (fst (auto_disarm k t h)) = None \<and> none_stranded (fst (auto_disarm k t h))
      else auto_disarm k t h = (h, [])) \<and>
    hd_pending_upgrade (fst (auto_disarm k t h)) = hd_pending_upgrade h"
  using assms by (simp add: auto_disarm_def ARM_AUTO_DISARM_def sweep_none_stranded)
    (simp add: sweep_into_sessions)

theorem armed_deploy_lapses_witness:
  "hd_armed_deploy (fst (auto_disarm sample_kernel 40000
     ((sample_holder sample_entry)\<lparr> hd_armed_deploy := Some (UsePrevious, 5000) \<rparr>))) = None"
  using armed_deploy_lapses
    [of "(sample_holder sample_entry)\<lparr> hd_armed_deploy := Some (UsePrevious, 5000) \<rparr>"
      UsePrevious 5000 40000 sample_kernel]
  by simp

section \<open>When an upgrade surfaces\<close>

lemma verb_never_upgrades:
  "snd (dispatch_verb k req f fds h) \<noteq> Some (HolderUpgrade pin ch)"
  by (auto simp: dispatch_verb_def carry_on_def abort_def restart_brain_def split_rollback_def
      reexec_holder_def handle_store_listener_def split: option.splits verb.splits list.splits)

text \<open>An accepted holder upgrade ends the generation only at a safe point: no frame's handler
  ends it, and the end of a pass does so exactly when the outbound queue has been sent in full and
  the reader holds neither bytes nor descriptors, so that nothing of the channel's traffic is lost
  with the old process image.\<close>
theorem upgrade_surfaces_only_when_quiet:
  "(snd (finish_pass rd st) = Return (HolderUpgrade pin ch) h' \<longleftrightarrow>
     (\<exists>segs. flush_outbound (pl_send rd) (sv_outbound st) = (segs, [], None)) \<and>
     rd_buf (sv_reader st) = [] \<and> rd_pending_fds (sv_reader st) = [] \<and>
     hd_pending_upgrade (sv_holder st) = Some pin \<and> ch = sv_channel st \<and>
     h' = (sv_holder st)\<lparr> hd_pending_upgrade := None \<rparr>) \<and>
   snd (snd (dispatch k f fds hb)) \<noteq> Some (HolderUpgrade pin ch)"
proof
  obtain segs q e where "flush_outbound (pl_send rd) (sv_outbound st) = (segs, q, e)"
    by (metis prod.collapse)
  then show "snd (finish_pass rd st) = Return (HolderUpgrade pin ch) h' \<longleftrightarrow>
     (\<exists>segs. flush_outbound (pl_send rd) (sv_outbound st) = (segs, [], None)) \<and>
     rd_buf (sv_reader st) = [] \<and> rd_pending_fds (sv_reader st) = [] \<and>
     hd_pending_upgrade (sv_holder st) = Some pin \<and> ch = sv_channel st \<and>
     h' = (sv_holder st)\<lparr> hd_pending_upgrade := None \<rparr>"
    by (auto simp: finish_pass_def Let_def is_idle_def split: option.split flush_error.split)
  have "snd (fst (first_frame req f h)) \<noteq> Some (HolderUpgrade pin ch)"
    "snd (rehello_reply f h) \<noteq> Some (HolderUpgrade pin ch)" for req h
    by (auto simp: first_frame_def rehello_reply_def carry_on_def abort_def split: option.splits)
  then show "snd (snd (dispatch k f fds hb)) \<noteq> Some (HolderUpgrade pin ch)"
    using verb_never_upgrades
    by (cases hb) (auto simp: dispatch_def Let_def split_beta split: option.splits)
qed

section \<open>A gap: frames the holder cannot send\<close>

lemma push_frames_panic:
  "x \<in> set xs \<Longrightarrow> to_wire enc (fst x) = None \<Longrightarrow> push_frames enc xs q = None"
  by (induction xs arbitrary: q) (auto simp: push_frame_def split: option.split)

lemma to_wire_oversize:
  assumes "1024 * 1024 < length (enc f)" and "length (enc f) < 2 ^ 32"
  shows "to_wire enc f = None"
proof -
  have "unat (word_of_nat (length (enc f)) :: u32) = length (enc f)"
    using assms(2) by (simp add: unat_of_nat)
  then show ?thesis
    using assms(1) by (simp add: to_wire_def Let_def MAX_FRAME_BYTES_def word_le_nat_alt)
qed

text \<open>Nothing bounds what a record may hold by what one frame can carry. If a stored record
  (its checkpoint, say, accepted in a frame just under the cap) encodes to an adopt record over
  the cap, the next \<open>adopt\<close> does not fail with an error: it panics the holder, and with it go all
  the sessions it holds.\<close>
theorem oversize_record_panics_adopt:
  assumes "(u, e) \<in> set (hd_sessions h)" and "hd_rehello_pending h = None"
    and "k_dup (ks i) (se_pidfd e) = Some p" and "master_raw_fd (se_master e) = Some m"
    and "k_dup (ks i) m = Some mdup"
    and "frame = frame_new V_ADOPT_RECORD (Some 9) 2 (AdoptRecordBody (adopt_record_body_of u e))"
    and "1024 * 1024 < length (enc frame)" and "length (enc frame) < 2 ^ 32"
  shows "snd (on_frame enc ks (request V_ADOPT JNull) [] ((h, True), [], [], i)) = Some None"
proof -
  have "adopt_entry (ks i) 9 u e = Push frame [mdup, p]"
    using assms(3-6) by (simp add: adopt_entry_def)
  then have "Push frame [mdup, p] \<in> set (snd (handle_adopt (ks i) 9 h))"
    using assms(1) by (force simp: handle_adopt_def)
  then have "(frame, [mdup, p]) \<in> set (pushed (snd (handle_adopt (ks i) 9 h)))"
    by (force simp: pushed_def)
  then have "push_all enc (snd (handle_adopt (ks i) 9 h)) [] = None"
    using push_frames_panic to_wire_oversize [of enc frame] assms(7,8)
    by (fastforce simp: push_all_def)
  then show ?thesis
    by (simp add: on_frame_def dispatch_def takes_fds_def dispatch_verb_def carry_on_def split_beta)
qed

theorem oversize_record_panics_adopt_witness:
  "snd (on_frame (\<lambda>_. replicate 1048577 0) (\<lambda>_. sample_kernel) (request V_ADOPT JNull) []
     ((sample_holder sample_entry, True), [], [], 0)) = Some None"
  by (rule oversize_record_panics_adopt [of "''s1''" sample_entry _ _ _ 111 10 110, OF _ _ _ _ _ refl])
    (simp_all add: sample_holder_def holder_new_def sample_entry_def sample_kernel_def)

end
