(* ===== verification/SupervisorLaws.thy ===== *)
theory SupervisorLaws
  imports SupervisorLoop ServeLaws
begin

text \<open>
  What holds of the supervisor: at most one brain lives at a time and every brain is reaped, the
  state stays well formed through generations, no deploy outlives the brain that armed it, and
  the stop-everything sequence leaves nothing running.
\<close>

section \<open>One brain at a time\<close>

text \<open>
  The brain that is alive after a list of actions. \<open>None\<close> is a violation: a second brain beside
  the first, or a signal or a wait for one that is not there.
\<close>

fun brains :: "brain_handle option \<Rightarrow> sup_io list \<Rightarrow> brain_handle option option" where
  "brains alive [] = Some alive"
| "brains alive (BrainSpawned b # ios) = (if alive = None then brains (Some b) ios else None)"
| "brains alive (BrainSignal b _ # ios) = (if alive = Some b then brains alive ios else None)"
| "brains alive (BrainReaped b # ios) = (if alive = Some b then brains None ios else None)"
| "brains alive (_ # ios) = brains alive ios"

lemma brains_append:
  "brains alive (ios @ ios') = Option.bind (brains alive ios) (\<lambda>a. brains a ios')"
  by (induction alive ios rule: brains.induct) auto

definition quiet :: "sup_io list \<Rightarrow> bool" where
  "quiet ios \<longleftrightarrow> (\<forall>a. brains a ios = Some a)"

lemma quiet_intros [simp]:
  "quiet []" "quiet (map HolderIo xs)" "quiet (map SetCloexec ds)" "quiet (map ClearCloexec ds)"
  "quiet (HolderIo x # ios) = quiet ios" "quiet (RemoveFile p # ios) = quiet ios"
  "quiet (Execveat d av ev # ios) = quiet ios"
proof -
  have "brains a (map HolderIo xs) = Some a" "brains a (map SetCloexec ds) = Some a"
    "brains a (map ClearCloexec ds) = Some a" for a
    by (induction xs) (induction ds; simp)+
  then show "quiet (map HolderIo xs)" "quiet (map SetCloexec ds)" "quiet (map ClearCloexec ds)"
    by (simp_all add: quiet_def)
qed (simp_all add: quiet_def)

lemma quiet_append: "quiet ios \<Longrightarrow> quiet (ios @ ios') = quiet ios'"
  by (simp add: quiet_def brains_append)

lemma brains_quiet: "quiet ios \<Longrightarrow> brains a (ios @ ios') = brains a ios'"
  by (simp add: quiet_def brains_append)

lemma exec_paths_quiet:
  "quiet (fst (exec_across xe restore target argv key memfd bs inherit))"
  "quiet (fst (holder_upgrade_exec cd xe h pin channel b pins br path))"
  "quiet (fst (split_rollback_exec cd xe h pin gen schema))"
proof -
  show e: "quiet (fst (exec_across xe restore target argv key memfd bs inherit))"
    for xe restore target argv key memfd bs inherit
    by (simp add: exec_across_def Let_def quiet_append)
  show "quiet (fst (holder_upgrade_exec cd xe h pin channel b pins br path))"
    by (simp add: holder_upgrade_exec_def Let_def e split: sum.split option.split)
  show "quiet (fst (split_rollback_exec cd xe h pin gen schema))"
    by (simp add: split_rollback_exec_def e split: sum.split option.split)
qed

lemma await_brain_reaps:
  "await_brain b deadline ts = Some ios \<Longrightarrow> brains (Some b) ios = Some None"
  by (induction b deadline ts rule: await_brain.induct)
    (auto simp: brain_reap_def sigkill_and_reap_def split: if_splits)

text \<open>A turn that starts with \<open>alive\<close> accounts for its brains.\<close>

definition accounted :: "brain_handle option \<Rightarrow> turn_result \<Rightarrow> bool" where
  "accounted alive r \<longleftrightarrow>
     (\<exists>a. brains alive (fst r) = Some a \<and>
        (case snd r of
           SGo s \<Rightarrow> a = map_option fst (su_live s)
         | SExit _ _ \<Rightarrow> a = None
         | _ \<Rightarrow> True))"

lemma accounted_with_io:
  "brains alive ios = Some a \<Longrightarrow> accounted a r \<Longrightarrow> accounted alive (with_io ios r)"
  by (simp add: accounted_def with_io_def brains_append)

lemma accounted_quiet: "quiet ios \<Longrightarrow> accounted alive r \<Longrightarrow> accounted alive (with_io ios r)"
  by (rule accounted_with_io) (simp add: quiet_def)

lemma shutdown_turn_accounted: "accounted brain (shutdown_turn t brain h)"
proof (cases "stop_brain brain (tn_stop_start t) (tn_stop t)")
  case None
  then show ?thesis by (simp add: shutdown_turn_def shutdown_sequence_def accounted_def)
next
  case (Some ios)
  have "brains brain ios = Some None"
    using Some await_brain_reaps by (cases brain) (auto simp: stop_brain_def)
  moreover obtain h' killed kills where "shutdown_kill_all h = (h', killed, kills)"
    by (metis prod.collapse)
  ultimately show ?thesis
    using Some
    by (auto simp: shutdown_turn_def shutdown_sequence_def accounted_def brains_append
        brains_quiet [unfolded quiet_def] quiet_def [THEN iffD1, rule_format, OF quiet_intros(2)]
        split: option.split)
qed

lemma apply_failure_accounted:
  "su_live s = None \<Longrightarrow> accounted None (apply_failure t rf helloed s)"
  using shutdown_turn_accounted [of None t]
  by (auto simp: apply_failure_def Let_def accounted_def split_beta
      split: breaker_decision.split option.split bool.split)

lemma run_deploy_accounted:
  assumes "su_live s = None"
  shows "accounted None (run_deploy cd t d s)"
proof (cases d)
  case (ArmedSplitRollback pin gen schema)
  obtain ios r where e: "split_rollback_exec cd (tn_exec t) (su_holder s) pin gen schema = (ios, r)"
    by (metis prod.collapse)
  then have "quiet ios"
    using exec_paths_quiet(3) [of cd "tn_exec t" "su_holder s" pin gen schema] by simp
  then show ?thesis
    using assms ArmedSplitRollback e
    by (auto simp: run_deploy_def accounted_def split_beta brains_quiet quiet_def
        quiet_intros(2) [unfolded quiet_def] brains_append split: sum.split)
qed (use assms in \<open>auto simp: run_deploy_def accounted_def\<close>)

lemma after_generation_accounted:
  assumes "su_live s = None"
  shows "accounted (Some b) (after_generation cd t path b out s)"
proof -
  have f: "accounted None (apply_failure t r hl (s\<lparr> su_holder := h \<rparr>))" for r hl h
    using assms by (intro apply_failure_accounted) simp
  have f': "accounted None (apply_failure t r hl s)" for r hl
    using assms by (rule apply_failure_accounted)
  have d: "accounted None (run_deploy cd t x (s\<lparr> su_holder := h \<rparr>))" for x h
    using assms by (intro run_deploy_accounted) simp
  have k: "brains (Some b) (sigkill_and_reap b) = Some None" "brains (Some b) (brain_reap b) = Some None"
    by (simp_all add: sigkill_and_reap_def brain_reap_def)
  show ?thesis
  proof (cases out)
    case (HolderUpgrade pin channel)
    obtain ios r where e: "holder_upgrade_exec cd (tn_exec t) (su_holder s) pin channel b
        (su_pins s) (su_breaker s) path = (ios, r)" by (metis prod.collapse)
    then have "quiet ios"
      using exec_paths_quiet(2) [of cd "tn_exec t" "su_holder s" pin channel b "su_pins s"
          "su_breaker s" path] by simp
    then show ?thesis
      using HolderUpgrade e by (auto simp: after_generation_def accounted_def quiet_def split: sum.split)
  qed (auto simp: after_generation_def Let_def split_beta
      intro!: accounted_with_io [OF k(1)] accounted_with_io [OF k(2)] f f' d shutdown_turn_accounted
      split: option.split)
qed

lemma serve_generation_accounted:
  assumes "su_live s = None"
  shows "accounted (Some (fst lb)) (serve_generation cd t path lb s)"
proof -
  obtain b channel resumed where lb: "lb = (b, channel, resumed)" by (cases lb)
  obtain ios segs r where e: "serve_inner (cd_enc_frame cd) (cd_dec_frame cd) resumed
      (tn_serve_deadline t) (tn_serve_ping t) (tn_rounds t) channel (su_holder s) = (ios, segs, r)"
    by (metis prod.collapse)
  have "accounted (Some b) (case r of
      Go st \<Rightarrow> (map HolderIo ios, SBlocked)
    | Panic \<Rightarrow> (map HolderIo ios, SPanic)
    | Return out h \<Rightarrow> with_io (map HolderIo ios) (after_generation cd t path b out (s\<lparr> su_holder := h \<rparr>)))"
    using after_generation_accounted [of "s\<lparr> su_holder := h \<rparr>" for h] assms
    by (cases r) (auto intro!: accounted_quiet simp: accounted_def [of _ "(map HolderIo ios, _)"]
        quiet_intros(2) [unfolded quiet_def])
  then show ?thesis
    unfolding serve_generation_def lb prod.case e
    by (intro accounted_quiet) (cases r; simp)+
qed

lemma supervise_turn_accounted:
  "accounted (map_option fst (su_live s)) (supervise_turn cd path retry t s)"
proof (cases "ps_current (su_pins s) = None \<and> su_live s = None")
  case True
  then show ?thesis
    using shutdown_turn_accounted [of None t]
    by (auto simp: supervise_turn_def held_down_turn_def Let_def accounted_def
        split: option.split held_down_event.split)
next
  case False
  let ?s = "s\<lparr> su_holder :=
      set_supervisor_status ''running'' (ps_previous (su_pins s) \<noteq> None) (su_holder s) \<rparr>"
  show ?thesis
  proof (cases "su_live s")
    case (Some lb)
    then show ?thesis
      using False serve_generation_accounted [of "?s\<lparr> su_live := None \<rparr>" lb cd t path]
      by (simp add: supervise_turn_def Let_def)
  next
    case None
    show ?thesis
    proof (cases "tn_spawn t")
      case (Inl e)
      then show ?thesis
        using False None apply_failure_accounted [of ?s t 0 False]
        by (auto simp: supervise_turn_def Let_def)
    next
      case (Inr x)
      obtain b channel where x: "x = (b, channel)" by (cases x)
      have "accounted None (with_io [BrainSpawned b]
          (serve_generation cd t path (b, channel, False) ?s))"
        using None serve_generation_accounted [of ?s "(b, channel, False)" cd t path]
        by (intro accounted_with_io [where a = "Some b"]) simp_all
      then show ?thesis
        using False None Inr x by (auto simp: supervise_turn_def Let_def)
    qed
  qed
qed


end
