(* ===== verification/SupervisorSafety.thy ===== *)
theory SupervisorSafety
  imports SupervisorLaws
begin

text \<open>
  What the supervisor keeps across generations: the well-formedness of the holder and of the
  breaker's count, and that an armed deploy dies with the brain that armed it.
\<close>

declare sample_kernel_def [simp del]

section \<open>The supervisor's invariant\<close>

lemma note_failure_strikes:
  assumes "strikes b < 3"
  shows "strikes (fst (note_failure b r h p)) < 3"
proof -
  define b1 where "b1 = (if h \<and> br_stable_horizon b \<le> r
      then b\<lparr> br_consecutive_failures := 0, br_backoff := br_backoff_floor b \<rparr> else b)"
  have s: "strikes b1 < 3" using assms by (auto simp: b1_def strikes_def)
  show ?thesis
    using trip_iff [OF s] strikes_Suc [OF s] s
    unfolding note_failure_def b1_def [symmetric] by (auto simp: Let_def strikes_def)
qed

lemma strikes_reset [simp]: "strikes (note_deploy b) = 0" "strikes (breaker_reset b) = 0"
  by (simp_all add: strikes_def note_deploy_def breaker_reset_def)

definition su_ok :: "supervisor \<Rightarrow> bool" where
  "su_ok s \<longleftrightarrow> holder_ok (su_holder s) \<and> strikes (su_breaker s) < 3"

lemma status_ok [simp]: "holder_ok (set_supervisor_status label prev h) = holder_ok h"
  by (simp add: set_supervisor_status_def holder_ok_def records_ok_def incarnations_below_def
      distinct_incarnations_def listeners_ok_def deploys_ok_def record_of_def)

lemma take_deploy_ok: "holder_ok h \<Longrightarrow> holder_ok (fst (take_armed_deploy h))"
  by (simp add: take_armed_deploy_def holder_ok_def records_ok_def incarnations_below_def
      distinct_incarnations_def listeners_ok_def deploys_ok_def record_of_def)

lemma sweep_ok:
  assumes "holder_ok h"
  shows "holder_ok (fst (sweep_latched_exits k h))"
proof -
  let ?h = "fst (sweep_latched_exits_into k h)"
  have eq: "fst (sweep_latched_exits k h) = ?h" by (simp add: sweep_latched_exits_def split_beta)
  have r: "record_of ?h u = map_option (\<lambda>e. fst (sweep_entry k u e)) (record_of h u)" for u
    by (rule record_of_sweep)
  have n: "hd_next_incarnation ?h = hd_next_incarnation h" by (simp add: sweep_into_sessions)
  have s: "bt_sorted (hd_sessions ?h)"
    using assms by (simp add: sweep_into_sessions sorted_over_sessions holder_ok_def)
  have "records_ok ?h"
    using assms records_ok_moves [OF sweep_moves [of h k]] eq by (simp add: holder_ok_def)
  moreover have "incarnations_below ?h"
    using assms by (auto simp: holder_ok_def incarnations_below_iff r n)
  moreover have "distinct_incarnations ?h"
    using assms by (auto simp: holder_ok_def distinct_incarnations_def r)
  moreover have "side_ok ?h"
    using assms by (simp add: holder_ok_iff)
  ultimately show ?thesis using s eq by (simp add: holder_ok_iff)
qed

definition go_ok :: "sup_step \<Rightarrow> bool" where
  "go_ok r \<longleftrightarrow> (case r of SGo s \<Rightarrow> su_ok s | _ \<Rightarrow> True)"

lemma go_ok_with_io [simp]: "go_ok (snd (with_io ios r)) = go_ok (snd r)"
  by (simp add: with_io_def)

lemma go_ok_shutdown [simp]: "go_ok (snd (shutdown_turn t brain h))"
  by (simp add: shutdown_turn_def go_ok_def split: option.split prod.split)

lemma apply_failure_ok:
  assumes "su_ok s"
  shows "go_ok (snd (apply_failure t rf helloed s))"
proof -
  have "strikes (fst (note_failure (su_breaker s) rf helloed p)) < 3" for p
    using assms note_failure_strikes by (simp add: su_ok_def)
  then show ?thesis
    using assms go_ok_shutdown
    by (auto simp: apply_failure_def Let_def split_beta su_ok_def go_ok_def [of "SGo _"]
        go_ok_def [of SBlocked] split: breaker_decision.split option.split bool.split)
qed

lemma run_deploy_ok: "su_ok s \<Longrightarrow> go_ok (snd (run_deploy cd t d s))"
  using sweep_ok [of "su_holder s" "tn_kernel t"]
  by (auto simp: run_deploy_def go_ok_def su_ok_def split_beta split: armed_deploy.split sum.split)

lemma after_generation_ok:
  assumes "su_ok s"
  shows "go_ok (snd (after_generation cd t path b out s))"
proof -
  have t: "su_ok (s\<lparr> su_holder := fst (take_armed_deploy (su_holder s)) \<rparr>)"
    using assms take_deploy_ok by (simp add: su_ok_def)
  have up: "go_ok (snd (case holder_upgrade_exec cd xe h pin ch b ps br path of
      (ios, Inr im) \<Rightarrow> (ios, SReplaced im)
    | (ios, Inl e) \<Rightarrow> (ios, SGo (s\<lparr> su_live := lv \<rparr>))))" for xe h pin ch b ps br path lv
    using assms by (simp add: go_ok_def su_ok_def split: prod.split sum.split)
  have eof: "go_ok (snd (case take_armed_deploy (su_holder s) of
      (h', Some d) \<Rightarrow> run_deploy cd t d (s\<lparr> su_holder := h' \<rparr>)
    | (h', None) \<Rightarrow> apply_failure t r hl (s\<lparr> su_holder := h' \<rparr>)))" for r hl
    using run_deploy_ok [OF t] apply_failure_ok [OF t]
    by (cases "take_armed_deploy (su_holder s)") (simp split: option.split)
  show ?thesis
    using up eof apply_failure_ok [OF t] apply_failure_ok [OF assms]
    by (cases out) (simp_all add: after_generation_def Let_def)
qed

text \<open>The incarnation counter has room for what a turn receives.\<close>

definition turn_room :: "supervisor \<Rightarrow> turn \<Rightarrow> bool" where
  "turn_room s t \<longleftrightarrow>
     unat (hd_next_incarnation (su_holder s)) + total_received (tn_rounds t) < 2 ^ 64 - 1"

lemma serve_generation_ok:
  assumes "su_ok s" and "turn_room s t"
  shows "go_ok (snd (serve_generation cd t path lb s))"
proof -
  obtain b channel resumed where lb: "lb = (b, channel, resumed)" by (cases lb)
  obtain ios segs r where e: "serve_inner (cd_enc_frame cd) (cd_dec_frame cd) resumed
      (tn_serve_deadline t) (tn_serve_ping t) (tn_rounds t) channel (su_holder s) = (ios, segs, r)"
    by (metis prod.collapse)
  show ?thesis
  proof (cases r)
    case (Return out h)
    then have "holder_ok h"
      using serve_inner_refines [OF _ _ e [unfolded Return]] assms
      by (simp add: su_ok_def turn_room_def)
    then have "su_ok (s\<lparr> su_holder := h \<rparr>)" using assms(1) by (simp add: su_ok_def)
    from after_generation_ok [OF this] show ?thesis
      using e Return by (simp add: serve_generation_def lb)
  qed (use e in \<open>simp_all add: serve_generation_def lb go_ok_def with_io_def\<close>)
qed

lemma supervise_turn_ok:
  assumes "su_ok s" and "turn_room s t"
  shows "go_ok (snd (supervise_turn cd path retry t s))"
proof -
  have st: "su_ok (s\<lparr> su_holder := set_supervisor_status l p (su_holder s) \<rparr>)" for l p
    using assms(1) by (simp add: su_ok_def)
  have "go_ok (snd (held_down_turn t retry s))"
    using st [of "''held_down''"]
    by (auto simp: held_down_turn_def Let_def go_ok_def [of "SGo _"] go_ok_def [of SBlocked]
        su_ok_def split: option.split held_down_event.split)
  moreover have "go_ok (snd (serve_generation cd t path lb
      (s\<lparr> su_holder := set_supervisor_status l p (su_holder s), su_live := lv \<rparr>)))" for lb l p lv
    using assms by (intro serve_generation_ok)
      (simp_all add: su_ok_def turn_room_def set_supervisor_status_def [of _ _ "su_holder s"]
        del: status_ok add: status_ok [unfolded set_supervisor_status_def])
  moreover have "go_ok (snd (serve_generation cd t path lb
      (s\<lparr> su_holder := set_supervisor_status l p (su_holder s) \<rparr>)))" for lb l p
    using assms by (intro serve_generation_ok)
      (simp_all add: su_ok_def turn_room_def set_supervisor_status_def [of _ _ "su_holder s"]
        del: status_ok add: status_ok [unfolded set_supervisor_status_def])
  ultimately show ?thesis
    using apply_failure_ok [OF st]
    by (auto simp: supervise_turn_def Let_def split: option.split sum.split prod.split)
qed

definition turn_state :: "codec \<Rightarrow> string \<Rightarrow> millis \<Rightarrow> supervisor \<Rightarrow> turn \<Rightarrow> supervisor" where
  "turn_state cd path retry s t =
     (case snd (supervise_turn cd path retry t s) of SGo s' \<Rightarrow> s' | _ \<Rightarrow> s)"

interpretation sup: invariant_system "turn_state cd path retry" turn_room su_ok for cd path retry
  by unfold_locales
    (use supervise_turn_ok in \<open>force simp: turn_state_def go_ok_def split: sup_step.splits\<close>)

lemma supervise_run:
  "snd (supervise cd path retry ts s) = SGo s' \<Longrightarrow> sup.run cd path retry s ts = s'"
proof (induction ts arbitrary: s)
  case (Cons t ts)
  obtain ios r where e: "supervise_turn cd path retry t s = (ios, r)" by (metis prod.collapse)
  show ?case
  proof (cases r)
    case (SGo s1)
    then have "turn_state cd path retry s t = s1" using e by (simp add: turn_state_def)
    then show ?thesis using Cons e SGo by (simp add: with_io_def)
  qed (use Cons.prems e in simp_all)
qed simp

text \<open>C32. The supervisor keeps its holder and its breaker well formed. From a well-formed state,
  whatever brains it runs, however they end and whatever they had armed, every state between two
  turns has a well-formed holder and a breaker with fewer than three strikes. The guard of the
  runs is that the 64-bit incarnation counter has room for the bytes each turn receives.\<close>
theorem supervisor_stays_well_formed:
  assumes "su_ok s" and "sup.may_run cd path retry s ts"
    and "snd (supervise cd path retry ts s) = SGo s'"
  shows "holder_ok (su_holder s') \<and> strikes (su_breaker s') < 3"
  using sup.run_inv [OF assms(1,2)] supervise_run [OF assms(3)] by (simp add: su_ok_def)

text \<open>A brain that says nothing and closes its channel.\<close>

lemma mute_generation:
  assumes "hd_sessions h = []" and "0 < hc_handshake_timeout (hd_cfg h)"
  shows "serve_inner enc dec False 0 0 [eof_round k] ch h
    = ([], [], Return BrainEof (fresh_generation (serve_reset h)))"
proof (cases "hd_armed_deploy h")
  case None
  then show ?thesis using assms
    by (cases "hc_ping_interval (hd_cfg h)")
      (simp_all add: serve_inner_def serve_start_def push_all_def serve_pass_def eof_round_def
        idle_round_def awaiting_hello_def auto_disarm_def ping_stage_def asks_shutdown_def
        exits_and_channel_def child_exits_def over_sessions_def channel_stage_def feed_def
        after_io_def polled_uids_def fresh_generation_def serve_reset_def)
next
  case (Some x)
  then show ?thesis using assms
    by (cases "hc_ping_interval (hd_cfg h)"; cases x)
      (simp_all add: serve_inner_def serve_start_def push_all_def serve_pass_def eof_round_def
        idle_round_def awaiting_hello_def auto_disarm_def ping_stage_def asks_shutdown_def
        exits_and_channel_def child_exits_def over_sessions_def channel_stage_def feed_def
        after_io_def polled_uids_def fresh_generation_def serve_reset_def ARM_AUTO_DISARM_def)
qed

definition sample_codec :: codec where
  "sample_codec =
     \<lparr> cd_sha = toy_sha, cd_enc_frame = (\<lambda>_. [7]), cd_dec_frame = (\<lambda>_. None),
       cd_enc_manifest = (\<lambda>_. [7]), cd_dec_manifest = (\<lambda>_. None),
       cd_enc_upgrade = (\<lambda>_. [7]), cd_dec_upgrade = (\<lambda>_. None), cd_f64_of_int = (\<lambda>_. 0) \<rparr>"

definition sample_supervisor :: "holder \<Rightarrow> supervisor" where
  "sample_supervisor h =
     \<lparr> su_holder = h, su_breaker = breaker_default,
       su_pins = \<lparr> ps_current = Some 8, ps_previous = None \<rparr>, su_live = None \<rparr>"

text \<open>A turn in which the spawned brain is mute and dies at once, and the backoff is waited out.\<close>

definition crash_turn :: turn where
  "crash_turn =
     \<lparr> tn_pin_from_path = None, tn_spawn = Inr (\<lparr> bh_pid = 7, bh_pidfd = 5 \<rparr>, 6),
       tn_wait_deadline_base = 0, tn_wait = [\<lparr> wt_now = 2000, wt_ready = False, wt_signals = [] \<rparr>],
       tn_stop_start = 0, tn_stop = [], tn_ran_for = 10, tn_serve_deadline = 0, tn_serve_ping = 0,
       tn_rounds = [eof_round sample_kernel], tn_kernel = sample_kernel,
       tn_exec = \<lparr> xe_memfd = None, xe_dup = None, xe_returns = False \<rparr> \<rparr>"

lemma crash_room: "unat (hd_next_incarnation (su_holder s)) < 2 ^ 64 - 1 \<Longrightarrow> turn_room s crash_turn"
  by (simp add: turn_room_def crash_turn_def total_received_def received_def eof_round_def)

lemma crash_turn_result:
  assumes "hd_sessions h = []" and "0 < hc_handshake_timeout (hd_cfg h)"
    and "hd_armed_deploy h = None"
  shows "\<exists>ios h'. supervise_turn sample_codec path retry crash_turn (sample_supervisor h)
    = (ios, SGo ((sample_supervisor h)\<lparr> su_holder := h',
        su_breaker := fst (note_failure breaker_default 10 False False) \<rparr>)) \<and>
    hd_sessions h' = [] \<and> hd_armed_deploy h' = None"
proof -
  let ?h = "set_supervisor_status ''running'' False h"
  have g: "serve_inner enc dec False 0 0 [eof_round sample_kernel] ch ?h
      = ([], [], Return BrainEof (fresh_generation (serve_reset ?h)))" for enc dec ch
    using assms by (intro mute_generation) (simp_all add: set_supervisor_status_def)
  have "snd (note_failure breaker_default 10 False False) = Respawn 500"
    by (simp add: note_failure_def breaker_default_def TRIP_AFTER_def Let_def word_le_nat_alt)
  then obtain br where n: "note_failure breaker_default 10 False False = (br, Respawn 500)"
    by (metis prod.collapse)
  have a: "take_armed_deploy (fresh_generation (serve_reset ?h))
      = (fresh_generation (serve_reset ?h), None)"
    using assms(3) by (simp add: take_armed_deploy_def fresh_generation_def serve_reset_def
        set_supervisor_status_def)
  have l: "hd_helloed_this_generation (fresh_generation (serve_reset ?h)) = False"
    by (simp add: fresh_generation_def)
  have "supervise_turn sample_codec path retry crash_turn (sample_supervisor h)
    = ([BrainSpawned \<lparr> bh_pid = 7, bh_pidfd = 5 \<rparr>, HolderIo (OomScoreAdjZero 7),
        BrainReaped \<lparr> bh_pid = 7, bh_pidfd = 5 \<rparr>],
       SGo ((sample_supervisor h)\<lparr> su_holder := fresh_generation (serve_reset ?h),
         su_breaker := br \<rparr>))"
    by (simp add: supervise_turn_def sample_supervisor_def crash_turn_def serve_generation_def g
        with_io_def after_generation_def a l apply_failure_def n sleep_or_shutdown_def brain_reap_def)
  moreover have "hd_sessions (fresh_generation (serve_reset ?h)) = []"
    "hd_armed_deploy (fresh_generation (serve_reset ?h)) = None"
    using assms by (simp_all add: fresh_generation_def serve_reset_def set_supervisor_status_def)
  ultimately show ?thesis unfolding n fst_conv by blast
qed

theorem supervisor_stays_well_formed_witness:
  "\<exists>s'. snd (supervise sample_codec ''/b'' 60000 [crash_turn]
      (sample_supervisor (holder_new sample_cfg))) = SGo s' \<and>
    holder_ok (su_holder s') \<and> strikes (su_breaker s') < 3"
proof -
  let ?s = "sample_supervisor (holder_new sample_cfg)"
  obtain ios s' where t: "supervise_turn sample_codec ''/b'' 60000 crash_turn ?s = (ios, SGo s')"
    using crash_turn_result [of "holder_new sample_cfg" "''/b''" 60000]
    by (auto simp: holder_new_def sample_cfg_def)
  then have r: "snd (supervise sample_codec ''/b'' 60000 [crash_turn] ?s) = SGo s'"
    by (simp add: with_io_def)
  have "su_ok ?s"
    by (simp add: su_ok_def sample_supervisor_def holder_new_ok strikes_def breaker_default_def)
  moreover have "sup.may_run sample_codec ''/b'' 60000 ?s [crash_turn]"
    by (simp add: crash_room sample_supervisor_def holder_new_def)
  ultimately have "holder_ok (su_holder s') \<and> strikes (su_breaker s') < 3"
    by (rule supervisor_stays_well_formed [OF _ _ r])
  with r show ?thesis by blast
qed

section \<open>No deploy outlives its brain\<close>

lemma each_frame_inv:
  assumes "each_frame dec handle r s = (r', s', e)" and "Q s"
    and step: "\<And>f fds s s' stop. Q s \<Longrightarrow> handle f fds s = (s', stop) \<Longrightarrow>
      Q s' \<and> (\<forall>out. stop = Some out \<longrightarrow> R s' out)"
  shows "Q s' \<and> (\<forall>out. e = Stopped out \<longrightarrow> R s' out)"
  using assms(1,2)
proof (induction "length (rd_buf r)" arbitrary: r s rule: less_induct)
  case less
  show ?case
  proof (cases "next_frame dec r")
    case (Inl v)
    then show ?thesis using less.prems by (subst (asm) each_frame.simps) auto
  next
    case (Inr x)
    then obtain r1 hit where nf: "next_frame dec r = Inr (r1, hit)" by (cases x) auto
    show ?thesis
    proof (cases hit)
      case None
      then show ?thesis using less.prems nf by (subst (asm) each_frame.simps) auto
    next
      case (Some y)
      then obtain f fds where y: "hit = Some (f, fds)" by (cases y) auto
      obtain s1 stop where h: "handle f fds s = (s1, stop)" by (cases "handle f fds s")
      note st = step [OF less.prems(2) h]
      have short: "length (rd_buf r1) < length (rd_buf r)" using next_frame_shrinks nf y by blast
      show ?thesis
      proof (cases stop)
        case (Some out)
        then show ?thesis using less.prems nf y h st by (subst (asm) each_frame.simps) auto
      next
        case None
        then have "each_frame dec handle r1 s1 = (r', s', e)"
          using less.prems nf y h by (subst (asm) each_frame.simps) auto
        from less.hyps [OF short this] st show ?thesis by blast
      qed
    qed
  qed
qed

text \<open>
  What holds while a generation that did not resume is running: no re-negotiation is pending, a
  deploy is armed only after the hello, and never beside an upgrade.
\<close>

definition unheard :: "holder \<times> bool \<Rightarrow> bool" where
  "unheard hb \<longleftrightarrow> hd_rehello_pending (fst hb) = None \<and>
     (snd hb \<or> hd_armed_deploy (fst hb) = None) \<and> side_ok (fst hb)"

text \<open>The outcomes after which the supervisor does not take the armed deploy.\<close>

definition keeps_deploy_outcome :: "serve_outcome \<Rightarrow> bool" where
  "keeps_deploy_outcome out \<longleftrightarrow>
     (case out of HelloTimeout \<Rightarrow> True | HelloRefused \<Rightarrow> True | HolderUpgrade _ _ \<Rightarrow> True | _ \<Rightarrow> False)"

lemma rehello_record [simp]:
  "hd_rehello_pending (set_record u e h) = hd_rehello_pending h"
  "hd_rehello_pending (remove_record u h) = hd_rehello_pending h"
  by (simp_all add: set_record_def remove_record_def)

lemma rehello_verbs:
  "hd_rehello_pending (fst (fst (dispatch_verb k req f fds h))) = hd_rehello_pending h"
proof -
  have "hd_rehello_pending (fst (install_spawned k req spec sp h)) = hd_rehello_pending h" for spec sp
    by (auto simp: install_spawned_def Let_def split: option.splits)
  then have "hd_rehello_pending (fst (handle_spawn k req j h)) = hd_rehello_pending h" for j
    by (auto simp: handle_spawn_def split_beta split: option.splits sum.splits prod.splits)
  moreover have "hd_rehello_pending (fst (handle_arm_reap k req j h)) = hd_rehello_pending h"
    "hd_rehello_pending (fst (handle_adopt k req h)) = hd_rehello_pending h"
    "hd_rehello_pending (fst (handle_signal k req j h)) = hd_rehello_pending h"
    "hd_rehello_pending (fst (handle_abort_spawn req j h)) = hd_rehello_pending h"
    "hd_rehello_pending (fst (handle_update_checkpoint req j h)) = hd_rehello_pending h"
    "hd_rehello_pending (fst (rollback_record req j h)) = hd_rehello_pending h"
    "hd_rehello_pending (fst (handle_forget req j h)) = hd_rehello_pending h"
    "hd_rehello_pending (fst (handle_ack_exit req j h)) = hd_rehello_pending h" for j
    by (auto simp: handle_arm_reap_def handle_adopt_def handle_signal_def handle_abort_spawn_def
        handle_update_checkpoint_def rollback_record_def handle_forget_def handle_ack_exit_def
        Let_def split_beta split: option.splits signal_answer.splits)
  moreover have "hd_rehello_pending (fst (cancel_pending k req h)) = hd_rehello_pending h"
    by (simp add: cancel_pending_def Let_def split_beta sweep_into_sessions)
  moreover have "hd_rehello_pending (fst (fst (restart_brain k req fds h))) = hd_rehello_pending h"
    "hd_rehello_pending (fst (rollback_brain k req h)) = hd_rehello_pending h"
    "hd_rehello_pending (fst (fst (split_rollback k req j fds h))) = hd_rehello_pending h"
    "hd_rehello_pending (fst (fst (reexec_holder k req fds h))) = hd_rehello_pending h"
    "hd_rehello_pending (fst (fst (handle_store_listener req j fds h))) = hd_rehello_pending h" for j
    by (auto simp: restart_brain_def rollback_brain_def split_rollback_def reexec_holder_def
        handle_store_listener_def store_listener_custody_def carry_on_def abort_def Let_def
        split: option.splits list.splits)
  ultimately show ?thesis
    by (auto simp: dispatch_verb_def carry_on_def abort_def split: option.splits verb.splits)
qed

lemma verb_outcome:
  "snd (dispatch_verb k req f fds h) = Some out \<Longrightarrow> \<not> keeps_deploy_outcome out"
  by (auto simp: dispatch_verb_def carry_on_def abort_def restart_brain_def split_rollback_def
      reexec_holder_def handle_store_listener_def keeps_deploy_outcome_def
      split: option.splits verb.splits list.splits)

lemma unheard_dispatch:
  assumes "unheard hb" and "dispatch k f fds hb = (hb', ios, stop)"
  shows "unheard hb' \<and>
    (\<forall>out. stop = Some out \<longrightarrow> keeps_deploy_outcome out \<longrightarrow> hd_armed_deploy (fst hb') = None)"
proof -
  obtain h b where hb: "hb = (h, b)" by (cases hb)
  have side: "side_ok (fst hb')"
    using dispatch_side_ok [of hb k f fds] assms by (simp add: unheard_def)
  show ?thesis
  proof (cases b)
    case True
    have v: "hd_rehello_pending (fst (fst (dispatch_verb k req f fds h))) = None" for req
      using assms(1) rehello_verbs by (simp add: unheard_def hb)
    show ?thesis
      using assms v verb_outcome [of k _ f fds h] side True unfolding hb
      by (auto simp: dispatch_def unheard_def split_beta keeps_deploy_outcome_def
          split: if_splits option.splits)
  next
    case False
    have "hd_armed_deploy (fst (fst (fst (first_frame req f h)))) = hd_armed_deploy h \<and>
        hd_rehello_pending (fst (fst (fst (first_frame req f h)))) = hd_rehello_pending h" for req
      by (auto simp: first_frame_def carry_on_def abort_def split: option.splits)
    then show ?thesis
      using assms side False unfolding hb
      by (auto simp: dispatch_def unheard_def split_beta keeps_deploy_outcome_def
          split: if_splits option.splits)
  qed
qed

definition ends_unheard :: "serve_step \<Rightarrow> bool" where
  "ends_unheard r \<longleftrightarrow>
     (case r of
        Go st \<Rightarrow> unheard (sv_holder st, sv_hello_done st)
      | Return out h \<Rightarrow> keeps_deploy_outcome out \<longrightarrow> hd_armed_deploy h = None
      | Panic \<Rightarrow> True)"

lemma finish_pass_unheard:
  assumes "unheard (sv_holder st, sv_hello_done st)"
  shows "ends_unheard (snd (finish_pass rd st))"
proof -
  obtain segs q e where "flush_outbound (pl_send rd) (sv_outbound st) = (segs, q, e)"
    by (metis prod.collapse)
  then show ?thesis
    using assms
    by (auto simp: finish_pass_def Let_def ends_unheard_def keeps_deploy_outcome_def unheard_def
        side_ok_def deploys_ok_def split: option.split flush_error.split)
qed

lemma each_frame_unheard:
  assumes "each_frame dec (on_frame enc ks) r ((h, b), acc, q, i) = (r', ((h', b'), acc', q', i'), e)"
    and "unheard (h, b)"
  shows "unheard (h', b') \<and>
    (\<forall>out. e = Stopped (Some out) \<longrightarrow> keeps_deploy_outcome out \<longrightarrow> hd_armed_deploy h' = None)"
proof -
  have "unheard (fst ((h', b'), acc', q', i')) \<and> (\<forall>o'. e = Stopped o' \<longrightarrow>
      (\<forall>out. o' = Some out \<longrightarrow> keeps_deploy_outcome out \<longrightarrow>
        hd_armed_deploy (fst (fst ((h', b'), acc', q', i'))) = None))"
  proof (rule each_frame_inv [OF assms(1), where Q = "\<lambda>s. unheard (fst s)"])
    fix f fds s s' stop
    assume Q: "unheard (fst s)" and h: "on_frame enc ks f fds s = (s', stop)"
    obtain hb acc q i where s: "s = (hb, acc, q, i)" by (cases s)
    obtain hb' ios out where d: "dispatch (ks i) f fds hb = (hb', ios, out)"
      by (metis prod.collapse)
    from unheard_dispatch [OF _ d] Q h d s
    show "unheard (fst s') \<and> (\<forall>o'. stop = Some o' \<longrightarrow>
        (\<forall>out. o' = Some out \<longrightarrow> keeps_deploy_outcome out \<longrightarrow> hd_armed_deploy (fst (fst s')) = None))"
      by (auto simp: on_frame_def split: option.splits)
  qed (use assms(2) in simp)
  then show ?thesis by simp
qed

lemma channel_stage_unheard:
  assumes u: "unheard (sv_holder st, sv_hello_done st)"
  shows "ends_unheard (snd (snd (channel_stage enc dec rd st)))"
proof (cases "pl_channel_ready rd")
  case False
  then show ?thesis using finish_pass_unheard [OF u] by (simp add: channel_stage_def)
next
  case ready: True
  have r: "ends_unheard (Return (Protocol p) h)" "ends_unheard (Return BrainEof h)"
    "ends_unheard Panic" for p h
    by (simp_all add: ends_unheard_def keeps_deploy_outcome_def)
  show ?thesis
  proof (cases "feed (pl_recv rd) (sv_reader st)")
    case (Inl v)
    then show ?thesis using ready r by (simp add: channel_stage_def)
  next
    case (Inr x)
    obtain r' s where x: "x = (r', s)" by (cases x)
    obtain r2 hf bf ios q i e where loop: "each_frame dec (on_frame enc (pl_frame_kernel rd)) r'
        ((sv_holder st, sv_hello_done st), [], sv_outbound st, 0) = (r2, ((hf, bf), ios, q, i), e)"
      by (metis prod.collapse)
    note ef = each_frame_unheard [OF loop u]
    have fin: "ends_unheard (snd (finish_pass rd
        (st\<lparr> sv_holder := hf, sv_reader := r2, sv_outbound := q, sv_hello_done := bf \<rparr>)))"
      using ef by (intro finish_pass_unheard) simp
    have stop: "ends_unheard (Return out hf)" if "e = Stopped (Some out)" for out
      using ef that by (simp add: ends_unheard_def)
    show ?thesis
      using ready Inr x loop r fin stop
      by (cases s; cases e) (auto simp: channel_stage_def after_io_def flush_and_return_def
          split: option.split)
  qed
qed

lemma exits_and_channel_unheard:
  assumes u: "unheard (sv_holder st, sv_hello_done st)"
  shows "ends_unheard (snd (snd (exits_and_channel enc dec rd uids st)))"
proof -
  let ?c = "child_exits (pl_kernel rd) uids (pl_exit_ready rd) (sv_holder st)"
  have "unheard (fst ?c, sv_hello_done st)"
    using u by (simp add: unheard_def child_exits_sessions side_ok_cong [OF side_record(3)])
  then have "ends_unheard (snd (snd (channel_stage enc dec rd
      (st\<lparr> sv_holder := fst ?c, sv_outbound := q \<rparr>))))" for q
    by (intro channel_stage_unheard) simp
  then show ?thesis
    by (auto simp: exits_and_channel_def flush_and_return_def split_beta after_io_def ends_unheard_def
        keeps_deploy_outcome_def split: option.split)
qed

lemma auto_disarm_unheard:
  assumes "unheard (h, b)"
  shows "unheard (fst (auto_disarm k t h), b)"
proof (cases "hd_armed_deploy h")
  case None
  then show ?thesis using assms by (simp add: auto_disarm_def)
next
  case (Some x)
  have "side_ok (fst (auto_disarm k t h))"
    using event_side_ok [of "(h, b)" "EvDisarm k t"] assms by (simp add: unheard_def)
  then show ?thesis
    using assms Some by (cases x) (auto simp: unheard_def auto_disarm_def sweep_into_sessions)
qed

lemma ping_unheard:
  assumes "unheard (sv_holder st, b)" and "ping_stage t st = Some (h, w)"
  shows "unheard (h, b)"
  using assms by (auto simp: ping_stage_def Let_def unheard_def side_ok_def listeners_ok_def
      deploys_ok_def split: option.splits if_splits)

lemma serve_pass_unheard:
  assumes u: "unheard (sv_holder st, sv_hello_done st)"
  shows "ends_unheard (snd (snd (serve_pass enc dec rd st)))"
proof -
  let ?d = "auto_disarm (pl_kernel rd) (pl_at_disarm rd) (sv_holder st)"
  have d: "unheard (fst ?d, sv_hello_done st)" using auto_disarm_unheard [OF u] .
  have timeout: "awaiting_hello st \<Longrightarrow> ends_unheard (Return HelloTimeout (sv_holder st))"
    using u by (auto simp: awaiting_hello_def unheard_def ends_unheard_def)
  have other: "ends_unheard (Return (Protocol p) h)" "ends_unheard (Return (Wedged w) h)"
    "ends_unheard Panic" for p w h
    by (simp_all add: ends_unheard_def keeps_deploy_outcome_def)
  have stay: "ends_unheard (Go st)" using u by (simp add: ends_unheard_def)
  have next1: "ends_unheard (snd (snd (exits_and_channel enc dec rd uids
      (st\<lparr> sv_holder := fst ?d, sv_outbound := q \<rparr>))))" for uids q
    using d by (intro exits_and_channel_unheard) simp
  have next2: "ends_unheard (snd (snd (exits_and_channel enc dec rd uids
      (st\<lparr> sv_holder := h, sv_outbound := q, sv_next_ping := np \<rparr>))))"
    if "ping_stage (pl_at_ping rd) (st\<lparr> sv_holder := fst ?d \<rparr>) = Some (h, w)" for h w uids q np
    using ping_unheard [OF _ that] d by (intro exits_and_channel_unheard) simp
  show ?thesis
  proof (cases "pl_poll_error rd")
    case (Some err)
    then show ?thesis using other stay by (cases err) (simp_all add: serve_pass_def)
  next
    case None
    then show ?thesis
      using timeout other next1 next2
      by (auto simp: serve_pass_def Let_def split_beta after_io_def split: option.split bool.split)
  qed
qed

lemma serve_loop_unheard:
  "unheard (sv_holder st, sv_hello_done st) \<Longrightarrow>
   ends_unheard (snd (snd (serve_loop enc dec rds st)))"
proof (induction rds arbitrary: st)
  case Nil
  then show ?case by (simp add: ends_unheard_def)
next
  case (Cons rd rds)
  obtain ios segs r where p: "serve_pass enc dec rd st = (ios, segs, r)" by (metis prod.collapse)
  have e: "ends_unheard r" using serve_pass_unheard [OF Cons.prems, of enc dec rd] p by simp
  show ?case
  proof (cases r)
    case (Go st')
    then have "ends_unheard (snd (snd (serve_loop enc dec rds st')))"
      using Cons.IH e by (simp add: ends_unheard_def)
    then show ?thesis using p Go by (simp add: split_beta)
  qed (use e p in simp_all)
qed

lemma fresh_serve_unheard:
  assumes "holder_ok h" and "hd_armed_deploy h = None"
    and "serve_inner enc dec False td tp rds ch h = (ios, segs, Return out h')"
    and "keeps_deploy_outcome out"
  shows "hd_armed_deploy h' = None"
proof -
  let ?h = "fresh_generation (serve_reset h)"
  have u: "unheard (?h, False)"
    using event_side_ok [of "(h, False)" "EvServe False"] assms(1,2)
    by (simp add: unheard_def holder_ok_iff) (simp add: fresh_generation_def serve_reset_def)
  obtain st where st: "serve_start enc False td tp ch h = Go st" "sv_holder st = ?h"
    "sv_hello_done st = False"
    by (auto simp: serve_start_def push_all_def Let_def)
  then have "snd (snd (serve_loop enc dec rds st)) = Return out h'"
    using assms(3) by (simp add: serve_inner_def)
  moreover have "ends_unheard (snd (snd (serve_loop enc dec rds st)))"
    using u st(2,3) by (intro serve_loop_unheard) simp
  ultimately have "ends_unheard (Return out h')" by simp
  then show ?thesis using assms(4) by (simp add: ends_unheard_def)
qed

lemma no_deploy_failure:
  assumes "hd_armed_deploy (su_holder s) = None"
    and "snd (apply_failure t rf helloed s) = SGo s'"
  shows "hd_armed_deploy (su_holder s') = None"
  using assms
  by (auto simp: apply_failure_def Let_def split_beta shutdown_turn_def
      split: breaker_decision.splits option.splits bool.splits)

lemma no_deploy_run_deploy:
  assumes "hd_armed_deploy (su_holder s) = None" and "snd (run_deploy cd t d s) = SGo s'"
  shows "hd_armed_deploy (su_holder s') = None"
  using assms
  by (auto simp: run_deploy_def split_beta sweep_latched_exits_def sweep_into_sessions
      split: armed_deploy.splits sum.splits)

lemma taken_deploy: "hd_armed_deploy (fst (take_armed_deploy h)) = None"
  by (simp add: take_armed_deploy_def)

lemma no_deploy_after:
  assumes "keeps_deploy_outcome out \<longrightarrow> hd_armed_deploy (su_holder s) = None"
    and "snd (after_generation cd t path b out s) = SGo s'"
  shows "hd_armed_deploy (su_holder s') = None"
proof -
  obtain h' d where e: "take_armed_deploy (su_holder s) = (h', d)" by (metis prod.collapse)
  have h': "hd_armed_deploy h' = None" using taken_deploy [of "su_holder s"] e by simp
  note f = no_deploy_failure [of "s\<lparr> su_holder := h' \<rparr>" t _ _ s', simplified, OF h']
    and r = no_deploy_run_deploy [of "s\<lparr> su_holder := h' \<rparr>" cd t _ s', simplified, OF h']
    and g = no_deploy_failure [of s t _ _ s']
  show ?thesis
    using assms f r g e
    by (cases out) (auto simp: after_generation_def Let_def with_io_def keeps_deploy_outcome_def
        shutdown_turn_def split: option.splits sum.splits prod.splits)
qed

text \<open>C18. A deploy dies with the brain that armed it. If no deploy is armed when a turn starts and
  the turn does not resume an interrupted generation, then no deploy is armed when it ends,
  however the brain it ran ended and whatever it had armed: an exit consumes the deploy, a wedge
  or a protocol error discards it, a brain that never said hello cannot have armed one, and an
  accepted holder upgrade excludes one. So a later crash is never taken for a deploy.\<close>
theorem no_deploy_outlives_its_brain:
  assumes "su_ok s" and "turn_room s t" and "hd_armed_deploy (su_holder s) = None"
    and "case su_live s of None \<Rightarrow> True | Some (_, _, resumed) \<Rightarrow> \<not> resumed"
    and "snd (supervise_turn cd path retry t s) = SGo s'"
  shows "hd_armed_deploy (su_holder s') = None"
proof -
  have gen: "hd_armed_deploy (su_holder s') = None"
    if g: "hd_armed_deploy (su_holder s1) = None" "holder_ok (su_holder s1)"
      "snd (serve_generation cd t path (b, ch, False) s1) = SGo s'" for s1 b ch
  proof -
    obtain ios segs r where e: "serve_inner (cd_enc_frame cd) (cd_dec_frame cd) False
        (tn_serve_deadline t) (tn_serve_ping t) (tn_rounds t) ch (su_holder s1) = (ios, segs, r)"
      by (metis prod.collapse)
    then obtain out h where r: "r = Return out h"
      using g(3) by (cases r) (simp_all add: serve_generation_def with_io_def)
    have "snd (after_generation cd t path b out (s1\<lparr> su_holder := h \<rparr>)) = SGo s'"
      using g(3) e r by (simp add: serve_generation_def with_io_def)
    then show ?thesis
      using fresh_serve_unheard [OF g(2,1) e [unfolded r]] by (intro no_deploy_after) auto
  qed
  have st: "hd_armed_deploy (set_supervisor_status l p (su_holder s)) = None" for l p
    using assms(3) by (simp add: set_supervisor_status_def)
  have ok: "holder_ok (su_holder s)"
    using assms(1) by (simp add: su_ok_def)
  note gen' = gen [of "s\<lparr> su_holder := set_supervisor_status l p (su_holder s), su_live := None \<rparr>"
      for l p, simplified, OF st ok]
    and gen2 = gen [of "s\<lparr> su_holder := set_supervisor_status l p (su_holder s) \<rparr>" for l p,
      simplified, OF st this]
    and fail = no_deploy_failure [of "s\<lparr> su_holder := set_supervisor_status l p (su_holder s) \<rparr>"
      for l p, simplified, OF st]
  show ?thesis
  proof (cases "ps_current (su_pins s) = None \<and> su_live s = None")
    case True
    then show ?thesis
      using assms(5) st
      by (auto simp: supervise_turn_def held_down_turn_def Let_def shutdown_turn_def
          split: option.splits held_down_event.splits)
  next
    case False
    then show ?thesis
      using assms(4,5) gen' gen2 fail
      by (cases "su_live s"; cases "tn_spawn t")
        (auto simp: supervise_turn_def Let_def with_io_def split: prod.splits)
  qed
qed

theorem no_deploy_outlives_its_brain_witness:
  "\<exists>s'. snd (supervise_turn sample_codec ''/b'' 60000 crash_turn
      (sample_supervisor (holder_new sample_cfg))) = SGo s' \<and>
    hd_armed_deploy (su_holder s') = None"
proof -
  let ?s = "sample_supervisor (holder_new sample_cfg)"
  obtain ios s' where t: "supervise_turn sample_codec ''/b'' 60000 crash_turn ?s = (ios, SGo s')"
    using crash_turn_result [of "holder_new sample_cfg" "''/b''" 60000]
    by (auto simp: holder_new_def sample_cfg_def)
  have "hd_armed_deploy (su_holder s') = None"
  proof (rule no_deploy_outlives_its_brain)
    show "su_ok ?s"
      by (simp add: su_ok_def sample_supervisor_def holder_new_ok strikes_def breaker_default_def)
    show "turn_room ?s crash_turn" by (simp add: crash_room sample_supervisor_def holder_new_def)
    show "snd (supervise_turn sample_codec ''/b'' 60000 crash_turn ?s) = SGo s'" by (simp add: t)
  qed (simp_all add: sample_supervisor_def holder_new_def)
  with t show ?thesis by auto
qed

end
