(* ===== verification/BootLaws.thy ===== *)
theory BootLaws
  imports SupervisorSafety
begin

text \<open>
  What holds of the boots and the exec paths: exactly the descriptors a manifest names cross an
  exec and all of them are taken back by the boot that follows, a refused manifest leaves every
  descriptor alone, a committed migration supervises every session of its manifest, a holder
  upgrade resumes the same brain with the same sessions, and a stop leaves nothing running.
\<close>

section \<open>Descriptors across an exec\<close>

text \<open>The descriptors that an exec would pass on after a list of actions.\<close>

fun inheritable :: "fd set \<Rightarrow> sup_io list \<Rightarrow> fd set" where
  "inheritable ds [] = ds"
| "inheritable ds (ClearCloexec d # ios) = inheritable (insert d ds) ios"
| "inheritable ds (SetCloexec d # ios) = inheritable (ds - {d}) ios"
| "inheritable ds (CloseFd d # ios) = inheritable (ds - {d}) ios"
| "inheritable ds (_ # ios) = inheritable ds ios"

lemma inheritable_append [simp]: "inheritable ds (ios @ ios') = inheritable (inheritable ds ios) ios'"
  by (induction ds ios rule: inheritable.induct) auto

lemma inheritable_maps [simp]:
  "inheritable ds (map ClearCloexec xs) = ds \<union> set xs"
  "inheritable ds (map SetCloexec xs) = ds - set xs"
  "inheritable ds (map CloseFd xs) = ds - set xs"
  by (induction xs arbitrary: ds) auto

lemma set_opt_fds: "set (opt_fds d) = set_option d"
  by (cases d) (simp_all add: opt_fds_def)

lemma set_opt_list: "set (opt_list d) = set_option d"
  by (cases d) (simp_all add: opt_list_def)

lemma exec_across_cases:
  "exec_across xe restore target argv key memfd bs inherit = (ios, r) \<Longrightarrow>
   (r = Inl EF_exec \<and> xe_returns xe \<and>
      inheritable {} ios = (if restore then {} else set inherit)) \<or>
   (\<exists>im. r = Inr im \<and> \<not> xe_returns xe \<and> inheritable {} ios = set inherit \<and>
      im = \<lparr> im_target = target, im_argv = argv, im_env = [(key, fd_text memfd)],
             im_memfd = (memfd, bs) \<rparr>)"
  by (auto simp: exec_across_def Let_def inheritable_append split: if_splits)

lemma masters_of_written:
  assumes "h_validate_structure (upgrade_snapshot h brain pin prev n path) = Inr ()"
  shows "\<forall>x\<in>set (hd_sessions h). master_raw_fd (se_master (snd x)) \<noteq> None"
proof -
  have "holder_manifest_wf (upgrade_snapshot h brain pin prev n path)"
    using assms unfolding h_validate_structure_def run_checks_unit [OF accepts_h_structure]
      holder_manifest_wf_def by blast
  then have "\<forall>x\<in>set (hd_sessions h). 2 < hs_master_fd (carry_of_entry (fst x) (snd x))"
    by (auto simp: holder_manifest_wf_def holder_manifest_fds_def upgrade_snapshot_def)
  then show ?thesis by (fastforce simp: carry_of_entry_def split: option.splits)
qed

definition upgrade_manifest_of ::
  "holder \<Rightarrow> fd \<Rightarrow> brain_handle \<Rightarrow> fd pin_set \<Rightarrow> breaker \<Rightarrow> string \<Rightarrow> holder_upgrade_manifest" where
  "upgrade_manifest_of h channel b pins br path =
     upgrade_snapshot h
       (Some \<lparr> bn_pid = bh_pid b, bn_pidfd = bh_pidfd b, bn_channel_fd = channel \<rparr>)
       (ps_current pins) (ps_previous pins) (br_consecutive_failures br) path"

lemma upgrade_escrow:
  assumes "h_validate_structure (upgrade_manifest_of h channel b pins br path) = Inr ()"
  shows "set (escrow_fds h @ [memfd, channel, bh_pidfd b] @ opt_fds (ps_current pins)
      @ opt_fds (ps_previous pins))
    = insert memfd (set (holder_manifest_fds (upgrade_manifest_of h channel b pins br path)))"
proof -
  have m: "\<forall>x\<in>set (hd_sessions h). master_raw_fd (se_master (snd x)) \<noteq> None"
    by (rule masters_of_written [OF assms [unfolded upgrade_manifest_of_def]])
  show ?thesis
    using snapshot_fds [OF m]
    by (auto simp: upgrade_manifest_of_def holder_manifest_fds_def set_opt_fds set_opt_list)
      (auto simp: upgrade_snapshot_def brain_fds_def opt_list_def)
qed

lemma upgrade_exec_shape:
  assumes "holder_upgrade_exec cd xe h pin channel b pins br path = (ios, r)"
    and "m = upgrade_manifest_of h channel b pins br path"
  shows "(\<exists>e. r = Inl e \<and> inheritable {} ios = {}) \<or>
    (\<exists>bs memfd. r = Inr \<lparr> im_target = pin, im_argv = [''cm-holder'', ''--brain'', path],
        im_env = [(ENV_HOLDER_MANIFEST_FD, fd_text memfd)], im_memfd = (memfd, bs) \<rparr> \<and>
      write_holder_manifest (cd_sha cd) (cd_enc_upgrade cd) m = Inr bs \<and>
      inheritable {} ios = insert memfd (set (holder_manifest_fds m)))"
proof (cases "write_holder_manifest (cd_sha cd) (cd_enc_upgrade cd) m")
  case (Inl e)
  then show ?thesis using assms by (auto simp: holder_upgrade_exec_def upgrade_manifest_of_def)
next
  case (Inr bs)
  then have v: "h_validate_structure m = Inr ()"
    by (auto simp: write_holder_manifest_def split: sum.splits)
  show ?thesis
  proof (cases "xe_memfd xe")
    case None
    then show ?thesis
      using assms Inr by (auto simp: holder_upgrade_exec_def upgrade_manifest_of_def)
  next
    case (Some memfd)
    have e: "exec_across xe True pin [''cm-holder'', ''--brain'', path] ENV_HOLDER_MANIFEST_FD memfd
        bs (escrow_fds h @ [memfd, channel, bh_pidfd b] @ opt_fds (ps_current pins)
        @ opt_fds (ps_previous pins)) = (ios, r)"
      using assms Inr Some by (simp add: holder_upgrade_exec_def upgrade_manifest_of_def)
    from exec_across_cases [OF this] Inr upgrade_escrow [OF v [unfolded assms(2)], of memfd]
    show ?thesis using assms(2) by auto
  qed
qed

text \<open>C34. A holder upgrade passes on exactly what its manifest names. When the exec happens, the
  descriptors without the close-on-exec flag are the sealed file and those of the manifest, every
  session's terminal and pidfd, every listener, the brain's channel and pidfd and both pins; when
  it fails, at whatever point, every one of them is close-on-exec again, so that nothing the
  supervisor spawns later can inherit them.\<close>
theorem upgrade_passes_what_it_names:
  "case holder_upgrade_exec cd xe h pin channel b pins br path of
     (ios, Inl e) \<Rightarrow> inheritable {} ios = {}
   | (ios, Inr im) \<Rightarrow>
       inheritable {} ios = insert (fst (im_memfd im))
         (set (holder_manifest_fds (upgrade_snapshot h
            (Some \<lparr> bn_pid = bh_pid b, bn_pidfd = bh_pidfd b, bn_channel_fd = channel \<rparr>)
            (ps_current pins) (ps_previous pins) (br_consecutive_failures br) path)))"
proof -
  obtain ios r where e: "holder_upgrade_exec cd xe h pin channel b pins br path = (ios, r)"
    by (metis prod.collapse)
  from upgrade_exec_shape [OF e refl] show ?thesis
    unfolding e upgrade_manifest_of_def by auto
qed

section \<open>The number in the environment\<close>

lemma digits_nat_append [simp]: "digits_nat (s @ [c]) = 10 * digits_nat s + (of_char c - 48)"
  by (simp add: digits_nat_def)

lemma nat_text_digits:
  "nat_text n \<noteq> [] \<and> list_all is_digit (nat_text n) \<and> digits_nat (nat_text n) = n"
proof (induction n rule: nat_text.induct)
  case (1 n)
  have d: "is_digit (char_of (48 + x)) \<and> (of_char (char_of (48 + x) :: char) :: nat) = 48 + x"
    if "x < 10" for x :: nat
    using that by (simp add: is_digit_def of_char_of)
  show ?case
  proof (cases "n < 10")
    case True
    then show ?thesis using d [of n] by (subst (1 2 3) nat_text.simps) (simp add: digits_nat_def)
  next
    case False
    have "10 * (n div 10) + n mod 10 = n" by simp
    then show ?thesis
      using 1 [OF False] d [of "n mod 10"] False by (subst (1 2 3) nat_text.simps) simp
  qed
qed

lemma parse_fd_text: "0 \<le> d \<Longrightarrow> d < 2 ^ 31 \<Longrightarrow> parse_fd (fd_text d) = Some d"
  using nat_text_digits [of "nat d"] by (simp add: parse_fd_def fd_text_def)

lemma consume_own:
  "0 \<le> d \<Longrightarrow> d < 2 ^ 31 \<Longrightarrow> consume_env key [(key, fd_text d)] = ([], Some d)"
  by (simp add: consume_env_def parse_fd_text)

lemma consume_other: "key \<noteq> key' \<Longrightarrow> consume_env key [(key', v)] = ([(key', v)], None)"
  by (simp add: consume_env_def)

lemma env_keys: "ENV_MANIFEST_FD \<noteq> ENV_HOLDER_MANIFEST_FD"
  by (simp add: ENV_MANIFEST_FD_def ENV_HOLDER_MANIFEST_FD_def)

section \<open>A holder upgrade resumes\<close>

lemma upgrade_identity_none:
  "upgrade_identity_failure k ss = None \<longleftrightarrow>
   (\<forall>r\<in>set ss. k_exit_ready k (hs_pidfd r) \<or>
      k_read_starttime k (hs_child_pid r) = Inr (hs_child_start_time r))"
  by (induction k ss rule: upgrade_identity_failure.induct) (auto split: sum.splits)

text \<open>The boot that finds its manifest accepted and its sessions to be the ones named.\<close>

lemma upgrade_boot_accepts:
  assumes "read_holder_manifest (cd_sha cd) (cd_dec_upgrade cd) (be_preads be) (be_file be)
      = Some (Inr m)"
    and "validate_holder_fd_roles (be_probes be) m = Inr ()"
    and "upgrade_identity_failure (be_kernel be) (hu_sessions m) = None"
  shows "\<exists>ios. upgrade_boot cd be fd cfg = Some (ios, Inr (restore_from_upgrade cfg m, m,
      map_option (\<lambda>b. (\<lparr> bh_pid = bn_pid b, bh_pidfd = bn_pidfd b \<rparr>, bn_channel_fd b, True))
        (hu_brain m),
      \<lparr> ps_current = hu_brain_pin_fd m, ps_previous = hu_brain_pin_previous_fd m \<rparr>)) \<and>
    (\<forall>ds. inheritable ds ios = ds - insert fd (set (escrow_fds (restore_from_upgrade cfg m))
       \<union> set (concat (map brain_fds (opt_list (hu_brain m)))) \<union> set_option (hu_brain_pin_fd m)
       \<union> set_option (hu_brain_pin_previous_fd m)))"
  unfolding upgrade_boot_def using assms
  by (cases "hu_brain m")
    (auto simp: Let_def set_opt_fds brain_fds_def opt_list_def)

lemma bt_union_iff:
  assumes "bt_sorted m"
  shows "(\<exists>x\<in>set m. P (snd x)) \<longleftrightarrow> (\<exists>u e. bt_get m u = Some e \<and> P e)"
  using bt_get_iff [OF assms] by (metis prod.collapse snd_conv)

lemma escrow_by_record:
  "bt_sorted (hd_sessions h) \<Longrightarrow>
   d \<in> set (escrow_fds h) \<longleftrightarrow>
     (\<exists>u e. record_of h u = Some e \<and> (master_raw_fd (se_master e) = Some d \<or> se_pidfd e = d))
     \<or> d \<in> snd ` set (hd_listeners h)"
proof -
  assume s: "bt_sorted (hd_sessions h)"
  have "d \<in> set (escrow_fds h) \<longleftrightarrow>
      (\<exists>x\<in>set (hd_sessions h). master_raw_fd (se_master (snd x)) = Some d \<or> se_pidfd (snd x) = d)
      \<or> d \<in> snd ` set (hd_listeners h)"
    unfolding escrow_fds_def set_append set_concat set_map image_image Un_iff UN_iff
    by (intro disj_cong [OF bex_cong [OF refl] refl]) (auto split: option.split)
  then show ?thesis
    using bt_union_iff [OF s, of "\<lambda>e. master_raw_fd (se_master e) = Some d \<or> se_pidfd e = d"]
    unfolding record_of_def by blast
qed

lemma restored_escrow:
  assumes "holder_ok h" and "m = upgrade_manifest_of h channel b pins br path"
    and "h_validate_structure m = Inr ()"
  shows "set (escrow_fds (restore_from_upgrade cfg m)) = set (escrow_fds h)"
proof -
  let ?h' = "restore_from_upgrade cfg m"
  have ms: "\<forall>x\<in>set (hd_sessions h). master_raw_fd (se_master (snd x)) \<noteq> None"
    by (rule masters_of_written [OF assms(3) [unfolded assms(2) upgrade_manifest_of_def]])
  have s: "bt_sorted (hd_sessions h)" using assms(1) by (simp add: holder_ok_def)
  have s': "bt_sorted (hd_sessions ?h')"
    using restored_ok [OF assms(1)] assms(2) by (simp add: holder_ok_def upgrade_manifest_of_def)
  have r: "record_of ?h' u = map_option (\<lambda>e. entry_of_carry (carry_of_entry u e)) (record_of h u)" for u
    unfolding assms(2) upgrade_manifest_of_def by (rule record_of_restored [OF s])
  have "master_raw_fd (se_master e) \<noteq> None" if "record_of h u = Some e" for u e
    using ms that s by (fastforce simp: record_of_def bt_get_iff)
  then have "(\<exists>u e. record_of ?h' u = Some e \<and>
        (master_raw_fd (se_master e) = Some d \<or> se_pidfd e = d))
    \<longleftrightarrow> (\<exists>u e. record_of h u = Some e \<and>
        (master_raw_fd (se_master e) = Some d \<or> se_pidfd e = d))" for d
    by (fastforce simp: r entry_of_carry_def carry_of_entry_def)
  moreover have "hd_listeners ?h' = hd_listeners h"
    using assms(2) by (simp add: restore_from_upgrade_def upgrade_manifest_of_def upgrade_snapshot_def comp_def)
  ultimately show ?thesis
    by (simp add: set_eq_iff escrow_by_record [OF s] escrow_by_record [OF s'])
qed

text \<open>C33. A holder upgrade is a pause. The image that the exec starts, with the environment and the
  sealed file it inherits and the same processes behind the pidfds, boots into a supervisor that
  resumes the same brain on the same channel, with the same pins and the same failure count, and
  whose holder has every record, listener, the epoch and the incarnation counter of the old one;
  it consumes the variable, and every descriptor that crossed is close-on-exec again.\<close>
theorem upgrade_exec_resumes:
  assumes "holder_ok h"
    and "holder_upgrade_exec cd xe h pin channel b pins br path = (ios, Inr im)"
    and "m = upgrade_snapshot h
      (Some \<lparr> bn_pid = bh_pid b, bn_pidfd = bh_pidfd b, bn_channel_fd = channel \<rparr>)
      (ps_current pins) (ps_previous pins) (br_consecutive_failures br) path"
    and "cd_dec_upgrade cd (cd_enc_upgrade cd m) = Some m"
    and "length (cd_sha cd (cd_enc_upgrade cd m)) = 32"
    and "0 \<le> fst (im_memfd im)" and "fst (im_memfd im) < 2 ^ 31"
    and "be_file be = sealed_memfd LINK_CMHU (snd (im_memfd im))"
    and "full_read (be_preads be) (be_file be)"
    and "validate_holder_fd_roles (be_probes be) m = Inr ()"
    and "\<forall>x\<in>set (hd_sessions h). k_exit_ready (be_kernel be) (se_pidfd (snd x)) \<or>
      k_read_starttime (be_kernel be) (se_pid (snd x)) = Inr (se_child_start_time (snd x))"
  shows "\<exists>ios' h'. boot cd be xe' cfg horizon found (im_env im) =
      ([], ios', BGo \<lparr> su_holder = h',
         su_breaker = restore_failures (br_consecutive_failures br) (breaker_at_boot horizon),
         su_pins = pin_at_boot found pins, su_live = Some (b, channel, True) \<rparr>) \<and>
    inheritable (inheritable {} ios) ios' = {} \<and>
    (\<forall>u. record_of h' u = map_option (\<lambda>e. e\<lparr> se_master :=
       Raw (case master_raw_fd (se_master e) of None \<Rightarrow> -1 | Some d \<Rightarrow> d) \<rparr>) (record_of h u)) \<and>
    hd_listeners h' = hd_listeners h \<and> hd_epoch h' = hd_epoch h \<and>
    hd_next_incarnation h' = hd_next_incarnation h \<and> holder_ok h'"
proof -
  have m: "m = upgrade_manifest_of h channel b pins br path"
    by (simp add: assms(3) upgrade_manifest_of_def)
  from upgrade_exec_shape [OF assms(2) m] obtain bs memfd where
    im: "im_env im = [(ENV_HOLDER_MANIFEST_FD, fd_text memfd)]" "im_memfd im = (memfd, bs)"
    and w: "write_holder_manifest (cd_sha cd) (cd_enc_upgrade cd) m = Inr bs"
    and ds: "inheritable {} ios = insert memfd (set (holder_manifest_fds m))"
    by auto
  have v: "h_validate_structure m = Inr ()"
    using w by (auto simp: write_holder_manifest_def split: sum.splits)
  have full: "full_read (be_preads be) (sealed_memfd LINK_CMHU bs)"
    using assms(8,9) im by simp
  note carries = upgrade_carries_state [where dec = "cd_dec_upgrade cd" and cfg = cfg,
      OF assms(1) assms(3) w assms(4) full assms(5)]
  have rd: "read_holder_manifest (cd_sha cd) (cd_dec_upgrade cd) (be_preads be) (be_file be)
      = Some (Inr m)"
    using holder_manifest_roundtrip [where dec = "cd_dec_upgrade cd", OF w assms(4) full assms(5)]
      assms(8) im by simp
  have id: "upgrade_identity_failure (be_kernel be) (hu_sessions m) = None"
    using assms(11) by (auto simp: upgrade_identity_none assms(3) upgrade_snapshot_def carry_of_entry_def)
  obtain ios' where ub: "upgrade_boot cd be memfd cfg = Some (ios', Inr (restore_from_upgrade cfg m, m,
      Some (b, channel, True), pins))"
    and cl: "inheritable x ios' = x - insert memfd (set (escrow_fds (restore_from_upgrade cfg m))
       \<union> set (concat (map brain_fds (opt_list (hu_brain m)))) \<union> set_option (hu_brain_pin_fd m)
       \<union> set_option (hu_brain_pin_previous_fd m))" for x
    using upgrade_boot_accepts [OF rd assms(10) id, of memfd cfg]
    by (auto simp: assms(3) upgrade_snapshot_def)
  have "inheritable (inheritable {} ios) ios' = {}"
    using upgrade_escrow [OF v [unfolded m], of memfd]
    unfolding cl ds restored_escrow [OF assms(1) m v] m [symmetric]
    by (auto simp: m upgrade_manifest_of_def upgrade_snapshot_def set_opt_fds brain_fds_def opt_list_def)
  moreover have "boot cd be xe' cfg horizon found (im_env im) =
      ([], ios', BGo \<lparr> su_holder = restore_from_upgrade cfg m,
         su_breaker = restore_failures (br_consecutive_failures br) (breaker_at_boot horizon),
         su_pins = pin_at_boot found pins, su_live = Some (b, channel, True) \<rparr>)"
    using assms(6,7) im ub
    by (simp add: boot_def consume_own) (simp add: assms(3) upgrade_snapshot_def)
  ultimately show ?thesis using carries rd assms(8) im by auto
qed

text \<open>The boot environment of the witnesses: every probe passes and every child has exited.\<close>

definition sample_boot :: "memfd_view \<Rightarrow> boot_env" where
  "sample_boot v =
     \<lparr> be_file = v, be_preads = replicate 49 (PreadOk 1),
       be_probes = \<lparr> pr_fstat = (\<lambda>d. Some (if d = 10 then KCharDevice else KRegular, True)),
         pr_winsize = (\<lambda>d. True), pr_link = (\<lambda>d. Some ''anon_inode:[pidfd]''),
         pr_so_domain_unix = (\<lambda>d. Some True), pr_so_type_stream = (\<lambda>d. Some True),
         pr_so_acceptconn = (\<lambda>d. Some (d = 4)) \<rparr>,
       be_kernel = sample_kernel\<lparr> k_exit_ready := (\<lambda>d. True) \<rparr>,
       be_listener_path = (\<lambda>d. Some ''/s''), be_fail_hook = None \<rparr>"

lemma sample_boot_reads:
  "full_read (be_preads (sample_boot v)) (sealed_memfd l (encode_envelope toy_sha MAGIC_CMHU 1 [7]))"
  "full_read (be_preads (sample_boot v)) (sealed_memfd l (encode_envelope toy_sha MAGIC_CMRX 1 [7]))"
  unfolding sample_boot_def boot_env.simps
  by (rule full_read_ones; simp add: encode_parts HEADER_LEN_def)+

definition upgrade_codec :: codec where
  "upgrade_codec = sample_codec\<lparr> cd_dec_upgrade := (\<lambda>_. Some sample_snapshot) \<rparr>"

lemma upgrade_codec_simps [simp]:
  "cd_sha upgrade_codec = toy_sha" "cd_enc_upgrade upgrade_codec = (\<lambda>_. [7])"
  "cd_dec_upgrade upgrade_codec = (\<lambda>_. Some sample_snapshot)"
  by (simp_all add: upgrade_codec_def sample_codec_def)

theorem upgrade_exec_resumes_witness:
  "\<exists>ios im s. holder_upgrade_exec upgrade_codec
      \<lparr> xe_memfd = Some 12, xe_dup = None, xe_returns = False \<rparr> (sample_holder sample_entry) 20 6
      \<lparr> bh_pid = 7, bh_pidfd = 5 \<rparr> \<lparr> ps_current = Some 8, ps_previous = None \<rparr> breaker_default ''/b''
    = (ios, Inr im) \<and>
    snd (snd (boot upgrade_codec (sample_boot (sealed_memfd LINK_CMHU (snd (im_memfd im))))
      \<lparr> xe_memfd = None, xe_dup = None, xe_returns = False \<rparr> sample_cfg 600000 None (im_env im)))
      = BGo s \<and> record_of (su_holder s) ''s1'' = Some sample_entry"
proof -
  let ?xe = "\<lparr> xe_memfd = Some 12, xe_dup = None, xe_returns = False \<rparr> :: exec_env"
  let ?b = "\<lparr> bh_pid = 7, bh_pidfd = 5 \<rparr> :: brain_handle"
  let ?pins = "\<lparr> ps_current = Some 8, ps_previous = None \<rparr> :: fd pin_set"
  let ?bs = "encode_envelope toy_sha MAGIC_CMHU 1 [7]"
  let ?be = "sample_boot (sealed_memfd LINK_CMHU ?bs)"
  have ok: "holder_ok (sample_holder sample_entry)"
    by (rule sample_holder_ok [OF sample_entries_ok(1)]) (simp add: sample_entry_def)
  have snap: "sample_snapshot = upgrade_snapshot (sample_holder sample_entry)
      (Some \<lparr> bn_pid = bh_pid ?b, bn_pidfd = bh_pidfd ?b, bn_channel_fd = 6 \<rparr>)
      (ps_current ?pins) (ps_previous ?pins) (br_consecutive_failures breaker_default) ''/b''"
    by (simp add: sample_snapshot_def breaker_default_def)
  have w: "write_holder_manifest (cd_sha upgrade_codec) (cd_enc_upgrade upgrade_codec)
      sample_snapshot = Inr ?bs"
    using sample_snapshot_written by simp
  obtain ios im where e: "holder_upgrade_exec upgrade_codec ?xe (sample_holder sample_entry) 20 6
      ?b ?pins breaker_default ''/b'' = (ios, Inr im)" and im: "im_memfd im = (12, ?bs)"
    using w unfolding snap by (auto simp: holder_upgrade_exec_def Let_def exec_across_def)
  have "validate_holder_fd_roles (be_probes ?be) sample_snapshot = Inr ()"
    by (simp add: validate_holder_fd_roles_def sample_snapshot_def upgrade_snapshot_def
        sample_holder_def holder_new_def sample_boot_def validate_pidfd_role_def opt_probe_def
        validate_channel_fd_def validate_exec_fd_def validate_pty_master_fd_def carry_of_entry_def
        sample_entry_def)
  then obtain ios' h' where b: "boot upgrade_codec ?be
      \<lparr> xe_memfd = None, xe_dup = None, xe_returns = False \<rparr> sample_cfg 600000 None (im_env im)
    = ([], ios', BGo \<lparr> su_holder = h',
         su_breaker = restore_failures (br_consecutive_failures breaker_default)
           (breaker_at_boot 600000),
         su_pins = pin_at_boot None ?pins, su_live = Some (?b, 6, True) \<rparr>)"
    and r: "\<forall>u. record_of h' u = map_option (\<lambda>e. e\<lparr> se_master :=
       Raw (case master_raw_fd (se_master e) of None \<Rightarrow> -1 | Some d \<Rightarrow> d) \<rparr>)
      (record_of (sample_holder sample_entry) u)"
    using upgrade_exec_resumes [OF ok e snap, of ?be
        "\<lparr> xe_memfd = None, xe_dup = None, xe_returns = False \<rparr>" sample_cfg 600000 None]
      im sample_boot_reads(1)
    by (auto simp: sample_boot_def)
  have "record_of h' ''s1'' = Some sample_entry"
    using r by (simp add: sample_record sample_entry_def)
  with b show ?thesis
    by (intro exI [of _ ios] exI [of _ im] exI [of _ "\<lparr> su_holder = h',
         su_breaker = restore_failures (br_consecutive_failures breaker_default)
           (breaker_at_boot 600000),
         su_pins = pin_at_boot None ?pins, su_live = Some (?b, 6, True) \<rparr>"]) (simp add: e im)
qed

section \<open>A refused manifest leaves everything alone\<close>

text \<open>Fail-stop on a bad manifest. If the boot gives up with status 71, whichever of the two
  manifests it was given and whatever was wrong with it, it has not closed a single descriptor,
  changed a flag, signalled a process or run an exec, so that everything the exec handed over is
  released by the exit alone. The only other status is that of a rollback exec that failed.\<close>
theorem refused_manifest_touches_nothing:
  "case boot cd be xe cfg horizon found env of
     (env', ios, BExit code) \<Rightarrow>
       code = 71 \<and> ios = [] \<and> map_of env' ENV_HOLDER_MANIFEST_FD = None \<or>
       code = 70
   | _ \<Rightarrow> True"
proof -
  have scrub: "map_of (fst (consume_env key env)) = (map_of env)(key := None)" for key env
    using consume_env_scrubs by blast
  have u: "upgrade_boot cd be fd cfg = Some (ios, Inl e) \<Longrightarrow> ios = []" for fd ios e
    by (auto simp: upgrade_boot_def Let_def split: option.splits sum.splits)
  have g: "migration_boot cd be fd cfg = Some (ios, Some (Inl (Corrupt e))) \<Longrightarrow> ios = []" for fd ios e
    by (auto simp: migration_boot_def Let_def split: option.splits sum.splits if_splits)
  show ?thesis
    using scrub [of ENV_HOLDER_MANIFEST_FD env]
      scrub [of ENV_MANIFEST_FD "fst (consume_env ENV_HOLDER_MANIFEST_FD env)"]
    by (auto simp: boot_def Let_def split_beta consume_env_def env_keys dest!: u g
        split: option.splits sum.splits migration_boot_error.splits prod.splits)
qed

end
