(* ===== verification/MigrationLaws.thy ===== *)
theory MigrationLaws
  imports BootLaws
begin

text \<open>
  What holds of a live migration: when the boot commits, what the committed holder supervises,
  what a failed one hands back to the monolith, and when that is possible.
\<close>

section \<open>Adopting the sessions of a manifest\<close>

definition adopted_entry :: "u64 \<Rightarrow> session_record \<Rightarrow> session_entry" where
  "adopted_entry i rec =
     \<lparr> se_incarnation = i, se_generation_meta = sr_generation rec, se_pid = sr_child_pid rec,
       se_child_start_time = sr_child_start_time rec, se_master = Raw (sr_pty_master_fd rec),
       se_pidfd = sr_pidfd rec, se_reap_armed = True, se_delivery_ready = False,
       se_exit_latched = False, se_cgroup_prefix = sr_cgroup_prefix rec, se_cgroup_path = None,
       se_watcher_checkpoint = sr_watcher_checkpoint rec, se_last_signal_request = None,
       se_exit = None, se_rollback_record = None \<rparr>"

definition adopt_all :: "session_record list \<Rightarrow> holder \<Rightarrow> holder" where
  "adopt_all = fold (\<lambda>s. adopt_migrated_session s (sr_pty_master_fd s) (sr_pidfd s))"

lemma adopt_step:
  "adopt_migrated_session rec (sr_pty_master_fd rec) (sr_pidfd rec) h =
     h\<lparr> hd_next_incarnation := hd_next_incarnation h + 1,
        hd_sessions := bt_insert (sr_uid rec) (adopted_entry (hd_next_incarnation h) rec)
          (hd_sessions h) \<rparr>"
  by (simp add: adopt_migrated_session_def adopted_entry_def)

lemma adopt_ok:
  assumes "holder_ok h" and "hd_next_incarnation h \<noteq> - 1"
  shows "holder_ok (adopt_migrated_session rec (sr_pty_master_fd rec) (sr_pidfd rec) h)"
proof -
  let ?h = "adopt_migrated_session rec (sr_pty_master_fd rec) (sr_pidfd rec) h"
  have s: "bt_sorted (hd_sessions h)" using assms(1) by (simp add: holder_ok_def)
  have r: "record_of ?h u = (if u = sr_uid rec then Some (adopted_entry (hd_next_incarnation h) rec)
      else record_of h u)" for u
    by (simp add: adopt_step record_of_def bt_get_insert [OF s])
  have n: "numbered h ?h"
    unfolding numbered_def
    by (auto simp: r intro!: exI [of _ "sr_uid rec"] split: if_splits)
      (auto simp: adopt_step adopted_entry_def bt_sorted_insert [OF s])
  have "records_ok ?h"
    using assms(1)
    by (auto simp: holder_ok_def records_ok_iff r adopted_entry_def entry_ok_def event_matches_def)
  moreover have "side_ok ?h"
    using assms(1) by (simp add: holder_ok_iff adopt_step side_ok_def listeners_ok_def deploys_ok_def)
  moreover have "bt_sorted (hd_sessions ?h)" using n by (simp add: numbered_def)
  ultimately show ?thesis
    using assms numbered_below [OF n] numbered_distinct [OF n] by (simp add: holder_ok_iff)
qed

lemma adopt_all_spec:
  assumes "holder_ok h" and "unat (hd_next_incarnation h) + length ss < 2 ^ 64 - 1"
    and "distinct (map sr_uid ss)"
  shows "holder_ok (adopt_all ss h) \<and>
    (\<forall>i<length ss. record_of (adopt_all ss h) (sr_uid (ss ! i))
       = Some (adopted_entry (hd_next_incarnation h + of_nat i) (ss ! i))) \<and>
    (\<forall>u. u \<notin> set (map sr_uid ss) \<longrightarrow> record_of (adopt_all ss h) u = record_of h u)"
  using assms
proof (induction ss arbitrary: h)
  case Nil
  then show ?case by (simp add: adopt_all_def)
next
  case (Cons s ss)
  let ?h = "adopt_migrated_session s (sr_pty_master_fd s) (sr_pidfd s) h"
  have ne: "hd_next_incarnation h \<noteq> - 1"
    using Cons.prems(2) by (intro roomy_next [of h "length ss"]) (simp add: roomy_def)
  then have up: "unat (hd_next_incarnation h + 1) = unat (hd_next_incarnation h) + 1"
    by (metis Suc_eq_plus1 add.commute add_eq_0_iff unatSuc)
  have r: "record_of ?h u = (if u = sr_uid s then Some (adopted_entry (hd_next_incarnation h) s)
      else record_of h u)" for u
    using Cons.prems(1) by (simp add: adopt_step record_of_def bt_get_insert holder_ok_def)
  have n: "hd_next_incarnation ?h = hd_next_incarnation h + 1" by (simp add: adopt_step)
  have fold: "adopt_all (s # ss) h = adopt_all ss ?h" by (simp add: adopt_all_def)
  have IH: "holder_ok (adopt_all ss ?h) \<and>
    (\<forall>i<length ss. record_of (adopt_all ss ?h) (sr_uid (ss ! i))
       = Some (adopted_entry (hd_next_incarnation ?h + of_nat i) (ss ! i))) \<and>
    (\<forall>u. u \<notin> set (map sr_uid ss) \<longrightarrow> record_of (adopt_all ss ?h) u = record_of ?h u)"
    using Cons.prems up n by (intro Cons.IH adopt_ok [OF Cons.prems(1) ne]) simp_all
  show ?case
    unfolding fold
  proof (intro conjI allI impI)
    fix i
    assume "i < length (s # ss)"
    then show "record_of (adopt_all ss ?h) (sr_uid ((s # ss) ! i))
        = Some (adopted_entry (hd_next_incarnation h + of_nat i) ((s # ss) ! i))"
      using IH Cons.prems(3) by (cases i) (simp_all add: r n ac_simps)
  qed (use IH r in auto)
qed

lemma store_custody_ok: "holder_ok h \<Longrightarrow> holder_ok (store_listener_custody meta d h)"
proof -
  assume ok: "holder_ok h"
  have "listeners_ok (store_listener_custody meta d h)"
    using ok by (auto simp: holder_ok_def listeners_ok_def store_listener_custody_def
        intro!: distinct_map_filter)
  then show ?thesis
    using ok by (simp add: holder_ok_def store_listener_custody_def records_ok_def
        incarnations_below_def distinct_incarnations_def deploys_ok_def record_of_def)
qed

lemma migration_holder_spec:
  assumes "length (rm_sessions m) \<le> 4096" and "distinct (map sr_uid (rm_sessions m))"
  shows "holder_ok (migration_holder be cfg m) \<and>
    (\<forall>i<length (rm_sessions m). record_of (migration_holder be cfg m) (sr_uid (rm_sessions m ! i))
       = Some (adopted_entry (1 + of_nat i) (rm_sessions m ! i))) \<and>
    (\<forall>u. u \<notin> set (map sr_uid (rm_sessions m)) \<longrightarrow> record_of (migration_holder be cfg m) u = None)"
proof -
  have custody: "record_of (store_listener_custody meta d h) u = record_of h u" for meta d h u
    by (simp add: store_listener_custody_def record_of_def)
  have r: "record_of (migration_holder be cfg m) u
      = record_of (adopt_all (rm_sessions m) (holder_new cfg)) u" for u
    by (simp add: migration_holder_def Let_def adopt_all_def custody split: option.split)
  have "holder_ok (adopt_all (rm_sessions m) (holder_new cfg)) \<Longrightarrow>
      holder_ok (migration_holder be cfg m)"
    by (simp add: migration_holder_def Let_def adopt_all_def store_custody_ok split: option.split)
  moreover have "record_of (holder_new cfg) u = None" for u
    by (simp add: holder_new_def record_of_def bt_get_def)
  moreover have "hd_next_incarnation (holder_new cfg) = 1" by (simp add: holder_new_def)
  ultimately show ?thesis
    using adopt_all_spec [of "holder_new cfg" "rm_sessions m"] assms holder_new_ok [of cfg]
    by (simp add: r)
qed

section \<open>When a migration commits\<close>

lemma identity_none:
  "identity_failure k ss = None \<longleftrightarrow>
   (\<forall>r\<in>set ss. k_exit_ready k (sr_pidfd r) \<or>
      k_read_starttime k (sr_child_pid r) = Inr (sr_child_start_time r))"
  by (induction k ss rule: identity_failure.induct) (auto split: sum.splits)

lemma read_manifest_wf:
  "read_manifest sha dec as v = Some (Inr m) \<Longrightarrow> manifest_wf m"
  by (auto simp: read_manifest_def validates_iff [symmetric] split: sum.splits option.splits)

definition split_brain :: "split_roles \<Rightarrow> brain_handle" where
  "split_brain sp = \<lparr> bh_pid = sl_brain_pid sp, bh_pidfd = sl_brain_pidfd sp \<rparr>"

definition migration_setup :: "fd \<Rightarrow> reexec_manifest \<Rightarrow> split_roles \<Rightarrow> sup_io list" where
  "migration_setup fd m sp = CloseFd fd # migration_hygiene m sp"

definition handed_back :: "reexec_manifest \<Rightarrow> split_roles \<Rightarrow> migration_rollback" where
  "handed_back m sp =
     \<lparr> mr_manifest = m, mr_rollback_fd = rm_rollback_bin_fd m,
       mr_session_fds = map (\<lambda>s. (sr_pty_master_fd s, sr_pidfd s)) (rm_sessions m),
       mr_listener_fd = rm_listener_fd m, mr_tls_listener_fd = rm_tls_listener_fd m,
       mr_brain = Some (split_brain sp) \<rparr>"

text \<open>The four ends of a boot whose manifest was read.\<close>

lemma migration_boot_cases:
  assumes "read_manifest (cd_sha cd) (cd_dec_manifest cd) (be_preads be) (be_file be) = Some (Inr m)"
    and "migration_boot cd be fd cfg = Some (ios, r)"
  obtains (schema) "rm_schema_version m \<noteq> 4" "\<exists>e. r = Some (Inl (Corrupt e))" "ios = []"
    | (roles) "rm_schema_version m = 4" "validate_fd_roles (be_probes be) m \<noteq> Inr ()"
        "\<exists>e. r = Some (Inl (Corrupt e))" "ios = []"
    | (fails) sp why where "rm_schema_version m = 4" "validate_fd_roles (be_probes be) m = Inr ()"
        "rm_split m = Some sp"
        "be_fail_hook be = Some ''1'' \<or> identity_failure (be_kernel be) (rm_sessions m) \<noteq> None"
        "r = Some (Inl (InitFailed why (handed_back m sp)))"
        "ios = migration_setup fd m sp @ map CloseFd (opt_fds (sl_brain_pin_previous_fd sp)
           @ [sl_brain_pin_fd sp, sl_channel_fd sp])"
    | (commits) sp where "rm_schema_version m = 4" "validate_fd_roles (be_probes be) m = Inr ()"
        "rm_split m = Some sp" "be_fail_hook be \<noteq> Some ''1''"
        "identity_failure (be_kernel be) (rm_sessions m) = None"
        "r = Some (Inr (migration_holder be cfg m, split_brain sp, sl_channel_fd sp,
           \<lparr> ps_current = Some (sl_brain_pin_fd sp), ps_previous = sl_brain_pin_previous_fd sp \<rparr>))"
        "ios = migration_setup fd m sp @ [CloseFd (rm_rollback_bin_fd m)]"
proof (cases "rm_schema_version m = 4")
  case False
  then show ?thesis
    using assms by (intro schema) (auto simp: migration_boot_def MANIFEST_SCHEMA_VERSION_SPLIT_def)
next
  case v4: True
  then obtain sp where sp: "rm_split m = Some sp"
    using read_manifest_wf [OF assms(1)] by (auto simp: manifest_wf_def)
  note boot = assms(2) [unfolded migration_boot_def assms(1), simplified, simplified v4 sp Let_def
      MANIFEST_SCHEMA_VERSION_SPLIT_def, simplified]
  show ?thesis
  proof (cases "validate_fd_roles (be_probes be) m")
    case (Inl e)
    then show ?thesis using boot v4 by (intro roles) auto
  next
    case (Inr x)
    then have ok: "validate_fd_roles (be_probes be) m = Inr ()" by simp
    show ?thesis
    proof (cases "be_fail_hook be = Some ''1'' \<or> identity_failure (be_kernel be) (rm_sessions m) \<noteq> None")
      case True
      then show ?thesis
        using boot ok v4 sp
        by (auto intro!: fails simp: handed_back_def split_brain_def migration_setup_def
            split: if_splits)
    next
      case False
      then show ?thesis
        using boot ok v4 sp
        by (intro commits) (auto simp: split_brain_def migration_setup_def replace_current_def
            pin_set_default_def)
    qed
  qed
qed

lemma commits_iff:
  assumes "read_manifest (cd_sha cd) (cd_dec_manifest cd) (be_preads be) (be_file be) = Some (Inr m)"
  shows "(\<exists>ios x. migration_boot cd be fd cfg = Some (ios, Some (Inr x))) \<longleftrightarrow>
    rm_schema_version m = 4 \<and> validate_fd_roles (be_probes be) m = Inr () \<and>
    be_fail_hook be \<noteq> Some ''1'' \<and>
    (\<forall>r\<in>set (rm_sessions m). k_exit_ready (be_kernel be) (sr_pidfd r) \<or>
       k_read_starttime (be_kernel be) (sr_child_pid r) = Inr (sr_child_start_time r))"
proof -
  obtain ios r where b: "migration_boot cd be fd cfg = Some (ios, r)"
    using assms by (cases "migration_boot cd be fd cfg") (auto simp: migration_boot_def)
  show ?thesis
    using b by (cases rule: migration_boot_cases [OF assms b]) (auto simp: identity_none [symmetric])
qed

text \<open>A migration commits exactly when everything it depends on was checked. Given a manifest
  that reads, the new image takes over precisely when the manifest has the split schema, every
  descriptor it names passes its probe, the test hook is off, and every session's pid is still
  the process it names: its pidfd reports an exit, or its start time is the recorded one.\<close>
theorem migration_commits_iff:
  assumes "read_manifest (cd_sha cd) (cd_dec_manifest cd) (be_preads be) (be_file be) = Some (Inr m)"
  shows "(\<exists>ios x. migration_boot cd be fd cfg = Some (ios, Some (Inr x))) \<longleftrightarrow>
    rm_schema_version m = 4 \<and> validate_fd_roles (be_probes be) m = Inr () \<and>
    be_fail_hook be \<noteq> Some ''1'' \<and>
    (\<forall>r\<in>set (rm_sessions m). k_exit_ready (be_kernel be) (sr_pidfd r) \<or>
       k_read_starttime (be_kernel be) (sr_child_pid r) = Inr (sr_child_start_time r))"
  by (rule commits_iff [OF assms])

definition migration_manifest :: reexec_manifest where
  "migration_manifest =
     \<lparr> rm_schema_version = 4, rm_attempt = 1, rm_reexec_generation = 2, rm_rollback_bin_fd = 3,
       rm_sessions = [], rm_listener_fd = 4, rm_tls_listener_fd = None,
       rm_rollback_schema_version = Some 3,
       rm_split = Some \<lparr> sl_channel_fd = 5, sl_brain_pid = 70, sl_brain_pidfd = 6,
         sl_brain_pin_fd = 7, sl_brain_pin_previous_fd = None, sl_brain_path = ''/b'' \<rparr> \<rparr>"

definition migration_codec :: codec where
  "migration_codec = sample_codec\<lparr> cd_dec_manifest := (\<lambda>_. Some migration_manifest) \<rparr>"

definition migration_env :: boot_env where
  "migration_env = sample_boot (sealed_memfd LINK_CMRX (encode_envelope toy_sha MAGIC_CMRX 1 [7]))"

lemma migration_manifest_wf: "manifest_wf migration_manifest"
  by (simp add: manifest_wf_def migration_manifest_def manifest_fds_def opt_list_def split_fds_def)

lemma migration_manifest_reads:
  "read_manifest (cd_sha migration_codec) (cd_dec_manifest migration_codec)
     (be_preads migration_env) (be_file migration_env) = Some (Inr migration_manifest)"
proof -
  have w: "write_manifest toy_sha (\<lambda>_. [7]) migration_manifest
      = Inr (encode_envelope toy_sha MAGIC_CMRX 1 [7])"
    using migration_manifest_wf unfolding validates_iff [symmetric]
    by (simp add: write_manifest_def HEADER_LEN_def MAX_MANIFEST_BYTES_def
        MANIFEST_FORMAT_VERSION_def)
  have f: "be_file migration_env = sealed_memfd LINK_CMRX (encode_envelope toy_sha MAGIC_CMRX 1 [7])"
    by (simp add: migration_env_def sample_boot_def)
  show ?thesis
    unfolding f
    using manifest_read_back [OF w, where dec = "\<lambda>_. Some migration_manifest",
        OF refl sample_boot_reads(2)]
    by (simp add: migration_codec_def sample_codec_def migration_env_def)
qed

lemma migration_roles: "validate_fd_roles (be_probes migration_env) migration_manifest = Inr ()"
  by (simp add: validate_fd_roles_def migration_manifest_def migration_env_def sample_boot_def
      validate_exec_fd_def validate_listener_fd_def validate_channel_fd_def validate_pidfd_role_def
      opt_probe_def)

lemma migration_commits:
  "\<exists>ios x. migration_boot migration_codec migration_env 9 sample_cfg = Some (ios, Some (Inr x))"
  using commits_iff [OF migration_manifest_reads, of 9 sample_cfg] migration_roles
  by (simp add: migration_manifest_def migration_env_def sample_boot_def)

theorem migration_commits_iff_witness:
  "\<exists>ios x. migration_boot migration_codec migration_env 9 sample_cfg = Some (ios, Some (Inr x))"
  using migration_commits_iff [OF migration_manifest_reads, of 9 sample_cfg] migration_roles
  by (simp add: migration_manifest_def migration_env_def sample_boot_def)



section \<open>A failed migration goes back\<close>

lemma fresh_fields [simp]:
  "rm_sessions (fresh_manifest m) = rm_sessions m" "rm_split (fresh_manifest m) = None"
  "rm_rollback_bin_fd (fresh_manifest m) = rm_rollback_bin_fd m"
  "rm_listener_fd (fresh_manifest m) = rm_listener_fd m"
  "rm_tls_listener_fd (fresh_manifest m) = rm_tls_listener_fd m"
  "rm_rollback_schema_version (fresh_manifest m) = None"
  "rm_schema_version (fresh_manifest m) = (case rm_rollback_schema_version m of None \<Rightarrow> 3 | Some v \<Rightarrow> v)"
  by (simp_all add: fresh_manifest_def MANIFEST_SCHEMA_VERSION_def split: option.split)

lemma fresh_fds_named:
  "manifest_fds (fresh_manifest m) = [rm_rollback_bin_fd m, rm_listener_fd m]
     @ opt_list (rm_tls_listener_fd m)
     @ concat (map (\<lambda>s. [sr_pty_master_fd s, sr_pidfd s]) (rm_sessions m))"
  by (simp add: manifest_fds_def) (simp add: opt_list_def)

text \<open>The trusted branch of a failed migration can be unable to write its manifest. From a
  split manifest that passed validation, the manifest for the monolith validates exactly when the
  rollback version is not the split schema itself: validation admits that version, but a manifest
  without a split block cannot carry it, so the holder then exits and its sessions are lost.\<close>
theorem rollback_writable_iff:
  assumes "manifest_wf m" and "rm_schema_version m = 4"
  shows "validate_structure (fresh_manifest m) = Inr () \<longleftrightarrow> rm_rollback_schema_version m \<noteq> Some 4"
proof -
  obtain sp where sp: "rm_split m = Some sp" using assms by (auto simp: manifest_wf_def)
  have "set (manifest_fds (fresh_manifest m)) \<subseteq> set (manifest_fds m)"
    and "distinct (manifest_fds m) \<longrightarrow> distinct (manifest_fds (fresh_manifest m))"
    by (auto simp: fresh_fds_named manifest_fds_def [of m])
  then show ?thesis
    using assms unfolding validates_iff
    by (auto simp: manifest_wf_def split: option.splits)
qed

theorem rollback_writable_iff_witness:
  "validate_structure (fresh_manifest migration_manifest) = Inr ()"
  using rollback_writable_iff [OF migration_manifest_wf] by (simp add: migration_manifest_def)

lemma rollback_exec_shape:
  assumes "migration_rollback_exec cd xe rb = (ios, Inr im)"
  shows "\<exists>memfd bs. write_manifest (cd_sha cd) (cd_enc_manifest cd) (fresh_manifest (mr_manifest rb)) = Inr bs \<and>
    im = \<lparr> im_target = mr_rollback_fd rb, im_argv = [''cm-daemon''],
      im_env = [(ENV_MANIFEST_FD, fd_text memfd)], im_memfd = (memfd, bs) \<rparr> \<and>
    ios = (case mr_brain rb of None \<Rightarrow> [] | Some b \<Rightarrow> sigkill_and_reap b)
      @ map ClearCloexec ([memfd, mr_rollback_fd rb, mr_listener_fd rb]
         @ opt_fds (mr_tls_listener_fd rb)
         @ concat (map (\<lambda>x. [fst x, snd x]) (mr_session_fds rb)))
      @ [Execveat (mr_rollback_fd rb) [''cm-daemon''] [(ENV_MANIFEST_FD, fd_text memfd)]]"
  using assms
  by (auto simp: migration_rollback_exec_def exec_across_def Let_def
      split: sum.splits option.splits if_splits)

text \<open>C36. A failed migration gives everything back. When initialisation fails after validation and
  the rollback exec happens, the image started is the pinned monolith; the sealed file it gets is
  the manifest without the split block; the descriptors it inherits are exactly those that
  manifest names and the file itself, not the brain's channel or pins; and the parked brain is
  dead and reaped before the exec, so two brains never own the sessions.\<close>
theorem failed_migration_gives_back:
  assumes "read_manifest (cd_sha cd) (cd_dec_manifest cd) (be_preads be) (be_file be) = Some (Inr m)"
    and "migration_boot cd be fd cfg = Some (ios, Some (Inl (InitFailed why rb)))"
    and "migration_rollback_exec cd xe rb = (ios', Inr im)"
  shows "im_target im = rm_rollback_bin_fd m \<and>
    write_manifest (cd_sha cd) (cd_enc_manifest cd) (fresh_manifest m) = Inr (snd (im_memfd im)) \<and>
    inheritable (insert fd (set (manifest_fds m))) (ios @ ios')
      = insert (fst (im_memfd im)) (set (manifest_fds (fresh_manifest m))) \<and>
    (\<exists>sp. rm_split m = Some sp \<and>
       brains (Some \<lparr> bh_pid = sl_brain_pid sp, bh_pidfd = sl_brain_pidfd sp \<rparr>) (ios @ ios') = Some None)"
proof -
  obtain sp where sp: "rm_split m = Some sp" and rb: "rb = handed_back m sp"
    and ios: "ios = migration_setup fd m sp @ map CloseFd (opt_fds (sl_brain_pin_previous_fd sp)
        @ [sl_brain_pin_fd sp, sl_channel_fd sp])"
    by (cases rule: migration_boot_cases [OF assms(1,2)]) auto
  obtain memfd bs where w: "write_manifest (cd_sha cd) (cd_enc_manifest cd) (fresh_manifest m) = Inr bs"
    and im: "im = \<lparr> im_target = rm_rollback_bin_fd m, im_argv = [''cm-daemon''],
      im_env = [(ENV_MANIFEST_FD, fd_text memfd)], im_memfd = (memfd, bs) \<rparr>"
    and ios': "ios' = sigkill_and_reap (split_brain sp)
      @ map ClearCloexec ([memfd, rm_rollback_bin_fd m, rm_listener_fd m]
         @ opt_fds (rm_tls_listener_fd m)
         @ concat (map (\<lambda>x. [fst x, snd x]) (mr_session_fds rb)))
      @ [Execveat (rm_rollback_bin_fd m) [''cm-daemon''] [(ENV_MANIFEST_FD, fd_text memfd)]]"
    using rollback_exec_shape [OF assms(3)] by (auto simp: rb handed_back_def)
  have clean: "inheritable (insert fd (set (manifest_fds m))) ios = {}"
    by (auto simp: ios migration_setup_def migration_hygiene_def manifest_fds_def sp opt_list_def
        split_fds_def set_opt_fds split: option.splits)
  have "inheritable {} ios' = insert memfd (set (manifest_fds (fresh_manifest m)))"
    by (auto simp: ios' sigkill_and_reap_def fresh_fds_named rb handed_back_def set_opt_fds set_opt_list)
  moreover have "quiet ios"
  proof -
    have "quiet (map CloseFd ds)" for ds
      by (induction ds) (simp_all add: quiet_def)
    then show ?thesis
      by (simp add: ios migration_setup_def migration_hygiene_def quiet_append quiet_def
          quiet_intros(3) [unfolded quiet_def] brains_append)
  qed
  moreover have "brains (Some (split_brain sp)) ios' = Some None"
    unfolding ios' by (simp add: sigkill_and_reap_def brains_append
        quiet_intros(4) [unfolded quiet_def])
  ultimately show ?thesis
    using im w clean sp by (auto simp: brains_quiet split_brain_def)
qed

theorem failed_migration_gives_back_witness:
  "\<exists>ios why rb ios' im. migration_boot migration_codec
      (migration_env\<lparr> be_fail_hook := Some ''1'' \<rparr>) 9 sample_cfg
      = Some (ios, Some (Inl (InitFailed why rb))) \<and>
    migration_rollback_exec migration_codec
      \<lparr> xe_memfd = Some 12, xe_dup = None, xe_returns = False \<rparr> rb = (ios', Inr im) \<and>
    im_target im = 3 \<and>
    inheritable (insert 9 (set (manifest_fds migration_manifest))) (ios @ ios') = {12, 3, 4}"
proof -
  let ?be = "migration_env\<lparr> be_fail_hook := Some ''1'' \<rparr>"
  let ?xe = "\<lparr> xe_memfd = Some 12, xe_dup = None, xe_returns = False \<rparr> :: exec_env"
  have rd: "read_manifest (cd_sha migration_codec) (cd_dec_manifest migration_codec)
      (be_preads ?be) (be_file ?be) = Some (Inr migration_manifest)"
    using migration_manifest_reads by simp
  have "identity_failure (be_kernel ?be) (rm_sessions migration_manifest) = None"
    by (simp add: migration_manifest_def)
  then obtain ios why rb where b: "migration_boot migration_codec ?be 9 sample_cfg
      = Some (ios, Some (Inl (InitFailed why rb)))"
    and m: "mr_manifest rb = migration_manifest"
    using rd migration_roles
    by (fastforce simp: migration_boot_def Let_def migration_manifest_def
        MANIFEST_SCHEMA_VERSION_SPLIT_def)
  have "manifest_wf (fresh_manifest migration_manifest)"
    by (simp add: manifest_wf_def fresh_fds_named) (simp add: migration_manifest_def opt_list_def)
  then have "write_manifest (cd_sha migration_codec) (cd_enc_manifest migration_codec)
      (fresh_manifest migration_manifest) = Inr (encode_envelope toy_sha MAGIC_CMRX 1 [7])"
    unfolding validates_iff [symmetric]
    by (simp add: write_manifest_def HEADER_LEN_def MAX_MANIFEST_BYTES_def
        MANIFEST_FORMAT_VERSION_def migration_codec_def sample_codec_def)
  then obtain ios' im where r: "migration_rollback_exec migration_codec ?xe rb = (ios', Inr im)"
    and i: "im_memfd im = (12, encode_envelope toy_sha MAGIC_CMRX 1 [7])"
    by (auto simp: migration_rollback_exec_def exec_across_def m Let_def)
  have "im_target im = 3 \<and>
    inheritable (insert 9 (set (manifest_fds migration_manifest))) (ios @ ios') = {12, 3, 4}"
    using failed_migration_gives_back [OF rd b r] i
    by (simp add: fresh_fds_named) (simp add: migration_manifest_def opt_list_def)
  with b r show ?thesis by blast
qed

end
