(* ===== verification/SupervisorEnds.thy ===== *)
theory SupervisorEnds
  imports MigrationLaws
begin

text \<open>
  Two ends of a brain: the stop-everything sequence, which always returns and leaves nothing
  running, and a resumed generation that never completes its handshake, after which a deploy can
  outlive the brain that armed it.
\<close>

section \<open>The stop-everything sequence\<close>

lemma await_brain_returns:
  "\<exists>x\<in>set ts. fst x \<or> deadline \<le> snd x \<Longrightarrow> await_brain b deadline ts \<noteq> None"
  by (induction b deadline ts rule: await_brain.induct) auto

text \<open>The actions of the holder among those of the supervisor, and the files removed.\<close>

definition holder_part :: "sup_io list \<Rightarrow> io list" where
  "holder_part ios = List.map_filter (\<lambda>a. case a of HolderIo x \<Rightarrow> Some x | _ \<Rightarrow> None) ios"

definition removed_files :: "sup_io list \<Rightarrow> string list" where
  "removed_files ios = List.map_filter (\<lambda>a. case a of RemoveFile p \<Rightarrow> Some p | _ \<Rightarrow> None) ios"

lemma part_append [simp]:
  "holder_part (ios @ ios') = holder_part ios @ holder_part ios'"
  "removed_files (ios @ ios') = removed_files ios @ removed_files ios'"
  by (simp_all add: holder_part_def removed_files_def List.map_filter_def)

lemma part_simps [simp]:
  "holder_part (map HolderIo xs) = xs" "removed_files (map HolderIo xs) = []"
  "holder_part [] = []" "removed_files [] = []"
  "holder_part [RemoveFile p] = []" "removed_files [RemoveFile p] = [p]"
  by (simp_all add: holder_part_def removed_files_def List.map_filter_def comp_def)

lemma await_parts:
  "await_brain b deadline ts = Some ios \<Longrightarrow> holder_part ios = [] \<and> removed_files ios = []"
  by (induction b deadline ts rule: await_brain.induct)
    (auto simp: brain_reap_def sigkill_and_reap_def holder_part_def removed_files_def
      List.map_filter_def split: if_splits)

lemma stop_parts:
  "stop_brain brain t0 ts = Some ios \<Longrightarrow> holder_part ios = [] \<and> removed_files ios = []"
  using await_parts
  by (fastforce simp: stop_brain_def holder_part_def removed_files_def List.map_filter_def
      split: option.splits)

text \<open>Stopping ends, and leaves nothing running. Once the brain has exited or ten seconds have
  passed the sequence returns: the brain was asked to stop first and has been reaped, every
  session whose exit was not already consumed has been killed and then waited for through its own
  pidfd, no session is left, and the only file removed is the custodied socket.\<close>
theorem stop_leaves_nothing_running:
  assumes "brain = None \<or> (\<exists>x\<in>set ts. fst x \<or> t0 + 10000 \<le> snd x)"
  shows "\<exists>ios h'. shutdown_sequence brain t0 ts h = Some (ios, h') \<and>
    brains brain ios = Some None \<and>
    (\<forall>b. brain = Some b \<longrightarrow> hd ios = BrainSignal b SIGTERM) \<and>
    holder_part ios = concat (map (\<lambda>x. [SendSignal (se_pidfd (snd x)) SIGKILL,
        WaitExit (se_pidfd (snd x)) (se_pid (snd x))])
      (filter (\<lambda>x. se_exit (snd x) = None) (hd_sessions h))) \<and>
    hd_sessions h' = [] \<and>
    set (removed_files ios) = {p. custodied_unix_path h = Some p \<and> p \<noteq> []}"
proof -
  obtain ios where st: "stop_brain brain t0 ts = Some ios"
    using assms await_brain_returns [of ts "t0 + 10000"]
    by (cases brain) (fastforce simp: stop_brain_def BRAIN_STOP_GRACE_def)+
  have br: "brains brain ios = Some None"
    using st await_brain_reaps by (cases brain) (auto simp: stop_brain_def)
  have "\<forall>b. brain = Some b \<longrightarrow> ios \<noteq> [] \<and> hd ios = BrainSignal b SIGTERM"
    using st by (auto simp: stop_brain_def)
  then show ?thesis
    using st br stop_parts [OF st]
    by (auto simp: shutdown_sequence_def shutdown_kill_all_def Let_def brains_append
        quiet_intros(2) [unfolded quiet_def] custodied_unix_path_def kill_and_reap_def
        split: option.split)
qed

theorem stop_leaves_nothing_running_witness:
  "\<exists>ios h'. shutdown_sequence (Some \<lparr> bh_pid = 7, bh_pidfd = 5 \<rparr>) 0 [(False, 20000)]
      (sample_holder sample_entry) = Some (ios, h') \<and>
    holder_part ios = [SendSignal 11 SIGKILL, WaitExit 11 100] \<and> hd_sessions h' = []"
  using stop_leaves_nothing_running [of "Some \<lparr> bh_pid = 7, bh_pidfd = 5 \<rparr>" "[(False, 20000)]" 0
      "sample_holder sample_entry"]
  by (auto simp: sample_holder_def sample_entry_def)

section \<open>A deploy that outlives its brain\<close>

text \<open>A generation resumed after a failed holder upgrade, whose brain asks for a restart with a
  new binary before it has answered the rehello.\<close>

definition resume_codec :: codec where
  "resume_codec = sample_codec
     \<lparr> cd_dec_frame := (\<lambda>_. Some (frame_new V_RESTART_BRAIN (Some 9) 1 JNull)) \<rparr>"

definition armed_kernel :: kernel where
  "armed_kernel = sample_kernel\<lparr> k_instant := 20000 \<rparr>"

definition arm_round :: poll_round where
  "arm_round = (idle_round armed_kernel)
     \<lparr> pl_channel_ready := True, pl_recv := Received [1, 0, 0, 0, 9] [20] False,
       pl_at_handshake := 20000, pl_at_disarm := 20000, pl_at_ping := 20000 \<rparr>"

definition timeout_round :: poll_round where
  "timeout_round = (idle_round sample_kernel)\<lparr> pl_at_handshake := 30000 \<rparr>"

definition resumed_turn :: turn where
  "resumed_turn = crash_turn
     \<lparr> tn_rounds := [arm_round, timeout_round], tn_wait_deadline_base := 30000,
       tn_wait := [\<lparr> wt_now = 30500, wt_ready = False, wt_signals = [] \<rparr>] \<rparr>"

text \<open>Then a fresh brain that dies at once, one second after the first was killed.\<close>

definition late_eof_round :: poll_round where
  "late_eof_round = (eof_round sample_kernel)
     \<lparr> pl_at_handshake := 31000, pl_at_disarm := 31000, pl_at_ping := 31000 \<rparr>"

definition late_crash_turn :: turn where
  "late_crash_turn = crash_turn
     \<lparr> tn_spawn := Inr (\<lparr> bh_pid = 77, bh_pidfd = 55 \<rparr>, 66), tn_rounds := [late_eof_round],
       tn_serve_deadline := 30500, tn_serve_ping := 30500 \<rparr>"

definition resumed_supervisor :: supervisor where
  "resumed_supervisor = (sample_supervisor (holder_new sample_cfg))
     \<lparr> su_live := Some (\<lparr> bh_pid = 7, bh_pidfd = 5 \<rparr>, 6, True) \<rparr>"

lemmas serve_step_defs = serve_inner_def serve_start_def push_all_def serve_pass_def idle_round_def
  awaiting_hello_def auto_disarm_def ping_stage_def asks_shutdown_def exits_and_channel_def
  child_exits_def over_sessions_def channel_stage_def feed_def after_io_def polled_uids_def
  fresh_generation_def serve_reset_def finish_pass_def

lemma arm_frame:
  "each_frame (cd_dec_frame resume_codec) handle
     \<lparr> rd_buf = [1, 0, 0, 0, 9], rd_pending_fds = [20] \<rparr> s =
     (case handle (frame_new V_RESTART_BRAIN (Some 9) 1 JNull) [20] s of
        (s', Some out) \<Rightarrow> (\<lparr> rd_buf = [], rd_pending_fds = [] \<rparr>, s', Stopped out)
      | (s', None) \<Rightarrow> (\<lparr> rd_buf = [], rd_pending_fds = [] \<rparr>, s', Drained))"
proof -
  have l: "from_le [1, 0, 0, 0] = 1" by simp
  have n: "next_frame (cd_dec_frame resume_codec) \<lparr> rd_buf = [1, 0, 0, 0, 9], rd_pending_fds = [20] \<rparr>
    = Inr (\<lparr> rd_buf = [], rd_pending_fds = [] \<rparr>,
        Some (frame_new V_RESTART_BRAIN (Some 9) 1 JNull, [20]))"
    by (simp add: next_frame_def l resume_codec_def frame_new_def MAX_FRAME_BYTES_def)
  have e: "each_frame (cd_dec_frame resume_codec) handle \<lparr> rd_buf = [], rd_pending_fds = [] \<rparr> s'
    = (\<lparr> rd_buf = [], rd_pending_fds = [] \<rparr>, s', Drained)" for s'
    by (subst each_frame.simps) (simp add: next_frame_def)
  show ?thesis
    by (subst each_frame.simps) (simp add: n e)
qed

lemma arm_dispatch:
  assumes "hd_armed_deploy h = None" and "hd_pending_upgrade h = None"
    and "hd_rehello_pending h = Some 1"
  shows "dispatch armed_kernel (frame_new V_RESTART_BRAIN (Some 9) 1 JNull) [20] (h, True)
    = ((h\<lparr> hd_armed_deploy := Some (NewPin 20, 20000) \<rparr>, True), [ok_frame 9], None)"
  using assms
  by (simp add: dispatch_def frame_new_def takes_fds_def dispatch_verb_def verb_of_name
      restart_brain_def deploy_conflict_def carry_on_def armed_kernel_def)

lemma resumed_generation:
  assumes "h = set_supervisor_status l p (holder_new sample_cfg)"
  shows "\<exists>segs h'. serve_inner (cd_enc_frame resume_codec) (cd_dec_frame resume_codec) True 0 0
      [arm_round, timeout_round] 6 h
    = ([ok_frame 9], segs, Return HelloTimeout h') \<and>
    hd_armed_deploy h' = Some (NewPin 20, 20000) \<and> hd_sessions h' = [] \<and> hd_cfg h' = sample_cfg"
proof -
  have w: "to_wire (cd_enc_frame resume_codec) f = Some (to_le 4 1 @ [7])" for f
    by (simp add: to_wire_def resume_codec_def sample_codec_def MAX_FRAME_BYTES_def Let_def)
  show ?thesis
    using assms
    by (simp add: serve_step_defs arm_round_def arm_frame timeout_round_def on_frame_def
        arm_dispatch set_supervisor_status_def holder_new_def sample_cfg_def push_frame_def w
        split_rollback_armed_def reply_frame_def ok_frame_def WEDGE_MISSED_PONGS_def
        frame_reader_new_def)
qed

lemma late_crash_generation:
  assumes "hd_sessions h = []" and "hc_ping_interval (hd_cfg h) = Some 30000"
    and "hc_handshake_timeout (hd_cfg h) = 30000" and "hd_armed_deploy h = Some (d, 20000)"
  shows "serve_inner enc dec False 30500 30500 [late_eof_round] ch h
    = ([], [], Return BrainEof (fresh_generation (serve_reset h)))"
  using assms
  by (simp add: serve_step_defs late_eof_round_def eof_round_def ARM_AUTO_DISARM_def)

text \<open>A crash taken for a deploy. After a holder upgrade that failed, a resumed brain can arm
  a deploy before it answers the rehello; when it then never answers, it is killed for the
  handshake timeout without its deploy being discarded. The next brain, started from the same
  pin, dies before it says hello, and that crash executes the dead brain's deploy: the pin that
  nobody confirmed becomes the current one and the failure count is cleared.\<close>
theorem stale_deploy_turns_crash_into_deploy:
  "\<exists>ios s'. supervise resume_codec path retry [resumed_turn, late_crash_turn] resumed_supervisor
      = (ios, SGo s') \<and>
    filter (\<lambda>a. \<exists>b. a = BrainSpawned b \<or> a = BrainReaped b) ios
      = [BrainReaped \<lparr> bh_pid = 7, bh_pidfd = 5 \<rparr>, BrainSpawned \<lparr> bh_pid = 77, bh_pidfd = 55 \<rparr>,
         BrainReaped \<lparr> bh_pid = 77, bh_pidfd = 55 \<rparr>] \<and>
    \<not> hd_helloed_this_generation (su_holder s') \<and>
    su_pins s' = \<lparr> ps_current = Some 20, ps_previous = Some 8 \<rparr> \<and> strikes (su_breaker s') = 0"
proof -
  let ?h0 = "set_supervisor_status ''running'' False (holder_new sample_cfg)"
  obtain segs h1 where g1: "serve_inner (cd_enc_frame resume_codec) (cd_dec_frame resume_codec) True
      0 0 [arm_round, timeout_round] 6 ?h0 = ([ok_frame 9], segs, Return HelloTimeout h1)"
    and h1: "hd_armed_deploy h1 = Some (NewPin 20, 20000)" "hd_sessions h1 = []" "hd_cfg h1 = sample_cfg"
    using resumed_generation [OF refl, of "''running''" False] by blast
  have d: "snd (note_failure breaker_default 10 False False) = Respawn 500"
    by (simp add: note_failure_def breaker_default_def TRIP_AFTER_def Let_def word_le_nat_alt)
  then obtain br where n: "note_failure breaker_default 10 False False = (br, Respawn 500)"
    by (metis prod.collapse)
  let ?s1 = "resumed_supervisor\<lparr> su_holder := h1, su_live := None, su_breaker := br \<rparr>"
  have t1: "supervise_turn resume_codec path retry resumed_turn resumed_supervisor
    = ([HolderIo (OomScoreAdjZero 7), HolderIo (ok_frame 9)]
         @ sigkill_and_reap \<lparr> bh_pid = 7, bh_pidfd = 5 \<rparr>, SGo ?s1)"
    using g1 by (simp add: supervise_turn_def resumed_supervisor_def sample_supervisor_def
        resumed_turn_def crash_turn_def serve_generation_def with_io_def after_generation_def Let_def
        apply_failure_def n sleep_or_shutdown_def)
  let ?h2 = "fresh_generation (serve_reset (set_supervisor_status ''running'' False h1))"
  have g2: "serve_inner enc dec False 30500 30500 [late_eof_round] 66
      (set_supervisor_status ''running'' False h1) = ([], [], Return BrainEof ?h2)" for enc dec
    using h1 by (intro late_crash_generation) (simp_all add: set_supervisor_status_def sample_cfg_def)
  have a: "take_armed_deploy ?h2 = (?h2\<lparr> hd_armed_deploy := None \<rparr>, Some (NewPin 20))"
    using h1 by (simp add: take_armed_deploy_def fresh_generation_def serve_reset_def
        set_supervisor_status_def)
  have t2: "supervise_turn resume_codec path retry late_crash_turn ?s1
    = ([BrainSpawned \<lparr> bh_pid = 77, bh_pidfd = 55 \<rparr>, HolderIo (OomScoreAdjZero 77),
        BrainReaped \<lparr> bh_pid = 77, bh_pidfd = 55 \<rparr>],
       SGo (?s1\<lparr> su_holder := ?h2\<lparr> hd_armed_deploy := None \<rparr>, su_breaker := note_deploy br,
         su_pins := \<lparr> ps_current = Some 20, ps_previous = Some 8 \<rparr> \<rparr>))"
    using g2 by (simp add: supervise_turn_def resumed_supervisor_def sample_supervisor_def
        late_crash_turn_def crash_turn_def serve_generation_def with_io_def after_generation_def
        Let_def a run_deploy_def brain_reap_def install_new_def)
  show ?thesis
    by (simp add: t1 t2 with_io_def sigkill_and_reap_def ok_frame_def reply_frame_def)
      (simp add: fresh_generation_def)
qed

end
