(* ===== verification/RestartBarrier.thy ===== *)
theory RestartBarrier
  imports Kernel
begin

text \<open>
  The daemon's restart barrier: \<open>daemon/src/restart_coordinator.rs\<close> (the in-flight mutation
  counter, the safe points, the single-restart latch), the three gates \<open>writer_gate.rs\<close>,
  \<open>reap_gate.rs\<close> and \<open>reader_gate.rs\<close>, and the order in which \<open>perform_reexec\<close> and
  \<open>perform_migrate_split\<close> take and release them.

  Threads interleave: every section the code runs under a lock is one step of the relation
  \<open>step\<close>. The guards of the code are scoped, so a thread drops its permits in the reverse order.
\<close>

section \<open>The writer gate\<close>

datatype permit_kind = KWrite | KUnit

text \<open>A permit, and whether it holds a read guard of the gate of its own.\<close>

type_synonym permit = "permit_kind \<times> bool"

text \<open>Where a PTY writer is: outside an acquisition, parked at the door, or past it and waiting
  for the gate.\<close>

datatype writer_pc = Running | AtDoor permit_kind | AtGate permit_kind

record writer =
  wr_depth :: u32
  wr_permits :: "permit list"
  wr_pc :: writer_pc

text \<open>The first step of \<open>write_permit\<close> and \<open>unit_permit\<close>: a nested one is granted on the spot.\<close>

definition write_permit :: "writer \<Rightarrow> writer" where
  "write_permit w =
     (if 0 < wr_depth w then w\<lparr> wr_permits := (KWrite, False) # wr_permits w \<rparr>
      else w\<lparr> wr_pc := AtDoor KWrite \<rparr>)"

definition unit_permit :: "writer \<Rightarrow> writer" where
  "unit_permit w =
     (if 0 < wr_depth w
      then w\<lparr> wr_depth := wr_depth w + 1, wr_permits := (KUnit, False) # wr_permits w \<rparr>
      else w\<lparr> wr_pc := AtDoor KUnit \<rparr>)"

text \<open>The last step of both: the read guard was granted.\<close>

definition granted :: "permit_kind \<Rightarrow> writer \<Rightarrow> writer" where
  "granted k w =
     w\<lparr> wr_pc := Running, wr_permits := (k, True) # wr_permits w,
        wr_depth := (case k of KUnit \<Rightarrow> wr_depth w + 1 | KWrite \<Rightarrow> wr_depth w) \<rparr>"

definition sat_sub_1 :: "'a::len word \<Rightarrow> 'a word" where
  "sat_sub_1 n = (if n = 0 then 0 else n - 1)"

definition drop_permit :: "writer \<Rightarrow> writer" where
  "drop_permit w =
     (case wr_permits w of
        [] \<Rightarrow> w
      | (k, _) # ps \<Rightarrow>
          w\<lparr> wr_permits := ps,
             wr_depth := (case k of KUnit \<Rightarrow> sat_sub_1 (wr_depth w) | KWrite \<Rightarrow> wr_depth w) \<rparr>)"

text \<open>A gate: the lock \<open>RwLock<()>\<close> as its readers and whether it is write-locked.\<close>

record gate =
  ga_readers :: nat
  ga_frozen :: bool

definition gate_read :: "gate \<Rightarrow> gate option" where
  "gate_read g = (if ga_frozen g then None else Some (g\<lparr> ga_readers := ga_readers g + 1 \<rparr>))"

definition gate_release :: "gate \<Rightarrow> gate" where
  "gate_release g = g\<lparr> ga_readers := ga_readers g - 1 \<rparr>"

definition try_write :: "gate \<Rightarrow> gate option" where
  "try_write g =
     (if ga_readers g = 0 \<and> \<not> ga_frozen g then Some (g\<lparr> ga_frozen := True \<rparr>) else None)"

definition gate_thaw :: "gate \<Rightarrow> gate" where
  "gate_thaw g = g\<lparr> ga_frozen := False \<rparr>"

text \<open>The bounded loop of \<open>writer_gate::freeze\<close> over what \<open>try_write\<close> finds and the time that has
  passed at each of its rounds.\<close>

fun freeze_loop :: "millis \<Rightarrow> (gate \<times> millis) list \<Rightarrow> (millis + gate) option" where
  "freeze_loop timeout [] = None"
| "freeze_loop timeout ((g, elapsed) # rs) =
     (case try_write g of
        Some g' \<Rightarrow> Some (Inr g')
      | None \<Rightarrow> if timeout \<le> elapsed then Some (Inl elapsed) else freeze_loop timeout rs)"

section \<open>The coordinator\<close>

record safe_point =
  sf_name :: string
  sf_alive :: bool
  sf_pause_requested :: bool
  sf_paused :: bool

record coordinator =
  rc_in_flight :: u64
  rc_entered_total :: u64
  rc_pause_requested :: bool
  rc_entries :: "safe_point list"

definition coordinator_new :: coordinator where
  "coordinator_new =
     \<lparr> rc_in_flight = 0, rc_entered_total = 0, rc_pause_requested = False, rc_entries = [] \<rparr>"

definition enter_mutation :: "coordinator \<Rightarrow> coordinator" where
  "enter_mutation c =
     c\<lparr> rc_in_flight := rc_in_flight c + 1, rc_entered_total := rc_entered_total c + 1 \<rparr>"

definition leave_mutation :: "coordinator \<Rightarrow> coordinator" where
  "leave_mutation c = c\<lparr> rc_in_flight := sat_sub_1 (rc_in_flight c) \<rparr>"

definition register_subsystem :: "string \<Rightarrow> coordinator \<Rightarrow> coordinator" where
  "register_subsystem name c =
     c\<lparr> rc_entries := rc_entries c @
          [\<lparr> sf_name = name, sf_alive = True, sf_pause_requested = rc_pause_requested c,
             sf_paused = False \<rparr>] \<rparr>"

text \<open>\<open>request_pause_all\<close> and \<open>resume_all\<close>; a dead registration is pruned.\<close>

definition set_pause :: "bool \<Rightarrow> coordinator \<Rightarrow> coordinator" where
  "set_pause b c =
     c\<lparr> rc_pause_requested := b,
        rc_entries := map (\<lambda>s. s\<lparr> sf_pause_requested := b \<rparr>) (filter sf_alive (rc_entries c)) \<rparr>"

definition request_pause_all :: "coordinator \<Rightarrow> coordinator" where
  "request_pause_all = set_pause True"

definition resume_all :: "coordinator \<Rightarrow> coordinator" where
  "resume_all = set_pause False"

definition unpaused_subsystems :: "coordinator \<Rightarrow> string list" where
  "unpaused_subsystems c = map sf_name (filter (\<lambda>s. \<not> sf_paused s) (filter sf_alive (rc_entries c)))"

text \<open>The two steps of \<open>park_until_resumed\<close>.\<close>

definition park :: "safe_point \<Rightarrow> safe_point" where
  "park s = s\<lparr> sf_paused := True \<rparr>"

definition unpark :: "safe_point \<Rightarrow> safe_point option" where
  "unpark s = (if sf_pause_requested s then None else Some (s\<lparr> sf_paused := False \<rparr>))"

record quiesce_timed_out =
  qt_in_flight :: u64
  qt_unpaused :: "string list"

definition quiesced :: "coordinator \<Rightarrow> bool" where
  "quiesced c \<longleftrightarrow> rc_in_flight c = 0 \<and> unpaused_subsystems c = []"

text \<open>\<open>wait_quiesced\<close> over the coordinator as each round of its loop finds it, and the clock.\<close>

fun wait_quiesced ::
  "millis \<Rightarrow> (coordinator \<times> millis) list \<Rightarrow> (quiesce_timed_out + unit) option" where
  "wait_quiesced deadline [] = None"
| "wait_quiesced deadline ((c, now) # rs) =
     (if quiesced c then Some (Inr ())
      else if deadline \<le> now
      then Some (Inl \<lparr> qt_in_flight = rc_in_flight c, qt_unpaused = unpaused_subsystems c \<rparr>)
      else wait_quiesced deadline rs)"

section \<open>The latch\<close>

record daemon_flags =
  df_draining :: bool
  df_restarting :: bool

text \<open>\<open>begin\<close> under the state lock; \<open>None\<close> is \<open>RestartBusy\<close>, else the drain value to restore.\<close>

definition begin_restart :: "daemon_flags \<Rightarrow> (daemon_flags \<times> bool) option" where
  "begin_restart d =
     (if df_restarting d then None
      else Some (d\<lparr> df_restarting := True, df_draining := True \<rparr>, df_draining d))"

definition end_restart :: "bool \<Rightarrow> daemon_flags \<Rightarrow> daemon_flags" where
  "end_restart prior d = d\<lparr> df_restarting := False, df_draining := prior \<rparr>"

definition daemon_drain :: "bool \<Rightarrow> daemon_flags \<Rightarrow> daemon_flags" where
  "daemon_drain enable d = d\<lparr> df_draining := enable \<rparr>"

definition refuse_if_draining :: "daemon_flags \<Rightarrow> bool" where
  "refuse_if_draining d = df_draining d"

section \<open>The world\<close>

text \<open>
  What a restart attempt holds, the last taken first: the pause of the safe points, the barrier,
  the writers' door, and the three freezes. \<open>HQuiesced n\<close> records how many safe points were
  registered when the barrier was reached.
\<close>

datatype hold = HBegun | HQuiesced nat | HPause | HWriter | HReap | HReader

text \<open>
  A call of \<open>perform_reexec\<close> or \<open>perform_migrate_split\<close>: not in the barrier, past the latch, at
  work, or undoing what it did. It carries the drain value to restore.
\<close>

datatype attempt =
    Idle
  | Latched bool
  | Going bool "hold list"
  | Releasing bool "hold list"

text \<open>
  \<open>wd_dispatches\<close> are the counted dispatches in flight; \<open>True\<close> marks one whose body has passed
  \<open>refuse_if_draining\<close>, so that it may be spawning a session.
\<close>

record world =
  wd_writers :: "writer list"
  wd_gate :: gate
  wd_door :: nat
  wd_reap :: gate
  wd_reader :: gate
  wd_coord :: coordinator
  wd_dispatches :: "bool list"
  wd_flags :: daemon_flags
  wd_attempts :: "attempt list"

text \<open>
  What the attempt takes next, in the order of the code, and the world afterwards; \<open>None\<close> while
  it is not to be had. The attempt then waits or, at its timeout, gives up.
\<close>

definition acquire :: "hold list \<Rightarrow> world \<Rightarrow> (hold \<times> world) option" where
  "acquire hs w =
     (case hs of
        [] \<Rightarrow> None
      | HBegun # _ \<Rightarrow>
          if quiesced (wd_coord w) then Some (HQuiesced (length (rc_entries (wd_coord w))), w)
          else None
      | HQuiesced _ # _ \<Rightarrow> Some (HPause, w\<lparr> wd_door := wd_door w + 1 \<rparr>)
      | HPause # _ \<Rightarrow>
          map_option (\<lambda>g. (HWriter, w\<lparr> wd_gate := g \<rparr>)) (try_write (wd_gate w))
      | HWriter # _ \<Rightarrow>
          map_option (\<lambda>g. (HReap, w\<lparr> wd_reap := g \<rparr>)) (try_write (wd_reap w))
      | HReap # _ \<Rightarrow>
          map_option (\<lambda>g. (HReader, w\<lparr> wd_reader := g \<rparr>)) (try_write (wd_reader w))
      | HReader # _ \<Rightarrow> None)"

definition release :: "hold \<Rightarrow> world \<Rightarrow> world" where
  "release x w =
     (case x of
        HBegun \<Rightarrow> w\<lparr> wd_coord := resume_all (wd_coord w) \<rparr>
      | HQuiesced _ \<Rightarrow> w
      | HPause \<Rightarrow> w\<lparr> wd_door := wd_door w - 1 \<rparr>
      | HWriter \<Rightarrow> w\<lparr> wd_gate := gate_thaw (wd_gate w) \<rparr>
      | HReap \<Rightarrow> w\<lparr> wd_reap := gate_thaw (wd_reap w) \<rparr>
      | HReader \<Rightarrow> w\<lparr> wd_reader := gate_thaw (wd_reader w) \<rparr>)"

text \<open>
  One section of an attempt. The refusals before \<open>begin\<close> and what the attempt does under the
  freezes touch nothing modelled here; an exec that succeeds ends the daemon, and with it this
  world, while the attempt holds everything.
\<close>

datatype attempt_move = Begin | Pause | Take | GiveUp | Undo

definition set_attempt :: "nat \<Rightarrow> attempt \<Rightarrow> world \<Rightarrow> world" where
  "set_attempt i a w = w\<lparr> wd_attempts := (wd_attempts w)[i := a] \<rparr>"

definition attempt_step :: "attempt_move \<Rightarrow> nat \<Rightarrow> world \<Rightarrow> world option" where
  "attempt_step m i w =
     (case (m, wd_attempts w ! i) of
        (Begin, Idle) \<Rightarrow>
          (case begin_restart (wd_flags w) of
             None \<Rightarrow> Some w
           | Some (d, prior) \<Rightarrow> Some (set_attempt i (Latched prior) (w\<lparr> wd_flags := d \<rparr>)))
      | (Pause, Latched prior) \<Rightarrow>
          Some (set_attempt i (Going prior [HBegun])
            (w\<lparr> wd_coord := request_pause_all (wd_coord w) \<rparr>))
      | (Take, Going prior hs) \<Rightarrow>
          map_option (\<lambda>(x, w'). set_attempt i (Going prior (x # hs)) w') (acquire hs w)
      | (GiveUp, Going prior hs) \<Rightarrow> Some (set_attempt i (Releasing prior hs) w)
      | (Undo, Releasing prior (x # hs)) \<Rightarrow>
          Some (set_attempt i (Releasing prior hs) (release x w))
      | (Undo, Releasing prior []) \<Rightarrow>
          Some (set_attempt i Idle (w\<lparr> wd_flags := end_restart prior (wd_flags w) \<rparr>))
      | _ \<Rightarrow> None)"

text \<open>One section of a writer thread.\<close>

datatype writer_move = Ask permit_kind | PassDoor | PassGate | DropLast

definition writer_step :: "writer_move \<Rightarrow> nat \<Rightarrow> world \<Rightarrow> world option" where
  "writer_step m i w =
     (let x = wd_writers w ! i; upd = (\<lambda>x'. w\<lparr> wd_writers := (wd_writers w)[i := x'] \<rparr>) in
      case (m, wr_pc x) of
        (Ask KWrite, Running) \<Rightarrow> Some (upd (write_permit x))
      | (Ask KUnit, Running) \<Rightarrow>
          if unat (wr_depth x) < 2 ^ 32 - 1 then Some (upd (unit_permit x)) else None
      | (PassDoor, AtDoor k) \<Rightarrow>
          if wd_door w = 0 then Some (upd (x\<lparr> wr_pc := AtGate k \<rparr>)) else None
      | (PassGate, AtGate k) \<Rightarrow>
          map_option (\<lambda>g. (upd (granted k x))\<lparr> wd_gate := g \<rparr>) (gate_read (wd_gate w))
      | (DropLast, Running) \<Rightarrow>
          (case wr_permits x of
             [] \<Rightarrow> None
           | (_, g) # _ \<Rightarrow>
               Some ((upd (drop_permit x))\<lparr> wd_gate :=
                 (if g then gate_release (wd_gate w) else wd_gate w) \<rparr>))
      | _ \<Rightarrow> None)"

text \<open>One section of a safe point's thread.\<close>

datatype point_move = Park | Unpark | Unregister

definition point_step :: "point_move \<Rightarrow> nat \<Rightarrow> world \<Rightarrow> world option" where
  "point_step m i w =
     (let c = wd_coord w; s = rc_entries c ! i;
          upd = (\<lambda>s'. w\<lparr> wd_coord := c\<lparr> rc_entries := (rc_entries c)[i := s'] \<rparr> \<rparr>) in
      if \<not> sf_alive s then None
      else case m of
        Park \<Rightarrow> if sf_paused s then None else Some (upd (park s))
      | Unpark \<Rightarrow> if sf_paused s then map_option upd (unpark s) else None
      | Unregister \<Rightarrow> if sf_paused s then None else Some (upd (s\<lparr> sf_alive := False \<rparr>)))"

text \<open>
  What can happen next. A thread that would block has no step; \<open>None\<close> also stands for a step of
  a thread that is not there.
\<close>

datatype event =
    Writer writer_move nat
  | ReapBegin | ReapEnd
  | ReadBegin | ReadEnd
  | DispatchEnter
  | DispatchCheck nat
  | DispatchLeave nat
  | Register string
  | Point point_move nat
  | Drain bool
  | Attempt attempt_move nat

definition drop_nth :: "nat \<Rightarrow> 'a list \<Rightarrow> 'a list" where
  "drop_nth i xs = take i xs @ drop (Suc i) xs"

fun fire :: "event \<Rightarrow> world \<Rightarrow> world option" where
  "fire (Writer m i) w = (if i < length (wd_writers w) then writer_step m i w else None)"
| "fire ReapBegin w = map_option (\<lambda>g. w\<lparr> wd_reap := g \<rparr>) (gate_read (wd_reap w))"
| "fire ReapEnd w =
     (if ga_readers (wd_reap w) = 0 then None
      else Some (w\<lparr> wd_reap := gate_release (wd_reap w) \<rparr>))"
| "fire ReadBegin w = map_option (\<lambda>g. w\<lparr> wd_reader := g \<rparr>) (gate_read (wd_reader w))"
| "fire ReadEnd w =
     (if ga_readers (wd_reader w) = 0 then None
      else Some (w\<lparr> wd_reader := gate_release (wd_reader w) \<rparr>))"
| "fire DispatchEnter w =
     (if unat (rc_in_flight (wd_coord w)) < 2 ^ 64 - 1
      then Some (w\<lparr> wd_coord := enter_mutation (wd_coord w),
                   wd_dispatches := wd_dispatches w @ [False] \<rparr>)
      else None)"
| "fire (DispatchCheck i) w =
     (if i < length (wd_dispatches w)
      then Some (if refuse_if_draining (wd_flags w) then w
                 else w\<lparr> wd_dispatches := (wd_dispatches w)[i := True] \<rparr>)
      else None)"
| "fire (DispatchLeave i) w =
     (if i < length (wd_dispatches w)
      then Some (w\<lparr> wd_coord := leave_mutation (wd_coord w),
                   wd_dispatches := drop_nth i (wd_dispatches w) \<rparr>)
      else None)"
| "fire (Register name) w = Some (w\<lparr> wd_coord := register_subsystem name (wd_coord w) \<rparr>)"
| "fire (Point m i) w =
     (if i < length (rc_entries (wd_coord w)) then point_step m i w else None)"
| "fire (Drain b) w = Some (w\<lparr> wd_flags := daemon_drain b (wd_flags w) \<rparr>)"
| "fire (Attempt m i) w = (if i < length (wd_attempts w) then attempt_step m i w else None)"

fun fires :: "event list \<Rightarrow> world \<Rightarrow> world option" where
  "fires [] w = Some w"
| "fires (e # es) w = (case fire e w of None \<Rightarrow> None | Some w' \<Rightarrow> fires es w')"

text \<open>A daemon at its start, with that many writer threads and restart callers.\<close>

definition world_init :: "nat \<Rightarrow> nat \<Rightarrow> bool \<Rightarrow> world" where
  "world_init writers callers draining =
     \<lparr> wd_writers = replicate writers \<lparr> wr_depth = 0, wr_permits = [], wr_pc = Running \<rparr>,
        wd_gate = \<lparr> ga_readers = 0, ga_frozen = False \<rparr>, wd_door = 0,
        wd_reap = \<lparr> ga_readers = 0, ga_frozen = False \<rparr>,
        wd_reader = \<lparr> ga_readers = 0, ga_frozen = False \<rparr>,
        wd_coord = coordinator_new, wd_dispatches = [],
        wd_flags = \<lparr> df_draining = draining, df_restarting = False \<rparr>,
        wd_attempts = replicate callers Idle \<rparr>"

end
