(* ===== verification/RestartInv.thy ===== *)
theory RestartInv
  imports RestartBarrier
begin

text \<open>
  The invariants of the restart barrier, each kept by every step: the latch admits one attempt,
  the door and the freezes are exactly what that attempt holds, a gate's readers are the guards
  its writers hold, the counter counts the dispatches, and a safe point that was parked when the
  barrier was reached stays parked.
\<close>

section \<open>The invariants\<close>

definition holds_of :: "attempt \<Rightarrow> hold list" where
  "holds_of a = (case a of Going _ hs \<Rightarrow> hs | Releasing _ hs \<Rightarrow> hs | _ \<Rightarrow> [])"

lemma holds_of_simps [simp]:
  "holds_of Idle = []" "holds_of (Latched p) = []"
  "holds_of (Going p hs) = hs" "holds_of (Releasing p hs) = hs"
  by (simp_all add: holds_of_def)

definition held :: "world \<Rightarrow> hold set" where
  "held w = (\<Union>a\<in>set (wd_attempts w). set (holds_of a))"

fun rank :: "hold \<Rightarrow> nat" where
  "rank HBegun = 0"
| "rank (HQuiesced _) = 1"
| "rank HPause = 2"
| "rank HWriter = 3"
| "rank HReap = 4"
| "rank HReader = 5"

text \<open>Holds are taken in the code's order without a gap.\<close>

fun in_order :: "hold list \<Rightarrow> bool" where
  "in_order [] \<longleftrightarrow> True"
| "in_order (x # hs) \<longleftrightarrow> rank x = length hs \<and> in_order hs"

definition sole_at :: "nat \<Rightarrow> attempt list \<Rightarrow> bool" where
  "sole_at i as \<longleftrightarrow> i < length as \<and> (\<forall>j<length as. j \<noteq> i \<longrightarrow> as ! j = Idle)"

definition latch_ok :: "world \<Rightarrow> bool" where
  "latch_ok w \<longleftrightarrow>
     (if df_restarting (wd_flags w)
      then \<exists>i. sole_at i (wd_attempts w) \<and> wd_attempts w ! i \<noteq> Idle
      else \<forall>a\<in>set (wd_attempts w). a = Idle) \<and>
     (\<forall>a\<in>set (wd_attempts w). in_order (holds_of a))"

definition gate_ok :: "bool \<Rightarrow> gate \<Rightarrow> bool" where
  "gate_ok frozen g \<longleftrightarrow> ga_frozen g = frozen \<and> (frozen \<longrightarrow> ga_readers g = 0)"

definition gates_ok :: "world \<Rightarrow> bool" where
  "gates_ok w \<longleftrightarrow>
     wd_door w = (if HPause \<in> held w then 1 else 0) \<and>
     gate_ok (HWriter \<in> held w) (wd_gate w) \<and>
     gate_ok (HReap \<in> held w) (wd_reap w) \<and>
     gate_ok (HReader \<in> held w) (wd_reader w)"

definition units :: "permit list \<Rightarrow> nat" where
  "units ps = length (filter (\<lambda>p. fst p = KUnit) ps)"

definition guards :: "writer \<Rightarrow> nat" where
  "guards x = length (filter snd (wr_permits x))"

text \<open>A permit without a guard of its own lies inside a unit.\<close>

fun nested :: "permit list \<Rightarrow> bool" where
  "nested [] \<longleftrightarrow> True"
| "nested ((k, g) # ps) \<longleftrightarrow> (g \<or> 0 < units ps) \<and> nested ps"

definition writer_ok :: "writer \<Rightarrow> bool" where
  "writer_ok x \<longleftrightarrow>
     unat (wr_depth x) = units (wr_permits x) \<and> nested (wr_permits x) \<and>
     (wr_pc x \<noteq> Running \<longrightarrow> wr_depth x = 0)"

definition writers_ok :: "world \<Rightarrow> bool" where
  "writers_ok w \<longleftrightarrow>
     ga_readers (wd_gate w) = sum_list (map guards (wd_writers w)) \<and>
     (\<forall>x\<in>set (wd_writers w). writer_ok x)"

definition count_ok :: "world \<Rightarrow> bool" where
  "count_ok w \<longleftrightarrow> unat (rc_in_flight (wd_coord w)) = length (wd_dispatches w)"

definition parked_below :: "nat \<Rightarrow> safe_point list \<Rightarrow> bool" where
  "parked_below n ss \<longleftrightarrow>
     n \<le> length ss \<and> (\<forall>j<n. sf_alive (ss ! j) \<longrightarrow> sf_paused (ss ! j))"

definition points_ok :: "world \<Rightarrow> bool" where
  "points_ok w \<longleftrightarrow>
     rc_pause_requested (wd_coord w) = (HBegun \<in> held w) \<and>
     (\<forall>s\<in>set (rc_entries (wd_coord w)). sf_pause_requested s = (HBegun \<in> held w)) \<and>
     (\<forall>n. HQuiesced n \<in> held w \<longrightarrow> parked_below n (rc_entries (wd_coord w)))"

definition fenced :: "world \<Rightarrow> bool" where
  "fenced w \<longleftrightarrow>
     (df_restarting (wd_flags w) \<longrightarrow> df_draining (wd_flags w)) \<and>
     ((\<exists>n. HQuiesced n \<in> held w) \<longrightarrow> True \<notin> set (wd_dispatches w))"

section \<open>Holds in order\<close>

lemma in_order_cases:
  assumes "in_order hs"
  obtains "hs = []" | "hs = [HBegun]" | n where "hs = [HQuiesced n, HBegun]"
    | n where "hs = [HPause, HQuiesced n, HBegun]"
    | n where "hs = [HWriter, HPause, HQuiesced n, HBegun]"
    | n where "hs = [HReap, HWriter, HPause, HQuiesced n, HBegun]"
    | n where "hs = [HReader, HReap, HWriter, HPause, HQuiesced n, HBegun]"
proof -
  have "hs = [] \<or> hs = [HBegun] \<or> (\<exists>n. hs = [HQuiesced n, HBegun])
      \<or> (\<exists>n. hs = [HPause, HQuiesced n, HBegun])
      \<or> (\<exists>n. hs = [HWriter, HPause, HQuiesced n, HBegun])
      \<or> (\<exists>n. hs = [HReap, HWriter, HPause, HQuiesced n, HBegun])
      \<or> (\<exists>n. hs = [HReader, HReap, HWriter, HPause, HQuiesced n, HBegun])"
    using assms
  proof (induction hs)
    case (Cons x hs)
    then show ?case by (cases x) auto
  qed simp
  then show thesis using that by blast
qed

lemma held_sole: "sole_at i (wd_attempts w) \<Longrightarrow> held w = set (holds_of (wd_attempts w ! i))"
proof -
  assume s: "sole_at i (wd_attempts w)"
  have "wd_attempts w = take i (wd_attempts w) @ wd_attempts w ! i # drop (Suc i) (wd_attempts w)"
    using s by (simp add: sole_at_def id_take_nth_drop)
  then have "set (wd_attempts w) =
      insert (wd_attempts w ! i) (set (take i (wd_attempts w)) \<union> set (drop (Suc i) (wd_attempts w)))"
    by (metis (no_types) Un_insert_right list.simps(15) set_append)
  moreover have "\<forall>a\<in>set (take i (wd_attempts w)) \<union> set (drop (Suc i) (wd_attempts w)). a = Idle"
    using s by (auto simp: sole_at_def in_set_conv_nth)
  ultimately have "\<forall>a\<in>set (wd_attempts w). a = wd_attempts w ! i \<or> a = Idle" by auto
  moreover have "wd_attempts w ! i \<in> set (wd_attempts w)" using s by (simp add: sole_at_def)
  ultimately show ?thesis unfolding held_def by fastforce
qed

lemma sole_update: "sole_at i as \<Longrightarrow> sole_at i (as[i := a])"
  by (simp add: sole_at_def)

lemma held_set_attempt:
  "sole_at i (wd_attempts w) \<Longrightarrow> held (set_attempt i a w) = set (holds_of a)"
  using held_sole [of i "set_attempt i a w"] sole_update [of i "wd_attempts w" a]
  by (simp add: set_attempt_def sole_at_def)

text \<open>The attempt that moves is the one that holds the latch.\<close>

lemma latched_sole:
  assumes "latch_ok w" and "i < length (wd_attempts w)" and "wd_attempts w ! i \<noteq> Idle"
  shows "sole_at i (wd_attempts w)" and "df_restarting (wd_flags w)"
proof -
  show r: "df_restarting (wd_flags w)"
    using assms by (metis latch_ok_def nth_mem)
  then obtain k where "sole_at k (wd_attempts w)" using assms(1) by (auto simp: latch_ok_def)
  moreover from this have "k = i" using assms(2,3) by (auto simp: sole_at_def)
  ultimately show "sole_at i (wd_attempts w)" by simp
qed

lemma idle_sole:
  assumes "latch_ok w" and "i < length (wd_attempts w)" and "\<not> df_restarting (wd_flags w)"
  shows "sole_at i (wd_attempts w)" and "held w = {}"
  using assms by (auto simp: latch_ok_def sole_at_def held_def)

lemma latch_order: "latch_ok w \<Longrightarrow> i < length (wd_attempts w) \<Longrightarrow> in_order (holds_of (wd_attempts w ! i))"
  by (simp add: latch_ok_def)

text \<open>What one attempt holds comes with everything below it.\<close>

lemma held_in_order:
  assumes "latch_ok w"
  obtains hs where "held w = set hs" and "in_order hs"
proof (cases "df_restarting (wd_flags w)")
  case True
  then obtain i where s: "sole_at i (wd_attempts w)" using assms by (auto simp: latch_ok_def)
  show thesis using that [OF held_sole [OF s]] latch_order [OF assms] s by (auto simp: sole_at_def)
next
  case False
  then have "held w = {}" using assms by (auto simp: latch_ok_def held_def)
  then show thesis using that [of "[]"] by simp
qed

lemma quiesced_has_begun: "latch_ok w \<Longrightarrow> HQuiesced n \<in> held w \<Longrightarrow> HBegun \<in> held w"
  by (erule held_in_order, elim in_order_cases) auto

section \<open>Writers\<close>

lemma nested_no_guard: "nested ps \<Longrightarrow> filter snd ps = [] \<Longrightarrow> ps = []"
  by (induction ps rule: nested.induct) (auto simp: units_def split: if_splits)

lemma writer_quiet:
  assumes "writer_ok x" and "guards x = 0"
  shows "wr_permits x = []" and "wr_depth x = 0"
proof -
  show p: "wr_permits x = []"
    using assms nested_no_guard by (auto simp: writer_ok_def guards_def)
  show "wr_depth x = 0" using assms(1) p by (simp add: writer_ok_def units_def unat_eq_0)
qed

lemma sum_list_update_nat:
  fixes f :: "'a \<Rightarrow> nat"
  assumes "i < length xs"
  shows "sum_list (map f (xs[i := y])) + f (xs ! i) = sum_list (map f xs) + f y"
  using assms
proof (induction xs arbitrary: i)
  case (Cons a xs)
  then show ?case by (cases i) (auto simp: add_ac)
qed simp

lemma unat_sat_sub_1: "unat (sat_sub_1 n) = unat n - 1"
  by (cases "n = 0") (auto simp: sat_sub_1_def unat_minus_one)

lemma unat_Suc:
  assumes "unat (n :: 'a::len word) < 2 ^ LENGTH('a) - 1"
  shows "unat (n + 1) = Suc (unat n)"
  using assms by (metis Suc_eq_plus1 less_diff_conv unat_1 unat_add_lem)

text \<open>One writer's step, apart from the others.\<close>

lemma writer_asks_ok:
  assumes "writer_ok x" and "wr_pc x = Running"
  shows "writer_ok (write_permit x)" and "guards (write_permit x) = guards x"
    and "unat (wr_depth x) < 2 ^ 32 - 1 \<Longrightarrow> writer_ok (unit_permit x)"
    and "guards (unit_permit x) = guards x"
proof -
  show "writer_ok (write_permit x)" "guards (write_permit x) = guards x" "guards (unit_permit x) = guards x"
    using assms
    by (auto simp: writer_ok_def write_permit_def unit_permit_def guards_def units_def unat_gt_0
        word_gt_0 unat_eq_0)
  show "writer_ok (unit_permit x)" if "unat (wr_depth x) < 2 ^ 32 - 1"
    using assms that unat_Suc [of "wr_depth x"]
    by (auto simp: writer_ok_def unit_permit_def units_def word_gt_0 unat_eq_0)
qed

lemma granted_ok:
  assumes "writer_ok x" and "wr_pc x \<noteq> Running"
  shows "writer_ok (granted k x)" and "guards (granted k x) = Suc (guards x)"
  using assms by (auto simp: writer_ok_def granted_def guards_def units_def split: permit_kind.splits)

lemma drop_ok:
  assumes "writer_ok x" and "wr_pc x = Running" and "wr_permits x = (k, g) # ps"
  shows "writer_ok (drop_permit x)"
    and "guards x = (if g then 1 else 0) + guards (drop_permit x)"
  using assms
  by (auto simp: writer_ok_def drop_permit_def guards_def units_def unat_sat_sub_1 split: permit_kind.splits)

lemma sum_guards:
  assumes "i < length xs"
  shows "sum_list (map guards (xs[i := y])) + guards (xs ! i) = sum_list (map guards xs) + guards y"
  by (rule sum_list_update_nat [OF assms])

definition set_writer :: "nat \<Rightarrow> writer \<Rightarrow> world \<Rightarrow> world" where
  "set_writer i x w = w\<lparr> wd_writers := (wd_writers w)[i := x] \<rparr>"

lemma writer_step_cases:
  assumes "writer_step m i w = Some w'"
  obtains (wrote) "m = Ask KWrite" "wr_pc (wd_writers w ! i) = Running"
      "w' = set_writer i (write_permit (wd_writers w ! i)) w"
  | (unit) "m = Ask KUnit" "wr_pc (wd_writers w ! i) = Running"
      "unat (wr_depth (wd_writers w ! i)) < 2 ^ 32 - 1"
      "w' = set_writer i (unit_permit (wd_writers w ! i)) w"
  | (door) k where "m = PassDoor" "wr_pc (wd_writers w ! i) = AtDoor k" "wd_door w = 0"
      "w' = set_writer i ((wd_writers w ! i)\<lparr> wr_pc := AtGate k \<rparr>) w"
  | (gate) k where "m = PassGate" "wr_pc (wd_writers w ! i) = AtGate k"
      "\<not> ga_frozen (wd_gate w)"
      "w' = (set_writer i (granted k (wd_writers w ! i)) w)
         \<lparr> wd_gate := (wd_gate w)\<lparr> ga_readers := ga_readers (wd_gate w) + 1 \<rparr> \<rparr>"
  | (dropped) k g ps where "m = DropLast" "wr_pc (wd_writers w ! i) = Running"
      "wr_permits (wd_writers w ! i) = (k, g) # ps"
      "w' = (set_writer i (drop_permit (wd_writers w ! i)) w)
         \<lparr> wd_gate := (wd_gate w)\<lparr> ga_readers := ga_readers (wd_gate w) - (if g then 1 else 0) \<rparr> \<rparr>"
proof (cases m)
  case (Ask k)
  then show thesis
    using assms wrote unit
    by (cases k; cases "wr_pc (wd_writers w ! i)")
      (auto simp: writer_step_def Let_def set_writer_def split: if_splits)
next
  case DropLast
  then show thesis
    using assms dropped
    by (cases "wr_pc (wd_writers w ! i)"; cases "wr_permits (wd_writers w ! i)")
      (auto simp: writer_step_def Let_def set_writer_def gate_release_def split: if_splits)
qed (use assms door gate in \<open>auto simp: writer_step_def Let_def set_writer_def gate_read_def
    split: writer_pc.splits if_splits\<close>)

lemma writer_step_ok:
  assumes "writer_step m i w = Some w'" and "i < length (wd_writers w)" and "writers_ok w"
  shows "writers_ok w'"
proof -
  define x where "x = wd_writers w ! i"
  have ok: "writer_ok x" "\<forall>y\<in>set (wd_writers w). writer_ok y"
    and readers: "ga_readers (wd_gate w) = sum_list (map guards (wd_writers w))"
    using assms(2,3) by (auto simp: writers_ok_def x_def)
  have upd: "\<forall>y\<in>set ((wd_writers w)[i := x']). writer_ok y" if "writer_ok x'" for x'
    using ok(2) that set_update_subset_insert [of "wd_writers w" i x'] by auto
  note sums = sum_guards [OF assms(2), folded x_def]
  have keep: "writers_ok (set_writer i x' w)" if "writer_ok x'" "guards x' = guards x" for x'
    using sums [of x'] upd [OF that(1)] that(2) readers by (simp add: writers_ok_def set_writer_def)
  from assms(1) show ?thesis
  proof (cases rule: writer_step_cases)
    case (door k)
    then have "writer_ok (x\<lparr> wr_pc := AtGate k \<rparr>)"
      using ok(1) by (auto simp: writer_ok_def x_def)
    then show ?thesis using keep door by (simp add: guards_def x_def)
  next
    case (gate k)
    then have pc: "wr_pc x \<noteq> Running" by (simp add: x_def)
    show ?thesis
      using gate granted_ok [OF ok(1) pc, of k] sums [of "granted k x"] upd [of "granted k x"] readers
      by (simp add: writers_ok_def set_writer_def x_def [symmetric])
  next
    case (dropped k g ps)
    note d = drop_ok [OF ok(1) dropped(2,3) [folded x_def]]
    have "ga_readers (wd_gate w) - (if g then 1 else 0) =
        sum_list (map guards ((wd_writers w)[i := drop_permit x]))"
      using sums [of "drop_permit x"] d(2) readers by (cases g) simp_all
    then show ?thesis
      using dropped upd [OF d(1)] by (simp add: writers_ok_def set_writer_def x_def [symmetric])
  qed (use keep writer_asks_ok [OF ok(1)] in \<open>auto simp: x_def\<close>)
qed

section \<open>Frames\<close>

text \<open>What a step that is not an attempt's leaves alone.\<close>

lemma held_simps [simp]:
  "held (w\<lparr> wd_coord := c \<rparr>) = held w" "held (w\<lparr> wd_flags := f \<rparr>) = held w"
  "held (w\<lparr> wd_gate := g \<rparr>) = held w" "held (w\<lparr> wd_reap := g \<rparr>) = held w"
  "held (w\<lparr> wd_reader := g \<rparr>) = held w" "held (w\<lparr> wd_door := n \<rparr>) = held w"
  "held (w\<lparr> wd_dispatches := ds \<rparr>) = held w" "held (w\<lparr> wd_writers := xs \<rparr>) = held w"
  by (simp_all add: held_def)

lemma held_cong: "wd_attempts w' = wd_attempts w \<Longrightarrow> held w' = held w"
  by (simp add: held_def)

lemma writer_frame:
  assumes "writer_step m i w = Some w'"
  shows "wd_attempts w' = wd_attempts w" and "wd_flags w' = wd_flags w"
    and "wd_coord w' = wd_coord w" and "wd_dispatches w' = wd_dispatches w"
    and "wd_door w' = wd_door w" and "wd_reap w' = wd_reap w" and "wd_reader w' = wd_reader w"
    and "ga_frozen (wd_gate w') = ga_frozen (wd_gate w)"
    and "ga_frozen (wd_gate w) \<longrightarrow> ga_readers (wd_gate w') \<le> ga_readers (wd_gate w)"
  using assms by (cases rule: writer_step_cases; simp add: set_writer_def)+

lemma point_frame:
  assumes "point_step m i w = Some w'"
  shows "wd_attempts w' = wd_attempts w" and "wd_flags w' = wd_flags w"
    and "wd_writers w' = wd_writers w" and "wd_dispatches w' = wd_dispatches w"
    and "wd_door w' = wd_door w" and "wd_reap w' = wd_reap w" and "wd_reader w' = wd_reader w"
    and "wd_gate w' = wd_gate w" and "rc_in_flight (wd_coord w') = rc_in_flight (wd_coord w)"
    and "rc_pause_requested (wd_coord w') = rc_pause_requested (wd_coord w)"
  using assms
  by (auto simp: point_step_def Let_def split: point_move.splits if_splits)

lemma attempt_frame:
  assumes "attempt_step m i w = Some w'"
  shows "wd_writers w' = wd_writers w" and "wd_dispatches w' = wd_dispatches w"
    and "rc_in_flight (wd_coord w') = rc_in_flight (wd_coord w)"
    and "ga_readers (wd_gate w') = ga_readers (wd_gate w)"
  using assms
  by (auto simp: attempt_step_def acquire_def release_def set_attempt_def try_write_def
      gate_thaw_def request_pause_all_def resume_all_def set_pause_def
      split: attempt_move.splits attempt.splits option.splits list.splits hold.splits if_splits)

text \<open>The cases of an attempt's step.\<close>

lemma attempt_step_cases:
  assumes "attempt_step m i w = Some w'"
  obtains (refused) "m = Begin" "wd_attempts w ! i = Idle" "df_restarting (wd_flags w)" "w' = w"
  | (begun) "m = Begin" "wd_attempts w ! i = Idle" "\<not> df_restarting (wd_flags w)"
      "w' = set_attempt i (Latched (df_draining (wd_flags w)))
         (w\<lparr> wd_flags := (wd_flags w)\<lparr> df_restarting := True, df_draining := True \<rparr> \<rparr>)"
  | (paused) p where "m = Pause" "wd_attempts w ! i = Latched p"
      "w' = set_attempt i (Going p [HBegun]) (w\<lparr> wd_coord := request_pause_all (wd_coord w) \<rparr>)"
  | (taken) p hs x v where "m = Take" "wd_attempts w ! i = Going p hs"
      "acquire hs w = Some (x, v)" "w' = set_attempt i (Going p (x # hs)) v"
  | (given_up) p hs where "m = GiveUp" "wd_attempts w ! i = Going p hs"
      "w' = set_attempt i (Releasing p hs) w"
  | (undone) p x hs where "m = Undo" "wd_attempts w ! i = Releasing p (x # hs)"
      "w' = set_attempt i (Releasing p hs) (release x w)"
  | (ended) p where "m = Undo" "wd_attempts w ! i = Releasing p []"
      "w' = set_attempt i Idle (w\<lparr> wd_flags := end_restart p (wd_flags w) \<rparr>)"
  using assms
  by (cases m; cases "wd_attempts w ! i")
    (auto simp: attempt_step_def begin_restart_def split: if_splits list.splits)

lemma wd_attempts_simps [simp]:
  "wd_attempts (set_attempt i a w) = (wd_attempts w)[i := a]"
  "wd_attempts (release x w) = wd_attempts w"
  by (auto simp: set_attempt_def release_def split: hold.splits)

lemma acquire_rank:
  "acquire hs w = Some (x, v) \<Longrightarrow> in_order hs \<Longrightarrow> in_order (x # hs)"
  by (elim in_order_cases) (auto simp: acquire_def split: if_splits)

lemma acquire_frame:
  assumes "acquire hs w = Some (x, v)"
  shows "wd_attempts v = wd_attempts w" and "wd_flags v = wd_flags w"
  using assms by (auto simp: acquire_def split: hold.splits list.splits if_splits)

lemma release_flags [simp]: "wd_flags (release x w) = wd_flags w"
  by (auto simp: release_def split: hold.splits)

lemma set_attempt_simps [simp]:
  "wd_flags (set_attempt i a w) = wd_flags w" "wd_coord (set_attempt i a w) = wd_coord w"
  "wd_gate (set_attempt i a w) = wd_gate w" "wd_reap (set_attempt i a w) = wd_reap w"
  "wd_reader (set_attempt i a w) = wd_reader w" "wd_door (set_attempt i a w) = wd_door w"
  "wd_dispatches (set_attempt i a w) = wd_dispatches w"
  "wd_writers (set_attempt i a w) = wd_writers w"
  by (simp_all add: set_attempt_def)

text \<open>The latch, given what the moving attempt becomes.\<close>

lemma latch_moves:
  assumes "sole_at i (wd_attempts w)" and "wd_attempts v = wd_attempts w"
    and "in_order (holds_of a)" and "df_restarting (wd_flags v) = (a \<noteq> Idle)"
  shows "latch_ok (set_attempt i a v)" and "held (set_attempt i a v) = set (holds_of a)"
proof -
  have s: "sole_at i (wd_attempts v)" using assms(1,2) by simp
  show "held (set_attempt i a v) = set (holds_of a)" by (rule held_set_attempt [OF s])
  have others: "\<forall>b\<in>set ((wd_attempts v)[i := a]). b = a \<or> b = Idle"
    using s by (auto simp: sole_at_def in_set_conv_nth nth_list_update split: if_splits)
  show "latch_ok (set_attempt i a v)"
  proof -
    have "\<forall>b\<in>set ((wd_attempts v)[i := a]). in_order (holds_of b)"
      using others assms(3) by fastforce
    then show ?thesis
      using assms(4) sole_update [OF s, of a] s others
      by (auto simp: latch_ok_def sole_at_def intro!: exI [of _ i])
  qed
qed

section \<open>An attempt's steps\<close>

lemma attempt_latch_ok:
  assumes "attempt_step m i w = Some w'" and "i < length (wd_attempts w)" and "latch_ok w"
  shows "latch_ok w'"
proof -
  note ls = latched_sole [OF assms(3,2)] and iso = idle_sole [OF assms(3,2)]
    and lo = latch_order [OF assms(3,2)]
  from assms(1) show ?thesis
  proof (cases rule: attempt_step_cases)
    case begun
    then show ?thesis using iso(1) latch_moves(1) [of i w] by simp
  next
    case (taken p hs x v)
    then have "in_order (x # hs)" using lo acquire_rank [of hs w x v] by simp
    then show ?thesis
      using taken ls latch_moves(1) [of i w v] acquire_frame [OF taken(3)] by simp
  qed (use assms(3) ls lo latch_moves(1) [of i w] latch_moves(1) [of i w "release _ w"]
      in \<open>auto simp: end_restart_def\<close>)
qed

text \<open>
  The cases again, with what is held before and after: only the attempt that has the latch
  moves, so \<open>held\<close> is what it holds.
\<close>

lemma attempt_step_held:
  assumes "attempt_step m i w = Some w'" and "i < length (wd_attempts w)" and "latch_ok w"
  obtains (refused) "w' = w"
  | (begun) p where "\<not> df_restarting (wd_flags w)" "held w = {}" "held w' = {}"
      "w' = set_attempt i (Latched p)
         (w\<lparr> wd_flags := (wd_flags w)\<lparr> df_restarting := True, df_draining := True \<rparr> \<rparr>)"
  | (paused) p where "held w = {}" "held w' = {HBegun}"
      "w' = set_attempt i (Going p [HBegun]) (w\<lparr> wd_coord := request_pause_all (wd_coord w) \<rparr>)"
  | (taken) p hs x v where "in_order hs" "acquire hs w = Some (x, v)"
      "held w = set hs" "held w' = set (x # hs)" "w' = set_attempt i (Going p (x # hs)) v"
  | (given_up) p hs where "held w' = held w" "w' = set_attempt i (Releasing p hs) w"
  | (undone) p x hs where "in_order (x # hs)" "held w = set (x # hs)" "held w' = set hs"
      "w' = set_attempt i (Releasing p hs) (release x w)"
  | (ended) p where "held w = {}" "held w' = {}"
      "w' = set_attempt i Idle (w\<lparr> wd_flags := end_restart p (wd_flags w) \<rparr>)"
proof -
  note sole = latched_sole(1) [OF assms(3,2)] and iso = idle_sole [OF assms(3,2)]
    and lo = latch_order [OF assms(3,2)]
  have before: "held w = set (holds_of (wd_attempts w ! i))" if "wd_attempts w ! i \<noteq> Idle"
    by (rule held_sole [OF sole [OF that]])
  have after: "held (set_attempt i a v) = set (holds_of a)"
    if "wd_attempts w ! i \<noteq> Idle" "wd_attempts v = wd_attempts w" for a v
    using held_set_attempt [of i v a] sole [OF that(1)] that(2) by simp
  from assms(1) show thesis
  proof (cases rule: attempt_step_cases)
    case refused
    then show thesis using that(1) by simp
  next
    case begun
    have "held w' = {}"
      unfolding begun(4) by (subst held_set_attempt) (use iso(1) begun in simp_all)
    then show thesis using that(2) [OF begun(3) iso(2) [OF begun(3)] _ begun(4)] by simp
  next
    case (paused p)
    then show thesis using that(3) before after by simp
  next
    case (taken p hs x v)
    then show thesis
      using that(4) [of hs x v p] before after [of v] lo acquire_frame [OF taken(3)] by simp
  next
    case (given_up p hs)
    then show thesis using that(5) before after by simp
  next
    case (undone p x hs)
    then show thesis using that(6) [of x hs p] before after [of "release x w"] lo by simp
  next
    case (ended p)
    then show thesis using that(7) before after by simp
  qed
qed

lemma gate_ok_thaw [simp]: "gate_ok True g \<Longrightarrow> gate_ok False (gate_thaw g)"
  by (simp add: gate_ok_def gate_thaw_def)

lemma gate_ok_freeze [simp]: "try_write g = Some g' \<Longrightarrow> gate_ok True g'"
  by (auto simp: gate_ok_def try_write_def split: if_splits)

lemma quiesced_parked:
  "quiesced c \<Longrightarrow> parked_below (length (rc_entries c)) (rc_entries c)"
  by (auto simp: quiesced_def unpaused_subsystems_def parked_below_def filter_empty_conv)

lemma attempt_gates_ok:
  assumes "attempt_step m i w = Some w'" and "i < length (wd_attempts w)" and "latch_ok w"
    and "gates_ok w"
  shows "gates_ok w'"
  using assms(1-3)
proof (cases rule: attempt_step_held)
  case (taken p hs x v)
  then show ?thesis
    using assms(4) unfolding gates_ok_def taken(3,4)
    by (elim in_order_cases) (auto simp: taken(5) acquire_def split: if_splits)
next
  case (undone p x hs)
  then show ?thesis
    using assms(4) unfolding gates_ok_def undone(2,3)
    by (elim in_order_cases) (auto simp: undone(4) release_def)
qed (use assms(4) in \<open>auto simp: gates_ok_def\<close>)

lemma attempt_points_ok:
  assumes "attempt_step m i w = Some w'" and "i < length (wd_attempts w)" and "latch_ok w"
    and "points_ok w"
  shows "points_ok w'"
  using assms(1-3)
proof (cases rule: attempt_step_held)
  case (taken p hs x v)
  then show ?thesis
    using assms(4) quiesced_parked [of "wd_coord w"] unfolding points_ok_def taken(3,4)
    by (elim in_order_cases) (auto simp: taken(5) acquire_def split: if_splits)
next
  case (undone p x hs)
  then show ?thesis
    using assms(4) unfolding points_ok_def undone(2,3)
    by (elim in_order_cases) (auto simp: undone(4) release_def resume_all_def set_pause_def)
qed (use assms(4) in \<open>auto simp: points_ok_def request_pause_all_def set_pause_def\<close>)

lemma attempt_fenced:
  assumes "attempt_step m i w = Some w'" and "i < length (wd_attempts w)" and "latch_ok w"
    and "fenced w" and "count_ok w"
  shows "fenced w'"
  using assms(1-3)
proof (cases rule: attempt_step_held)
  case (taken p hs x v)
  moreover have "quiesced (wd_coord w) \<Longrightarrow> wd_dispatches w = []"
    using assms(5) by (simp add: quiesced_def count_ok_def)
  ultimately show ?thesis
    using assms(4) unfolding fenced_def taken(3,4)
    by (elim in_order_cases) (auto simp: taken(5) acquire_def split: if_splits)
next
  case (undone p x hs)
  then show ?thesis
    using assms(4) unfolding fenced_def undone(2,3)
    by (elim in_order_cases) (auto simp: undone(4) release_def)
qed (use assms(4) in \<open>auto simp: fenced_def end_restart_def\<close>)

section \<open>All steps\<close>

definition barrier_ok :: "world \<Rightarrow> bool" where
  "barrier_ok w \<longleftrightarrow> latch_ok w \<and> gates_ok w \<and> writers_ok w \<and> count_ok w \<and> points_ok w"

lemma latch_ok_cong:
  "wd_attempts w' = wd_attempts w \<Longrightarrow> df_restarting (wd_flags w') = df_restarting (wd_flags w) \<Longrightarrow>
     latch_ok w \<Longrightarrow> latch_ok w'"
  by (simp add: latch_ok_def)

lemma point_points_ok:
  assumes "point_step m i w = Some w'" and "i < length (rc_entries (wd_coord w))"
    and "latch_ok w" and "points_ok w"
  shows "points_ok w'"
proof -
  have "held w' = held w" using point_frame(1) [OF assms(1)] by (rule held_cong)
  moreover have "HBegun \<in> held w" if "HQuiesced n \<in> held w" for n
    by (rule quiesced_has_begun [OF assms(3) that])
  ultimately show ?thesis
    using assms(1,2,4)
    by (auto simp: point_step_def Let_def points_ok_def parked_below_def park_def unpark_def
        nth_list_update split: point_move.splits if_splits
        dest!: set_update_subset_insert [THEN subsetD])
qed

lemma register_points_ok:
  "points_ok w \<Longrightarrow> points_ok (w\<lparr> wd_coord := register_subsystem name (wd_coord w) \<rparr>)"
  by (auto simp: points_ok_def register_subsystem_def parked_below_def nth_append)

lemma gate_ok_read: "gate_ok b g \<Longrightarrow> gate_read g = Some g' \<Longrightarrow> gate_ok b g'"
  by (auto simp: gate_ok_def gate_read_def split: if_splits)

lemma gate_ok_release: "gate_ok b g \<Longrightarrow> gate_ok b (gate_release g)"
  by (simp add: gate_ok_def gate_release_def)

lemma barrier_reap:
  "barrier_ok w \<Longrightarrow> gate_ok (HReap \<in> held w) g \<Longrightarrow> barrier_ok (w\<lparr> wd_reap := g \<rparr>)"
  by (simp add: barrier_ok_def latch_ok_def gates_ok_def writers_ok_def count_ok_def points_ok_def)

lemma barrier_reader:
  "barrier_ok w \<Longrightarrow> gate_ok (HReader \<in> held w) g \<Longrightarrow> barrier_ok (w\<lparr> wd_reader := g \<rparr>)"
  by (simp add: barrier_ok_def latch_ok_def gates_ok_def writers_ok_def count_ok_def points_ok_def)

lemma barrier_step:
  assumes "fire e w = Some w'" and "barrier_ok w"
  shows "barrier_ok w'"
proof -
  have ok: "latch_ok w" "gates_ok w" "writers_ok w" "count_ok w" "points_ok w"
    using assms(2) by (simp_all add: barrier_ok_def)
  show ?thesis
  proof (cases e)
    case (Writer m i)
    then have step: "writer_step m i w = Some w'" and i: "i < length (wd_writers w)"
      using assms(1) by (auto split: if_splits)
    note fr = writer_frame [OF step]
    have "gates_ok w'" using ok(2) fr held_cong [OF fr(1)] by (auto simp: gates_ok_def gate_ok_def)
    then show ?thesis
      using ok fr writer_step_ok [OF step i ok(3)] held_cong [OF fr(1)]
      by (simp add: barrier_ok_def latch_ok_def count_ok_def points_ok_def)
  next
    case (Point m i)
    then have step: "point_step m i w = Some w'" and i: "i < length (rc_entries (wd_coord w))"
      using assms(1) by (auto split: if_splits)
    note fr = point_frame [OF step]
    show ?thesis
      using ok fr point_points_ok [OF step i ok(1,5)] held_cong [OF fr(1)]
      by (simp add: barrier_ok_def latch_ok_def count_ok_def gates_ok_def writers_ok_def)
  next
    case (Attempt m i)
    then have step: "attempt_step m i w = Some w'" and i: "i < length (wd_attempts w)"
      using assms(1) by (auto split: if_splits)
    note fr = attempt_frame [OF step]
    show ?thesis
      using ok fr attempt_latch_ok [OF step i ok(1)] attempt_gates_ok [OF step i ok(1,2)]
        attempt_points_ok [OF step i ok(1,5)]
      by (simp add: barrier_ok_def count_ok_def writers_ok_def)
  next
    case (Register name)
    then have "w' = w\<lparr> wd_coord := register_subsystem name (wd_coord w) \<rparr>"
      using assms(1) by simp
    then show ?thesis
      using ok register_points_ok [OF ok(5)]
      by (simp add: barrier_ok_def latch_ok_def count_ok_def gates_ok_def writers_ok_def
          register_subsystem_def)
  next
    case (DispatchLeave i)
    then have w': "w' = w\<lparr> wd_coord := leave_mutation (wd_coord w),
        wd_dispatches := drop_nth i (wd_dispatches w) \<rparr>" and i: "i < length (wd_dispatches w)"
      using assms(1) by (simp_all split: if_splits)
    have "count_ok w'"
      using ok(4) i by (simp add: w' count_ok_def leave_mutation_def unat_sat_sub_1 drop_nth_def)
    then show ?thesis
      using ok by (simp add: w' barrier_ok_def latch_ok_def gates_ok_def writers_ok_def
          points_ok_def leave_mutation_def)
  next
    case DispatchEnter
    then have w': "w' = w\<lparr> wd_coord := enter_mutation (wd_coord w),
        wd_dispatches := wd_dispatches w @ [False] \<rparr>"
      and n: "unat (rc_in_flight (wd_coord w)) < 2 ^ 64 - 1"
      using assms(1) by (simp_all split: if_splits)
    have "count_ok w'"
      using ok(4) n unat_Suc [of "rc_in_flight (wd_coord w)"]
      by (simp add: w' count_ok_def enter_mutation_def)
    then show ?thesis
      using ok by (simp add: w' barrier_ok_def latch_ok_def gates_ok_def writers_ok_def
          points_ok_def enter_mutation_def)
  next
    case (Drain b)
    then have "w' = w\<lparr> wd_flags := daemon_drain b (wd_flags w) \<rparr>" using assms(1) by simp
    then show ?thesis
      using ok by (simp add: barrier_ok_def latch_ok_def gates_ok_def writers_ok_def count_ok_def
          points_ok_def daemon_drain_def)
  next
    case (DispatchCheck i)
    then have "w' = w \<or> w' = w\<lparr> wd_dispatches := (wd_dispatches w)[i := True] \<rparr>"
      using assms(1) by (auto split: if_splits)
    then show ?thesis
      using ok by (elim disjE) (simp_all add: barrier_ok_def latch_ok_def gates_ok_def
          writers_ok_def count_ok_def points_ok_def)
  qed (use assms ok(2) in \<open>auto simp: gates_ok_def split: if_splits
      intro: barrier_reap barrier_reader gate_ok_read gate_ok_release\<close>)
qed

lemma barrier_fires: "fires es w = Some w' \<Longrightarrow> barrier_ok w \<Longrightarrow> barrier_ok w'"
  by (induction es arbitrary: w) (auto split: option.splits dest: barrier_step)

lemma barrier_init: "barrier_ok (world_init n m b)"
  by (simp add: barrier_ok_def world_init_def latch_ok_def count_ok_def gates_ok_def writers_ok_def
      held_def points_ok_def gate_ok_def coordinator_new_def guards_def writer_ok_def units_def)

text \<open>The front door, as long as no operator opens it during an attempt.\<close>

definition undrains :: "event \<Rightarrow> bool" where
  "undrains e \<longleftrightarrow> e = Drain False"

lemma fenced_step:
  assumes "fire e w = Some w'" and "barrier_ok w" and "fenced w" and "\<not> undrains e"
  shows "fenced w'"
proof -
  have ok: "latch_ok w" "count_ok w" using assms(2) by (simp_all add: barrier_ok_def)
  have begun: "HQuiesced n \<in> held w \<Longrightarrow> df_restarting (wd_flags w)" for n
    using ok(1) by (auto simp: latch_ok_def held_def split: if_splits)
  show ?thesis
  proof (cases e)
    case (Writer m i)
    then have step: "writer_step m i w = Some w'" using assms(1) by (auto split: if_splits)
    show ?thesis
      using writer_frame [OF step] held_cong [of w' w] assms(3) by (simp add: fenced_def)
  next
    case (Point m i)
    then have step: "point_step m i w = Some w'" using assms(1) by (auto split: if_splits)
    show ?thesis
      using point_frame [OF step] held_cong [of w' w] assms(3) by (simp add: fenced_def)
  next
    case (Attempt m i)
    then have step: "attempt_step m i w = Some w'" and i: "i < length (wd_attempts w)"
      using assms(1) by (auto split: if_splits)
    show ?thesis by (rule attempt_fenced [OF step i ok(1) assms(3) ok(2)])
  next
    case (DispatchCheck i)
    then show ?thesis
      using assms(1,3) begun by (auto simp: fenced_def refuse_if_draining_def split: if_splits)
  next
    case (DispatchLeave i)
    then show ?thesis
      using assms(1,3)
      by (auto simp: fenced_def drop_nth_def split: if_splits
          dest: in_set_takeD in_set_dropD)
  next
    case (Drain b)
    then show ?thesis
      using assms(1,3,4) by (cases b) (auto simp: fenced_def daemon_drain_def undrains_def)
  qed (use assms(1,3) in \<open>auto simp: fenced_def split: if_splits\<close>)
qed

lemma fenced_fires:
  "fires es w = Some w' \<Longrightarrow> barrier_ok w \<Longrightarrow> fenced w \<Longrightarrow> \<forall>e\<in>set es. \<not> undrains e \<Longrightarrow> fenced w'"
  by (induction es arbitrary: w) (auto split: option.splits dest: barrier_step fenced_step)

lemma fenced_init: "fenced (world_init n m b)"
  by (simp add: fenced_def held_def world_init_def)

end
