(* ===== verification/RestartLaws.thy ===== *)
theory RestartLaws
  imports RestartInv
begin

text \<open>
  What the restart barrier guarantees: under the three freezes nothing moves, one attempt runs
  at a time, a failed attempt leaves no trace, and the pause of the door lets the writer freeze
  converge. An operator's drain RPC is not latched: during an attempt it reopens the front door,
  and its setting is lost when the attempt fails.
\<close>

lemma fires_append:
  "fires (es @ es') w = (case fires es w of None \<Rightarrow> None | Some w' \<Rightarrow> fires es' w')"
  by (induction es arbitrary: w) (auto split: option.splits)

section \<open>Under the freezes\<close>


definition busy_day :: "event list" where
  "busy_day =
     [Register ''memcap-watcher:u'', DispatchEnter, DispatchCheck 0,
      Writer (Ask KUnit) 0, Writer PassDoor 0, Writer PassGate 0, Writer (Ask KWrite) 0,
      ReapBegin, ReadBegin, Attempt Begin 0, Attempt Begin 1, Attempt Pause 0,
      DispatchLeave 0, Point Park 0, Attempt Take 0, DispatchEnter, DispatchCheck 0,
      Writer (Ask KWrite) 1, Attempt Take 0, Writer DropLast 0, Writer DropLast 0,
      Attempt Take 0, ReapEnd, Attempt Take 0, ReadEnd, Attempt Take 0]"

lemmas barrier_defs = world_init_def coordinator_new_def writer_step_def point_step_def
  attempt_step_def set_attempt_def write_permit_def unit_permit_def granted_def drop_permit_def
  sat_sub_1_def gate_read_def gate_release_def try_write_def gate_thaw_def enter_mutation_def
  leave_mutation_def register_subsystem_def set_pause_def request_pause_all_def resume_all_def
  unpaused_subsystems_def quiesced_def park_def unpark_def begin_restart_def end_restart_def
  refuse_if_draining_def daemon_drain_def acquire_def release_def drop_nth_def Let_def

definition busy_night :: world where
  "busy_night =
     \<lparr> wd_writers = [\<lparr> wr_depth = 0, wr_permits = [], wr_pc = Running \<rparr>,
                     \<lparr> wr_depth = 0, wr_permits = [], wr_pc = AtDoor KWrite \<rparr>],
        wd_gate = \<lparr> ga_readers = 0, ga_frozen = True \<rparr>, wd_door = 1,
        wd_reap = \<lparr> ga_readers = 0, ga_frozen = True \<rparr>,
        wd_reader = \<lparr> ga_readers = 0, ga_frozen = True \<rparr>,
        wd_coord = \<lparr> rc_in_flight = 1, rc_entered_total = 2, rc_pause_requested = True,
          rc_entries = [\<lparr> sf_name = ''memcap-watcher:u'', sf_alive = True,
            sf_pause_requested = True, sf_paused = True \<rparr>] \<rparr>,
        wd_dispatches = [False],
        wd_flags = \<lparr> df_draining = True, df_restarting = True \<rparr>,
        wd_attempts = [Going False [HReader, HReap, HWriter, HPause, HQuiesced 1, HBegun], Idle] \<rparr>"

lemma two_of [simp]: "replicate 2 x = [x, x]"
  by (simp add: numeral_2_eq_2)

lemma busy_day_runs: "fires busy_day (world_init 2 2 False) = Some busy_night"
  by (simp add: busy_day_def busy_night_def barrier_defs)


section \<open>The bounded waits\<close>

lemma wait_quiesced_returns:
  "\<exists>r\<in>set rs. deadline \<le> snd r \<Longrightarrow> wait_quiesced deadline rs \<noteq> None"
  by (induction deadline rs rule: wait_quiesced.induct) auto

lemma wait_quiesced_sound:
  "wait_quiesced deadline rs = Some (Inr ()) \<Longrightarrow> \<exists>r\<in>set rs. quiesced (fst r)"
  by (induction deadline rs rule: wait_quiesced.induct) (auto split: if_splits)

lemma freeze_loop_returns:
  "\<exists>r\<in>set rs. timeout \<le> snd r \<Longrightarrow> freeze_loop timeout rs \<noteq> None"
  by (induction timeout rs rule: freeze_loop.induct) (auto split: option.splits)

lemma freeze_loop_sound:
  "freeze_loop timeout rs = Some (Inr g) \<Longrightarrow> \<exists>r\<in>set rs. try_write (fst r) = Some g"
  by (induction timeout rs rule: freeze_loop.induct) (auto split: option.splits if_splits)

section \<open>A failed attempt\<close>

lemma pause_then_resume:
  assumes "\<not> rc_pause_requested c" and "\<forall>s\<in>set (rc_entries c). \<not> sf_pause_requested s"
  shows "resume_all (request_pause_all c) = c\<lparr> rc_entries := filter sf_alive (rc_entries c) \<rparr>"
proof -
  have "map (\<lambda>s. s\<lparr> sf_pause_requested := False \<rparr>)
      (filter sf_alive (map (\<lambda>s. s\<lparr> sf_pause_requested := True \<rparr>) (filter sf_alive ss))) =
      filter sf_alive ss" if "\<forall>s\<in>set ss. \<not> sf_pause_requested s" for ss
    using that by (induction ss) auto
  from this [OF assms(2)] show ?thesis
    using assms(1) unfolding request_pause_all_def resume_all_def set_pause_def
    by (simp del: map_map filter_map)
qed

lemma thaw_freeze: "try_write g = Some g' \<Longrightarrow> gate_thaw g' = g"
  by (auto simp: try_write_def gate_thaw_def split: if_splits)

text \<open>Undoing what was taken, one hold at a time.\<close>

lemma release_acquire:
  assumes "acquire hs w = Some (x, v)" and "hs \<noteq> []"
  shows "release x v = w"
  using assms
  by (auto simp: acquire_def release_def thaw_freeze neq_Nil_conv split: hold.splits if_splits)

lemma release_set_attempt: "release x (set_attempt i a w) = set_attempt i a (release x w)"
  by (simp add: release_def set_attempt_def split: hold.splits)

lemma set_attempt_twice [simp]: "set_attempt i a (set_attempt i b w) = set_attempt i a w"
  by (simp add: set_attempt_def)

lemma set_attempt_commute:
  "(set_attempt i a w)\<lparr> wd_door := n \<rparr> = set_attempt i a (w\<lparr> wd_door := n \<rparr>)"
  "(set_attempt i a w)\<lparr> wd_gate := g \<rparr> = set_attempt i a (w\<lparr> wd_gate := g \<rparr>)"
  "(set_attempt i a w)\<lparr> wd_reap := g \<rparr> = set_attempt i a (w\<lparr> wd_reap := g \<rparr>)"
  "(set_attempt i a w)\<lparr> wd_reader := g \<rparr> = set_attempt i a (w\<lparr> wd_reader := g \<rparr>)"
  by (simp_all add: set_attempt_def)

lemma acquire_set_attempt:
  "acquire hs (set_attempt i a w) = map_option (\<lambda>(x, v). (x, set_attempt i a v)) (acquire hs w)"
proof (cases hs)
  case (Cons x ys)
  then show ?thesis
    by (cases x) (simp_all add: acquire_def set_attempt_commute option.map_comp comp_def)
qed (simp add: acquire_def)

text \<open>Acquisitions, then the same number of releases: only the last pause is left to undo.\<close>

lemma takes_then_undoes:
  assumes "i < length (wd_attempts w)" and "hs \<noteq> []"
    and "fires (replicate k (Attempt Take i) @ Attempt GiveUp i # replicate k (Attempt Undo i) @ es)
           (set_attempt i (Going p hs) w) = Some w'"
  shows "fires es (set_attempt i (Releasing p hs) w) = Some w'"
  using assms
proof (induction k arbitrary: hs w es)
  case 0
  then show ?case by (simp add: attempt_step_def)
next
  case (Suc k)
  then obtain x v where take: "acquire hs w = Some (x, v)"
    by (auto simp: attempt_step_def acquire_set_attempt split: option.splits)
  have i: "i < length (wd_attempts v)" using Suc.prems(1) acquire_frame(1) [OF take] by simp
  have "fires (replicate k (Attempt Take i) @ Attempt GiveUp i # replicate k (Attempt Undo i) @
      (Attempt Undo i # es)) (set_attempt i (Going p (x # hs)) v) = Some w'"
    using Suc.prems take
    by (simp add: attempt_step_def acquire_set_attempt replicate_app_Cons_same)
  from Suc.IH [OF i _ this]
  show ?case using i release_acquire [OF take Suc.prems(2)]
    by (simp add: attempt_step_def release_set_attempt)
qed

text \<open>An attempt that gives up after any number of its acquisitions, with nothing else
  happening meanwhile, leaves the daemon as it was: door, gates, latch and the operator's drain
  setting; the registry has only lost the safe points whose threads are gone.\<close>
theorem abort_restores:
  assumes "fires es (world_init n m b) = Some w" and "\<not> df_restarting (wd_flags w)"
    and "i < length (wd_attempts w)"
    and "fires (Attempt Begin i # Attempt Pause i # replicate k (Attempt Take i) @
           Attempt GiveUp i # replicate k (Attempt Undo i) @ [Attempt Undo i, Attempt Undo i]) w =
         Some w'"
  shows "w' = w\<lparr> wd_coord := (wd_coord w)
    \<lparr> rc_entries := filter sf_alive (rc_entries (wd_coord w)) \<rparr> \<rparr>"
proof -
  have ok: "latch_ok w" "points_ok w"
    using barrier_fires [OF assms(1) barrier_init] by (simp_all add: barrier_ok_def)
  have idle: "wd_attempts w ! i = Idle" and none: "held w = {}"
    using ok(1) assms(2,3) by (auto simp: latch_ok_def held_def)
  define v where "v = w\<lparr> wd_flags := (wd_flags w)\<lparr> df_restarting := True, df_draining := True \<rparr>,
      wd_coord := request_pause_all (wd_coord w) \<rparr>"
  define p where "p = df_draining (wd_flags w)"
  have "fires (replicate k (Attempt Take i) @ Attempt GiveUp i # replicate k (Attempt Undo i) @
      [Attempt Undo i, Attempt Undo i]) (set_attempt i (Going p [HBegun]) v) = Some w'"
    using assms(2-4) idle
    by (simp add: attempt_step_def begin_restart_def v_def p_def set_attempt_def)
  then have "fires [Attempt Undo i, Attempt Undo i] (set_attempt i (Releasing p [HBegun]) v) = Some w'"
    using takes_then_undoes [of i v "[HBegun]" k "[Attempt Undo i, Attempt Undo i]" p w'] assms(3)
    by (simp add: v_def)
  then have "w' = set_attempt i Idle (v\<lparr> wd_coord := resume_all (wd_coord v), wd_flags := end_restart p (wd_flags v) \<rparr>)"
    using assms(3) by (simp add: attempt_step_def release_def v_def set_attempt_def)
  moreover have "resume_all (wd_coord v) = (wd_coord w)\<lparr> rc_entries := filter sf_alive (rc_entries (wd_coord w)) \<rparr>"
    using pause_then_resume [of "wd_coord w"] ok(2) by (simp add: v_def points_ok_def none)
  moreover have "(wd_attempts w)[i := Idle] = wd_attempts w" using idle by (metis list_update_id)
  moreover have "end_restart p (wd_flags v) = wd_flags w"
    using assms(2) by (simp add: end_restart_def v_def p_def)
  ultimately show ?thesis by (simp add: set_attempt_def v_def)
qed

theorem abort_restores_witness:
  "fires [Attempt Begin 0, Attempt Pause 0, Attempt Take 0, Attempt Take 0, Attempt GiveUp 0,
      Attempt Undo 0, Attempt Undo 0, Attempt Undo 0, Attempt Undo 0] (world_init 2 2 True) =
    Some (world_init 2 2 True)"
proof -
  obtain w' where "fires [Attempt Begin 0, Attempt Pause 0, Attempt Take 0, Attempt Take 0,
      Attempt GiveUp 0, Attempt Undo 0, Attempt Undo 0, Attempt Undo 0, Attempt Undo 0]
      (world_init 2 2 True) = Some w'"
    by (simp add: barrier_defs)
  then show ?thesis
    using abort_restores [of "[]" 2 2 True "world_init 2 2 True" 0 2 w']
    by (simp add: world_init_def coordinator_new_def)
qed

section \<open>The freeze of the writers converges\<close>

definition busy :: "writer \<Rightarrow> bool" where
  "busy x \<longleftrightarrow> wr_permits x \<noteq> [] \<or> (\<exists>k. wr_pc x = AtGate k)"

definition busy_writers :: "world \<Rightarrow> nat" where
  "busy_writers w = length (filter busy (wd_writers w))"

lemma filter_update:
  "i < length xs \<Longrightarrow> length (filter P (xs[i := y])) + (if P (xs ! i) then 1 else 0) =
     length (filter P xs) + (if P y then 1 else 0)"
proof (induction xs arbitrary: i)
  case (Cons a xs)
  then show ?case by (cases i) auto
qed simp

text \<open>With the door shut no step makes a writer busy.\<close>

lemma closed_door_busy:
  assumes "fire e w = Some w'" and "0 < wd_door w" and "writers_ok w"
  shows "busy_writers w' \<le> busy_writers w"
proof (cases e)
  case (Writer m i)
  then have step: "writer_step m i w = Some w'" and i: "i < length (wd_writers w)"
    using assms(1) by (auto split: if_splits)
  have ok: "writer_ok (wd_writers w ! i)" using assms(3) i by (simp add: writers_ok_def)
  have inside: "wr_permits (wd_writers w ! i) \<noteq> []" if "0 < wr_depth (wd_writers w ! i)"
    using ok that by (auto simp: writer_ok_def units_def word_gt_0 unat_eq_0)
  have "\<exists>x' g. w' = (set_writer i x' w)\<lparr> wd_gate := g \<rparr> \<and> (busy x' \<longrightarrow> busy (wd_writers w ! i))"
    using step
  proof (cases rule: writer_step_cases)
    case wrote
    then show ?thesis
      using inside by (intro exI [of _ "write_permit (wd_writers w ! i)"] exI [of _ "wd_gate w"])
        (auto simp: set_writer_def busy_def write_permit_def)
  next
    case unit
    then show ?thesis
      using inside by (intro exI [of _ "unit_permit (wd_writers w ! i)"] exI [of _ "wd_gate w"])
        (auto simp: set_writer_def busy_def unit_permit_def)
  next
    case (door k)
    then show ?thesis using assms(2) by simp
  next
    case (gate k)
    then show ?thesis by (auto simp: busy_def)
  next
    case (dropped k g ps)
    then show ?thesis by (auto simp: busy_def)
  qed
  then obtain x' g where "w' = (set_writer i x' w)\<lparr> wd_gate := g \<rparr>"
    and "busy x' \<longrightarrow> busy (wd_writers w ! i)" by blast
  then show ?thesis
    using filter_update [OF i, of busy x'] by (auto simp: busy_writers_def set_writer_def split: if_splits)
next
  case (Point m i)
  then show ?thesis
    using assms(1) point_frame(3) [of m i w w'] by (auto simp: busy_writers_def split: if_splits)
next
  case (Attempt m i)
  then show ?thesis
    using assms(1) attempt_frame(1) [of m i w w'] by (auto simp: busy_writers_def split: if_splits)
qed (use assms(1) in \<open>auto simp: busy_writers_def split: if_splits\<close>)

lemma not_busy_quiet:
  assumes "writers_ok w" and "busy_writers w = 0"
  shows "ga_readers (wd_gate w) = 0"
proof -
  have "\<forall>x\<in>set (wd_writers w). \<not> busy x"
    using assms(2) by (simp add: busy_writers_def filter_empty_conv)
  then have "\<forall>x\<in>set (wd_writers w). guards x = 0" by (simp add: busy_def guards_def)
  then show ?thesis using assms(1) by (simp add: writers_ok_def sum_list_eq_0_iff)
qed

text \<open>Once the pause is requested, the writers between a first and a last byte only become
  fewer, whatever happens: each of them that is not parked can move, and when none is left the
  freeze is there for the taking. So a stream of new writes cannot starve it.\<close>
theorem paused_door_lets_freeze_converge:
  assumes "fires es (world_init n m b) = Some w" and "i < length (wd_attempts w)"
    and "wd_attempts w ! i = Going p [HPause, HQuiesced k, HBegun]"
  shows "(\<forall>e w'. fire e w = Some w' \<longrightarrow> busy_writers w' \<le> busy_writers w) \<and>
      (\<forall>j<length (wd_writers w). busy (wd_writers w ! j) \<longrightarrow>
        (\<forall>k. wr_pc (wd_writers w ! j) \<noteq> AtDoor k) \<longrightarrow>
        (\<exists>mv. fire (Writer mv j) w \<noteq> None)) \<and>
      (busy_writers w = 0 \<longrightarrow> fire (Attempt Take i) w \<noteq> None)"
proof -
  have ok: "latch_ok w" "gates_ok w" "writers_ok w"
    using barrier_fires [OF assms(1) barrier_init] by (simp_all add: barrier_ok_def)
  have sole: "sole_at i (wd_attempts w)"
    using latched_sole(1) [OF ok(1) assms(2)] assms(3) by simp
  have held: "held w = {HPause, HQuiesced k, HBegun}"
    using held_sole [OF sole] assms(3) by simp
  have door: "0 < wd_door w" and open_gate: "\<not> ga_frozen (wd_gate w)"
    using ok(2) by (auto simp: gates_ok_def gate_ok_def held)
  have "\<exists>mv. fire (Writer mv j) w \<noteq> None"
    if "j < length (wd_writers w)" "busy (wd_writers w ! j)"
      "\<forall>k. wr_pc (wd_writers w ! j) \<noteq> AtDoor k" for j
  proof (cases "wr_pc (wd_writers w ! j)")
    case Running
    then have "fire (Writer DropLast j) w \<noteq> None"
      using that by (auto simp: busy_def writer_step_def Let_def neq_Nil_conv)
    then show ?thesis by blast
  next
    case (AtGate k)
    then have "fire (Writer PassGate j) w \<noteq> None"
      using that open_gate by (auto simp: writer_step_def Let_def gate_read_def)
    then show ?thesis by blast
  qed (use that in auto)
  moreover have "fire (Attempt Take i) w \<noteq> None" if "busy_writers w = 0"
    using not_busy_quiet [OF ok(3) that] open_gate assms(2,3)
    by (simp add: attempt_step_def acquire_def try_write_def)
  ultimately show ?thesis using closed_door_busy [OF _ door ok(3)] by blast
qed

theorem paused_door_lets_freeze_converge_witness:
  "\<exists>w w'. wd_attempts w = [Going False [HPause, HQuiesced 0, HBegun], Idle] \<and>
     busy_writers w = 1 \<and> wr_pc (wd_writers w ! 1) = AtDoor KWrite \<and>
     fire (Writer DropLast 0) w = Some w' \<and> busy_writers w' = 0 \<and>
     fire (Attempt Take 0) w' \<noteq> None"
proof -
  define w where "w = (world_init 2 2 False)\<lparr>
      wd_writers := [\<lparr> wr_depth = 1, wr_permits = [(KUnit, True)], wr_pc = Running \<rparr>,
                     \<lparr> wr_depth = 0, wr_permits = [], wr_pc = AtDoor KWrite \<rparr>],
      wd_gate := \<lparr> ga_readers = 1, ga_frozen = False \<rparr>, wd_door := 1,
      wd_coord := coordinator_new\<lparr> rc_pause_requested := True \<rparr>,
      wd_flags := \<lparr> df_draining = True, df_restarting = True \<rparr>,
      wd_attempts := [Going False [HPause, HQuiesced 0, HBegun], Idle] \<rparr>"
  define es where "es = [Writer (Ask KUnit) 0, Writer PassDoor 0, Writer PassGate 0,
      Attempt Begin 0, Attempt Pause 0, Attempt Take 0, Attempt Take 0, Writer (Ask KWrite) 1]"
  have run: "fires es (world_init 2 2 False) = Some w"
    by (simp add: es_def w_def barrier_defs)
  obtain w' where step: "fire (Writer DropLast 0) w = Some w'" and quiet: "busy_writers w' = 0"
    by (simp add: w_def barrier_defs busy_writers_def busy_def)
  have "fires (es @ [Writer DropLast 0]) (world_init 2 2 False) = Some w'"
    using run step by (simp add: fires_append)
  moreover have "wd_attempts w' ! 0 = Going False [HPause, HQuiesced 0, HBegun]" "0 < length (wd_attempts w')"
    using step by (auto simp: w_def barrier_defs)
  ultimately have "fire (Attempt Take 0) w' \<noteq> None"
    using paused_door_lets_freeze_converge [of "es @ [Writer DropLast 0]" 2 2 False w' 0 False 0] quiet
    by simp
  then show ?thesis
    using step quiet by (intro exI [of _ w] exI [of _ w'])
      (simp add: w_def busy_writers_def busy_def barrier_defs)
qed

section \<open>The operator's drain\<close>

text \<open>The front door is not latched. A \<open>daemon.drain\<close> with \<open>enable: false\<close> is served
  during an attempt and reopens it: with the barrier fully held, a dispatch passes the drain
  check and begins to spawn a session that the exec will cut in half.\<close>
theorem undrain_reopens_a_held_barrier:
  "\<exists>w. fires [Attempt Begin 0, Attempt Pause 0, Attempt Take 0, Attempt Take 0, Attempt Take 0,
       Attempt Take 0, Attempt Take 0, Drain False, DispatchEnter, DispatchCheck 0]
       (world_init 0 1 False) = Some w \<and>
     wd_attempts w = [Going False [HReader, HReap, HWriter, HPause, HQuiesced 0, HBegun]] \<and>
     wd_dispatches w = [True]"
  by (simp add: barrier_defs)

text \<open>An attempt that fails puts back the drain setting it found, so one that an operator
  made meanwhile is lost, whichever it was.\<close>
theorem failed_attempt_forgets_drain:
  assumes "fires es (world_init n m b) = Some w" and "\<not> df_restarting (wd_flags w)"
    and "i < length (wd_attempts w)"
  shows "\<exists>w'. fires [Attempt Begin i, Attempt Pause i, Drain enable, Attempt GiveUp i,
      Attempt Undo i, Attempt Undo i] w = Some w' \<and>
     df_draining (wd_flags w') = df_draining (wd_flags w)"
proof -
  have "latch_ok w" using barrier_fires [OF assms(1) barrier_init] by (simp add: barrier_ok_def)
  then have "wd_attempts w ! i = Idle" using assms(2,3) by (simp add: latch_ok_def)
  then show ?thesis
    using assms(2,3)
    by (simp add: attempt_step_def begin_restart_def set_attempt_def release_def end_restart_def daemon_drain_def)
qed

theorem failed_attempt_forgets_drain_witness:
  "\<exists>w'. fires [Attempt Begin 0, Attempt Pause 0, Drain True, Attempt GiveUp 0,
      Attempt Undo 0, Attempt Undo 0] (world_init 0 1 False) = Some w' \<and>
     \<not> df_draining (wd_flags w')"
  using failed_attempt_forgets_drain [of "[]" 0 1 False "world_init 0 1 False" 0 True]
  by (simp add: world_init_def)

end
