(* ===== verification/Template.thy ===== *)
theory Template
  imports Prelude
begin

text \<open>
  Prompt templates, \<open>daemon/src/workflow/template.rs\<close>: the scan for placeholders, the parse of a
  key, and its resolution against the messages of the roles. Strings are the bytes of their
  UTF-8 text, which is what the scan works on; the code cuts only at ASCII bytes. The resolver
  of the code reads transcripts; it is a record of what it returns.
\<close>

record resolver =
  rs_user :: "string \<Rightarrow> string list"
  rs_assistant :: "string \<Rightarrow> string list"
  rs_since_activation :: "string \<Rightarrow> string list"
  rs_prior_user :: "string \<Rightarrow> string list"
  rs_prior_assistant :: "string \<Rightarrow> string list"
  rs_plan :: "string \<Rightarrow> string option"
  rs_goal :: "string option"
  rs_rejected :: "string list"

text \<open>\<open>str::trim\<close>: the characters of the Unicode property White Space, as their UTF-8 bytes.\<close>

definition white_space :: "string list" where
  "white_space =
     [[CHR 0x09], [CHR 0x0A], [CHR 0x0B], [CHR 0x0C], [CHR 0x0D], [CHR 0x20],
      [CHR 0xC2, CHR 0x85], [CHR 0xC2, CHR 0xA0], [CHR 0xE1, CHR 0x9A, CHR 0x80]] @
     map (\<lambda>c. [CHR 0xE2, CHR 0x80, c])
       [CHR 0x80, CHR 0x81, CHR 0x82, CHR 0x83, CHR 0x84, CHR 0x85, CHR 0x86,
        CHR 0x87, CHR 0x88, CHR 0x89, CHR 0x8A, CHR 0xA8, CHR 0xA9, CHR 0xAF] @
     [[CHR 0xE2, CHR 0x81, CHR 0x9F], [CHR 0xE3, CHR 0x80, CHR 0x80]]"

function trim_left :: "string list \<Rightarrow> string \<Rightarrow> string" where
  "trim_left ws s =
     (case find (\<lambda>w. w \<noteq> [] \<and> take (length w) s = w) ws of
        None \<Rightarrow> s
      | Some w \<Rightarrow> trim_left ws (drop (length w) s))"
  by auto
termination
proof (relation "measure (\<lambda>(_, s). length s)")
  fix ws s w assume "find (\<lambda>w. w \<noteq> [] \<and> take (length w) s = w) ws = Some w"
  then have "w \<noteq> []" "take (length w) s = w" by (auto simp: find_Some_iff)
  moreover then have "s \<noteq> []" by auto
  ultimately show "((ws, drop (length w) s), (ws, s)) \<in> measure (\<lambda>(_, s). length s)" by simp
qed simp

declare trim_left.simps [simp del]

definition str_trim :: "string \<Rightarrow> string" where
  "str_trim s = rev (trim_left (map rev white_space) (rev (trim_left white_space s)))"

section \<open>Keys\<close>

text \<open>What is before the first occurrence of a character, and what is after it.\<close>

fun split_at :: "char \<Rightarrow> string \<Rightarrow> (string \<times> string) option" where
  "split_at c [] = None"
| "split_at c (x # xs) =
     (if x = c then Some ([], xs)
      else map_option (\<lambda>(a, b). (x # a, b)) (split_at c xs))"

definition strip_prefix :: "string \<Rightarrow> string \<Rightarrow> string option" where
  "strip_prefix p s = (if take (length p) s = p then Some (drop (length p) s) else None)"

definition digit_value :: "char \<Rightarrow> nat option" where
  "digit_value c =
     (if CHR ''0'' \<le> c \<and> c \<le> CHR ''9'' then Some (of_char c - 48) else None)"

fun parse_digits :: "nat \<Rightarrow> string \<Rightarrow> nat option" where
  "parse_digits acc [] = Some acc"
| "parse_digits acc (c # cs) =
     (case digit_value c of None \<Rightarrow> None | Some d \<Rightarrow> parse_digits (10 * acc + d) cs)"

text \<open>\<open>str::parse::<isize>\<close>: an optional sign, at least one digit, within 64 bits.\<close>

definition parse_isize :: "string \<Rightarrow> int option" where
  "parse_isize s =
     (let (neg, ds) = (case s of [] \<Rightarrow> (False, [])
                       | c # cs \<Rightarrow> if c = CHR ''-'' then (True, cs)
                                   else if c = CHR ''+'' then (False, cs) else (False, c # cs)) in
      if ds = [] then None
      else case parse_digits 0 ds of
          None \<Rightarrow> None
        | Some n \<Rightarrow>
            if neg then (if n \<le> 2 ^ 63 then Some (- int n) else None)
            else (if n < 2 ^ 63 then Some (int n) else None))"

definition parse_key :: "string \<Rightarrow> (string \<times> string \<times> int option) option" where
  "parse_key key =
     (case strip_prefix ''roles.'' key of
        None \<Rightarrow> None
      | Some rest \<Rightarrow>
          (case split_at (CHR ''.'') rest of
             None \<Rightarrow> None
           | Some (role, rest) \<Rightarrow>
               (case split_at (CHR ''['') rest of
                  None \<Rightarrow> Some (role, rest, None)
                | Some (accessor, inner) \<Rightarrow>
                    if CHR '']'' \<in> set accessor then None
                    else case split_at (CHR '']'') inner of
                        None \<Rightarrow> None
                      | Some (idx, _) \<Rightarrow>
                          map_option (\<lambda>n. (role, accessor, Some n)) (parse_isize (str_trim idx)))))"

section \<open>Values\<close>

definition norm_index :: "nat \<Rightarrow> int \<Rightarrow> nat option" where
  "norm_index len idx =
     (if len = 0 then None
      else if 0 \<le> idx then (if nat idx < len then Some (nat idx) else None)
      else if nat (- idx) \<le> len then Some (len - nat (- idx)) else None)"

definition index_into :: "string list \<Rightarrow> int \<Rightarrow> string" where
  "index_into v idx = (case norm_index (length v) idx of Some i \<Rightarrow> v ! i | None \<Rightarrow> '''')"

definition first_or_empty :: "string list \<Rightarrow> string" where
  "first_or_empty v = (case v of [] \<Rightarrow> '''' | x # _ \<Rightarrow> x)"

definition last_or_empty :: "string list \<Rightarrow> string" where
  "last_or_empty v = (if v = [] then '''' else last v)"

fun join :: "string \<Rightarrow> string list \<Rightarrow> string" where
  "join sep [] = ''''"
| "join sep [x] = x"
| "join sep (x # xs) = x @ sep @ join sep xs"

definition rejected_header :: string where
  "rejected_header = ''Previously-rejected findings '' @ [CHR 0xE2, CHR 0x80, CHR 0x94] @
     '' the manager has decided these are not worth raising again. Do not re-surface them:'' @ [CHR 0x0A]"

definition resolve_goal :: "resolver \<Rightarrow> string" where
  "resolve_goal rs =
     (case rs_goal rs of
        Some g \<Rightarrow> if str_trim g \<noteq> [] then g else first_or_empty (rs_user rs ''worker'')
      | None \<Rightarrow> first_or_empty (rs_user rs ''worker''))"

definition resolve_rejected :: "resolver \<Rightarrow> string" where
  "resolve_rejected rs =
     (if rs_rejected rs = [] then ''''
      else rejected_header @ concat (map (\<lambda>x. ''- '' @ str_trim x @ [CHR 0x0A]) (rs_rejected rs)))"

definition message_separator :: string where
  "message_separator = [CHR 0x0A, CHR 0x0A] @ ''---'' @ [CHR 0x0A, CHR 0x0A]"

definition resolve_role :: "resolver \<Rightarrow> string \<Rightarrow> string \<Rightarrow> int option \<Rightarrow> string" where
  "resolve_role rs role accessor idx =
     (case idx of
        None \<Rightarrow>
          if accessor = ''last_message'' then last_or_empty (rs_assistant rs role)
          else if accessor = ''this_turn'' then join message_separator (rs_since_activation rs role)
          else if accessor = ''initial_prompt'' then first_or_empty (rs_user rs role)
          else if accessor = ''plan'' then (case rs_plan rs role of None \<Rightarrow> '''' | Some p \<Rightarrow> p)
          else ''''
      | Some n \<Rightarrow>
          if accessor = ''user'' then index_into (rs_user rs role) n
          else if accessor = ''assistant'' then index_into (rs_assistant rs role) n
          else if accessor = ''prior_user'' then index_into (rs_prior_user rs role) n
          else if accessor = ''prior_assistant'' then index_into (rs_prior_assistant rs role) n
          else '''')"

definition resolve_key :: "string \<Rightarrow> resolver \<Rightarrow> string" where
  "resolve_key key rs =
     (if key = ''goal'' then resolve_goal rs
      else if key = ''rejected_findings'' then resolve_rejected rs
      else case parse_key key of
          None \<Rightarrow> ''''
        | Some (role, accessor, idx) \<Rightarrow> resolve_role rs role accessor idx)"

section \<open>The scan\<close>

text \<open>\<open>find_close\<close>: the text before the first \<open>}}\<close>, and what follows it.\<close>

fun find_close :: "string \<Rightarrow> (string \<times> string) option" where
  "find_close (a # b # xs) =
     (if a = CHR 0x7D \<and> b = CHR 0x7D then Some ([], xs)
      else map_option (\<lambda>(k, rest). (a # k, rest)) (find_close (b # xs)))"
| "find_close _ = None"

lemma find_close_shorter:
  "find_close s = Some (k, rest) \<Longrightarrow> length s = length k + 2 + length rest"
  by (induction s arbitrary: k rest rule: find_close.induct) (auto split: if_splits)

function render_template :: "resolver \<Rightarrow> string \<Rightarrow> string" where
  "render_template rs [] = []"
| "render_template rs [a] = [a]"
| "render_template rs (a # b # xs) =
     (if a = CHR 0x7B \<and> b = CHR 0x7B then
        (case find_close xs of
           Some (key, rest) \<Rightarrow> resolve_key (str_trim key) rs @ render_template rs rest
         | None \<Rightarrow> a # render_template rs (b # xs))
      else a # render_template rs (b # xs))"
  by pat_completeness auto
termination
  by (relation "measure (\<lambda>(_, s). length s)") (auto dest: find_close_shorter)

end
