(* ===== verification/WorkflowRun.thy ===== *)
theory WorkflowRun
  imports Template "HOL-Library.Monad_Syntax"
begin

text \<open>
  A workflow run, \<open>daemon/src/workflow/run.rs\<close>, and the RPCs that move it,
  \<open>workflow_transition\<close>, \<open>workflow_done\<close> and \<open>stop_workflow\<close> of
  \<open>daemon/src/control/methods.rs\<close>.

  A run is one \<open>state.json\<close>; \<open>disk\<close> is that file, \<open>None\<close> when it is missing. Every writer goes
  through \<open>run::modify\<close> or \<open>run::try_modify\<close>, which load, change and save under a file lock, so a
  change is one function from run to run, and what other writers do between two changes of an
  RPC is a parameter \<open>others\<close>. Clocks, fresh ids and the answers of the file system are inputs.
  \<open>Vec\<close> lengths and message counts (\<open>usize\<close>) are \<open>nat\<close>.
\<close>

section \<open>The run\<close>

datatype run_status = Running | Paused | Done | Detached

datatype trigger_kind =
    Initial
  | StaticIdle string
  | McpTransition string string string

record history_entry =
  he_iteration :: u32
  he_role :: string
  he_session_id :: "string option"
  he_last_message :: "string option"
  he_activated_at :: nat
  he_deactivated_at :: "nat option"
  he_trigger :: trigger_kind
  he_assistant_at_start :: nat
  he_text_at_start :: nat

record role_binding =
  rb_label :: string
  rb_session_id :: "string option"
  rb_daemon_uid :: "string option"
  rb_bound :: bool

record message_baseline =
  mb_user :: nat
  mb_assistant :: nat

definition baseline_zero :: message_baseline where
  "baseline_zero = \<lparr> mb_user = 0, mb_assistant = 0 \<rparr>"

record rejected_finding =
  rf_text :: string
  rf_recorded_at :: nat
  rf_iteration :: u32

datatype activation_phase =
    Queued
  | Rendered
  | ClearBodySent
  | Appended
  | BodySent
  | RebindPending
  | PhaseDone

record codex_confirmation =
  cc_started_at :: millis
  cc_enter_retries :: nat
  cc_redelivered :: bool

record pending_activation =
  pa_id :: u64
  pa_target :: string
  pa_iteration :: u32
  pa_trigger :: trigger_kind
  pa_raw_prompt :: string
  pa_verbatim :: bool
  pa_needs_fresh :: bool
  pa_is_initial :: bool
  pa_phase :: activation_phase
  pa_rendered :: "string option"
  pa_snapshot :: "string list option"
  pa_enter_at :: "millis option"
  pa_codex :: "codex_confirmation option"

record workflow_run =
  run_id :: string
  run_workflow :: string
  run_task_key :: string
  run_task_id :: "string option"
  run_roles :: "(string \<times> role_binding) list"
  run_active :: "string option"
  run_iteration :: u32
  run_paused :: bool
  run_status :: run_status
  run_history :: "history_entry list"
  run_started_at :: nat
  run_done_reason :: "string option"
  run_events_offset :: u64
  run_baselines :: "(string \<times> message_baseline) list"
  run_goal :: "string option"
  run_plans :: "(string \<times> string) list"
  run_rejected :: "rejected_finding list"
  run_pending :: "pending_activation option"
  run_nudge_count :: "nat option"

section \<open>Operations on a run\<close>

text \<open>The session a role is bound to, as far as it is known.\<close>

definition role_sid :: "workflow_run \<Rightarrow> string \<Rightarrow> string option" where
  "role_sid r role = Option.bind (bt_get (run_roles r) role) rb_session_id"

definition run_new ::
  "nat \<Rightarrow> string \<Rightarrow> string \<Rightarrow> string \<Rightarrow> (string \<times> role_binding) list \<Rightarrow> string \<Rightarrow>
   (string \<times> message_baseline) list \<Rightarrow> string option \<Rightarrow> (string \<times> string) list \<Rightarrow> nat \<Rightarrow>
   workflow_run" where
  "run_new now rid workflow task_key roles initial baselines goal plans text_count =
     \<lparr> run_id = rid, run_workflow = workflow, run_task_key = task_key, run_task_id = None,
        run_roles = roles, run_active = Some initial, run_iteration = 1, run_paused = False,
        run_status = Running,
        run_history =
          [\<lparr> he_iteration = 1, he_role = initial,
             he_session_id = Option.bind (bt_get roles initial) rb_session_id,
             he_last_message = None, he_activated_at = now, he_deactivated_at = None,
             he_trigger = Initial,
             he_assistant_at_start =
               (case bt_get baselines initial of None \<Rightarrow> 0 | Some b \<Rightarrow> mb_assistant b),
             he_text_at_start = text_count \<rparr>],
        run_started_at = now, run_done_reason = None, run_events_offset = 0,
        run_baselines = baselines, run_goal = goal, run_plans = plans, run_rejected = [],
        run_pending = None, run_nudge_count = None \<rparr>"

definition is_active :: "workflow_run \<Rightarrow> bool" where
  "is_active r \<longleftrightarrow> run_status r = Running \<or> run_status r = Paused"

definition close_entry :: "nat \<Rightarrow> string option \<Rightarrow> history_entry \<Rightarrow> history_entry" where
  "close_entry now msg h =
     (if he_deactivated_at h = None
      then h\<lparr> he_deactivated_at := Some now, he_last_message := msg \<rparr> else h)"

text \<open>\<open>history.last_mut()\<close>, changed by a function.\<close>

definition map_last :: "('a \<Rightarrow> 'a) \<Rightarrow> 'a list \<Rightarrow> 'a list" where
  "map_last f xs = (if xs = [] then [] else butlast xs @ [f (last xs)])"

definition close_active_role :: "nat \<Rightarrow> string option \<Rightarrow> workflow_run \<Rightarrow> workflow_run" where
  "close_active_role now msg r = r\<lparr> run_history := map_last (close_entry now msg) (run_history r) \<rparr>"

definition activate_role ::
  "nat \<Rightarrow> string \<Rightarrow> trigger_kind \<Rightarrow> nat \<Rightarrow> nat \<Rightarrow> workflow_run \<Rightarrow> workflow_run" where
  "activate_role now role trigger assistant text r =
     r\<lparr> run_iteration := run_iteration r + 1,
        run_history := run_history r @
          [\<lparr> he_iteration = run_iteration r + 1, he_role = role,
             he_session_id = role_sid r role, he_last_message = None, he_activated_at = now,
             he_deactivated_at = None, he_trigger = trigger,
             he_assistant_at_start = assistant, he_text_at_start = text \<rparr>],
        run_active := Some role \<rparr>"

definition active_start_count :: "workflow_run \<Rightarrow> nat option" where
  "active_start_count r =
     (if run_history r \<noteq> [] \<and> Some (he_role (last (run_history r))) = run_active r
      then Some (he_assistant_at_start (last (run_history r))) else None)"

definition trailing_streak :: "workflow_run \<Rightarrow> string \<Rightarrow> nat" where
  "trailing_streak r role = length (takeWhile (\<lambda>h. he_role h = role) (rev (run_history r)))"

text \<open>
  \<open>append_history_entry_for_event_target_role\<close>: the row of an activation, unless the last row is
  that row already. Event iteration 0 stands for an event written before the field existed.
\<close>

definition append_entry ::
  "nat \<Rightarrow> string \<Rightarrow> u32 \<Rightarrow> trigger_kind \<Rightarrow> nat \<Rightarrow> nat \<Rightarrow> workflow_run \<Rightarrow> bool \<times> workflow_run" where
  "append_entry now role iteration trigger assistant text r =
     (let it = (if 0 < iteration then iteration else run_iteration r) in
      if run_history r \<noteq> [] \<and> he_role (last (run_history r)) = role \<and>
         he_iteration (last (run_history r)) = it
      then (False, r)
      else (True, r\<lparr> run_history := run_history r @
          [\<lparr> he_iteration = it, he_role = role, he_session_id = role_sid r role,
             he_last_message = None, he_activated_at = now, he_deactivated_at = None,
             he_trigger = trigger, he_assistant_at_start = assistant, he_text_at_start = text \<rparr>] \<rparr>))"

definition mark_done :: "nat \<Rightarrow> string \<Rightarrow> workflow_run \<Rightarrow> workflow_run" where
  "mark_done now reason r =
     (close_active_role now None r)
       \<lparr> run_active := None, run_status := Done, run_done_reason := Some reason,
         run_pending := None \<rparr>"

definition mark_detached :: "workflow_run \<Rightarrow> workflow_run" where
  "mark_detached r = r\<lparr> run_status := Detached, run_pending := None \<rparr>"

definition apply_stop :: "workflow_run \<Rightarrow> workflow_run" where
  "apply_stop r = (if run_status r = Done then r else mark_detached r)"

definition set_paused :: "bool \<Rightarrow> workflow_run \<Rightarrow> workflow_run" where
  "set_paused b r = r\<lparr> run_paused := b, run_status := (if b then Paused else Running) \<rparr>"

section \<open>Persistence\<close>

datatype run_id_error =
    IdEmpty
  | IdTooLong nat
  | IdTraversal
  | IdCharacter char

definition ascii_alphanumeric :: "char \<Rightarrow> bool" where
  "ascii_alphanumeric c \<longleftrightarrow>
     (CHR ''0'' \<le> c \<and> c \<le> CHR ''9'') \<or> (CHR ''A'' \<le> c \<and> c \<le> CHR ''Z'') \<or>
     (CHR ''a'' \<le> c \<and> c \<le> CHR ''z'')"

definition run_id_char :: "char \<Rightarrow> bool" where
  "run_id_char c \<longleftrightarrow> ascii_alphanumeric c \<or> c = CHR ''_'' \<or> c = CHR ''-''"

definition validate_run_id :: "string \<Rightarrow> run_id_error option" where
  "validate_run_id rid =
     (if rid = [] then Some IdEmpty
      else if 128 < length rid then Some (IdTooLong (length rid))
      else if rid = ''.'' \<or> rid = ''..'' then Some IdTraversal
      else map_option IdCharacter (find (\<lambda>c. \<not> run_id_char c) rid))"

datatype persist_error =
    PeInvalidId run_id_error
  | PeNotFound
  | PeIo

text \<open>
  \<open>try_modify\<close>: the change may refuse, and then nothing is saved. \<open>saved\<close> says whether the write
  and the rename go through.
\<close>

datatype 'e modified =
    Modified workflow_run
  | Aborted 'e
  | Persist persist_error

definition try_modify ::
  "string \<Rightarrow> bool \<Rightarrow> (workflow_run \<Rightarrow> 'e + workflow_run) \<Rightarrow> workflow_run option \<Rightarrow>
   'e modified \<times> workflow_run option" where
  "try_modify rid saved f disk =
     (case validate_run_id rid of
        Some e \<Rightarrow> (Persist (PeInvalidId e), disk)
      | None \<Rightarrow>
          (case disk of
             None \<Rightarrow> (Persist PeNotFound, disk)
           | Some r \<Rightarrow>
               (case f r of
                  Inl e \<Rightarrow> (Aborted e, disk)
                | Inr r' \<Rightarrow> if saved then (Modified r', Some r') else (Persist PeIo, disk))))"

text \<open>\<open>modify\<close>: the change cannot refuse.\<close>

definition run_modify ::
  "string \<Rightarrow> bool \<Rightarrow> (workflow_run \<Rightarrow> workflow_run) \<Rightarrow> workflow_run option \<Rightarrow>
   (persist_error + workflow_run) \<times> workflow_run option" where
  "run_modify rid saved f disk =
     (case validate_run_id rid of
        Some e \<Rightarrow> (Inl (PeInvalidId e), disk)
      | None \<Rightarrow>
          (case disk of
             None \<Rightarrow> (Inl PeNotFound, disk)
           | Some r \<Rightarrow> if saved then (Inr (f r), Some (f r)) else (Inl PeIo, disk)))"

end
