(* ===== verification/WorkflowRpc.thy ===== *)
theory WorkflowRpc
  imports WorkflowRun
begin

text \<open>
  The RPCs that move a run, of \<open>daemon/src/control/methods.rs\<close>: \<open>workflow_transition\<close>,
  \<open>workflow_done\<close> and \<open>stop_workflow\<close>, with the roll back when the event cannot be written.
\<close>

section \<open>Callers, events, errors\<close>

text \<open>
  A session caller comes with what \<open>lookup_session_any\<close> says of it: the run and the role it is
  tagged with, or nothing when it is not known.
\<close>

datatype workflow_caller =
    Operator
  | Session "(string option \<times> string option) option"

record transition_params =
  tp_run_id :: string
  tp_to :: string
  tp_prompt :: string
  tp_role :: string
  tp_trigger :: "string option"
  tp_expected_from :: "string option"

record workflow_event =
  ev_id :: string
  ev_run_id :: string
  ev_role :: string
  ev_tool :: string
  ev_args :: json
  ev_from_role :: "string option"
  ev_iteration :: u32

datatype workflow_error =
    RunIdRequired
  | TargetRequired
  | NotParticipant string
  | StaleSnapshot string "string option" string
  | NotRunning string run_status
  | UnknownTarget string string "string list"
  | NoState string
  | InvalidRunId run_id_error
  | MutationFailed
  | AppendFailed
  | ScopeDenied
  | RunNotFound string

datatype wire_code = InvalidParams | Unauthorized | Conflict | NotFound | Internal

fun error_code :: "workflow_error \<Rightarrow> wire_code" where
  "error_code RunIdRequired = InvalidParams"
| "error_code TargetRequired = InvalidParams"
| "error_code (NotParticipant _) = Unauthorized"
| "error_code (StaleSnapshot _ _ _) = Conflict"
| "error_code (NotRunning _ _) = Conflict"
| "error_code (UnknownTarget _ _ _) = Conflict"
| "error_code (NoState _) = NotFound"
| "error_code (InvalidRunId _) = InvalidParams"
| "error_code MutationFailed = Internal"
| "error_code AppendFailed = Internal"
| "error_code ScopeDenied = Unauthorized"
| "error_code (RunNotFound _) = NotFound"

definition trim_blank :: "string \<Rightarrow> bool" where
  "trim_blank s \<longleftrightarrow> str_trim s = []"

text \<open>What an RPC finds: the clock, a fresh event id, and the answers of the file system.\<close>

record rpc_env =
  re_now :: nat
  re_event_id :: string
  re_caller :: workflow_caller
  re_captured :: "string option"
  re_fresh :: bool
  re_saved :: bool
  re_appends :: "bool list"
  re_others :: "workflow_run \<Rightarrow> workflow_run"
  re_rollback_saved :: bool

section \<open>The guards\<close>

definition participant :: "workflow_caller \<Rightarrow> string \<Rightarrow> workflow_run \<Rightarrow> bool" where
  "participant caller rid r =
     (case caller of
        Operator \<Rightarrow> True
      | Session None \<Rightarrow> False
      | Session (Some (wf_id, wf_role)) \<Rightarrow> wf_id = Some rid \<and> wf_role = run_active r)"

definition transition_guard ::
  "workflow_caller \<Rightarrow> transition_params \<Rightarrow> workflow_run \<Rightarrow> workflow_error option" where
  "transition_guard caller p r =
     (if \<not> participant caller (tp_run_id p) r then Some (NotParticipant (tp_run_id p))
      else if tp_expected_from p \<noteq> None \<and> run_active r \<noteq> tp_expected_from p
      then Some (StaleSnapshot (the (tp_expected_from p)) (run_active r) (tp_run_id p))
      else if run_status r \<noteq> Running then Some (NotRunning (tp_run_id p) (run_status r))
      else if bt_get (run_roles r) (tp_to p) = None
      then Some (UnknownTarget (tp_to p) (tp_run_id p) (map fst (run_roles r)))
      else None)"

section \<open>The transition\<close>

text \<open>Only the operator may name the trigger; the poller names \<open>static_idle\<close>.\<close>

definition honored_trigger :: "workflow_caller \<Rightarrow> transition_params \<Rightarrow> string option" where
  "honored_trigger caller p = (case caller of Operator \<Rightarrow> tp_trigger p | Session _ \<Rightarrow> None)"

definition pending_trigger ::
  "rpc_env \<Rightarrow> transition_params \<Rightarrow> workflow_run \<Rightarrow> trigger_kind" where
  "pending_trigger env p r =
     (let from = (case run_active r of None \<Rightarrow> '''' | Some a \<Rightarrow> a) in
      if honored_trigger (re_caller env) p = Some ''static_idle'' then StaticIdle from
      else McpTransition from (tp_prompt p) (re_event_id env))"

definition transition_mutation ::
  "rpc_env \<Rightarrow> transition_params \<Rightarrow> workflow_run \<Rightarrow> workflow_run" where
  "transition_mutation env p r =
     (let r1 = (close_active_role (re_now env) (re_captured env) r)
                 \<lparr> run_iteration := run_iteration r + 1, run_active := Some (tp_to p) \<rparr> in
      r1\<lparr> run_pending := Some
            \<lparr> pa_id = ucast (run_iteration r1), pa_target = tp_to p, pa_iteration = run_iteration r1,
              pa_trigger = pending_trigger env p r, pa_raw_prompt = tp_prompt p,
              pa_verbatim = False, pa_needs_fresh = re_fresh env, pa_is_initial = False,
              pa_phase = Queued, pa_rendered = None, pa_snapshot = None, pa_enter_at = None,
              pa_codex = None \<rparr> \<rparr>)"

definition transition_event ::
  "rpc_env \<Rightarrow> transition_params \<Rightarrow> workflow_run \<Rightarrow> workflow_run \<Rightarrow> workflow_event" where
  "transition_event env p before after =
     \<lparr> ev_id = re_event_id env, ev_run_id = tp_run_id p,
        ev_role = (if trim_blank (tp_role p) then ''unknown'' else tp_role p),
        ev_tool = ''workflow_transition'',
        ev_args = JObj ([(''to'', JStr (tp_to p)), (''prompt'', JStr (tp_prompt p))] @
          (case honored_trigger (re_caller env) p of None \<Rightarrow> [] | Some t \<Rightarrow> [(''trigger'', JStr t)])),
        ev_from_role = run_active before, ev_iteration = run_iteration after \<rparr>"

text \<open>
  \<open>append_event_with_retry\<close> over what each attempt answers: the outcome, and how many attempts
  were made. An exhausted list of answers stands for failures.
\<close>

fun append_attempts :: "nat \<Rightarrow> bool list \<Rightarrow> bool \<times> nat" where
  "append_attempts attempt [] = (False, attempt + 1)"
| "append_attempts attempt (ok # oks) =
     (if ok then (True, attempt + 1)
      else if 4 \<le> attempt + 1 then (False, attempt + 1)
      else append_attempts (attempt + 1) oks)"

definition append_event_with_retry :: "bool list \<Rightarrow> bool" where
  "append_event_with_retry oks = fst (append_attempts 0 oks)"

text \<open>The first element that satisfies a predicate, changed by a function.\<close>

fun update_first :: "('a \<Rightarrow> bool) \<Rightarrow> ('a \<Rightarrow> 'a) \<Rightarrow> 'a list \<Rightarrow> 'a list" where
  "update_first P f [] = []"
| "update_first P f (x # xs) = (if P x then f x # xs else x # update_first P f xs)"

text \<open>The row that was last in the snapshot, put back as it was.\<close>

definition restore_closed :: "workflow_run \<Rightarrow> workflow_run \<Rightarrow> workflow_run" where
  "restore_closed snap r =
     (if run_history snap = [] then r
      else let s = last (run_history snap) in
        r\<lparr> run_history := update_first
              (\<lambda>h. he_role h = he_role s \<and> he_iteration h = he_iteration s)
              (\<lambda>h. h\<lparr> he_deactivated_at := he_deactivated_at s, he_last_message := he_last_message s \<rparr>)
              (run_history r) \<rparr>)"

definition rollback_transition :: "workflow_run \<Rightarrow> workflow_run \<Rightarrow> workflow_run" where
  "rollback_transition snap r =
     restore_closed snap
       (r\<lparr> run_active := run_active snap, run_iteration := run_iteration snap,
           run_pending := run_pending snap \<rparr>)"

definition persist_failure :: "string \<Rightarrow> persist_error \<Rightarrow> workflow_error" where
  "persist_failure rid e =
     (case e of PeNotFound \<Rightarrow> NoState rid | PeInvalidId ie \<Rightarrow> InvalidRunId ie | PeIo \<Rightarrow> MutationFailed)"

definition after_rollback ::
  "rpc_env \<Rightarrow> string \<Rightarrow> (workflow_run \<Rightarrow> workflow_run) \<Rightarrow> workflow_run option \<Rightarrow> workflow_run option" where
  "after_rollback env rid undo disk =
     snd (run_modify rid (re_rollback_saved env) undo (map_option (re_others env) disk))"

definition workflow_transition ::
  "rpc_env \<Rightarrow> transition_params \<Rightarrow> workflow_run option \<Rightarrow>
   (workflow_error + workflow_event) \<times> workflow_run option" where
  "workflow_transition env p disk =
     (if trim_blank (tp_run_id p) then (Inl RunIdRequired, disk)
      else if trim_blank (tp_to p) then (Inl TargetRequired, disk)
      else case try_modify (tp_run_id p) (re_saved env)
             (\<lambda>r. case transition_guard (re_caller env) p r of
                    Some e \<Rightarrow> Inl e
                  | None \<Rightarrow> Inr (transition_mutation env p r)) disk of
          (Aborted e, disk') \<Rightarrow> (Inl e, disk')
        | (Persist e, disk') \<Rightarrow> (Inl (persist_failure (tp_run_id p) e), disk')
        | (Modified r', disk') \<Rightarrow>
            if append_event_with_retry (re_appends env)
            then (Inr (transition_event env p (the disk) r'), disk')
            else (Inl AppendFailed,
                  after_rollback env (tp_run_id p) (rollback_transition (the disk)) disk'))"

section \<open>The end of a run\<close>

record done_params =
  dp_run_id :: string
  dp_role :: string
  dp_reason :: string

definition done_guard :: "workflow_caller \<Rightarrow> done_params \<Rightarrow> workflow_run \<Rightarrow> workflow_error option" where
  "done_guard caller p r =
     (if \<not> participant caller (dp_run_id p) r then Some (NotParticipant (dp_run_id p))
      else if run_status r \<noteq> Running then Some (NotRunning (dp_run_id p) (run_status r))
      else None)"

definition done_mutation :: "rpc_env \<Rightarrow> done_params \<Rightarrow> workflow_run \<Rightarrow> workflow_run" where
  "done_mutation env p r = mark_done (re_now env) (dp_reason p) r"

definition rollback_done :: "workflow_run \<Rightarrow> workflow_run \<Rightarrow> workflow_run" where
  "rollback_done snap r =
     restore_closed snap
       (r\<lparr> run_active := run_active snap, run_status := run_status snap,
           run_done_reason := run_done_reason snap \<rparr>)"

definition done_event :: "rpc_env \<Rightarrow> done_params \<Rightarrow> workflow_run \<Rightarrow> workflow_event" where
  "done_event env p after =
     \<lparr> ev_id = re_event_id env, ev_run_id = dp_run_id p,
        ev_role = (if trim_blank (dp_role p) then ''unknown'' else dp_role p),
        ev_tool = ''workflow_done'', ev_args = JObj [(''reason'', JStr (dp_reason p))],
        ev_from_role = None, ev_iteration = run_iteration after \<rparr>"

definition workflow_done ::
  "rpc_env \<Rightarrow> done_params \<Rightarrow> workflow_run option \<Rightarrow>
   (workflow_error + workflow_event) \<times> workflow_run option" where
  "workflow_done env p disk =
     (if trim_blank (dp_run_id p) then (Inl RunIdRequired, disk)
      else case try_modify (dp_run_id p) (re_saved env)
             (\<lambda>r. case done_guard (re_caller env) p r of
                    Some e \<Rightarrow> Inl e
                  | None \<Rightarrow> Inr (done_mutation env p r)) disk of
          (Aborted e, disk') \<Rightarrow> (Inl e, disk')
        | (Persist e, disk') \<Rightarrow> (Inl (persist_failure (dp_run_id p) e), disk')
        | (Modified r', disk') \<Rightarrow>
            if append_event_with_retry (re_appends env) then (Inr (done_event env p r'), disk')
            else (Inl AppendFailed,
                  after_rollback env (dp_run_id p) (rollback_done (the disk)) disk'))"

text \<open>
  \<open>stop_workflow\<close>: \<open>known\<close> says whether a session caller is registered, \<open>authorized\<close> whether the
  scope rule admits it; both are decided before the change and not again under the lock.
\<close>

definition stop_workflow ::
  "bool \<Rightarrow> bool \<Rightarrow> bool \<Rightarrow> workflow_caller \<Rightarrow> string \<Rightarrow> workflow_run option \<Rightarrow>
   (workflow_error + unit) \<times> workflow_run option" where
  "stop_workflow known authorized saved caller rid disk =
     (if trim_blank rid then (Inl RunIdRequired, disk)
      else if caller \<noteq> Operator \<and> \<not> known then (Inl ScopeDenied, disk)
      else if validate_run_id rid \<noteq> None \<or> disk = None
      then (Inl (if caller = Operator then RunNotFound rid else ScopeDenied), disk)
      else if caller \<noteq> Operator \<and> \<not> authorized then (Inl ScopeDenied, disk)
      else case run_modify rid saved apply_stop disk of
          (Inl _, disk') \<Rightarrow> (Inl MutationFailed, disk')
        | (Inr _, disk') \<Rightarrow> (Inr (), disk'))"

section \<open>Start, pause and resume\<close>

text \<open>
  The activation that \<open>start_workflow\<close> leaves for the drainer: the role's prompt template, else the
  goal word for word, else nothing.
\<close>

definition queue_initial :: "string option \<Rightarrow> string \<Rightarrow> string \<Rightarrow> workflow_run \<Rightarrow> workflow_run" where
  "queue_initial activation_prompt goal initial r =
     (let template = (case activation_prompt of
            None \<Rightarrow> None | Some t \<Rightarrow> if trim_blank t then None else Some t);
          raw = (case template of None \<Rightarrow> goal | Some t \<Rightarrow> t) in
      r\<lparr> run_pending :=
        (if trim_blank raw then None
         else Some \<lparr> pa_id = 1, pa_target = initial, pa_iteration = 1, pa_trigger = Initial,
                pa_raw_prompt = raw, pa_verbatim = (template = None), pa_needs_fresh = False,
                pa_is_initial = True, pa_phase = Queued, pa_rendered = None, pa_snapshot = None,
                pa_enter_at = None, pa_codex = None \<rparr>) \<rparr>)"

text \<open>The keys of the terminal interface, under the same file lock.\<close>

definition pause_focused :: "workflow_run \<Rightarrow> workflow_run" where
  "pause_focused r = (if run_status r = Running then set_paused True r else r)"

definition resume_focused :: "workflow_run \<Rightarrow> workflow_run" where
  "resume_focused r = (if run_status r = Paused then set_paused False r else r)"

end
