(* ===== verification/Finalize.thy ===== *)
theory Finalize
  imports WorkflowRpc Template
begin

text \<open>
  The activation drainer, \<open>daemon/src/workflow/finalize.rs\<close> with the rebind of
  \<open>workflow/fresh_reset.rs\<close> and the encodings of \<open>workflow/pty_tracker.rs\<close>: one call of
  \<open>advance_finalization\<close> takes the pending activation of a run one phase further.

  A call reads the run once and then writes to the terminal and changes the file, in an order
  that matters: \<open>fs_io\<close> records each effect when it has happened. Between the read and a change
  other threads may change the file; \<open>fs_saves\<close> says, for each change in turn, whether it can be
  saved and what the others did before it. A write that fails is taken to have written nothing.
\<close>

section \<open>The environment of a call\<close>

datatype engine = ClaudeCode | Codex

record term_mode =
  tm_kitty :: bool
  tm_bracketed :: bool

record role_spec =
  ro_activation :: "string option"
  ro_subsequent :: "string option"

record fin_env =
  fe_run_id :: string
  fe_engines :: "(string \<times> engine) list"
  fe_roles :: "(string \<times> role_spec) list"
  fe_rollout :: "string option"
  fe_now :: millis
  fe_clock :: nat
  fe_gap :: millis
  fe_quiet :: bool
  fe_mode :: term_mode
  fe_resolver :: "workflow_run \<Rightarrow> resolver"
  fe_listing :: "engine \<Rightarrow> string list"
  fe_discover :: "engine \<Rightarrow> string list \<Rightarrow> string option"
  fe_turn_complete :: "engine \<Rightarrow> string \<Rightarrow> bool"
  fe_has_plan :: "engine \<Rightarrow> string \<Rightarrow> bool"
  fe_assistant_count :: "engine \<Rightarrow> string \<Rightarrow> nat"
  fe_text_count :: "engine \<Rightarrow> string \<Rightarrow> nat"

datatype keystroke =
    ClearBody
  | EnterKey
  | PromptBody string
  | ClearComposer

datatype fin_io =
    Wrote keystroke
  | Saved workflow_run

record fin_state =
  fs_disk :: "workflow_run option"
  fs_writes :: "bool list"
  fs_saves :: "(bool \<times> (workflow_run \<Rightarrow> workflow_run)) list"
  fs_io :: "fin_io list"

section \<open>Bytes on the terminal\<close>

definition RAW_SINGLE_LINE_MAX :: nat where
  "RAW_SINGLE_LINE_MAX = 512"

definition enter_bytes_for_mode :: "term_mode \<Rightarrow> string" where
  "enter_bytes_for_mode m = (if tm_kitty m then CHR 0x1B # ''[13u'' else [CHR 0x0D])"

definition body_needs_bracketing :: "string \<Rightarrow> bool" where
  "body_needs_bracketing body \<longleftrightarrow> CHR 0x0A \<in> set body \<or> RAW_SINGLE_LINE_MAX < length body"

definition format_body_for_delivery :: "string \<Rightarrow> term_mode \<Rightarrow> string" where
  "format_body_for_delivery body m =
     (if body_needs_bracketing body \<and> tm_bracketed m
      then (CHR 0x1B # ''[200~'') @ body @ (CHR 0x1B # ''[201~'') else body)"

text \<open>The body as it is framed: without the line ends at its end.\<close>

definition trim_line_ends :: "string \<Rightarrow> string" where
  "trim_line_ends s = rev (dropWhile (\<lambda>c. c = CHR 0x0D \<or> c = CHR 0x0A) (rev s))"

fun keystroke_bytes :: "term_mode \<Rightarrow> keystroke \<Rightarrow> string" where
  "keystroke_bytes m ClearBody = format_body_for_delivery ''/clear'' m"
| "keystroke_bytes m EnterKey = enter_bytes_for_mode m"
| "keystroke_bytes m (PromptBody p) = format_body_for_delivery (trim_line_ends p) m"
| "keystroke_bytes m ClearComposer = [CHR 0x03]"

section \<open>Effects\<close>

type_synonym 'a fin = "fin_state \<Rightarrow> (persist_error + 'a) \<times> fin_state"

definition fin_return :: "'a \<Rightarrow> 'a fin" where
  "fin_return x s = (Inr x, s)"

definition fin_bind :: "'a fin \<Rightarrow> ('a \<Rightarrow> 'b fin) \<Rightarrow> 'b fin" where
  "fin_bind m f s = (case m s of (Inl e, s') \<Rightarrow> (Inl e, s') | (Inr x, s') \<Rightarrow> f x s')"

definition fin_write :: "keystroke \<Rightarrow> unit fin" where
  "fin_write k s =
     (case fs_writes s of
        False # ws \<Rightarrow> (Inl PeIo, s\<lparr> fs_writes := ws \<rparr>)
      | ws \<Rightarrow> (Inr (), s\<lparr> fs_writes := tl ws, fs_io := fs_io s @ [Wrote k] \<rparr>))"

text \<open>\<open>run::modify\<close>: what the others did, then the change, saved or not.\<close>

definition fin_modify :: "string \<Rightarrow> (workflow_run \<Rightarrow> workflow_run) \<Rightarrow> workflow_run fin" where
  "fin_modify rid f s =
     (let (saved, others) = (case fs_saves s of [] \<Rightarrow> (True, id) | x # _ \<Rightarrow> x);
          s' = s\<lparr> fs_saves := tl (fs_saves s), fs_disk := map_option others (fs_disk s) \<rparr> in
      case run_modify rid saved f (fs_disk s') of
        (Inl e, _) \<Rightarrow> (Inl e, s')
      | (Inr r, disk) \<Rightarrow> (Inr r, s'\<lparr> fs_disk := disk, fs_io := fs_io s' @ [Saved r] \<rparr>))"

datatype finalize_step =
    NoPending
  | Blocked
  | Advanced activation_phase
  | StepDone

definition on_pending ::
  "(pending_activation \<Rightarrow> pending_activation) \<Rightarrow> workflow_run \<Rightarrow> workflow_run" where
  "on_pending f r = r\<lparr> run_pending := map_option f (run_pending r) \<rparr>"

definition clear_pending :: "workflow_run \<Rightarrow> workflow_run" where
  "clear_pending r = r\<lparr> run_pending := None \<rparr>"

text \<open>The last row of a role, changed by a function.\<close>

definition on_last_row ::
  "string \<Rightarrow> (history_entry \<Rightarrow> history_entry) \<Rightarrow> workflow_run \<Rightarrow> workflow_run" where
  "on_last_row role f r =
     r\<lparr> run_history := rev (update_first (\<lambda>h. he_role h = role) f (rev (run_history r))) \<rparr>"

definition engine_for :: "fin_env \<Rightarrow> string \<Rightarrow> engine" where
  "engine_for env role = (case bt_get (fe_engines env) role of None \<Rightarrow> ClaudeCode | Some e \<Rightarrow> e)"

section \<open>Rendering\<close>

definition template_source :: "fin_env \<Rightarrow> workflow_run \<Rightarrow> pending_activation \<Rightarrow> string" where
  "template_source env r pa =
     (if pa_raw_prompt pa \<noteq> [] then pa_raw_prompt pa
      else let prior = length (filter (\<lambda>h. he_role h = pa_target pa) (run_history r));
               chosen = Option.bind (bt_get (fe_roles env) (pa_target pa))
                 (\<lambda>ro. if 0 < prior
                       then (case ro_subsequent ro of None \<Rightarrow> ro_activation ro | Some t \<Rightarrow> Some t)
                       else ro_activation ro) in
           (case chosen of None \<Rightarrow> '''' | Some t \<Rightarrow> t))"

definition render_activation :: "fin_env \<Rightarrow> workflow_run \<Rightarrow> pending_activation \<Rightarrow> string" where
  "render_activation env r pa =
     (if pa_verbatim pa then pa_raw_prompt pa
      else render_template (fe_resolver env r) (template_source env r pa))"

definition persistent_baselines :: "fin_env \<Rightarrow> workflow_run \<Rightarrow> string \<Rightarrow> engine \<Rightarrow> nat \<times> nat" where
  "persistent_baselines env r role e =
     (case role_sid r role of
        None \<Rightarrow> (0, 0)
      | Some sid \<Rightarrow> (fe_assistant_count env e sid, fe_text_count env e sid))"

definition append_history :: "fin_env \<Rightarrow> pending_activation \<Rightarrow> nat \<Rightarrow> nat \<Rightarrow> unit fin" where
  "append_history env pa assistant text =
     fin_bind (fin_modify (fe_run_id env) (\<lambda>r.
         on_pending (\<lambda>p. p\<lparr> pa_phase := Appended, pa_enter_at := None \<rparr>)
           (snd (append_entry (fe_clock env) (pa_target pa) (pa_iteration pa) (pa_trigger pa)
                  assistant text r))))
       (\<lambda>_. fin_return ())"

section \<open>Rebinding\<close>

definition bind_sid :: "string \<Rightarrow> string option \<Rightarrow> workflow_run \<Rightarrow> workflow_run" where
  "bind_sid role found r =
     r\<lparr> run_roles := bt_adjust role
          (\<lambda>b. if rb_session_id b = None then b\<lparr> rb_session_id := found \<rparr> else b) (run_roles r) \<rparr>"

text \<open>\<open>try_rebind_discovered\<close>: the answer is what the role is bound to afterwards.\<close>

definition try_rebind_discovered :: "fin_env \<Rightarrow> string \<Rightarrow> string option \<Rightarrow> string option fin" where
  "try_rebind_discovered env role found =
     fin_bind (fin_modify (fe_run_id env) (bind_sid role found))
       (\<lambda>r. fin_return (role_sid r role))"

definition try_rebind :: "fin_env \<Rightarrow> string \<Rightarrow> engine \<Rightarrow> string list \<Rightarrow> string option fin" where
  "try_rebind env role e snapshot = try_rebind_discovered env role (fe_discover env e snapshot)"

section \<open>The phases\<close>

definition step_queued :: "fin_env \<Rightarrow> workflow_run \<Rightarrow> pending_activation \<Rightarrow> finalize_step fin" where
  "step_queued env r pa =
     (let rendered = render_activation env r pa in
      fin_bind (fin_modify (fe_run_id env)
          (on_pending (\<lambda>p. p\<lparr> pa_rendered := Some rendered, pa_phase := Rendered \<rparr>)))
        (\<lambda>_. fin_return (Advanced Rendered)))"

text \<open>The initial activation has its row already: only its session is filled in.\<close>

definition adopt_initial_row :: "string \<Rightarrow> workflow_run \<Rightarrow> workflow_run" where
  "adopt_initial_row role r =
     on_last_row role
       (\<lambda>h. if he_session_id h = None then h\<lparr> he_session_id := role_sid r role \<rparr> else h) r"

definition reset_role :: "string \<Rightarrow> workflow_run \<Rightarrow> workflow_run" where
  "reset_role role r =
     r\<lparr> run_baselines := bt_insert role baseline_zero (run_baselines r),
        run_roles := bt_adjust role (\<lambda>b. b\<lparr> rb_session_id := None \<rparr>) (run_roles r) \<rparr>"

definition pre_clear_snapshot :: "fin_env \<Rightarrow> workflow_run \<Rightarrow> string \<Rightarrow> engine \<Rightarrow> string list" where
  "pre_clear_snapshot env r role e =
     (let listing = fe_listing env e in
      if e = Codex
      then fold (\<lambda>old ss. if old \<in> set ss then ss else ss @ [old])
             ((case fe_rollout env of None \<Rightarrow> [] | Some x \<Rightarrow> [x]) @
              (case role_sid r role of None \<Rightarrow> [] | Some x \<Rightarrow> [x])) listing
      else listing)"

definition step_rendered :: "fin_env \<Rightarrow> workflow_run \<Rightarrow> pending_activation \<Rightarrow> finalize_step fin" where
  "step_rendered env r pa =
     (let role = pa_target pa; e = engine_for env role in
      if pa_is_initial pa then
        fin_bind (fin_modify (fe_run_id env)
            (\<lambda>d. on_pending (\<lambda>p. p\<lparr> pa_phase := Appended \<rparr>) (adopt_initial_row role d)))
          (\<lambda>_. fin_return (Advanced Appended))
      else if pa_needs_fresh pa then
        (if \<not> fe_quiet env then fin_return Blocked
         else fin_bind (fin_write ClearBody)
           (\<lambda>_. fin_bind (fin_modify (fe_run_id env) (\<lambda>d.
                on_pending (\<lambda>p. p\<lparr> pa_snapshot := Some (pre_clear_snapshot env r role e),
                    pa_enter_at := Some (fe_now env + fe_gap env), pa_phase := ClearBodySent \<rparr>)
                  (reset_role role d)))
           (\<lambda>_. fin_return (Advanced ClearBodySent))))
      else
        (let (assistant, text) = persistent_baselines env r role e in
         fin_bind (append_history env pa assistant text) (\<lambda>_. fin_return (Advanced Appended))))"

definition due :: "fin_env \<Rightarrow> pending_activation \<Rightarrow> bool" where
  "due env pa \<longleftrightarrow> (case pa_enter_at pa of None \<Rightarrow> 0 | Some t \<Rightarrow> t) \<le> fe_now env"

definition step_clear_body_sent ::
  "fin_env \<Rightarrow> workflow_run \<Rightarrow> pending_activation \<Rightarrow> finalize_step fin" where
  "step_clear_body_sent env r pa =
     (if \<not> due env pa then fin_return Blocked
      else fin_bind (fin_write EnterKey)
        (\<lambda>_. fin_bind (append_history env pa 0 0) (\<lambda>_. fin_return (Advanced Appended))))"

text \<open>
  The readiness of a live session that was adopted at launch. \<open>None\<close>: not an adopted session, or
  one without a transcript. \<open>Some None\<close>: it is still at work. Else the counts to start from.
\<close>

definition bound_readiness ::
  "fin_env \<Rightarrow> workflow_run \<Rightarrow> pending_activation \<Rightarrow> (nat \<times> nat) option option" where
  "bound_readiness env r pa =
     (let role = pa_target pa; e = engine_for env role in
      if \<not> pa_is_initial pa then None
      else case bt_get (run_roles r) role of
          None \<Rightarrow> None
        | Some b \<Rightarrow>
            (if \<not> rb_bound b then None
             else case rb_session_id b of
                 None \<Rightarrow> None
               | Some sid \<Rightarrow>
                   if fe_turn_complete env e sid \<or> fe_has_plan env e sid
                   then Some (Some (fe_assistant_count env e sid, fe_text_count env e sid))
                   else Some None))"

definition deliver_body :: "fin_env \<Rightarrow> workflow_run \<Rightarrow> pending_activation \<Rightarrow> finalize_step fin" where
  "deliver_body env r pa =
     (let role = pa_target pa; e = engine_for env role;
          discover = (e = ClaudeCode \<and> pa_snapshot pa = None \<and>
            (case bt_get (run_roles r) role of None \<Rightarrow> False | Some b \<Rightarrow> rb_session_id b = None));
          body = (case pa_rendered pa of None \<Rightarrow> '''' | Some t \<Rightarrow> t) in
      fin_bind (fin_write (PromptBody body))
        (\<lambda>_. fin_bind (fin_modify (fe_run_id env) (on_pending (\<lambda>p.
             p\<lparr> pa_snapshot := (if discover then Some (fe_listing env e) else pa_snapshot p),
                pa_enter_at := Some (fe_now env + fe_gap env), pa_phase := BodySent \<rparr>)))
        (\<lambda>_. fin_return (Advanced BodySent))))"

definition step_appended :: "fin_env \<Rightarrow> workflow_run \<Rightarrow> pending_activation \<Rightarrow> finalize_step fin" where
  "step_appended env r pa =
     (if \<not> fe_quiet env then fin_return Blocked
      else if (case pa_codex pa of None \<Rightarrow> False | Some c \<Rightarrow> cc_redelivered c) \<and> \<not> due env pa
      then fin_return Blocked
      else case bound_readiness env r pa of
          Some None \<Rightarrow> fin_return Blocked
        | Some (Some (assistant, text)) \<Rightarrow>
            fin_bind (fin_modify (fe_run_id env) (on_last_row (pa_target pa)
                (\<lambda>h. h\<lparr> he_assistant_at_start := assistant, he_text_at_start := text \<rparr>)))
              (\<lambda>_. deliver_body env r pa)
        | None \<Rightarrow> deliver_body env r pa)"

definition step_body_sent :: "fin_env \<Rightarrow> workflow_run \<Rightarrow> pending_activation \<Rightarrow> finalize_step fin" where
  "step_body_sent env r pa =
     (if \<not> due env pa then fin_return Blocked
      else fin_bind (fin_write EnterKey)
        (\<lambda>_. if pa_needs_fresh pa \<or> pa_snapshot pa \<noteq> None
             then fin_bind (fin_modify (fe_run_id env) (on_pending (\<lambda>p.
                  p\<lparr> pa_enter_at := None,
                     pa_codex := (if engine_for env (pa_target pa) = Codex \<and> pa_needs_fresh p \<and>
                         pa_codex p = None
                       then Some \<lparr> cc_started_at = fe_now env, cc_enter_retries = 0,
                                   cc_redelivered = False \<rparr>
                       else pa_codex p),
                     pa_phase := RebindPending \<rparr>)))
                (\<lambda>_. fin_return (Advanced RebindPending))
             else fin_bind (fin_modify (fe_run_id env) clear_pending)
                (\<lambda>_. fin_return StepDone)))"

definition CODEX_CONFIRM_MAX :: millis where
  "CODEX_CONFIRM_MAX = 75000"

definition CODEX_CONFIRM_ENTER_RETRIES :: "millis list" where
  "CODEX_CONFIRM_ENTER_RETRIES = [8000, 18000]"

definition CODEX_CONFIRM_REDELIVER_AT :: millis where
  "CODEX_CONFIRM_REDELIVER_AT = 32000"

definition retry_codex ::
  "fin_env \<Rightarrow> pending_activation \<Rightarrow> finalize_step fin" where
  "retry_codex env pa =
     (case pa_codex pa of
        None \<Rightarrow>
          fin_bind (fin_modify (fe_run_id env) (on_pending (\<lambda>p. p\<lparr> pa_codex :=
              Some \<lparr> cc_started_at = fe_now env, cc_enter_retries = 0, cc_redelivered = False \<rparr> \<rparr>)))
            (\<lambda>_. fin_return Blocked)
      | Some c \<Rightarrow>
          (let elapsed = fe_now env - cc_started_at c in
           if CODEX_CONFIRM_MAX \<le> elapsed then
             fin_bind (fin_modify (fe_run_id env) (\<lambda>d. d\<lparr> run_paused := True \<rparr>))
               (\<lambda>_. fin_return Blocked)
           else if cc_enter_retries c < length CODEX_CONFIRM_ENTER_RETRIES then
             (if CODEX_CONFIRM_ENTER_RETRIES ! cc_enter_retries c \<le> elapsed then
                fin_bind (fin_write EnterKey)
                  (\<lambda>_. fin_bind (fin_modify (fe_run_id env) (on_pending (\<lambda>p. p\<lparr> pa_codex :=
                      map_option (\<lambda>d. d\<lparr> cc_enter_retries := cc_enter_retries d + 1 \<rparr>) (pa_codex p) \<rparr>)))
                  (\<lambda>_. fin_return Blocked))
              else fin_return Blocked)
           else if \<not> cc_redelivered c \<and> CODEX_CONFIRM_REDELIVER_AT \<le> elapsed then
             fin_bind (fin_write ClearComposer)
               (\<lambda>_. fin_bind (fin_modify (fe_run_id env) (on_pending (\<lambda>p. p\<lparr>
                   pa_codex := map_option (\<lambda>d. d\<lparr> cc_redelivered := True \<rparr>) (pa_codex p),
                   pa_enter_at := Some (fe_now env + 300), pa_phase := Appended \<rparr>)))
               (\<lambda>_. fin_return (Advanced Appended)))
           else fin_return Blocked))"

definition step_rebind ::
  "fin_env \<Rightarrow> workflow_run \<Rightarrow> pending_activation \<Rightarrow> finalize_step fin" where
  "step_rebind env r pa =
     (let role = pa_target pa; e = engine_for env role in
      if e = Codex \<and> pa_needs_fresh pa then retry_codex env pa
      else fin_bind (try_rebind env role e (case pa_snapshot pa of None \<Rightarrow> [] | Some ss \<Rightarrow> ss))
        (\<lambda>bound. case bound of
           None \<Rightarrow> fin_return Blocked
         | Some sid \<Rightarrow>
             fin_bind (fin_modify (fe_run_id env) (\<lambda>d.
                 clear_pending (on_last_row role (\<lambda>h. h\<lparr> he_session_id := Some sid \<rparr>) d)))
               (\<lambda>_. fin_return StepDone)))"

text \<open>A new rollout of the role's own process shows that the prompt has arrived.\<close>

definition confirmed_rollout :: "fin_env \<Rightarrow> pending_activation \<Rightarrow> string option" where
  "confirmed_rollout env pa =
     (if engine_for env (pa_target pa) = Codex \<and> pa_needs_fresh pa \<and>
         (pa_phase pa = RebindPending \<or> pa_codex pa \<noteq> None)
      then (case fe_rollout env of
              None \<Rightarrow> None
            | Some sid \<Rightarrow>
                if sid \<in> set (case pa_snapshot pa of None \<Rightarrow> [] | Some ss \<Rightarrow> ss) then None else Some sid)
      else None)"

definition step_confirmed :: "fin_env \<Rightarrow> pending_activation \<Rightarrow> string \<Rightarrow> finalize_step fin" where
  "step_confirmed env pa sid =
     (let role = pa_target pa in
      fin_bind (try_rebind_discovered env role (Some sid))
        (\<lambda>_. fin_bind (fin_modify (fe_run_id env) (\<lambda>d.
               if map_option pa_id (run_pending d) = Some (pa_id pa)
               then clear_pending (on_last_row role (\<lambda>h. h\<lparr> he_session_id := Some sid \<rparr>) d) else d))
             (\<lambda>_. fin_return StepDone)))"

definition step_phase :: "fin_env \<Rightarrow> workflow_run \<Rightarrow> pending_activation \<Rightarrow> finalize_step fin" where
  "step_phase env r pa =
     (case pa_phase pa of
        Queued \<Rightarrow> step_queued env r pa
      | Rendered \<Rightarrow> step_rendered env r pa
      | ClearBodySent \<Rightarrow> step_clear_body_sent env r pa
      | Appended \<Rightarrow> step_appended env r pa
      | BodySent \<Rightarrow> step_body_sent env r pa
      | RebindPending \<Rightarrow> step_rebind env r pa
      | PhaseDone \<Rightarrow>
          fin_bind (fin_modify (fe_run_id env) clear_pending) (\<lambda>_. fin_return StepDone))"

definition advance_finalization :: "fin_env \<Rightarrow> finalize_step fin" where
  "advance_finalization env s =
     (case (if validate_run_id (fe_run_id env) = None then fs_disk s else None) of
        None \<Rightarrow> fin_return NoPending s
      | Some r \<Rightarrow>
          if run_status r \<noteq> Running \<or> run_paused r then fin_return Blocked s
          else case run_pending r of
              None \<Rightarrow> fin_return NoPending s
            | Some pa \<Rightarrow>
                (case confirmed_rollout env pa of
                   Some sid \<Rightarrow> step_confirmed env pa sid s
                 | None \<Rightarrow> step_phase env r pa s))"

end
