(* ===== verification/WorkflowDef.thy ===== *)
theory WorkflowDef
  imports Finalize
begin

text \<open>
  Workflow definitions, \<open>daemon/src/workflow/toml_schema.rs\<close>: the roles, the static transitions
  and the structural checks that a definition passes when it is loaded. The TOML parser is a
  library. What the checks are for: the hand-off of an idle role is unique and leads to a role of
  the same workflow.
\<close>

section \<open>Definitions\<close>

datatype role_context = Persistent | Fresh

datatype trigger_on = OnIdle

record workflow_role = role_spec +
  wr_engine :: engine
  wr_context :: role_context
  wr_needs_mcp :: bool
  wr_model :: "string option"
  wr_effort :: "string option"

record wf_transition =
  wt_from :: string
  wt_on :: trigger_on
  wt_to :: string

record workflow_def =
  wd_name :: string
  wd_description :: string
  wd_roles :: "(string \<times> workflow_role) list"
  wd_role_order :: "string list"
  wd_transitions :: "wf_transition list"

text \<open>
  \<open>engine_for_session_type\<close> of \<open>workflow/poller.rs\<close>: everything that is not Codex is taken for
  Claude.
\<close>

definition engine_for_session_type :: "string \<Rightarrow> engine" where
  "engine_for_session_type t = (if t = ''codex'' then Codex else ClaudeCode)"

section \<open>The checks\<close>

datatype invalid_workflow =
    NameRequired
  | NoRoles
  | RoleOrderMismatch
  | UnknownFrom string
  | UnknownTo string
  | DuplicateTransition string

fun validate_transitions ::
  "(string \<times> workflow_role) list \<Rightarrow> (string \<times> trigger_on) list \<Rightarrow> wf_transition list \<Rightarrow>
   invalid_workflow option" where
  "validate_transitions roles seen [] = None"
| "validate_transitions roles seen (t # ts) =
     (if bt_get roles (wt_from t) = None then Some (UnknownFrom (wt_from t))
      else if bt_get roles (wt_to t) = None then Some (UnknownTo (wt_to t))
      else if (wt_from t, wt_on t) \<in> set seen then Some (DuplicateTransition (wt_from t))
      else validate_transitions roles ((wt_from t, wt_on t) # seen) ts)"

definition validate_workflow :: "workflow_def \<Rightarrow> invalid_workflow option" where
  "validate_workflow w =
     (if trim_blank (wd_name w) then Some NameRequired
      else if wd_roles w = [] then Some NoRoles
      else if set (map fst (wd_roles w)) \<noteq> set (wd_role_order w) then Some RoleOrderMismatch
      else validate_transitions (wd_roles w) [] (wd_transitions w))"

text \<open>\<open>from_toml_str\<close> after the parse: a missing order is the order of the map.\<close>

definition accept_workflow :: "workflow_def \<Rightarrow> invalid_workflow + workflow_def" where
  "accept_workflow parsed =
     (let w = (if wd_role_order parsed = []
                then parsed\<lparr> wd_role_order := map fst (wd_roles parsed) \<rparr> else parsed) in
      case validate_workflow w of Some e \<Rightarrow> Inl e | None \<Rightarrow> Inr w)"

definition static_transition_on_idle :: "workflow_def \<Rightarrow> string \<Rightarrow> wf_transition option" where
  "static_transition_on_idle w role =
     find (\<lambda>t. wt_from t = role \<and> wt_on t = OnIdle) (wd_transitions w)"

section \<open>What the checks are for\<close>

lemma trigger_on_eq [simp]: "(s :: trigger_on) = t"
  by (cases s; cases t) simp

lemma validate_transitions_None:
  "validate_transitions roles seen ts = None \<longleftrightarrow>
     (\<forall>t\<in>set ts. bt_get roles (wt_from t) \<noteq> None \<and> bt_get roles (wt_to t) \<noteq> None) \<and>
     distinct (map (\<lambda>t. (wt_from t, wt_on t)) ts) \<and>
     set (map (\<lambda>t. (wt_from t, wt_on t)) ts) \<inter> set seen = {}"
  by (induction ts arbitrary: seen) auto

lemma static_transition_member:
  "static_transition_on_idle w role = Some t \<Longrightarrow> t \<in> set (wd_transitions w) \<and> wt_from t = role"
  by (auto simp: static_transition_on_idle_def find_Some_iff)

lemma accepted_workflow_transition:
  assumes "accept_workflow parsed = Inr w"
  shows "static_transition_on_idle w role = Some t \<longleftrightarrow>
    t \<in> set (wd_transitions w) \<and> wt_from t = role"
    and "t \<in> set (wd_transitions w) \<Longrightarrow>
      \<exists>spec. bt_get (wd_roles w) (wt_from t) \<noteq> None \<and> bt_get (wd_roles w) (wt_to t) = Some spec"
proof -
  have v: "validate_transitions (wd_roles w) [] (wd_transitions w) = None"
    using assms by (auto simp: accept_workflow_def validate_workflow_def Let_def split: option.splits if_splits)
  then show "t \<in> set (wd_transitions w) \<Longrightarrow>
      \<exists>spec. bt_get (wd_roles w) (wt_from t) \<noteq> None \<and> bt_get (wd_roles w) (wt_to t) = Some spec"
    by (auto simp: validate_transitions_None)
  have inj: "inj_on wt_from (set (wd_transitions w))"
    using v by (auto simp: validate_transitions_None distinct_map inj_on_def)
  show "static_transition_on_idle w role = Some t \<longleftrightarrow>
    t \<in> set (wd_transitions w) \<and> wt_from t = role"
  proof
    assume t: "t \<in> set (wd_transitions w) \<and> wt_from t = role"
    then obtain t' where t': "static_transition_on_idle w role = Some t'"
      by (cases "static_transition_on_idle w role")
        (auto simp: static_transition_on_idle_def find_None_iff)
    then have "t' = t" using t inj static_transition_member [OF t'] by (auto dest: inj_onD)
    then show "static_transition_on_idle w role = Some t" using t' by simp
  qed (rule static_transition_member)
qed

end
