(* ===== verification/Poller.thy ===== *)
theory Poller
  imports WorkflowDef
begin

text \<open>
  The workflow poller, \<open>daemon/src/workflow/poller.rs\<close>: what it reads of the daemon's state, the
  snapshot of a run, the decision it makes of a snapshot without a lock, and the two ways in which
  it acts on the decision. The pass itself is in \<open>PollerTick\<close>.

  Transcripts are a parameter: what \<open>transcript.rs\<close> answers for an engine, a worktree and a
  session. A hash map is the list of its entries in its order of iteration. What
  \<open>agent_state::current\<close> says of a session is a field of the session.
\<close>

section \<open>What the poller reads\<close>

datatype agent_state =
    AgWorking
  | AgWorkingBackground
  | AgWaitingOnHuman
  | AgErrored
  | AgIdle
  | AgStarting
  | AgExited
  | AgUnknown

datatype agent_source = SrcPresence | SrcHooks | SrcRelay | SrcTranscript | SrcPty

definition engine_reported :: "agent_source \<Rightarrow> bool" where
  "engine_reported s \<longleftrightarrow> s = SrcPresence \<or> s = SrcHooks \<or> s = SrcRelay"

record agent_view =
  ag_source :: agent_source
  ag_turn_open :: "bool option"
  ag_state :: agent_state

record poller_session =
  ps_type :: string
  ps_workspace :: string
  ps_run :: "string option"
  ps_role :: "string option"
  ps_pid :: pid
  ps_transcript :: "string option"
  ps_agent :: agent_view

record tui_session =
  ts_type :: "string option"
  ts_task :: "string option"
  ts_run :: "string option"
  ts_role :: "string option"

record poller_state =
  pl_sessions :: "(string \<times> poller_session) list"
  pl_tui_sessions :: "(string \<times> tui_session) list"
  pl_bindings :: "(string \<times> string) list"
  pl_worktrees :: "(string \<times> string option) list"
  pl_definitions :: "(string \<times> workflow_def) list"
  pl_base_definitions :: "(string \<times> workflow_def) list"
  pl_state_gate :: bool

datatype message_kind = UserMessages | AssistantMessages

record transcripts =
  tr_messages :: "engine \<Rightarrow> string \<Rightarrow> string \<Rightarrow> message_kind \<Rightarrow> string list"
  tr_count :: "engine \<Rightarrow> string \<Rightarrow> string \<Rightarrow> message_kind \<Rightarrow> nat"
  tr_turn_complete :: "engine \<Rightarrow> string \<Rightarrow> string \<Rightarrow> bool"
  tr_last_message :: "engine \<Rightarrow> string \<Rightarrow> string \<Rightarrow> string option"
  tr_plan :: "engine \<Rightarrow> string \<Rightarrow> string \<Rightarrow> string option"

definition assistant_turn_completed_since ::
  "transcripts \<Rightarrow> engine \<Rightarrow> string \<Rightarrow> string \<Rightarrow> nat \<Rightarrow> bool" where
  "assistant_turn_completed_since tr e wt sid baseline \<longleftrightarrow>
     baseline < tr_count tr e wt sid AssistantMessages \<and> tr_turn_complete tr e wt sid"

definition workflow_definition :: "poller_state \<Rightarrow> string \<Rightarrow> workflow_def option" where
  "workflow_definition st name =
     (case map_of (pl_definitions st) name of
        Some w \<Rightarrow> Some w | None \<Rightarrow> map_of (pl_base_definitions st) name)"

section \<open>The session of a role\<close>

text \<open>The session a role is bound to by its uid, when it is alive.\<close>

definition bound_session :: "poller_state \<Rightarrow> workflow_run \<Rightarrow> string \<Rightarrow> poller_session option" where
  "bound_session st r role =
     Option.bind (Option.bind (bt_get (run_roles r) role) rb_daemon_uid) (map_of (pl_sessions st))"

definition daemon_owns_run :: "poller_state \<Rightarrow> workflow_run \<Rightarrow> bool" where
  "daemon_owns_run st r \<longleftrightarrow>
     (case run_active r of None \<Rightarrow> False | Some active \<Rightarrow> bound_session st r active \<noteq> None)"

definition tagged :: "workflow_run \<Rightarrow> string \<Rightarrow> string option \<Rightarrow> string option \<Rightarrow> bool" where
  "tagged r role run_tag role_tag \<longleftrightarrow> run_tag = Some (run_id r) \<and> role_tag = Some role"

definition tagged_session :: "poller_state \<Rightarrow> workflow_run \<Rightarrow> string \<Rightarrow> poller_session option" where
  "tagged_session st r role =
     find (\<lambda>s. tagged r role (ps_run s) (ps_role s)) (map snd (pl_sessions st))"

definition tagged_tui_session :: "poller_state \<Rightarrow> workflow_run \<Rightarrow> string \<Rightarrow> tui_session option" where
  "tagged_tui_session st r role =
     find (\<lambda>s. tagged r role (ts_run s) (ts_role s)) (map snd (pl_tui_sessions st))"

definition tui_type :: "tui_session \<Rightarrow> string" where
  "tui_type s = (case ts_type s of None \<Rightarrow> ''claude-code'' | Some t \<Rightarrow> t)"

text \<open>The type and the workspace of the role's session.\<close>

definition resolve_role_session_context ::
  "poller_state \<Rightarrow> workflow_run \<Rightarrow> string \<Rightarrow> (string \<times> string) option" where
  "resolve_role_session_context st r role =
     (case bound_session st r role of
        Some s \<Rightarrow> Some (ps_type s, ps_workspace s)
      | None \<Rightarrow>
          (case tagged_session st r role of
             Some s \<Rightarrow> Some (ps_type s, ps_workspace s)
           | None \<Rightarrow>
               (case tagged_tui_session st r role of
                  None \<Rightarrow> None
                | Some ts \<Rightarrow> map_option (\<lambda>ws. (tui_type ts, ws))
                    (Option.bind (ts_task ts) (map_of (pl_bindings st))))))"

definition resolve_role_session_type ::
  "poller_state \<Rightarrow> workflow_run \<Rightarrow> string \<Rightarrow> string option" where
  "resolve_role_session_type st r role =
     (case bound_session st r role of
        Some s \<Rightarrow> Some (ps_type s)
      | None \<Rightarrow>
          (case tagged_session st r role of
             Some s \<Rightarrow> Some (ps_type s)
           | None \<Rightarrow> map_option tui_type (tagged_tui_session st r role)))"

text \<open>The worktree of the active role's workspace, else of the workspace the run began in.\<close>

definition run_worktree :: "poller_state \<Rightarrow> workflow_run \<Rightarrow> string option" where
  "run_worktree st r =
     (let ws = (case Option.bind (run_active r) (resolve_role_session_context st r) of
            None \<Rightarrow> run_task_key r | Some c \<Rightarrow> snd c) in
      Option.bind (map_of (pl_worktrees st) ws) id)"

definition workflow_engine_blocks :: "poller_state \<Rightarrow> workflow_run \<Rightarrow> bool" where
  "workflow_engine_blocks st r \<longleftrightarrow>
     pl_state_gate st \<and>
     (case Option.bind (run_active r) (bound_session st r) of
        None \<Rightarrow> False
      | Some s \<Rightarrow> engine_reported (ag_source (ps_agent s)) \<and>
          (ag_turn_open (ps_agent s) = Some True \<or>
           ag_state (ps_agent s) \<in> {AgWorking, AgWorkingBackground, AgWaitingOnHuman}))"

section \<open>The resolver of prompt templates\<close>

definition resolver_lookup ::
  "workflow_run \<Rightarrow> string option \<Rightarrow> (string \<times> engine) list \<Rightarrow> string \<Rightarrow> (engine \<times> string \<times> string) option" where
  "resolver_lookup r worktree engines role =
     Option.bind (bt_get engines role) (\<lambda>e. Option.bind (role_sid r role)
       (\<lambda>sid. map_option (\<lambda>wt. (e, wt, sid)) worktree))"

definition role_baseline :: "workflow_run \<Rightarrow> string \<Rightarrow> message_baseline" where
  "role_baseline r role =
     (case bt_get (run_baselines r) role of None \<Rightarrow> baseline_zero | Some b \<Rightarrow> b)"

definition daemon_resolver ::
  "transcripts \<Rightarrow> workflow_run \<Rightarrow> string option \<Rightarrow> (string \<times> engine) list \<Rightarrow> resolver" where
  "daemon_resolver tr r worktree engines =
     (let messages = (\<lambda>role kind. case resolver_lookup r worktree engines role of
            None \<Rightarrow> [] | Some (e, wt, sid) \<Rightarrow> tr_messages tr e wt sid kind) in
      \<lparr> rs_user = (\<lambda>role. drop (mb_user (role_baseline r role)) (messages role UserMessages)),
         rs_assistant = (\<lambda>role. drop (mb_assistant (role_baseline r role)) (messages role AssistantMessages)),
         rs_since_activation = (\<lambda>role. drop
           (case find (\<lambda>h. he_role h = role) (rev (run_history r)) of
              None \<Rightarrow> 0 | Some h \<Rightarrow> he_text_at_start h) (messages role AssistantMessages)),
         rs_prior_user = (\<lambda>role. take (mb_user (role_baseline r role)) (messages role UserMessages)),
         rs_prior_assistant =
           (\<lambda>role. take (mb_assistant (role_baseline r role)) (messages role AssistantMessages)),
         rs_plan = (\<lambda>role. case bt_get (run_plans r) role of
             Some p \<Rightarrow> if p \<noteq> [] then Some p
                 else Option.bind (resolver_lookup r worktree engines role)
                   (\<lambda>(e, wt, sid). tr_plan tr e wt sid)
           | None \<Rightarrow> Option.bind (resolver_lookup r worktree engines role)
                   (\<lambda>(e, wt, sid). tr_plan tr e wt sid)),
         rs_goal = run_goal r, rs_rejected = map rf_text (run_rejected r) \<rparr>)"

section \<open>Snapshots\<close>

record tick_snapshot =
  sn_run_id :: string
  sn_workflow_name :: string
  sn_active :: "string option"
  sn_paused :: bool
  sn_run :: workflow_run
  sn_worktree :: "string option"
  sn_types :: "(string \<times> string) list"
  sn_owned :: bool
  sn_blocked :: bool
  sn_workflow :: "workflow_def option"

definition role_session_types :: "poller_state \<Rightarrow> workflow_run \<Rightarrow> (string \<times> string) list" where
  "role_session_types st r =
     concat (map (\<lambda>role. case resolve_role_session_type st r role of
         None \<Rightarrow> [] | Some t \<Rightarrow> [(role, t)]) (map fst (run_roles r)))"

definition snapshot_of :: "poller_state \<Rightarrow> workflow_run \<Rightarrow> tick_snapshot" where
  "snapshot_of st r =
     \<lparr> sn_run_id = run_id r, sn_workflow_name = run_workflow r, sn_active = run_active r,
        sn_paused = run_paused r, sn_run = r, sn_worktree = run_worktree st r,
        sn_types = role_session_types st r, sn_owned = daemon_owns_run st r,
        sn_blocked = workflow_engine_blocks st r,
        sn_workflow = workflow_definition st (run_workflow r) \<rparr>"

definition collect_snapshots :: "poller_state \<Rightarrow> workflow_run list \<Rightarrow> tick_snapshot list" where
  "collect_snapshots st rs = map (snapshot_of st) (filter is_active rs)"

section \<open>Decisions\<close>

datatype skip_reason =
    SkipPaused
  | NoActiveRole
  | NoTranscriptId
  | NoWorktreePath
  | NoWorkflowDefinition
  | NoOnIdleTransition
  | NotIdle
  | EngineStateBlocked
  | NudgeDebounced
  | NudgeExhausted
  | SessionNotFound
  | NoHistoryEntry
  | PendingActivationInFlight

datatype decision =
    ActivateStatic string string string string
  | Nudge string string string nat
  | Skip string skip_reason

definition MAX_CONSECUTIVE_IDLE_NUDGES :: nat where
  "MAX_CONSECUTIVE_IDLE_NUDGES = 3"

text \<open>\<open>IDLE_NUDGE_PROMPT\<close> of \<open>workflow/mod.rs\<close>, in UTF-8.\<close>

definition em_dash :: string where
  "em_dash = [CHR 0xE2, CHR 0x80, CHR 0x94]"

definition IDLE_NUDGE_PROMPT :: string where
  "IDLE_NUDGE_PROMPT =
     [CHR 0xE2, CHR 0x9A, CHR 0xA0, CHR 0xEF, CHR 0xB8, CHR 0x8F] @
     '' Your last turn ended without advancing the workflow '' @ em_dash @
     '' the run is paused on you right now, waiting for a tool call that never came.'' @
     [CHR 0x0A, CHR 0x0A] @
     ''End your turn with EXACTLY ONE workflow tool call. That call is the only thing that moves '' @
     ''the run forward, and it IS your verdict '' @ em_dash @
     '' put your reasoning inside the call'' @ [CHR 0x27] @ ''s argument, not in a prose reply:'' @
     [CHR 0x0A] @ ''  - workflow_transition '' @ em_dash @
     '' hand control to another role (put your directive message in '' @ [CHR 0x60] @ ''prompt'' @
     [CHR 0x60] @ '').'' @ [CHR 0x0A] @ ''  - workflow_done '' @ em_dash @
     '' the work is complete (put your verdict and the evidence in '' @ [CHR 0x60] @ ''reason'' @
     [CHR 0x60] @ '').'' @ [CHR 0x0A, CHR 0x0A] @ ''Do not reply with prose. Make the tool call now.''"

definition session_engine :: "(string \<times> string) list \<Rightarrow> string \<Rightarrow> engine" where
  "session_engine types role =
     engine_for_session_type (case bt_get types role of None \<Rightarrow> ''claude-code'' | Some t \<Rightarrow> t)"

text \<open>The prompt of a hand-off as the poller shows it; the drainer renders it again to type it.\<close>

definition handoff_prompt ::
  "transcripts \<Rightarrow> tick_snapshot \<Rightarrow> workflow_def \<Rightarrow> string \<Rightarrow> workflow_role \<Rightarrow> string" where
  "handoff_prompt tr sn w to_role spec =
     (let prior = length (filter (\<lambda>h. he_role h = to_role) (run_history (sn_run sn)));
          template = (if 0 < prior
            then (case ro_subsequent spec of None \<Rightarrow> ro_activation spec | Some t \<Rightarrow> Some t)
            else ro_activation spec);
          engines = map (\<lambda>role. (role, session_engine (sn_types sn) role)) (map fst (wd_roles w)) in
      case template of
        None \<Rightarrow> ''''
      | Some t \<Rightarrow> render_template (daemon_resolver tr (sn_run sn) (sn_worktree sn) engines) t)"

text \<open>The decision for a role whose turn is over.\<close>

definition decide_idle ::
  "transcripts \<Rightarrow> tick_snapshot \<Rightarrow> workflow_def \<Rightarrow> string \<Rightarrow> nat \<Rightarrow> decision" where
  "decide_idle tr sn w active count =
     (case static_transition_on_idle w active of
        None \<Rightarrow>
          if run_nudge_count (sn_run sn) = Some count then Skip (sn_run_id sn) NudgeDebounced
          else if MAX_CONSECUTIVE_IDLE_NUDGES \<le> trailing_streak (sn_run sn) active - 1
          then Skip (sn_run_id sn) NudgeExhausted
          else Nudge (sn_run_id sn) active IDLE_NUDGE_PROMPT count
      | Some t \<Rightarrow>
          (case bt_get (wd_roles w) (wt_to t) of
             None \<Rightarrow> Skip (sn_run_id sn) NoOnIdleTransition
           | Some spec \<Rightarrow>
               ActivateStatic (sn_run_id sn) active (wt_to t) (handoff_prompt tr sn w (wt_to t) spec)))"

text \<open>
  The gate reads the transcript, and the marker and the prompt read it again: \<open>later\<close> is what it
  says then.
\<close>

definition evaluate_snapshot :: "transcripts \<Rightarrow> transcripts \<Rightarrow> tick_snapshot \<Rightarrow> decision" where
  "evaluate_snapshot tr later sn =
     (let skip = Skip (sn_run_id sn) in
      if sn_paused sn then skip SkipPaused
      else case sn_active sn of
          None \<Rightarrow> skip NoActiveRole
        | Some active \<Rightarrow>
            if \<not> sn_owned sn then skip SessionNotFound
            else case sn_workflow sn of
                None \<Rightarrow> skip NoWorkflowDefinition
              | Some w \<Rightarrow>
                  (case sn_worktree sn of
                     None \<Rightarrow> skip NoWorktreePath
                   | Some wt \<Rightarrow>
                       (case role_sid (sn_run sn) active of
                          None \<Rightarrow> skip NoTranscriptId
                        | Some sid \<Rightarrow>
                            if map_option pa_target (run_pending (sn_run sn)) = Some active
                            then skip PendingActivationInFlight
                            else let e = session_engine (sn_types sn) active in
                              (case active_start_count (sn_run sn) of
                                 None \<Rightarrow> skip NoHistoryEntry
                               | Some baseline \<Rightarrow>
                                   if sn_blocked sn then skip EngineStateBlocked
                                   else if \<not> assistant_turn_completed_since tr e wt sid baseline
                                   then skip NotIdle
                                   else decide_idle later sn w active
                                     (tr_count later e wt sid AssistantMessages)))))"

section \<open>Acting on a decision\<close>

text \<open>
  What \<open>workflow_transition\<close> looks up in the daemon's state before it takes the file lock: the
  last message of the role that leaves, and whether the role that enters starts afresh.
\<close>

definition capture_outgoing_last_message ::
  "poller_state \<Rightarrow> transcripts \<Rightarrow> workflow_run option \<Rightarrow> string option" where
  "capture_outgoing_last_message st tr disk =
     Option.bind disk (\<lambda>r. Option.bind (run_active r) (\<lambda>active. Option.bind (role_sid r active)
       (\<lambda>sid. Option.bind (resolve_role_session_context st r active) (\<lambda>(stype, ws).
          Option.bind (Option.bind (map_of (pl_worktrees st) ws) id) (\<lambda>wt.
            tr_last_message tr (engine_for_session_type stype) wt sid)))))"

definition to_role_is_fresh :: "poller_state \<Rightarrow> workflow_run option \<Rightarrow> string \<Rightarrow> bool" where
  "to_role_is_fresh st disk role =
     (case Option.bind disk (\<lambda>r. Option.bind (workflow_definition st (run_workflow r))
        (\<lambda>w. bt_get (wd_roles w) role)) of
        None \<Rightarrow> False | Some spec \<Rightarrow> wr_context spec = Fresh)"

definition poller_rpc ::
  "poller_state \<Rightarrow> transcripts \<Rightarrow> rpc_env \<Rightarrow> string \<Rightarrow> workflow_run option \<Rightarrow> rpc_env" where
  "poller_rpc st tr env to_role disk =
     env\<lparr> re_caller := Operator, re_captured := capture_outgoing_last_message st tr disk,
          re_fresh := to_role_is_fresh st disk to_role \<rparr>"

definition poller_params :: "string \<Rightarrow> string \<Rightarrow> string \<Rightarrow> string \<Rightarrow> transition_params" where
  "poller_params rid from_role to_role prompt =
     \<lparr> tp_run_id = rid, tp_to = to_role, tp_prompt = prompt, tp_role = from_role,
        tp_trigger = Some ''static_idle'', tp_expected_from = Some from_role \<rparr>"

definition fire_static_transition ::
  "poller_state \<Rightarrow> transcripts \<Rightarrow> rpc_env \<Rightarrow> string \<Rightarrow> string \<Rightarrow> string \<Rightarrow> string \<Rightarrow>
   workflow_run option \<Rightarrow> (workflow_error + unit) \<times> workflow_run option" where
  "fire_static_transition st tr env rid from_role to_role prompt disk =
     (case workflow_transition (poller_rpc st tr env to_role disk)
        (poller_params rid from_role to_role prompt) disk of
        (Inl e, disk') \<Rightarrow> (Inl e, disk')
      | (Inr _, disk') \<Rightarrow> (Inr (), disk'))"

definition persist_nudge_guard ::
  "string \<Rightarrow> bool \<Rightarrow> nat \<Rightarrow> workflow_run option \<Rightarrow> (persist_error + unit) \<times> workflow_run option" where
  "persist_nudge_guard rid saved count disk =
     (case run_modify rid saved (\<lambda>r. r\<lparr> run_nudge_count := Some count \<rparr>) disk of
        (Inl e, disk') \<Rightarrow> (Inl e, disk')
      | (Inr _, disk') \<Rightarrow> (Inr (), disk'))"

text \<open>
  A decision applied to the file of its run. A hand-off carries no prompt: the drainer renders the
  target's template. A nudge is fired only once its marker is on disk.
\<close>

definition apply_decision ::
  "poller_state \<Rightarrow> transcripts \<Rightarrow> rpc_env \<Rightarrow> bool \<Rightarrow> decision \<Rightarrow> workflow_run option \<Rightarrow>
   workflow_run option" where
  "apply_decision st tr env marked d disk =
     (case d of
        ActivateStatic rid from_role to_role prompt \<Rightarrow>
          snd (fire_static_transition st tr env rid from_role to_role '''' disk)
      | Nudge rid role prompt count \<Rightarrow>
          (case persist_nudge_guard rid marked count disk of
             (Inl _, disk') \<Rightarrow> disk'
           | (Inr _, disk') \<Rightarrow> snd (fire_static_transition st tr env rid role role prompt disk'))
      | Skip rid reason \<Rightarrow> disk)"

end
