(* ===== verification/PollerTick.thy ===== *)
theory PollerTick
  imports Poller
begin

text \<open>
  A pass of the poller, \<open>WorkflowPoller::poll_once\<close> of \<open>daemon/src/workflow/poller.rs\<close>, with the
  two bridges that run before it and the drain that runs after it.

  The runs are the list of the files under the runs directory. Between the moment the snapshots
  are taken and the moment a decision is applied other threads may change a file; \<open>te_others\<close> is
  what they do to it. The calls of the drainer carry their own interference.
\<close>

section \<open>Session ids\<close>

text \<open>
  \<open>Path::file_stem\<close>: the last component, without what follows its last dot unless that dot is
  its first character.
\<close>

fun path_components :: "string \<Rightarrow> string list" where
  "path_components [] = [[]]"
| "path_components (c # cs) =
     (if c = CHR ''/'' then [] # path_components cs
      else case path_components cs of [] \<Rightarrow> [[c]] | p # ps \<Rightarrow> (c # p) # ps)"

definition file_name :: "string \<Rightarrow> string option" where
  "file_name path =
     (let ps = filter (\<lambda>p. p \<noteq> [] \<and> p \<noteq> ''.'') (path_components path) in
      if ps = [] \<or> last ps = ''..'' then None else Some (last ps))"

definition file_stem :: "string \<Rightarrow> string option" where
  "file_stem path = map_option (\<lambda>name.
     let stem = rev (tl (dropWhile (\<lambda>c. c \<noteq> CHR ''.'') (rev name))) in
     if stem = [] then name else stem) (file_name path)"

text \<open>\<open>codex_id\<close>: the id on the first line of a Codex transcript, if it can be read.\<close>

definition resolve_existing_sid ::
  "(string \<Rightarrow> string option) \<Rightarrow> string \<Rightarrow> string \<Rightarrow> string option" where
  "resolve_existing_sid codex_id stype path =
     (if stype = ''codex'' then codex_id path else file_stem path)"

definition fresh_in_flight :: "workflow_run \<Rightarrow> string \<Rightarrow> bool" where
  "fresh_in_flight r role \<longleftrightarrow>
     (case run_pending r of None \<Rightarrow> False | Some pa \<Rightarrow> pa_target pa = role \<and> pa_needs_fresh pa)"

record sync_candidate =
  sy_role :: string
  sy_uid :: string
  sy_pid :: pid
  sy_type :: string
  sy_transcript :: "string option"
  sy_previous :: "string option"

definition sync_candidates :: "poller_state \<Rightarrow> workflow_run \<Rightarrow> sync_candidate list" where
  "sync_candidates st r =
     (if \<not> is_active r then []
      else concat (map (\<lambda>(role, b).
        if fresh_in_flight r role then []
        else case rb_daemon_uid b of
            None \<Rightarrow> []
          | Some uid \<Rightarrow>
              (case map_of (pl_sessions st) uid of
                 None \<Rightarrow> []
               | Some s \<Rightarrow>
                   if ps_type s \<noteq> ''codex'' \<and> rb_session_id b \<noteq> None then []
                   else [\<lparr> sy_role = role, sy_uid = uid, sy_pid = ps_pid s, sy_type = ps_type s,
                           sy_transcript = ps_transcript s, sy_previous = rb_session_id b \<rparr>]))
        (run_roles r)))"

text \<open>The change of the file, which looks again at all that the candidate was chosen for.\<close>

definition sync_change :: "sync_candidate \<Rightarrow> string \<Rightarrow> workflow_run \<Rightarrow> workflow_run" where
  "sync_change c sid r =
     (case bt_get (run_roles r) (sy_role c) of
        None \<Rightarrow> r
      | Some b \<Rightarrow>
          if rb_daemon_uid b \<noteq> Some (sy_uid c) \<or> rb_session_id b \<noteq> sy_previous c \<or>
             fresh_in_flight r (sy_role c)
          then r
          else let rebound = (sy_previous c \<noteq> None);
                   r1 = r\<lparr> run_roles :=
                     bt_adjust (sy_role c) (\<lambda>b. b\<lparr> rb_session_id := Some sid \<rparr>) (run_roles r) \<rparr>;
                   r2 = (if rebound
                         then r1\<lparr> run_baselines := bt_insert (sy_role c) baseline_zero (run_baselines r1) \<rparr>
                         else r1) in
               on_last_row (sy_role c)
                 (\<lambda>h. h\<lparr> he_session_id := Some sid,
                         he_assistant_at_start := (if rebound then 0 else he_assistant_at_start h) \<rparr>) r2)"

text \<open>
  One candidate: \<open>rollout\<close> is the file a live Codex process has open, \<open>later\<close> the daemon's state
  when it is looked at again.
\<close>

definition sync_role_session_id ::
  "(pid \<Rightarrow> string option) \<Rightarrow> (string \<Rightarrow> string option) \<Rightarrow> poller_state \<Rightarrow> string \<Rightarrow> bool \<Rightarrow>
   sync_candidate \<Rightarrow> workflow_run option \<Rightarrow> workflow_run option" where
  "sync_role_session_id rollout codex_id later rid saved c disk =
     (let path = (if sy_type c = ''codex'' then rollout (sy_pid c) else sy_transcript c) in
      case Option.bind path (resolve_existing_sid codex_id (sy_type c)) of
        None \<Rightarrow> disk
      | Some sid \<Rightarrow>
          if sy_previous c = Some sid then disk
          else if map_option ps_pid (map_of (pl_sessions later) (sy_uid c)) \<noteq> Some (sy_pid c) then disk
          else snd (run_modify rid saved (sync_change c sid) disk))"

text \<open>
  The reverse bridge: the path of a Claude session's transcript, once its id is known. \<open>path_of\<close>
  is \<open>transcript::claude_transcript_path\<close>.
\<close>

definition adopt_transcript_path ::
  "(string \<Rightarrow> string \<Rightarrow> string option) \<Rightarrow> (string \<times> string option) list \<Rightarrow> string \<Rightarrow>
   poller_session \<Rightarrow> poller_session" where
  "adopt_transcript_path path_of worktrees sid s =
     (if ps_transcript s \<noteq> None \<or> ps_type s = ''codex'' then s
      else case Option.bind (map_of worktrees (ps_workspace s)) id of
          None \<Rightarrow> s
        | Some wt \<Rightarrow> (case path_of wt sid of None \<Rightarrow> s | Some p \<Rightarrow> s\<lparr> ps_transcript := Some p \<rparr>))"

definition sync_participant ::
  "(string \<Rightarrow> string \<Rightarrow> string option) \<Rightarrow> role_binding \<Rightarrow> poller_state \<Rightarrow> poller_state" where
  "sync_participant path_of b st =
     (case (rb_session_id b, rb_daemon_uid b) of
        (Some sid, Some uid) \<Rightarrow>
          st\<lparr> pl_sessions := map (\<lambda>(k, s).
                (k, if k = uid then adopt_transcript_path path_of (pl_worktrees st) sid s else s))
              (pl_sessions st) \<rparr>
      | _ \<Rightarrow> st)"

definition sync_participant_transcript_paths ::
  "(string \<Rightarrow> string \<Rightarrow> string option) \<Rightarrow> workflow_run list \<Rightarrow> poller_state \<Rightarrow> poller_state" where
  "sync_participant_transcript_paths path_of rs st =
     fold (sync_participant path_of) (concat (map (\<lambda>r. map snd (run_roles r)) (filter is_active rs))) st"

section \<open>The drain\<close>

record drain_work =
  dw_run_id :: string
  dw_uid :: string
  dw_worktree :: string
  dw_workflow :: workflow_def
  dw_engines :: "(string \<times> engine) list"

text \<open>The runs that the drainer takes on: running, not paused, with a target that is alive.\<close>

definition drain_work_of :: "poller_state \<Rightarrow> workflow_run \<Rightarrow> drain_work option" where
  "drain_work_of st r =
     (if run_status r \<noteq> Running \<or> run_paused r then None
      else do {
        pa \<leftarrow> run_pending r;
        b \<leftarrow> bt_get (run_roles r) (pa_target pa);
        uid \<leftarrow> rb_daemon_uid b;
        s \<leftarrow> map_of (pl_sessions st) uid;
        w \<leftarrow> workflow_definition st (run_workflow r);
        wt \<leftarrow> run_worktree st r;
        Some \<lparr> dw_run_id = run_id r, dw_uid = uid, dw_worktree = wt, dw_workflow = w,
               dw_engines = map (\<lambda>role. (role, engine_for_session_type
                   (case resolve_role_session_type st r role of None \<Rightarrow> ''claude-code'' | Some t \<Rightarrow> t)))
                 (map fst (wd_roles w)) \<rparr>
      })"

text \<open>What one call of the drainer meets: clocks, the terminal, the transcripts, the file system.\<close>

record drain_obs =
  ob_rollout :: "string option"
  ob_now :: millis
  ob_clock :: nat
  ob_quiet :: bool
  ob_mode :: term_mode
  ob_transcripts :: transcripts
  ob_listing :: "engine \<Rightarrow> string \<Rightarrow> string list"
  ob_discover :: "engine \<Rightarrow> string \<Rightarrow> string list \<Rightarrow> string option"
  ob_text_count :: "engine \<Rightarrow> string \<Rightarrow> string \<Rightarrow> nat"
  ob_writes :: "bool list"
  ob_saves :: "(bool \<times> (workflow_run \<Rightarrow> workflow_run)) list"

definition finalize_ctx :: "millis \<Rightarrow> drain_work \<Rightarrow> bool \<Rightarrow> drain_obs \<Rightarrow> fin_env" where
  "finalize_ctx gap w is_codex ob =
     (let wt = dw_worktree w; tr = ob_transcripts ob in
      \<lparr> fe_run_id = dw_run_id w, fe_engines = dw_engines w,
         fe_roles = map (\<lambda>(role, spec). (role, role_spec.truncate spec)) (wd_roles (dw_workflow w)),
         fe_rollout = (if is_codex then ob_rollout ob else None), fe_now = ob_now ob,
         fe_clock = ob_clock ob, fe_gap = gap, fe_quiet = ob_quiet ob, fe_mode = ob_mode ob,
         fe_resolver = (\<lambda>r. daemon_resolver tr r (Some wt) (dw_engines w)),
         fe_listing = (\<lambda>e. ob_listing ob e wt), fe_discover = (\<lambda>e. ob_discover ob e wt),
         fe_turn_complete = (\<lambda>e sid. tr_turn_complete tr e wt sid),
         fe_has_plan = (\<lambda>e sid. tr_plan tr e wt sid \<noteq> None),
         fe_assistant_count = (\<lambda>e sid. tr_count tr e wt sid AssistantMessages),
         fe_text_count = (\<lambda>e sid. ob_text_count ob e wt sid) \<rparr>)"

text \<open>
  The loop over one run: it goes on after a call that advanced, and ends with any other answer.
  The calls it may make are given; the number it made and whether it has ended come back.
\<close>

type_synonym finalize_call = "fin_env \<times> bool list \<times> (bool \<times> (workflow_run \<Rightarrow> workflow_run)) list"

fun drain_loop :: "finalize_call list \<Rightarrow> workflow_run option \<Rightarrow> nat \<times> bool \<times> workflow_run option" where
  "drain_loop [] disk = (0, False, disk)"
| "drain_loop ((env, ws, ss) # calls) disk =
     (case advance_finalization env \<lparr> fs_disk = disk, fs_writes = ws, fs_saves = ss, fs_io = [] \<rparr> of
        (Inr (Advanced _), s) \<Rightarrow>
          (let (n, ended, disk') = drain_loop calls (fs_disk s) in (Suc n, ended, disk'))
      | (_, s) \<Rightarrow> (1, True, fs_disk s))"

definition drain_run ::
  "millis \<Rightarrow> poller_state \<Rightarrow> drain_work \<Rightarrow> drain_obs list \<Rightarrow> workflow_run option \<Rightarrow> workflow_run option" where
  "drain_run gap st w obs disk =
     (case map_of (pl_sessions st) (dw_uid w) of
        None \<Rightarrow> disk
      | Some s \<Rightarrow> snd (snd (drain_loop
          (map (\<lambda>ob. (finalize_ctx gap w (ps_type s = ''codex'') ob, ob_writes ob, ob_saves ob)) obs) disk)))"

section \<open>A pass\<close>

record tick_env =
  te_state :: poller_state
  te_gate :: transcripts
  te_later :: transcripts
  te_others :: "workflow_run \<Rightarrow> workflow_run"
  te_rpc :: rpc_env
  te_marked :: bool
  te_drain_state :: poller_state
  te_gap :: millis
  te_obs :: "drain_obs list"

text \<open>What a pass decides for one run, and what it makes of its file.\<close>

definition decide_run :: "tick_env \<Rightarrow> workflow_run \<Rightarrow> decision option" where
  "decide_run te r =
     (if is_active r
      then Some (evaluate_snapshot (te_gate te) (te_later te) (snapshot_of (te_state te) r)) else None)"

definition fire_run :: "tick_env \<Rightarrow> workflow_run option \<Rightarrow> workflow_run option" where
  "fire_run te disk =
     (let disk1 = map_option (te_others te) disk in
      case Option.bind disk (decide_run te) of
        None \<Rightarrow> disk1
      | Some d \<Rightarrow> apply_decision (te_state te) (te_later te) (te_rpc te) (te_marked te) d disk1)"

definition drain_finalization :: "tick_env \<Rightarrow> workflow_run option \<Rightarrow> workflow_run option" where
  "drain_finalization te disk =
     (case Option.bind disk (drain_work_of (te_drain_state te)) of
        None \<Rightarrow> disk
      | Some w \<Rightarrow> drain_run (te_gap te) (te_drain_state te) w (te_obs te) disk)"

definition poll_run :: "tick_env \<Rightarrow> workflow_run option \<Rightarrow> workflow_run option" where
  "poll_run te disk = drain_finalization te (fire_run te disk)"

text \<open>
  The pass over all runs, in the phases of the code: every decision is made before the first is
  applied, and every decision is applied before the first run is drained.
\<close>

type_synonym run_files = "(string \<times> workflow_run) list"

definition put_run :: "string \<Rightarrow> workflow_run option \<Rightarrow> run_files \<Rightarrow> run_files" where
  "put_run rid disk files =
     (case disk of
        None \<Rightarrow> filter (\<lambda>e. fst e \<noteq> rid) files
      | Some r \<Rightarrow> map (\<lambda>(k, r0). (k, if k = rid then r else r0)) files)"

definition on_file :: "(workflow_run option \<Rightarrow> workflow_run option) \<Rightarrow> string \<Rightarrow> run_files \<Rightarrow> run_files" where
  "on_file f rid files = put_run rid (f (map_of files rid)) files"

definition poll_once ::
  "(string \<Rightarrow> tick_env) \<Rightarrow> run_files \<Rightarrow> decision list \<times> run_files" where
  "poll_once te files =
     (let decisions = map (\<lambda>(rid, r). (rid, decide_run (te rid) r)) files;
          others = map (\<lambda>(rid, r). (rid, te_others (te rid) r)) files;
          fired = fold (\<lambda>(rid, d). on_file (\<lambda>disk. case d of
                None \<Rightarrow> disk
              | Some d \<Rightarrow> apply_decision (te_state (te rid)) (te_later (te rid)) (te_rpc (te rid))
                  (te_marked (te rid)) d disk) rid) decisions others;
          works = map (\<lambda>(rid, r). (rid, drain_work_of (te_drain_state (te rid)) r)) fired;
          drained = fold (\<lambda>(rid, w). on_file (\<lambda>disk. case w of
                None \<Rightarrow> disk
              | Some w \<Rightarrow> drain_run (te_gap (te rid)) (te_drain_state (te rid)) w (te_obs (te rid)) disk) rid)
            works fired in
      (concat (map (\<lambda>e. case snd e of None \<Rightarrow> [] | Some d \<Rightarrow> [d]) decisions), drained))"

end
