(* ===== verification/WorkflowLaws.thy ===== *)
theory WorkflowLaws
  imports Finalize
begin

text \<open>
  What holds of a run and of the RPCs that move it: the rows of the history are the activations
  in order, one for each, a pending activation is the active role's and its phase agrees with
  the history, who may move a run, and what a failed RPC leaves behind.
\<close>

section \<open>Lists with one changed element\<close>

lemma map_last_simps [simp]:
  "map_last f [] = []" "map_last f (xs @ [x]) = xs @ [f x]"
  "length (map_last f xs) = length xs" "map_last f xs = [] \<longleftrightarrow> xs = []"
  by (auto simp: map_last_def)

lemma map_map_last: "(\<And>x. g (f x) = g x) \<Longrightarrow> map g (map_last f xs) = map g xs"
  by (cases xs rule: rev_cases) simp_all

lemma last_map_last: "xs \<noteq> [] \<Longrightarrow> last (map_last f xs) = f (last xs)"
  by (simp add: map_last_def)

lemma map_update_first: "(\<And>x. g (f x) = g x) \<Longrightarrow> map g (update_first P f xs) = map g xs"
  by (induction xs) auto

lemma update_first_append:
  "\<forall>x\<in>set xs. \<not> P x \<Longrightarrow> update_first P f (xs @ ys) = xs @ update_first P f ys"
  by (induction xs) auto

lemma update_first_empty [simp]: "update_first P f xs = [] \<longleftrightarrow> xs = []"
  by (cases xs) auto

section \<open>A well-formed run\<close>

definition iterations :: "workflow_run \<Rightarrow> nat list" where
  "iterations r = map (unat \<circ> he_iteration) (run_history r)"

definition activation_row :: "pending_activation \<Rightarrow> workflow_run \<Rightarrow> bool" where
  "activation_row pa r \<longleftrightarrow>
     he_role (last (run_history r)) = pa_target pa \<and>
     he_iteration (last (run_history r)) = pa_iteration pa"

text \<open>The row of an activation is written when the phase becomes \<open>Appended\<close>.\<close>

definition row_written :: "pending_activation \<Rightarrow> bool" where
  "row_written pa \<longleftrightarrow>
     pa_is_initial pa \<or> pa_phase pa \<in> {Appended, BodySent, RebindPending, PhaseDone}"

definition pending_ok :: "workflow_run \<Rightarrow> pending_activation \<Rightarrow> bool" where
  "pending_ok r pa \<longleftrightarrow>
     run_active r = Some (pa_target pa) \<and> pa_iteration pa = run_iteration r \<and>
     (if row_written pa then activation_row pa r
      else last (iterations r) < unat (pa_iteration pa)) \<and>
     (pa_phase pa \<noteq> Queued \<longrightarrow> pa_rendered pa \<noteq> None)"

definition run_ok :: "workflow_run \<Rightarrow> bool" where
  "run_ok r \<longleftrightarrow>
     run_history r \<noteq> [] \<and> sorted_wrt (<) (iterations r) \<and>
     last (iterations r) \<le> unat (run_iteration r) \<and> 0 < run_iteration r \<and>
     (run_status r = Done \<or> run_status r = Detached \<longrightarrow> run_pending r = None) \<and>
     (\<forall>pa. run_pending r = Some pa \<longrightarrow> pending_ok r pa)"

lemma iterations_close [simp]: "iterations (close_active_role now msg r) = iterations r"
  by (simp add: iterations_def close_active_role_def map_map_last close_entry_def)

lemma iterations_on_last_row [simp]:
  "(\<And>h. he_iteration (f h) = he_iteration h) \<Longrightarrow> iterations (on_last_row role f r) = iterations r"
  by (simp add: iterations_def on_last_row_def rev_map [symmetric] map_update_first)

lemma close_frame [simp]:
  "run_pending (close_active_role now msg r) = run_pending r"
  "run_iteration (close_active_role now msg r) = run_iteration r"
  "run_status (close_active_role now msg r) = run_status r"
  "run_active (close_active_role now msg r) = run_active r"
  "run_roles (close_active_role now msg r) = run_roles r"
  "run_history (close_active_role now msg r) = [] \<longleftrightarrow> run_history r = []"
  by (simp_all add: close_active_role_def)

lemma on_last_row_frame [simp]:
  "run_pending (on_last_row role f r) = run_pending r"
  "run_iteration (on_last_row role f r) = run_iteration r"
  "run_status (on_last_row role f r) = run_status r"
  "run_active (on_last_row role f r) = run_active r"
  "run_roles (on_last_row role f r) = run_roles r"
  "run_paused (on_last_row role f r) = run_paused r"
  "run_history (on_last_row role f r) = [] \<longleftrightarrow> run_history r = []"
  by (simp_all add: on_last_row_def)

lemma last_iteration: "run_history r \<noteq> [] \<Longrightarrow> last (iterations r) = unat (he_iteration (last (run_history r)))"
  by (simp add: iterations_def last_map)

text \<open>The last row of a list whose rows are changed one by one keeps role and iteration.\<close>

lemma last_on_last_row:
  assumes "run_history r \<noteq> []" and "\<And>h. he_role (f h) = he_role h"
    and "\<And>h. he_iteration (f h) = he_iteration h"
  shows "he_role (last (run_history (on_last_row role f r))) = he_role (last (run_history r))"
    and "he_iteration (last (run_history (on_last_row role f r))) = he_iteration (last (run_history r))"
proof -
  have "map he_role (run_history (on_last_row role f r)) = map he_role (run_history r)"
    "map he_iteration (run_history (on_last_row role f r)) = map he_iteration (run_history r)"
    using assms(2,3) by (simp_all add: on_last_row_def rev_map [symmetric] map_update_first)
  then have "last (map he_role (run_history (on_last_row role f r))) = last (map he_role (run_history r))"
    "last (map he_iteration (run_history (on_last_row role f r))) = last (map he_iteration (run_history r))"
    by simp_all
  then show "he_role (last (run_history (on_last_row role f r))) = he_role (last (run_history r))"
    "he_iteration (last (run_history (on_last_row role f r))) = he_iteration (last (run_history r))"
    using assms(1) by (simp_all add: last_map)
qed

section \<open>The changes keep a run well formed\<close>

lemma u32_Suc: "unat (n :: u32) < 2 ^ 32 - 1 \<Longrightarrow> unat (n + 1) = Suc (unat n)"
  by (simp add: unat_plus_if')

lemma transition_mutation_ok:
  assumes "run_ok r" and "unat (run_iteration r) < 2 ^ 32 - 1" and "run_status r = Running"
  shows "run_ok (transition_mutation env p r)"
proof -
  have u: "unat (run_iteration r + 1) = Suc (unat (run_iteration r))"
    by (rule u32_Suc [OF assms(2)])
  then have pos: "0 < run_iteration r + 1" by (metis nat.distinct(1) unat_0 word_gt_0)
  have its: "iterations (transition_mutation env p r) = iterations r"
    by (simp add: transition_mutation_def Let_def iterations_def close_active_role_def
        map_map_last close_entry_def)
  show ?thesis
    using assms(1,3) u pos unfolding run_ok_def its
    by (simp add: transition_mutation_def Let_def pending_ok_def row_written_def
        close_active_role_def iterations_def)
      (simp add: map_map_last close_entry_def)
qed

lemma mark_done_ok: "run_ok r \<Longrightarrow> run_ok (mark_done now reason r)"
  by (simp add: run_ok_def mark_done_def iterations_def close_active_role_def map_map_last close_entry_def)

lemma apply_stop_ok: "run_ok r \<Longrightarrow> run_ok (apply_stop r)"
  by (simp add: run_ok_def apply_stop_def mark_detached_def iterations_def)

lemma set_paused_ok: "run_ok r \<Longrightarrow> run_ok (set_paused b r)"
  by (auto simp: run_ok_def set_paused_def iterations_def pending_ok_def activation_row_def)

end
