(* ===== verification/FinalizeSteps.thy ===== *)
theory FinalizeSteps
  imports WorkflowLaws
begin

text \<open>
  The drainer as steps. \<open>change\<close> has one rule for each change of the file it makes, with the
  keystroke that goes before it; \<open>traced\<close> is a sequence of them, of which the last may have
  typed its keystroke and lost its save. Every call of \<open>advance_finalization\<close> that no other
  thread disturbs is such a trace; what holds of the steps then holds of the calls, and of a
  daemon that is killed between any two effects.
\<close>

section \<open>The steps\<close>

inductive change ::
  "fin_env \<Rightarrow> workflow_run \<Rightarrow> pending_activation \<Rightarrow> keystroke option \<Rightarrow> workflow_run \<Rightarrow> bool"
  for env r pa where
  render: "pa_phase pa = Queued \<Longrightarrow>
    change env r pa None (on_pending (\<lambda>p. p\<lparr> pa_rendered := Some (render_activation env r pa),
      pa_phase := Rendered \<rparr>) r)"
| adopt: "pa_phase pa = Rendered \<Longrightarrow> pa_is_initial pa \<Longrightarrow>
    change env r pa None (on_pending (\<lambda>p. p\<lparr> pa_phase := Appended \<rparr>) (adopt_initial_row (pa_target pa) r))"
| clear: "pa_phase pa = Rendered \<Longrightarrow> \<not> pa_is_initial pa \<Longrightarrow> pa_needs_fresh pa \<Longrightarrow>
    change env r pa (Some ClearBody) (on_pending (\<lambda>p. p\<lparr> pa_snapshot := Some ss,
      pa_enter_at := Some t, pa_phase := ClearBodySent \<rparr>) (reset_role (pa_target pa) r))"
| persistent: "pa_phase pa = Rendered \<Longrightarrow> \<not> pa_is_initial pa \<Longrightarrow> \<not> pa_needs_fresh pa \<Longrightarrow>
    change env r pa None (on_pending (\<lambda>p. p\<lparr> pa_phase := Appended, pa_enter_at := None \<rparr>)
      (snd (append_entry (fe_clock env) (pa_target pa) (pa_iteration pa) (pa_trigger pa) a b r)))"
| cleared: "pa_phase pa = ClearBodySent \<Longrightarrow>
    change env r pa (Some EnterKey) (on_pending (\<lambda>p. p\<lparr> pa_phase := Appended, pa_enter_at := None \<rparr>)
      (snd (append_entry (fe_clock env) (pa_target pa) (pa_iteration pa) (pa_trigger pa) 0 0 r)))"
| recount: "pa_phase pa = Appended \<Longrightarrow>
    change env r pa None (on_last_row (pa_target pa)
      (\<lambda>h. h\<lparr> he_assistant_at_start := a, he_text_at_start := b \<rparr>) r)"
| body: "pa_phase pa = Appended \<Longrightarrow>
    change env r pa (Some (PromptBody (case pa_rendered pa of None \<Rightarrow> '''' | Some t \<Rightarrow> t)))
      (on_pending (\<lambda>p. p\<lparr> pa_snapshot := (if d then Some ss else pa_snapshot p),
        pa_enter_at := Some t, pa_phase := BodySent \<rparr>) r)"
| sent: "pa_phase pa = BodySent \<Longrightarrow> pa_needs_fresh pa \<or> pa_snapshot pa \<noteq> None \<Longrightarrow>
    c \<longrightarrow> engine_for env (pa_target pa) = Codex \<and> pa_needs_fresh pa \<Longrightarrow>
    change env r pa (Some EnterKey) (on_pending (\<lambda>p. p\<lparr> pa_enter_at := None,
      pa_codex := (if c \<and> pa_codex p = None
        then Some \<lparr> cc_started_at = t, cc_enter_retries = 0, cc_redelivered = False \<rparr>
        else pa_codex p),
      pa_phase := RebindPending \<rparr>) r)"
| finished: "pa_phase pa = BodySent \<Longrightarrow> \<not> pa_needs_fresh pa \<Longrightarrow> pa_snapshot pa = None \<Longrightarrow>
    change env r pa (Some EnterKey) (clear_pending r)"
| bind_session: "change env r pa None (bind_sid (pa_target pa) found r)"
| rebound: "pa_phase pa = RebindPending \<or> pa_codex pa \<noteq> None \<Longrightarrow>
    change env r pa None (clear_pending (on_last_row (pa_target pa)
      (\<lambda>h. h\<lparr> he_session_id := Some sid \<rparr>) r))"
| codex_start: "pa_phase pa = RebindPending \<Longrightarrow> pa_codex pa = None \<Longrightarrow> pa_needs_fresh pa \<Longrightarrow>
    engine_for env (pa_target pa) = Codex \<Longrightarrow>
    change env r pa None (on_pending (\<lambda>p. p\<lparr> pa_codex :=
      Some \<lparr> cc_started_at = t, cc_enter_retries = 0, cc_redelivered = False \<rparr> \<rparr>) r)"
| codex_pause: "pa_phase pa = RebindPending \<Longrightarrow>
    change env r pa None (r\<lparr> run_paused := True \<rparr>)"
| codex_enter: "pa_phase pa = RebindPending \<Longrightarrow> pa_codex pa = Some c \<Longrightarrow>
    cc_enter_retries c < length CODEX_CONFIRM_ENTER_RETRIES \<Longrightarrow> pa_needs_fresh pa \<Longrightarrow>
    engine_for env (pa_target pa) = Codex \<Longrightarrow>
    change env r pa (Some EnterKey) (on_pending (\<lambda>p. p\<lparr> pa_codex :=
      map_option (\<lambda>d. d\<lparr> cc_enter_retries := cc_enter_retries d + 1 \<rparr>) (pa_codex p) \<rparr>) r)"
| codex_redeliver: "pa_phase pa = RebindPending \<Longrightarrow> pa_codex pa = Some c \<Longrightarrow>
    \<not> cc_enter_retries c < length CODEX_CONFIRM_ENTER_RETRIES \<Longrightarrow> \<not> cc_redelivered c \<Longrightarrow>
    pa_needs_fresh pa \<Longrightarrow> engine_for env (pa_target pa) = Codex \<Longrightarrow>
    change env r pa (Some ClearComposer) (on_pending (\<lambda>p. p\<lparr>
      pa_codex := map_option (\<lambda>d. d\<lparr> cc_redelivered := True \<rparr>) (pa_codex p),
      pa_enter_at := Some t, pa_phase := Appended \<rparr>) r)"
| over: "pa_phase pa = PhaseDone \<Longrightarrow> change env r pa None (clear_pending r)"

inductive traced :: "fin_env \<Rightarrow> workflow_run \<Rightarrow> fin_io list \<Rightarrow> workflow_run \<Rightarrow> bool" for env where
  stop: "traced env r [] r"
| lost: "run_pending r = Some pa \<Longrightarrow> change env r pa (Some k) r1 \<Longrightarrow> traced env r [Wrote k] r"
| quiet: "run_pending r = Some pa \<Longrightarrow> change env r pa None r1 \<Longrightarrow> traced env r1 ios r2 \<Longrightarrow>
    traced env r (Saved r1 # ios) r2"
| typed: "run_pending r = Some pa \<Longrightarrow> change env r pa (Some k) r1 \<Longrightarrow> traced env r1 ios r2 \<Longrightarrow>
    traced env r (Wrote k # Saved r1 # ios) r2"

section \<open>A call is a trace\<close>

definition undisturbed :: "fin_state \<Rightarrow> bool" where
  "undisturbed s \<longleftrightarrow> (\<forall>x\<in>set (fs_saves s). snd x = id)"

text \<open>What an effect can do to an undisturbed state.\<close>

lemma fin_write_cases:
  assumes "fin_write k s = (res, s')"
  obtains (failed) ws where "res = Inl PeIo" "s' = s\<lparr> fs_writes := ws \<rparr>"
  | (written) ws where "res = Inr ()" "s' = s\<lparr> fs_writes := ws, fs_io := fs_io s @ [Wrote k] \<rparr>"
  using assms by (auto simp: fin_write_def split: list.splits bool.splits)

lemma fin_modify_cases:
  assumes "fin_modify rid f s = (res, s')" and "undisturbed s" and "fs_disk s = Some d"
    and "validate_run_id rid = None"
  obtains (failed) "res = Inl PeIo" "s' = s\<lparr> fs_saves := tl (fs_saves s) \<rparr>" "undisturbed s'"
  | (saved) "res = Inr (f d)" "undisturbed s'"
      "s' = s\<lparr> fs_saves := tl (fs_saves s), fs_disk := Some (f d), fs_io := fs_io s @ [Saved (f d)] \<rparr>"
proof -
  have ud: "undisturbed (s\<lparr> fs_saves := tl (fs_saves s) \<rparr>)"
    using assms(2) by (cases "fs_saves s") (simp_all add: undisturbed_def)
  define ok where "ok = (case fs_saves s of [] \<Rightarrow> True | x # _ \<Rightarrow> fst x)"
  have "snd x = id" if "x \<in> set (fs_saves s)" for x
    using assms(2) that by (simp add: undisturbed_def)
  then have "(case fs_saves s of [] \<Rightarrow> (True, id) | x # _ \<Rightarrow> x) = (ok, id)"
    by (auto simp: ok_def prod_eq_iff split: list.splits)
  then have m: "fin_modify rid f s = (if ok
      then (Inr (f d), s\<lparr> fs_saves := tl (fs_saves s), fs_disk := Some (f d),
                         fs_io := fs_io s @ [Saved (f d)] \<rparr>)
      else (Inl PeIo, s\<lparr> fs_saves := tl (fs_saves s) \<rparr>))"
    using assms(3,4) by (simp add: fin_modify_def Let_def run_modify_def)
  show thesis
  proof (cases ok)
    case True
    then have eqs: "res = Inr (f d)" "s' = s\<lparr> fs_saves := tl (fs_saves s), fs_disk := Some (f d),
        fs_io := fs_io s @ [Saved (f d)] \<rparr>"
      using m assms(1) by simp_all
    show thesis by (rule saved [OF eqs(1) _ eqs(2)]) (use ud in \<open>simp add: eqs(2) undisturbed_def\<close>)
  next
    case False
    then have eqs: "res = Inl PeIo" "s' = s\<lparr> fs_saves := tl (fs_saves s) \<rparr>"
      using m assms(1) by simp_all
    show thesis by (rule failed [OF eqs]) (use ud eqs(2) in simp)
  qed
qed

text \<open>A computation that, started on a run, is a trace from it.\<close>

definition traces :: "fin_env \<Rightarrow> workflow_run \<Rightarrow> 'a fin \<Rightarrow> bool" where
  "traces env r m \<longleftrightarrow>
     (\<forall>s res s'. undisturbed s \<longrightarrow> fs_disk s = Some r \<longrightarrow> m s = (res, s') \<longrightarrow>
        undisturbed s' \<and>
        (\<exists>ios r'. fs_disk s' = Some r' \<and> fs_io s' = fs_io s @ ios \<and> traced env r ios r'))"

lemma traces_return [simp]: "traces env r (fin_return x)"
  by (auto simp: traces_def fin_return_def intro: traced.stop)

lemma traces_modify:
  assumes "run_pending r = Some pa" and "change env r pa None (f r)"
    and "validate_run_id rid = None" and "traces env (f r) (c (f r))"
  shows "traces env r (fin_bind (fin_modify rid f) c)"
  unfolding traces_def
proof (intro allI impI)
  fix s res s'
  assume s: "undisturbed s" "fs_disk s = Some r" and run: "fin_bind (fin_modify rid f) c s = (res, s')"
  obtain x t where m: "fin_modify rid f s = (x, t)" by fastforce
  from m s assms(3) show "undisturbed s' \<and>
      (\<exists>ios r'. fs_disk s' = Some r' \<and> fs_io s' = fs_io s @ ios \<and> traced env r ios r')"
  proof (cases rule: fin_modify_cases)
    case failed
    then have "s' = t" using run m by (simp add: fin_bind_def)
    then show ?thesis using failed s by (auto intro: traced.stop)
  next
    case saved
    then have "c (f r) t = (res, s')" "fs_disk t = Some (f r)" "fs_io t = fs_io s @ [Saved (f r)]"
      using run m by (simp_all add: fin_bind_def)
    then obtain ios r' where "undisturbed s'" "fs_disk s' = Some r'"
      "fs_io s' = fs_io s @ Saved (f r) # ios" "traced env (f r) ios r'"
      using assms(4) saved(2) unfolding traces_def by fastforce
    then show ?thesis using traced.quiet [OF assms(1,2)] by blast
  qed
qed

lemma traces_typed:
  assumes "run_pending r = Some pa" and "change env r pa (Some k) (f r)"
    and "validate_run_id rid = None" and "traces env (f r) (c (f r))"
  shows "traces env r (fin_bind (fin_write k) (\<lambda>_. fin_bind (fin_modify rid f) c))"
  unfolding traces_def
proof (intro allI impI)
  fix s res s'
  assume s: "undisturbed s" "fs_disk s = Some r"
    and run: "fin_bind (fin_write k) (\<lambda>_. fin_bind (fin_modify rid f) c) s = (res, s')"
  obtain y u where w: "fin_write k s = (y, u)" by fastforce
  then show "undisturbed s' \<and>
      (\<exists>ios r'. fs_disk s' = Some r' \<and> fs_io s' = fs_io s @ ios \<and> traced env r ios r')"
  proof (cases rule: fin_write_cases)
    case (failed ws)
    then have "s' = u" using run w by (simp add: fin_bind_def)
    then show ?thesis using failed s by (auto simp: undisturbed_def intro: traced.stop)
  next
    case (written ws)
    then have u: "undisturbed u" "fs_disk u = Some r" "fs_io u = fs_io s @ [Wrote k]"
      and run': "fin_bind (fin_modify rid f) c u = (res, s')"
      using s run w by (simp_all add: undisturbed_def fin_bind_def)
    obtain x t where m: "fin_modify rid f u = (x, t)" by fastforce
    from m u(1,2) assms(3) show ?thesis
    proof (cases rule: fin_modify_cases)
      case failed
      then have "s' = t" using run' m by (simp add: fin_bind_def)
      then show ?thesis using failed u traced.lost [OF assms(1,2)] by auto
    next
      case saved
      then have "c (f r) t = (res, s')" "fs_disk t = Some (f r)"
        "fs_io t = fs_io s @ [Wrote k, Saved (f r)]"
        using run' m u by (simp_all add: fin_bind_def)
      then obtain ios r' where "undisturbed s'" "fs_disk s' = Some r'"
        "fs_io s' = fs_io s @ Wrote k # Saved (f r) # ios" "traced env (f r) ios r'"
        using assms(4) saved(2) unfolding traces_def by fastforce
      then show ?thesis using traced.typed [OF assms(1,2)] by blast
    qed
  qed
qed

lemma fin_bind_assoc: "fin_bind (fin_bind m f) g = fin_bind m (\<lambda>x. fin_bind (f x) g)"
  by (auto simp: fin_bind_def fun_eq_iff split: prod.splits sum.splits)

lemma fin_bind_return [simp]: "fin_bind (fin_return x) f = f x"
  by (auto simp: fin_bind_def fin_return_def fun_eq_iff)

lemma on_pending_pending [simp]: "run_pending (on_pending f r) = map_option f (run_pending r)"
  by (simp add: on_pending_def)

lemma bind_sid_pending [simp]: "run_pending (bind_sid role found r) = run_pending r"
  by (simp add: bind_sid_def)

lemma queued_traces:
  assumes "run_pending r = Some pa" and "validate_run_id (fe_run_id env) = None"
    and "pa_phase pa = Queued"
  shows "traces env r (step_queued env r pa)"
  unfolding step_queued_def Let_def
  by (rule traces_modify [OF assms(1)]) (simp_all add: change.render assms)

lemma append_history_bind:
  "fin_bind (append_history env pa a b) c = fin_bind (fin_modify (fe_run_id env) (\<lambda>r.
       on_pending (\<lambda>p. p\<lparr> pa_phase := Appended, pa_enter_at := None \<rparr>)
         (snd (append_entry (fe_clock env) (pa_target pa) (pa_iteration pa) (pa_trigger pa) a b r))))
     (\<lambda>_. c ())"
  by (simp add: append_history_def fin_bind_assoc)

lemma rendered_traces:
  assumes "run_pending r = Some pa" and "validate_run_id (fe_run_id env) = None"
    and "pa_phase pa = Rendered"
  shows "traces env r (step_rendered env r pa)"
proof -
  have 1: "traces env r (fin_bind (fin_modify (fe_run_id env)
      (\<lambda>d. on_pending (\<lambda>p. p\<lparr> pa_phase := Appended \<rparr>) (adopt_initial_row (pa_target pa) d)))
      (\<lambda>_. fin_return (Advanced Appended)))" if "pa_is_initial pa"
    by (rule traces_modify [OF assms(1)]) (simp_all add: change.adopt assms that)
  have 2: "traces env r (fin_bind (fin_write ClearBody)
      (\<lambda>_. fin_bind (fin_modify (fe_run_id env) (\<lambda>d.
           on_pending (\<lambda>p. p\<lparr> pa_snapshot := Some ss, pa_enter_at := Some t,
             pa_phase := ClearBodySent \<rparr>) (reset_role (pa_target pa) d)))
        (\<lambda>_. fin_return (Advanced ClearBodySent))))"
    if "\<not> pa_is_initial pa" "pa_needs_fresh pa" for ss t
    by (rule traces_typed [OF assms(1)]) (simp_all add: change.clear assms that)
  have 3: "traces env r (fin_bind (append_history env pa a b) (\<lambda>_. fin_return (Advanced Appended)))"
    if "\<not> pa_is_initial pa" "\<not> pa_needs_fresh pa" for a b
    unfolding append_history_bind
    by (rule traces_modify [OF assms(1)]) (simp_all add: change.persistent assms that)
  show ?thesis
    using 1 2 3 by (auto simp: step_rendered_def Let_def split: prod.splits)
qed

lemma clear_body_sent_traces:
  assumes "run_pending r = Some pa" and "validate_run_id (fe_run_id env) = None"
    and "pa_phase pa = ClearBodySent"
  shows "traces env r (step_clear_body_sent env r pa)"
proof -
  have "traces env r (fin_bind (fin_write EnterKey)
      (\<lambda>_. fin_bind (append_history env pa 0 0) (\<lambda>_. fin_return (Advanced Appended))))"
    unfolding append_history_bind
    by (rule traces_typed [OF assms(1)]) (simp_all add: change.cleared assms)
  then show ?thesis by (simp add: step_clear_body_sent_def)
qed

lemma deliver_traces:
  assumes "run_pending r = Some pa" and "validate_run_id (fe_run_id env) = None"
    and "pa_phase pa = Appended"
  shows "traces env r (deliver_body env r0 pa)"
  unfolding deliver_body_def Let_def
  by (rule traces_typed [OF assms(1)]) (simp_all add: change.body assms)

lemma appended_traces:
  assumes "run_pending r = Some pa" and "validate_run_id (fe_run_id env) = None"
    and "pa_phase pa = Appended"
  shows "traces env r (step_appended env r pa)"
proof -
  have "traces env r (fin_bind (fin_modify (fe_run_id env) (on_last_row (pa_target pa)
      (\<lambda>h. h\<lparr> he_assistant_at_start := a, he_text_at_start := b \<rparr>))) (\<lambda>_. deliver_body env r pa))"
    for a b
    by (rule traces_modify [OF assms(1)]) (simp_all add: change.recount deliver_traces assms)
  then show ?thesis
    using deliver_traces [OF assms, of r]
    by (auto simp: step_appended_def split: option.splits)
qed

lemma body_sent_traces:
  assumes "run_pending r = Some pa" and "validate_run_id (fe_run_id env) = None"
    and "pa_phase pa = BodySent"
  shows "traces env r (step_body_sent env r pa)"
proof (cases "due env pa")
  case True
  show ?thesis
  proof (cases "pa_needs_fresh pa \<or> pa_snapshot pa \<noteq> None")
    case rebind: True
    have "change env r pa (Some EnterKey) (on_pending (\<lambda>p.
        p\<lparr> pa_enter_at := None,
           pa_codex := (if engine_for env (pa_target pa) = Codex \<and> pa_needs_fresh p \<and> pa_codex p = None
             then Some \<lparr> cc_started_at = fe_now env, cc_enter_retries = 0, cc_redelivered = False \<rparr>
             else pa_codex p),
           pa_phase := RebindPending \<rparr>) r)"
      using change.sent [OF assms(3) rebind, of "engine_for env (pa_target pa) = Codex \<and> pa_needs_fresh pa"
          env r "fe_now env"] assms(1) by (simp add: on_pending_def)
    then have "traces env r (fin_bind (fin_write EnterKey) (\<lambda>_. fin_bind (fin_modify (fe_run_id env)
        (on_pending (\<lambda>p.
        p\<lparr> pa_enter_at := None,
           pa_codex := (if engine_for env (pa_target pa) = Codex \<and> pa_needs_fresh p \<and> pa_codex p = None
             then Some \<lparr> cc_started_at = fe_now env, cc_enter_retries = 0, cc_redelivered = False \<rparr>
             else pa_codex p),
           pa_phase := RebindPending \<rparr>))) (\<lambda>_. fin_return (Advanced RebindPending))))"
      by (rule traces_typed [OF assms(1) _ assms(2)]) simp
    then show ?thesis using True rebind by (simp add: step_body_sent_def)
  next
    case closing: False
    have "traces env r (fin_bind (fin_write EnterKey) (\<lambda>_. fin_bind (fin_modify (fe_run_id env)
        clear_pending) (\<lambda>_. fin_return StepDone)))"
      by (rule traces_typed [OF assms(1)]) (use closing in \<open>simp_all add: change.finished assms\<close>)
    then show ?thesis using True closing by (simp add: step_body_sent_def)
  qed
qed (simp add: step_body_sent_def)

lemma retry_traces:
  assumes "run_pending r = Some pa" and "validate_run_id (fe_run_id env) = None"
    and "pa_phase pa = RebindPending" and "engine_for env (pa_target pa) = Codex \<and> pa_needs_fresh pa"
  shows "traces env r (retry_codex env pa)"
proof -
  have 1: "traces env r (fin_bind (fin_modify (fe_run_id env) (on_pending (\<lambda>p. p\<lparr> pa_codex :=
      Some \<lparr> cc_started_at = t, cc_enter_retries = 0, cc_redelivered = False \<rparr> \<rparr>)))
      (\<lambda>_. fin_return Blocked))" if "pa_codex pa = None" for t
    by (rule traces_modify [OF assms(1)]) (simp_all add: change.codex_start assms that)
  have 2: "traces env r (fin_bind (fin_modify (fe_run_id env) (\<lambda>d. d\<lparr> run_paused := True \<rparr>))
      (\<lambda>_. fin_return Blocked))"
    by (rule traces_modify [OF assms(1)]) (simp_all add: change.codex_pause assms)
  have 3: "traces env r (fin_bind (fin_write EnterKey) (\<lambda>_. fin_bind (fin_modify (fe_run_id env)
      (on_pending (\<lambda>p. p\<lparr> pa_codex :=
        map_option (\<lambda>d. d\<lparr> cc_enter_retries := cc_enter_retries d + 1 \<rparr>) (pa_codex p) \<rparr>)))
      (\<lambda>_. fin_return Blocked)))"
    if "pa_codex pa = Some c" "cc_enter_retries c < length CODEX_CONFIRM_ENTER_RETRIES" for c
    by (rule traces_typed [OF assms(1)];
        (rule change.codex_enter [OF assms(3) that conjunct2 [OF assms(4)] conjunct1 [OF assms(4)]] | simp add: assms(2)))
  have 4: "traces env r (fin_bind (fin_write ClearComposer) (\<lambda>_. fin_bind (fin_modify (fe_run_id env)
      (on_pending (\<lambda>p. p\<lparr> pa_codex := map_option (\<lambda>d. d\<lparr> cc_redelivered := True \<rparr>) (pa_codex p),
         pa_enter_at := Some t, pa_phase := Appended \<rparr>)))
      (\<lambda>_. fin_return (Advanced Appended))))"
    if "pa_codex pa = Some c" "\<not> cc_enter_retries c < length CODEX_CONFIRM_ENTER_RETRIES"
      "\<not> cc_redelivered c" for c t
    by (rule traces_typed [OF assms(1)];
        (rule change.codex_redeliver [OF assms(3) that conjunct2 [OF assms(4)] conjunct1 [OF assms(4)]]
          | simp add: assms(2)))
  show ?thesis
    using 1 2 3 4 by (auto simp: retry_codex_def Let_def split: option.splits)
qed

lemma rebind_discovered_bind:
  "fin_bind (try_rebind_discovered env role found) c =
     fin_bind (fin_modify (fe_run_id env) (bind_sid role found)) (\<lambda>r. c (role_sid r role))"
  by (simp add: try_rebind_discovered_def fin_bind_assoc)

lemma rebind_traces:
  assumes "run_pending r = Some pa" and "validate_run_id (fe_run_id env) = None"
    and "pa_phase pa = RebindPending"
  shows "traces env r (step_rebind env r pa)"
proof -
  define r1 where "r1 = bind_sid (pa_target pa) (fe_discover env (engine_for env (pa_target pa))
      (case pa_snapshot pa of None \<Rightarrow> [] | Some ss \<Rightarrow> ss)) r"
  have p1: "run_pending r1 = Some pa" by (simp add: r1_def assms)
  have "traces env r1 (fin_bind (fin_modify (fe_run_id env) (\<lambda>d.
      clear_pending (on_last_row (pa_target pa) (\<lambda>h. h\<lparr> he_session_id := Some sid \<rparr>) d)))
      (\<lambda>_. fin_return StepDone))" for sid
    by (rule traces_modify [OF p1]) (simp_all add: change.rebound assms)
  then have "traces env r (fin_bind (try_rebind env (pa_target pa) (engine_for env (pa_target pa))
      (case pa_snapshot pa of None \<Rightarrow> [] | Some ss \<Rightarrow> ss)) (\<lambda>bound. case bound of
           None \<Rightarrow> fin_return Blocked
         | Some sid \<Rightarrow>
             fin_bind (fin_modify (fe_run_id env) (\<lambda>d.
                 clear_pending (on_last_row (pa_target pa) (\<lambda>h. h\<lparr> he_session_id := Some sid \<rparr>) d)))
               (\<lambda>_. fin_return StepDone)))"
    unfolding try_rebind_def rebind_discovered_bind
    by (intro traces_modify [OF assms(1)] change.bind_session assms(2))
      (simp add: r1_def [symmetric] split: option.splits)
  then show ?thesis
    using retry_traces [OF assms] by (simp add: step_rebind_def Let_def)
qed

lemma confirmed_traces:
  assumes "run_pending r = Some pa" and "validate_run_id (fe_run_id env) = None"
    and "confirmed_rollout env pa = Some sid"
  shows "traces env r (step_confirmed env pa sid)"
proof -
  define r1 where "r1 = bind_sid (pa_target pa) (Some sid) r"
  have p1: "run_pending r1 = Some pa" by (simp add: r1_def assms)
  have ph: "pa_phase pa = RebindPending \<or> pa_codex pa \<noteq> None"
    using assms(3) by (auto simp: confirmed_rollout_def split: if_splits)
  have same: "(if map_option pa_id (run_pending r1) = Some (pa_id pa)
      then clear_pending (on_last_row (pa_target pa) (\<lambda>h. h\<lparr> he_session_id := Some sid \<rparr>) r1) else r1) =
      clear_pending (on_last_row (pa_target pa) (\<lambda>h. h\<lparr> he_session_id := Some sid \<rparr>) r1)"
    using p1 by simp
  have "traces env r1 (fin_bind (fin_modify (fe_run_id env) (\<lambda>d.
      if map_option pa_id (run_pending d) = Some (pa_id pa)
      then clear_pending (on_last_row (pa_target pa) (\<lambda>h. h\<lparr> he_session_id := Some sid \<rparr>) d) else d))
      (\<lambda>_. fin_return StepDone))"
    by (rule traces_modify [OF p1 _ assms(2)]) (simp_all only: same change.rebound [OF ph] traces_return)
  then show ?thesis
    unfolding step_confirmed_def Let_def rebind_discovered_bind
    by (intro traces_modify [OF assms(1)] change.bind_session assms(2)) (simp add: r1_def)
qed

lemma over_traces:
  assumes "run_pending r = Some pa" and "validate_run_id (fe_run_id env) = None"
    and "pa_phase pa = PhaseDone"
  shows "traces env r (fin_bind (fin_modify (fe_run_id env) clear_pending) (\<lambda>_. fin_return StepDone))"
  by (rule traces_modify [OF assms(1)]) (simp_all add: change.over assms)

lemma phase_traces:
  assumes "run_pending r = Some pa" and "validate_run_id (fe_run_id env) = None"
  shows "traces env r (step_phase env r pa)"
  using queued_traces [OF assms] rendered_traces [OF assms] clear_body_sent_traces [OF assms]
    appended_traces [OF assms] body_sent_traces [OF assms] rebind_traces [OF assms] over_traces [OF assms]
  by (simp add: step_phase_def split: activation_phase.splits)

text \<open>Every undisturbed call is a trace, and it is the empty one unless the run is running.\<close>

lemma advance_traced:
  assumes "advance_finalization env s = (res, s')" and "undisturbed s" and "fs_disk s = Some r"
  obtains ios r' where "fs_disk s' = Some r'" "fs_io s' = fs_io s @ ios" "traced env r ios r'"
    "undisturbed s'" "ios = [] \<or> run_status r = Running \<and> \<not> run_paused r"
proof (cases "validate_run_id (fe_run_id env) = None \<and> run_status r = Running \<and> \<not> run_paused r")
  case True
  show thesis
  proof (cases "run_pending r")
    case None
    then have "s' = s" using assms True by (simp add: advance_finalization_def fin_return_def)
    then show thesis using that assms traced.stop [of env r] by simp
  next
    case (Some pa)
    have "\<exists>m. m s = (res, s') \<and> traces env r m"
    proof (cases "confirmed_rollout env pa")
      case None
      then show ?thesis
        using assms True Some phase_traces [OF Some, of env]
        by (intro exI [of _ "step_phase env r pa"]) (simp add: advance_finalization_def)
    next
      case (Some sid)
      then show ?thesis
        using assms True \<open>run_pending r = Some pa\<close> confirmed_traces [of r pa env sid]
        by (intro exI [of _ "step_confirmed env pa sid"]) (simp add: advance_finalization_def)
    qed
    then show thesis using that assms(2,3) True unfolding traces_def by metis
  qed
next
  case False
  then have "s' = s" using assms
    by (auto simp: advance_finalization_def fin_return_def split: if_splits)
  then show thesis using that assms traced.stop [of env r] by simp
qed

end
