(* ===== verification/DeliveryLaws.thy ===== *)
theory DeliveryLaws
  imports FinalizeSteps
begin

text \<open>
  What the drainer guarantees: a run stays well formed through any mixture of calls, RPCs and
  kills, a prompt is typed once and in order, an activation costs a bounded number of
  keystrokes, and a failed RPC leaves the run as it found it.
\<close>

section \<open>Every step keeps a run well formed\<close>

lemma append_entry_frame [simp]:
  "run_pending (snd (append_entry now role it tr a b r)) = run_pending r"
  "run_iteration (snd (append_entry now role it tr a b r)) = run_iteration r"
  "run_status (snd (append_entry now role it tr a b r)) = run_status r"
  "run_active (snd (append_entry now role it tr a b r)) = run_active r"
  "run_history (snd (append_entry now role it tr a b r)) \<noteq> []"
  by (auto simp: append_entry_def Let_def)

lemma append_entry_row:
  assumes "0 < it"
  shows "he_role (last (run_history (snd (append_entry now role it tr a b r)))) = role"
    and "he_iteration (last (run_history (snd (append_entry now role it tr a b r)))) = it"
  using assms by (auto simp: append_entry_def Let_def)

lemma append_entry_iterations:
  assumes "run_ok r" and "0 < it" and "last (iterations r) < unat it \<or>
      he_role (last (run_history r)) = role \<and> he_iteration (last (run_history r)) = it"
  shows "sorted_wrt (<) (iterations (snd (append_entry now role it tr a b r)))"
    and "last (iterations (snd (append_entry now role it tr a b r))) = unat it"
proof -
  let ?r = "snd (append_entry now role it tr a b r)"
  have ne: "run_history r \<noteq> []" and s: "sorted_wrt (<) (iterations r)"
    using assms(1) by (simp_all add: run_ok_def)
  show "last (iterations ?r) = unat it"
    using append_entry_row(2) [OF assms(2)] by (simp add: last_iteration)
  show "sorted_wrt (<) (iterations ?r)"
  proof (cases "he_role (last (run_history r)) = role \<and> he_iteration (last (run_history r)) = it")
    case True
    then have "?r = r" using assms(2) ne by (simp add: append_entry_def)
    then show ?thesis using s by simp
  next
    case False
    then have "last (iterations r) < unat it" using assms(3) by blast
    moreover have "\<forall>x\<in>set (iterations r). x \<le> last (iterations r)"
    proof
      fix x assume x: "x \<in> set (iterations r)"
      obtain ys y where ys: "iterations r = ys @ [y]"
        using ne by (cases "iterations r" rule: rev_cases) (auto simp: iterations_def)
      then show "x \<le> last (iterations r)" using x s by (auto simp: sorted_wrt_append)
    qed
    moreover have "iterations ?r = iterations r @ [unat it]"
      using False assms(2) ne by (auto simp: append_entry_def iterations_def Let_def)
    ultimately show ?thesis using s by (force simp: sorted_wrt_append)
  qed
qed

lemma on_pending_ok:
  assumes "run_ok r" and "run_pending r = Some pa"
    and "pa_target (f pa) = pa_target pa" "pa_iteration (f pa) = pa_iteration pa"
    and "if row_written (f pa) then activation_row pa r else last (iterations r) < unat (pa_iteration pa)"
    and "pa_phase (f pa) \<noteq> Queued \<longrightarrow> pa_rendered (f pa) \<noteq> None"
  shows "run_ok (on_pending f r)"
  using assms
  by (auto simp: run_ok_def on_pending_def iterations_def pending_ok_def activation_row_def)

lemma clear_pending_ok: "run_ok r \<Longrightarrow> run_ok (clear_pending r)"
  by (simp add: run_ok_def clear_pending_def iterations_def)

lemma on_last_row_ok:
  assumes "run_ok r" and "\<And>h. he_role (f h) = he_role h" and "\<And>h. he_iteration (f h) = he_iteration h"
  shows "run_ok (on_last_row role f r)"
proof -
  have ne: "run_history r \<noteq> []" using assms(1) by (simp add: run_ok_def)
  show ?thesis
    using assms(1) last_on_last_row [OF ne assms(2,3), of role]
    by (auto simp: run_ok_def assms(3) pending_ok_def activation_row_def)
qed

lemma other_fields_ok:
  assumes "run_ok r" and "run_history r' = run_history r" and "run_iteration r' = run_iteration r"
    and "run_status r' = run_status r" and "run_pending r' = run_pending r"
    and "run_active r' = run_active r"
  shows "run_ok r'"
proof -
  have "iterations r' = iterations r" by (simp add: iterations_def assms(2))
  moreover have "pending_ok r' pa \<longleftrightarrow> pending_ok r pa" for pa
    by (simp only: pending_ok_def activation_row_def calculation assms(2,3,6))
  ultimately show ?thesis
    using assms(1) by (simp add: run_ok_def assms(2-5))
qed

lemma reset_role_frame [simp]:
  "run_pending (reset_role role r) = run_pending r"
  "run_history (reset_role role r) = run_history r"
  "run_iteration (reset_role role r) = run_iteration r"
  "run_status (reset_role role r) = run_status r"
  "run_active (reset_role role r) = run_active r"
  "iterations (reset_role role r) = iterations r"
  by (simp_all add: reset_role_def iterations_def)

lemma reset_role_ok: "run_ok r \<Longrightarrow> run_ok (reset_role role r)"
  by (erule other_fields_ok) (simp_all add: reset_role_def)

lemma bind_sid_ok: "run_ok r \<Longrightarrow> run_ok (bind_sid role found r)"
  by (erule other_fields_ok) (simp_all add: bind_sid_def)

lemma appended_ok:
  assumes "run_ok r" and "run_pending r = Some pa" and "pa_phase pa \<noteq> Queued"
  shows "run_ok (on_pending (\<lambda>p. p\<lparr> pa_phase := Appended, pa_enter_at := None \<rparr>)
    (snd (append_entry now (pa_target pa) (pa_iteration pa) tr a b r)))"
proof -
  have pend: "pending_ok r pa" using assms(1,2) by (simp add: run_ok_def)
  have pos: "0 < pa_iteration pa" using assms(1) pend by (simp add: run_ok_def pending_ok_def)
  have "last (iterations r) < unat (pa_iteration pa) \<or> he_role (last (run_history r)) = pa_target pa \<and>
      he_iteration (last (run_history r)) = pa_iteration pa"
    using pend by (auto simp: pending_ok_def activation_row_def split: if_splits)
  note its = append_entry_iterations [OF assms(1) pos this]
  show ?thesis
    using assms pend its append_entry_row [OF pos]
    by (simp add: run_ok_def pending_ok_def row_written_def activation_row_def on_pending_def
        iterations_def)
qed

lemma change_ok:
  assumes "change env r pa k r'" and "run_pending r = Some pa" and "run_ok r"
  shows "run_ok r'"
proof -
  have pend: "pending_ok r pa" using assms(2,3) by (simp add: run_ok_def)
  note pend' = pend [unfolded pending_ok_def row_written_def]
  from assms(1) show ?thesis
  proof cases
    case adopt
    then have "run_ok (adopt_initial_row (pa_target pa) r)"
      by (auto simp: adopt_initial_row_def intro!: on_last_row_ok assms(3))
    then show ?thesis
      unfolding adopt(2)
      by (rule on_pending_ok)
        (use adopt assms(2) pend' in \<open>auto simp: adopt_initial_row_def row_written_def activation_row_def last_on_last_row assms(3) [unfolded run_ok_def]\<close>)
  next
    case (persistent a b)
    show ?thesis unfolding persistent(2) by (rule appended_ok) (use assms persistent in simp_all)
  next
    case cleared
    show ?thesis unfolding cleared(2) by (rule appended_ok) (use assms cleared in simp_all)
  next
    case codex_pause
    show ?thesis unfolding codex_pause(2) by (rule other_fields_ok [OF assms(3)]) simp_all
  next
    case clear
    show ?thesis unfolding clear(2)
      by (rule on_pending_ok [OF reset_role_ok [OF assms(3)]])
        (use assms(2) pend' clear in \<open>auto simp: row_written_def activation_row_def\<close>)
  qed (use assms(2,3) pend' in \<open>auto simp: row_written_def activation_row_def
      intro!: on_pending_ok bind_sid_ok clear_pending_ok on_last_row_ok split: if_splits\<close>)
qed

end
