(* ===== verification/WorkflowMachine.thy ===== *)
theory WorkflowMachine
  imports DeliveryLaws
begin

text \<open>
  A run as a machine: the three RPCs, the pause key and the drainer, in any order, each with its
  failures. The roll back of a failed RPC is exact, except for what \<open>workflow_done\<close> forgets.
\<close>

section \<open>Roll back\<close>

lemma update_first_last:
  assumes "\<forall>x\<in>set xs. \<not> P x" and "P y"
  shows "update_first P f (xs @ [y]) = xs @ [f y]"
  using assms by (simp add: update_first_append)

lemma earlier_rows_differ:
  assumes "run_ok r" and "run_history r = hs @ [h]" and "g \<in> set hs"
  shows "he_iteration g \<noteq> he_iteration h"
  using assms by (force simp: run_ok_def iterations_def sorted_wrt_append)

text \<open>Closing the last row and restoring it is nothing.\<close>

lemma restore_closed_last:
  assumes "run_ok r" and "run_history r' = map_last (close_entry now msg) (run_history r)"
  shows "restore_closed r r' = r'\<lparr> run_history := run_history r \<rparr>"
proof -
  obtain hs h where hist: "run_history r = hs @ [h]"
    using assms(1) by (cases "run_history r" rule: rev_cases) (auto simp: run_ok_def)
  have "update_first (\<lambda>g. he_role g = he_role h \<and> he_iteration g = he_iteration h)
      (\<lambda>g. g\<lparr> he_deactivated_at := he_deactivated_at h, he_last_message := he_last_message h \<rparr>)
      (hs @ [close_entry now msg h]) = hs @ [h]"
    by (subst update_first_last)
      (use earlier_rows_differ [OF assms(1) hist] in \<open>auto simp: close_entry_def\<close>)
  then show ?thesis
    using hist assms(2) by (simp add: restore_closed_def Let_def)
qed

lemma rollback_transition_inverse:
  assumes "run_ok r"
  shows "rollback_transition r (transition_mutation env p r) = r"
proof -
  let ?m = "transition_mutation env p r"
  let ?u = "?m\<lparr> run_active := run_active r, run_iteration := run_iteration r, run_pending := run_pending r \<rparr>"
  have "run_history ?u = map_last (close_entry (re_now env) (re_captured env)) (run_history r)"
    by (simp add: transition_mutation_def Let_def close_active_role_def)
  from restore_closed_last [OF assms this] show ?thesis
    by (simp add: rollback_transition_def transition_mutation_def Let_def close_active_role_def)
qed

lemma rollback_done_inverse:
  assumes "run_ok r"
  shows "rollback_done r (done_mutation env p r) = clear_pending r"
proof -
  let ?m = "done_mutation env p r"
  let ?u = "?m\<lparr> run_active := run_active r, run_status := run_status r, run_done_reason := run_done_reason r \<rparr>"
  have "run_history ?u = map_last (close_entry (re_now env) None) (run_history r)"
    by (simp add: done_mutation_def mark_done_def close_active_role_def)
  from restore_closed_last [OF assms this] show ?thesis
    by (simp add: rollback_done_def done_mutation_def mark_done_def close_active_role_def clear_pending_def)
qed

section \<open>What the RPCs do to the file\<close>

lemma transition_admitted:
  assumes "workflow_transition env p (Some r) = (res, d)" and "d \<noteq> Some r"
  shows "transition_guard (re_caller env) p r = None" and "re_saved env"
    and "d = Some (transition_mutation env p r) \<or>
      d = after_rollback env (tp_run_id p) (rollback_transition r) (Some (transition_mutation env p r))"
  using assms
  by (auto simp: workflow_transition_def try_modify_def split: if_splits option.splits)

lemma after_rollback_cases:
  obtains "after_rollback env rid undo (Some r) = Some (re_others env r)"
  | "after_rollback env rid undo (Some r) = Some (undo (re_others env r))"
  by (cases "validate_run_id rid"; cases "re_rollback_saved env")
    (simp_all add: after_rollback_def run_modify_def)

lemma guard_running: "transition_guard caller p r = None \<Longrightarrow> run_status r = Running"
  by (auto simp: transition_guard_def split: if_splits)

lemma transition_ok:
  assumes "run_ok r" and "re_others env = id" and "unat (run_iteration r) < 2 ^ 32 - 1"
    and "workflow_transition env p (Some r) = (res, d)"
  shows "\<exists>r'. d = Some r' \<and> run_ok r'"
proof (cases "d = Some r")
  case False
  note adm = transition_admitted [OF assms(4) False]
  have m: "run_ok (transition_mutation env p r)"
    by (rule transition_mutation_ok [OF assms(1,3) guard_running [OF adm(1)]])
  from adm(3) show ?thesis
  proof
    assume "d = after_rollback env (tp_run_id p) (rollback_transition r) (Some (transition_mutation env p r))"
    then show ?thesis
      using m assms(1,2) rollback_transition_inverse [OF assms(1)]
      by (cases rule: after_rollback_cases
          [of env "tp_run_id p" "rollback_transition r" "transition_mutation env p r"]) simp_all
  qed (use m in simp)
qed (use assms in simp)

lemma done_changes:
  assumes "workflow_done env p (Some r) = (res, d)" and "d \<noteq> Some r"
  shows "done_guard (re_caller env) p r = None" and "re_saved env"
    and "d = Some (done_mutation env p r) \<or>
      d = after_rollback env (dp_run_id p) (rollback_done r) (Some (done_mutation env p r))"
  using assms
  by (auto simp: workflow_done_def try_modify_def split: if_splits option.splits)

lemma done_ok:
  assumes "run_ok r" and "re_others env = id" and "workflow_done env p (Some r) = (res, d)"
  shows "\<exists>r'. d = Some r' \<and> run_ok r'"
proof (cases "d = Some r")
  case False
  note adm = done_changes [OF assms(3) False]
  have m: "run_ok (done_mutation env p r)"
    by (simp add: done_mutation_def mark_done_ok assms(1))
  from adm(3) show ?thesis
  proof
    assume "d = after_rollback env (dp_run_id p) (rollback_done r) (Some (done_mutation env p r))"
    then show ?thesis
      using m assms(1,2) rollback_done_inverse [OF assms(1)]
      by (cases rule: after_rollback_cases
          [of env "dp_run_id p" "rollback_done r" "done_mutation env p r"])
        (simp_all add: clear_pending_ok)
  qed (use m in simp)
qed (use assms in simp)

lemma stop_changes:
  assumes "stop_workflow known auth saved caller rid (Some r) = (res, d)"
  shows "d = Some r \<or> d = Some (apply_stop r)"
  using assms by (auto simp: stop_workflow_def run_modify_def split: if_splits option.splits)

lemma traced_ok: "traced env r ios r' \<Longrightarrow> run_ok r \<Longrightarrow> run_ok r'"
  by (induction rule: traced.induct) (auto intro: change_ok)

section \<open>The machine\<close>

datatype wf_op =
    OpTransition rpc_env transition_params
  | OpDone rpc_env done_params
  | OpStop bool bool bool workflow_caller string
  | OpPause string bool
  | OpResume string bool
  | OpDrain fin_env "bool list" "(bool \<times> (workflow_run \<Rightarrow> workflow_run)) list"

definition fresh_call ::
  "workflow_run option \<Rightarrow> bool list \<Rightarrow> (bool \<times> (workflow_run \<Rightarrow> workflow_run)) list \<Rightarrow> fin_state" where
  "fresh_call disk ws ss = \<lparr> fs_disk = disk, fs_writes = ws, fs_saves = ss, fs_io = [] \<rparr>"

fun wf_step :: "workflow_run option \<Rightarrow> wf_op \<Rightarrow> workflow_run option" where
  "wf_step disk (OpTransition env p) = snd (workflow_transition env p disk)"
| "wf_step disk (OpDone env p) = snd (workflow_done env p disk)"
| "wf_step disk (OpStop known auth saved caller rid) = snd (stop_workflow known auth saved caller rid disk)"
| "wf_step disk (OpPause rid saved) = snd (run_modify rid saved pause_focused disk)"
| "wf_step disk (OpResume rid saved) = snd (run_modify rid saved resume_focused disk)"
| "wf_step disk (OpDrain env ws ss) = fs_disk (snd (advance_finalization env (fresh_call disk ws ss)))"

text \<open>
  Operations that do not overlap, and an iteration count that does not reach the end of its
  width.
\<close>

fun wf_may :: "workflow_run option \<Rightarrow> wf_op \<Rightarrow> bool" where
  "wf_may disk (OpTransition env p) \<longleftrightarrow> re_others env = id \<and>
     (\<forall>r. disk = Some r \<longrightarrow> unat (run_iteration r) < 2 ^ 32 - 1)"
| "wf_may disk (OpDone env p) \<longleftrightarrow> re_others env = id"
| "wf_may disk (OpDrain env ws ss) \<longleftrightarrow> (\<forall>x\<in>set ss. snd x = id)"
| "wf_may disk _ \<longleftrightarrow> True"

definition disk_ok :: "workflow_run option \<Rightarrow> bool" where
  "disk_ok disk \<longleftrightarrow> (\<exists>r. disk = Some r \<and> run_ok r)"

lemma drain_ok:
  assumes "disk_ok disk" and "\<forall>x\<in>set ss. snd x = id"
  shows "disk_ok (fs_disk (snd (advance_finalization env (fresh_call disk ws ss))))"
proof -
  obtain r where r: "disk = Some r" "run_ok r" using assms(1) by (auto simp: disk_ok_def)
  obtain res s' where call: "advance_finalization env (fresh_call disk ws ss) = (res, s')" by fastforce
  have "undisturbed (fresh_call disk ws ss)" "fs_disk (fresh_call disk ws ss) = Some r"
    using assms(2) r by (simp_all add: undisturbed_def fresh_call_def)
  with call show ?thesis by (rule advance_traced) (use r call in \<open>auto simp: disk_ok_def intro: traced_ok\<close>)
qed

lemma modify_ok:
  assumes "disk_ok disk" and "\<And>r. run_ok r \<Longrightarrow> run_ok (f r)"
  shows "disk_ok (snd (run_modify rid saved f disk))"
  using assms by (auto simp: disk_ok_def run_modify_def split: option.splits)

lemma pause_ok: "run_ok r \<Longrightarrow> run_ok (pause_focused r)"
  by (simp add: pause_focused_def set_paused_ok)

lemma resume_ok: "run_ok r \<Longrightarrow> run_ok (resume_focused r)"
  by (simp add: resume_focused_def set_paused_ok)

lemma stop_ok: "disk_ok disk \<Longrightarrow> disk_ok (snd (stop_workflow known auth saved caller rid disk))"
  using stop_changes [OF surjective_pairing] by (fastforce simp: disk_ok_def intro: apply_stop_ok)

lemma wf_step_ok:
  assumes "disk_ok disk" and "wf_may disk e"
  shows "disk_ok (wf_step disk e)"
proof (cases e)
  case (OpTransition env p)
  obtain r where "disk = Some r" "run_ok r" using assms(1) by (auto simp: disk_ok_def)
  then show ?thesis
    using OpTransition assms(2) transition_ok [of r env p "fst (workflow_transition env p disk)"
        "snd (workflow_transition env p disk)"]
    by (simp add: disk_ok_def)
next
  case (OpDone env p)
  obtain r where "disk = Some r" "run_ok r" using assms(1) by (auto simp: disk_ok_def)
  then show ?thesis
    using OpDone assms(2) done_ok [of r env p "fst (workflow_done env p disk)"
        "snd (workflow_done env p disk)"]
    by (simp add: disk_ok_def)
qed (use assms in \<open>simp_all add: drain_ok modify_ok pause_ok resume_ok stop_ok\<close>)

interpretation wf: invariant_system wf_step wf_may disk_ok
  by unfold_locales (rule wf_step_ok)

text \<open>A run as \<open>start_workflow\<close> writes it first.\<close>

definition started ::
  "nat \<Rightarrow> string \<Rightarrow> string \<Rightarrow> string \<Rightarrow> (string \<times> role_binding) list \<Rightarrow> string \<Rightarrow>
   (string \<times> message_baseline) list \<Rightarrow> string \<Rightarrow> (string \<times> string) list \<Rightarrow> nat \<Rightarrow> string option \<Rightarrow>
   workflow_run" where
  "started now rid workflow key roles initial baselines goal plans text prompt =
     queue_initial prompt goal initial
       (run_new now rid workflow key roles initial baselines (if goal = [] then None else Some goal)
          plans text)"

lemma started_ok: "disk_ok (Some (started now rid w k roles initial bl goal pl n prompt))"
  by (auto simp: started_def queue_initial_def disk_ok_def run_ok_def run_new_def iterations_def
      pending_ok_def row_written_def activation_row_def Let_def)

section \<open>Ended runs\<close>

definition ended_as :: "run_status \<Rightarrow> workflow_run option \<Rightarrow> bool" where
  "ended_as st disk \<longleftrightarrow> (st = Done \<or> st = Detached) \<and>
     (\<exists>r. disk = Some r \<and> run_status r = st \<and> run_pending r = None)"

lemma ended_drain:
  assumes "run_status r \<noteq> Running"
  shows "snd (advance_finalization env (fresh_call (Some r) ws ss)) = fresh_call (Some r) ws ss"
  using assms by (simp add: advance_finalization_def fin_return_def fresh_call_def)

lemma ended_step:
  assumes "ended_as st disk" and "wf_may disk e"
  shows "ended_as st (wf_step disk e)"
proof -
  obtain r where r: "disk = Some r" "run_status r = st" "run_pending r = None" and st: "st = Done \<or> st = Detached"
    using assms(1) by (auto simp: ended_as_def)
  have keep: "ended_as st (snd (run_modify rid saved f disk))"
    if "run_status (f r) = st" "run_pending (f r) = None" for rid saved f
    using that r st by (auto simp: ended_as_def run_modify_def split: option.splits)
  show ?thesis
  proof (cases e)
    case (OpTransition env p)
    have "snd (workflow_transition env p (Some r)) = Some r"
      using transition_admitted(1) [OF surjective_pairing, of env p r] guard_running r(2) st by fastforce
    then show ?thesis using OpTransition assms(1) r(1) by simp
  next
    case (OpDone env p)
    have "snd (workflow_done env p (Some r)) = Some r"
      using done_changes(1) [OF surjective_pairing, of env p r] r(2) st
      by (fastforce simp: done_guard_def split: if_splits)
    then show ?thesis using OpDone assms(1) r(1) by simp
  next
    case (OpStop known auth saved caller rid)
    have "ended_as st (Some (apply_stop r))"
      using r st by (auto simp: ended_as_def apply_stop_def mark_detached_def)
    then show ?thesis
      using OpStop assms(1) r(1) stop_changes [OF surjective_pairing, of known auth saved caller rid r]
      by (metis wf_step.simps(3))
  next
    case (OpDrain env ws ss)
    have "run_status r \<noteq> Running" using r(2) st by auto
    then show ?thesis
      using OpDrain assms(1) r(1) by (simp add: ended_drain) (simp add: fresh_call_def)
  next
    case (OpPause rid saved)
    then show ?thesis using keep [of pause_focused rid saved] r st by (auto simp: pause_focused_def)
  next
    case (OpResume rid saved)
    then show ?thesis using keep [of resume_focused rid saved] r st by (auto simp: resume_focused_def)
  qed
qed

interpretation wf_ended: invariant_system wf_step wf_may "ended_as st" for st
  by unfold_locales (rule ended_step)

end
