(* ===== verification/Delivery.thy ===== *)
theory Delivery
  imports WorkflowMachine
begin

text \<open>
  The keystrokes of an activation over any number of calls of the drainer: which, in which
  order, how many, and that they come to an end. A daemon that is killed between a keystroke and
  the change of the file leaves what a lost save leaves, so kills are among the calls.
\<close>

section \<open>Calls in a row\<close>

type_synonym drain_call = "fin_env \<times> bool list \<times> (bool \<times> (workflow_run \<Rightarrow> workflow_run)) list"

text \<open>The effects of each call, and the file in the end.\<close>

fun drains :: "workflow_run option \<Rightarrow> drain_call list \<Rightarrow> fin_io list list \<times> workflow_run option" where
  "drains disk [] = ([], disk)"
| "drains disk ((env, ws, ss) # calls) =
     (let s = snd (advance_finalization env (fresh_call disk ws ss));
          (logs, disk') = drains (fs_disk s) calls in
      (fs_io s # logs, disk'))"

definition alone :: "drain_call list \<Rightarrow> bool" where
  "alone calls \<longleftrightarrow> list_all (\<lambda>(env, ws, ss). list_all (\<lambda>x. snd x = id) ss) calls"

fun keys :: "fin_io list \<Rightarrow> keystroke list" where
  "keys [] = []"
| "keys (Wrote k # ios) = k # keys ios"
| "keys (Saved r # ios) = keys ios"

text \<open>How many keystrokes of a call were typed without the change that goes with them.\<close>

fun unsaved :: "fin_io list \<Rightarrow> nat" where
  "unsaved [] = 0"
| "unsaved (Wrote k # Saved r # ios) = unsaved ios"
| "unsaved (Wrote k # ios) = Suc (unsaved ios)"
| "unsaved (Saved r # ios) = unsaved ios"

definition typed_keys :: "fin_io list list \<Rightarrow> keystroke list" where
  "typed_keys logs = concat (map keys logs)"

definition lost_saves :: "fin_io list list \<Rightarrow> nat" where
  "lost_saves logs = sum_list (map unsaved logs)"

lemma typed_keys_simps [simp]:
  "typed_keys [] = []" "typed_keys (ios # logs) = keys ios @ typed_keys logs"
  "lost_saves [] = 0" "lost_saves (ios # logs) = unsaved ios + lost_saves logs"
  by (simp_all add: typed_keys_def lost_saves_def)

text \<open>A relation between the log of a call and its ends holds of calls in a row.\<close>

lemma drains_induct [consumes 3, case_names nil call]:
  assumes "drains (Some r) calls = (logs, disk)" and "alone calls"
    and "\<forall>c\<in>set calls. E (fst c)"
    and nil: "\<And>r. P [] r r"
    and call: "\<And>env r ios r' logs r''. E env \<Longrightarrow> traced env r ios r' \<Longrightarrow> P logs r' r'' \<Longrightarrow> P (ios # logs) r r''"
  shows "\<exists>r'. disk = Some r' \<and> P logs r r'"
  using assms(1-3)
proof (induction calls arbitrary: r logs)
  case Nil
  then show ?case by (auto simp: nil)
next
  case (Cons c calls)
  obtain env ws ss where c: "c = (env, ws, ss)" by (cases c) auto
  obtain res s' where adv: "advance_finalization env (fresh_call (Some r) ws ss) = (res, s')" by fastforce
  have "undisturbed (fresh_call (Some r) ws ss)" "fs_disk (fresh_call (Some r) ws ss) = Some r"
    using Cons.prems(2) c by (auto simp: undisturbed_def fresh_call_def alone_def list_all_iff)
  with adv obtain ios r1 where 1: "fs_disk s' = Some r1" "fs_io s' = ios" "traced env r ios r1"
    by (rule advance_traced) (auto simp: fresh_call_def)
  obtain logs' where 2: "drains (Some r1) calls = (logs', disk)" "logs = ios # logs'"
    using Cons.prems(1) 1 adv by (auto simp: c split: prod.splits)
  have "alone calls" "\<forall>c\<in>set calls. E (fst c)" "E env"
    using Cons.prems(2,3) c by (simp_all add: alone_def)
  then show ?case using Cons.IH [OF 2(1)] 1(3) 2(2) call by blast
qed

section \<open>How many\<close>

text \<open>
  What the confirmation of a fresh Codex turn may still cost: two more Enter keys, and once a
  cleared composer with the body and its Enter key again.
\<close>

definition codex_budget :: "pending_activation \<Rightarrow> nat" where
  "codex_budget pa =
     (if \<not> pa_needs_fresh pa then 0
      else case pa_codex pa of
          None \<Rightarrow> 5
        | Some c \<Rightarrow> (2 - cc_enter_retries c) + (if cc_redelivered c then 0 else 3))"

definition pending_budget :: "pending_activation \<Rightarrow> nat" where
  "pending_budget pa =
     (case pa_phase pa of
        Queued \<Rightarrow> (if pa_needs_fresh pa then 4 else 2) + codex_budget pa
      | Rendered \<Rightarrow> (if pa_needs_fresh pa then 4 else 2) + codex_budget pa
      | ClearBodySent \<Rightarrow> 3 + codex_budget pa
      | Appended \<Rightarrow> 2 + codex_budget pa
      | BodySent \<Rightarrow> 1 + codex_budget pa
      | RebindPending \<Rightarrow> codex_budget pa
      | PhaseDone \<Rightarrow> 0)"

definition budget :: "workflow_run \<Rightarrow> nat" where
  "budget r = (case run_pending r of None \<Rightarrow> 0 | Some pa \<Rightarrow> pending_budget pa)"

lemma budget_pending: "run_pending r = Some pa \<Longrightarrow> budget r = pending_budget pa"
  by (simp add: budget_def)

lemma clear_pending_pending [simp]: "run_pending (clear_pending r) = None"
  by (simp add: clear_pending_def)

lemma adopt_initial_row_pending [simp]: "run_pending (adopt_initial_row role r) = run_pending r"
  by (simp add: adopt_initial_row_def)

lemma change_budget:
  assumes "change env r pa k r'" and "run_pending r = Some pa"
  shows "budget r' + length (case k of None \<Rightarrow> [] | Some x \<Rightarrow> [x]) \<le> budget r"
  using assms
  by cases (auto simp: budget_def pending_budget_def codex_budget_def CODEX_CONFIRM_ENTER_RETRIES_def
      split: option.splits)

lemma traced_budget:
  "traced env r ios r' \<Longrightarrow> length (keys ios) + budget r' \<le> budget r + unsaved ios"
proof (induction rule: traced.induct)
  case (typed r pa k r1 ios r2)
  then show ?case using change_budget [OF typed(2,1)] by simp
next
  case (quiet r pa r1 ios r2)
  then show ?case using change_budget [OF quiet(2,1)] by simp
qed simp_all

lemma drains_budget:
  assumes "drains (Some r) calls = (logs, disk)" and "alone calls"
  shows "\<exists>r'. disk = Some r' \<and> length (typed_keys logs) + budget r' \<le> budget r + lost_saves logs"
proof -
  have "\<forall>c\<in>set calls. True" by simp
  from assms this show ?thesis
    by (induction rule: drains_induct) (auto dest: traced_budget)
qed

section \<open>Which, and in which order\<close>

text \<open>The keystrokes an activation still needs when no fresh Codex turn has to be confirmed.\<close>

definition pending_plan :: "pending_activation \<Rightarrow> keystroke list" where
  "pending_plan pa =
     (let prompt = [PromptBody (case pa_rendered pa of None \<Rightarrow> '''' | Some t \<Rightarrow> t), EnterKey] in
      case pa_phase pa of
        Queued \<Rightarrow> (if pa_needs_fresh pa \<and> \<not> pa_is_initial pa then [ClearBody, EnterKey] else []) @ prompt
      | Rendered \<Rightarrow> (if pa_needs_fresh pa \<and> \<not> pa_is_initial pa then [ClearBody, EnterKey] else []) @ prompt
      | ClearBodySent \<Rightarrow> EnterKey # prompt
      | Appended \<Rightarrow> prompt
      | BodySent \<Rightarrow> [EnterKey]
      | RebindPending \<Rightarrow> []
      | PhaseDone \<Rightarrow> [])"

definition plan :: "workflow_run \<Rightarrow> keystroke list" where
  "plan r = (case run_pending r of None \<Rightarrow> [] | Some pa \<Rightarrow> pending_plan pa)"

text \<open>An activation of a role that is kept, or that does not run Codex.\<close>

definition plain_activation :: "string \<Rightarrow> bool \<Rightarrow> workflow_run \<Rightarrow> bool" where
  "plain_activation role fresh r \<longleftrightarrow>
     (\<forall>pa. run_pending r = Some pa \<longrightarrow> pa_target pa = role \<and> pa_needs_fresh pa = fresh \<and>
        pa_phase pa \<noteq> Queued \<and> pa_codex pa = None)"

lemma change_plan:
  assumes "change env r pa k r'" and "run_pending r = Some pa" and "plain_activation role fresh r"
    and "fresh \<longrightarrow> engine_for env role \<noteq> Codex"
  shows "(case k of None \<Rightarrow> [] | Some x \<Rightarrow> [x]) @ plan r' = plan r" and "plain_activation role fresh r'"
  using assms
  by (cases; auto simp: plan_def plain_activation_def pending_plan_def Let_def split: activation_phase.splits)+

lemma remdups_adj_idem: "remdups_adj (remdups_adj xs) = remdups_adj xs"
proof (induction xs rule: remdups_adj.induct)
  case (3 x y xs)
  obtain zs where zs: "remdups_adj (y # xs) = y # zs"
    by (cases "remdups_adj (y # xs)") (auto dest: arg_cong [of _ _ hd])
  then show ?case using 3 by (cases "x = y") simp_all
qed simp_all

lemma remdups_adj_tail: "remdups_adj (xs @ remdups_adj ys) = remdups_adj (xs @ ys)"
  by (induction xs) (simp_all add: remdups_adj_idem remdups_adj_Cons)

lemma plan_distinct: "remdups_adj (plan r) = plan r"
  by (auto simp: plan_def pending_plan_def Let_def split: option.splits activation_phase.splits)

lemma traced_plan:
  assumes "traced env r ios r'" and "plain_activation role fresh r" and "fresh \<longrightarrow> engine_for env role \<noteq> Codex"
  shows "plain_activation role fresh r' \<and> remdups_adj (keys ios @ plan r') = plan r \<and>
    (unsaved ios = 0 \<longrightarrow> keys ios @ plan r' = plan r)"
  using assms(1,2)
proof (induction rule: traced.induct)
  case (stop r)
  then show ?case by (simp add: plan_distinct)
next
  case (lost r pa k r1)
  note c = change_plan [OF lost(2,1,3) assms(3)]
  then have "remdups_adj (k # plan r) = plan r"
    using plan_distinct [of r] by (cases "plan r") (auto simp: remdups_adj_Cons)
  then show ?case using lost by simp
next
  case (quiet r pa r1 ios r2)
  note c = change_plan [OF quiet(2,1,5) assms(3)]
  then show ?case using quiet.IH by simp
next
  case (typed r pa k r1 ios r2)
  note c = change_plan [OF typed(2,1,5) assms(3)]
  have "remdups_adj (k # keys ios @ plan r2) = remdups_adj ([k] @ remdups_adj (keys ios @ plan r2))"
    using remdups_adj_tail [of "[k]" "keys ios @ plan r2"] by simp
  also have "\<dots> = plan r" using c typed.IH plan_distinct [of r] by simp
  finally show ?case using c typed.IH by simp
qed

lemma drains_plan:
  assumes "drains (Some r) calls = (logs, disk)" and "alone calls" and "plain_activation role fresh r"
    and "\<forall>c\<in>set calls. fresh \<longrightarrow> engine_for (fst c) role \<noteq> Codex"
  shows "\<exists>r'. disk = Some r' \<and> (plain_activation role fresh r \<longrightarrow>
    remdups_adj (typed_keys logs @ plan r') = plan r \<and>
    (lost_saves logs = 0 \<longrightarrow> typed_keys logs @ plan r' = plan r))"
  using assms(1,2,4)
proof (induction rule: drains_induct)
  case (nil r)
  then show ?case by (simp add: plan_distinct)
next
  case (call env r ios r' logs r'')
  show ?case
  proof
    assume "plain_activation role fresh r"
    from traced_plan [OF call(2) this call(1)] call(3)
    have t: "remdups_adj (keys ios @ plan r') = plan r" "unsaved ios = 0 \<longrightarrow> keys ios @ plan r' = plan r"
      and l: "remdups_adj (typed_keys logs @ plan r'') = plan r'"
        "lost_saves logs = 0 \<longrightarrow> typed_keys logs @ plan r'' = plan r'" by blast+
    have "remdups_adj (keys ios @ typed_keys logs @ plan r'') = plan r"
      using t(1) l(1) remdups_adj_tail [of "keys ios"] by metis
    then show "remdups_adj (typed_keys (ios # logs) @ plan r'') = plan r \<and>
        (lost_saves (ios # logs) = 0 \<longrightarrow> typed_keys (ios # logs) @ plan r'' = plan r)"
      using t l by simp
  qed
qed

section \<open>That it comes to an end\<close>

text \<open>
  A call that finds what its phase waits for: quiet terminal, gap over, an adopted session at
  rest, the new session in sight; and whose effects all succeed.
\<close>

definition helpful :: "fin_env \<Rightarrow> workflow_run \<Rightarrow> bool" where
  "helpful env r \<longleftrightarrow>
     validate_run_id (fe_run_id env) = None \<and> run_status r = Running \<and> \<not> run_paused r \<and>
     (case run_pending r of
        None \<Rightarrow> True
      | Some pa \<Rightarrow>
          fe_quiet env \<and> due env pa \<and> bound_readiness env r pa \<noteq> Some None \<and>
          pa_codex pa = None \<and> (pa_needs_fresh pa \<longrightarrow> engine_for env (pa_target pa) \<noteq> Codex) \<and>
          (pa_phase pa = RebindPending \<longrightarrow>
             role_sid r (pa_target pa) \<noteq> None \<or>
             bt_get (run_roles r) (pa_target pa) \<noteq> None \<and>
             fe_discover env (engine_for env (pa_target pa))
               (case pa_snapshot pa of None \<Rightarrow> [] | Some ss \<Rightarrow> ss) \<noteq> None))"

definition phases_left :: "workflow_run \<Rightarrow> nat" where
  "phases_left r = (case run_pending r of None \<Rightarrow> 0 | Some pa \<Rightarrow>
     (case pa_phase pa of Queued \<Rightarrow> 6 | Rendered \<Rightarrow> 5 | ClearBodySent \<Rightarrow> 4 | Appended \<Rightarrow> 3
      | BodySent \<Rightarrow> 2 | RebindPending \<Rightarrow> 1 | PhaseDone \<Rightarrow> 1))"

fun all_helpful :: "workflow_run option \<Rightarrow> drain_call list \<Rightarrow> bool" where
  "all_helpful disk [] = True"
| "all_helpful disk ((env, ws, ss) # calls) \<longleftrightarrow>
     (case disk of None \<Rightarrow> False | Some r \<Rightarrow> helpful env r) \<and>
     list_all id ws \<and> list_all (\<lambda>x. fst x \<and> snd x = id) ss \<and>
     all_helpful (fs_disk (snd (advance_finalization env (fresh_call disk ws ss)))) calls"

definition smooth :: "fin_state \<Rightarrow> bool" where
  "smooth s \<longleftrightarrow> list_all id (fs_writes s) \<and> list_all (\<lambda>x. fst x \<and> snd x = id) (fs_saves s)"

lemma fin_write_smooth:
  assumes "smooth s"
  shows "fin_bind (fin_write k) c s =
    c () (s\<lparr> fs_writes := tl (fs_writes s), fs_io := fs_io s @ [Wrote k] \<rparr>)"
    and "smooth (s\<lparr> fs_writes := tl (fs_writes s), fs_io := fs_io s @ [Wrote k] \<rparr>)"
  using assms
  by (cases "fs_writes s"; auto simp: fin_bind_def fin_write_def smooth_def)+

lemma fin_modify_smooth:
  assumes "smooth s" and "fs_disk s = Some r" and "validate_run_id rid = None"
  shows "fin_bind (fin_modify rid f) c s = c (f r)
    (s\<lparr> fs_saves := tl (fs_saves s), fs_disk := Some (f r), fs_io := fs_io s @ [Saved (f r)] \<rparr>)"
    and "smooth (s\<lparr> fs_saves := tl (fs_saves s), fs_disk := Some (f r), fs_io := fs_io s @ [Saved (f r)] \<rparr>)"
  using assms
  by (cases "fs_saves s"; auto simp: fin_bind_def fin_modify_def smooth_def run_modify_def)+

lemma bind_sid_known:
  assumes "role_sid r role \<noteq> None \<or> bt_get (run_roles r) role \<noteq> None \<and> found \<noteq> None"
  shows "role_sid (bind_sid role found r) role \<noteq> None"
  using assms by (cases "bt_get (run_roles r) role") (auto simp: role_sid_def bind_sid_def bt_get_adjust)

lemma phases_left_pending:
  "run_pending r = Some pa \<Longrightarrow> phases_left r = (case pa_phase pa of Queued \<Rightarrow> 6 | Rendered \<Rightarrow> 5
     | ClearBodySent \<Rightarrow> 4 | Appended \<Rightarrow> 3 | BodySent \<Rightarrow> 2 | RebindPending \<Rightarrow> 1 | PhaseDone \<Rightarrow> 1)"
  by (simp add: phases_left_def)

lemma phases_left_cleared: "run_pending r = None \<Longrightarrow> phases_left r = 0"
  by (simp add: phases_left_def)

lemma deliver_body_phases:
  assumes "smooth s" and "fs_disk s = Some r1" and "run_pending r1 = Some pa"
    and "validate_run_id (fe_run_id env) = None"
  shows "\<exists>r'. fs_disk (snd (deliver_body env r pa s)) = Some r' \<and> phases_left r' = 2"
  using assms
  by (simp add: deliver_body_def Let_def fin_write_smooth fin_modify_smooth fin_return_def phases_left_pending)

lemma helpful_progress:
  assumes "smooth s" and d: "fs_disk s = Some r" and h: "helpful env r" and p: "run_pending r = Some pa"
  shows "\<exists>r'. fs_disk (snd (advance_finalization env s)) = Some r' \<and> phases_left r' < phases_left r"
proof -
  have v: "validate_run_id (fe_run_id env) = None" and run: "run_status r = Running" "\<not> run_paused r"
    and q: "fe_quiet env" "due env pa" "bound_readiness env r pa \<noteq> Some None"
    and c: "pa_codex pa = None" "\<not> (engine_for env (pa_target pa) = Codex \<and> pa_needs_fresh pa)"
    using h p by (auto simp: helpful_def)
  have conf: "confirmed_rollout env pa = None" using c by (auto simp: confirmed_rollout_def)
  have adv: "advance_finalization env s = step_phase env r pa s"
    using v run d p conf by (simp add: advance_finalization_def)
  note m = fin_modify_smooth [OF _ _ v] and w = fin_write_smooth
  show ?thesis
  proof (cases "pa_phase pa")
    case Queued
    then show ?thesis using p
      by (simp add: adv step_phase_def step_queued_def Let_def m(1) [OF assms(1) d] fin_return_def phases_left_pending)
  next
    case Rendered
    then show ?thesis using p q d assms(1)
      by (simp add: adv step_phase_def step_rendered_def Let_def append_history_def fin_bind_assoc
          m(1) w fin_return_def phases_left_pending split: prod.splits)
  next
    case ClearBodySent
    then show ?thesis using p q d assms(1)
      by (simp add: adv step_phase_def step_clear_body_sent_def Let_def append_history_def fin_bind_assoc
          m(1) w fin_return_def phases_left_pending)
  next
    case Appended
    have step: "step_phase env r pa s = (case bound_readiness env r pa of
        Some (Some (a, b)) \<Rightarrow> fin_bind (fin_modify (fe_run_id env) (on_last_row (pa_target pa)
            (\<lambda>h. h\<lparr> he_assistant_at_start := a, he_text_at_start := b \<rparr>))) (\<lambda>_. deliver_body env r pa) s
      | _ \<Rightarrow> deliver_body env r pa s)"
      using Appended q c by (auto simp: step_phase_def step_appended_def split: option.splits)
    have "\<exists>r'. fs_disk (snd (step_phase env r pa s)) = Some r' \<and> phases_left r' = 2"
      unfolding step
      using deliver_body_phases [OF assms(1) d p v] deliver_body_phases [OF m(2) [OF assms(1) d] _ _ v]
      by (simp add: m(1) [OF assms(1) d] p split: option.splits)
    then show ?thesis using Appended by (auto simp: adv phases_left_pending [OF p])
  next
    case BodySent
    then show ?thesis using p q d assms(1)
      by (simp add: adv step_phase_def step_body_sent_def Let_def
          m(1) w fin_return_def phases_left_pending phases_left_cleared)
  next
    case RebindPending
    let ?e = "engine_for env (pa_target pa)"
    let ?found = "fe_discover env ?e (case pa_snapshot pa of None \<Rightarrow> [] | Some ss \<Rightarrow> ss)"
    have "role_sid (bind_sid (pa_target pa) ?found r) (pa_target pa) \<noteq> None"
      by (rule bind_sid_known) (use h p RebindPending in \<open>simp add: helpful_def\<close>)
    then show ?thesis using p q c d assms(1) RebindPending
      by (auto simp: adv step_phase_def step_rebind_def try_rebind_def rebind_discovered_bind Let_def
          m fin_return_def phases_left_pending phases_left_cleared)
  next
    case PhaseDone
    then show ?thesis using p d assms(1)
      by (simp add: adv step_phase_def m(1) fin_return_def phases_left_pending phases_left_cleared)
  qed
qed

lemma helpful_idle:
  assumes "fs_disk s = Some r" and "helpful env r" and "run_pending r = None"
  shows "fs_disk (snd (advance_finalization env s)) = Some r"
  using assms by (auto simp: advance_finalization_def fin_return_def helpful_def)

lemma all_helpful_completes:
  assumes "all_helpful (Some r) calls" and "phases_left r \<le> length calls"
  shows "\<exists>r'. snd (drains (Some r) calls) = Some r' \<and> run_pending r' = None"
  using assms
proof (induction calls arbitrary: r)
  case Nil
  then show ?case by (auto simp: phases_left_def split: option.splits activation_phase.splits)
next
  case (Cons c calls)
  obtain env ws ss where c: "c = (env, ws, ss)" by (cases c) auto
  let ?s = "fresh_call (Some r) ws ss"
  let ?d = "fs_disk (snd (advance_finalization env ?s))"
  have s: "fs_disk ?s = Some r" "smooth ?s" and h: "helpful env r" and rest: "all_helpful ?d calls"
    using Cons.prems(1) by (simp_all add: c smooth_def fresh_call_def)
  have "\<exists>r1. ?d = Some r1 \<and> phases_left r1 \<le> length calls"
  proof (cases "run_pending r")
    case None
    then show ?thesis using helpful_idle [OF s(1) h] by (simp add: phases_left_def)
  next
    case (Some pa)
    then show ?thesis using helpful_progress [OF s(2,1) h Some] Cons.prems(2) by fastforce
  qed
  then obtain r1 where r1: "?d = Some r1" "phases_left r1 \<le> length calls" by blast
  then show ?case using Cons.IH [of r1] rest by (auto simp: c Let_def split: prod.splits)
qed

end
