(* ===== verification/PollerLaws.thy ===== *)
theory PollerLaws
  imports PollerTick Delivery
begin

text \<open>
  What holds of the poller: when it acts and what it then makes of a run's file, that the loop of
  the drainer ends, that the runs of a pass do not interfere, that a run stays well formed through
  passes mixed with everything else, and how often an idle role can be nudged.
\<close>

section \<open>When it acts\<close>

lemma evaluate_acts:
  assumes "evaluate_snapshot tr later (snapshot_of st r) = d" and "\<And>rid x. d \<noteq> Skip rid x"
  obtains role w wt sid baseline where
    "run_active r = Some role" "\<not> run_paused r" "daemon_owns_run st r"
    "workflow_definition st (run_workflow r) = Some w" "run_worktree st r = Some wt"
    "role_sid r role = Some sid" "map_option pa_target (run_pending r) \<noteq> Some role"
    "active_start_count r = Some baseline"
    "assistant_turn_completed_since tr (session_engine (role_session_types st r) role) wt sid baseline"
    "d = decide_idle later (snapshot_of st r) w role
       (tr_count later (session_engine (role_session_types st r) role) wt sid AssistantMessages)"
  using assms
  by (auto simp: evaluate_snapshot_def snapshot_of_def Let_def split: if_splits option.splits)

lemma decide_idle_nudge:
  assumes "decide_idle tr sn w active count = Nudge rid role prompt c"
  shows "rid = sn_run_id sn" "role = active" "prompt = IDLE_NUDGE_PROMPT" "c = count"
    "static_transition_on_idle w active = None" "run_nudge_count (sn_run sn) \<noteq> Some count"
    "trailing_streak (sn_run sn) active \<le> 3"
  using assms
  by (auto simp: decide_idle_def MAX_CONSECUTIVE_IDLE_NUDGES_def split: option.splits if_splits)

lemma decide_idle_static:
  assumes "decide_idle tr sn w active count = ActivateStatic rid from_role to_role prompt"
  shows "rid = sn_run_id sn" "from_role = active"
    "\<exists>t. static_transition_on_idle w active = Some t \<and> to_role = wt_to t \<and>
      bt_get (wd_roles w) to_role \<noteq> None"
  using assms by (auto simp: decide_idle_def split: option.splits if_splits)

section \<open>What it makes of the file\<close>

definition marked_run :: "nat \<Rightarrow> workflow_run \<Rightarrow> workflow_run" where
  "marked_run c r = r\<lparr> run_nudge_count := Some c \<rparr>"

lemma persist_nudge_guard_cases:
  "persist_nudge_guard rid saved c (Some r) = (Inr (), Some (marked_run c r)) \<or>
   (\<exists>e. persist_nudge_guard rid saved c (Some r) = (Inl e, Some r))"
  by (auto simp: persist_nudge_guard_def run_modify_def marked_run_def split: option.splits)

lemma marked_run_ok [simp]: "run_ok (marked_run c r) \<longleftrightarrow> run_ok r"
  by (simp add: run_ok_def marked_run_def iterations_def pending_ok_def activation_row_def)

lemma marked_run_frame [simp]:
  "run_active (marked_run c r) = run_active r" "run_status (marked_run c r) = run_status r"
  "run_paused (marked_run c r) = run_paused r" "run_pending (marked_run c r) = run_pending r"
  "run_iteration (marked_run c r) = run_iteration r" "run_history (marked_run c r) = run_history r"
  "run_roles (marked_run c r) = run_roles r" "run_nudge_count (marked_run c r) = Some c"
  by (simp_all add: marked_run_def)

text \<open>The poller's transition happens only while the role it was decided for is active.\<close>

lemma poller_guard:
  assumes "transition_guard Operator (poller_params rid from_role to_role prompt) r = None"
  shows "run_active r = Some from_role" "run_status r = Running" "bt_get (run_roles r) to_role \<noteq> None"
  using assms by (auto simp: transition_guard_def poller_params_def participant_def split: if_splits)

lemma fire_stale:
  assumes "run_active r \<noteq> Some from_role \<or> run_status r \<noteq> Running"
  shows "snd (fire_static_transition st tr env rid from_role to_role prompt (Some r)) = Some r"
proof -
  let ?e = "poller_rpc st tr env to_role (Some r)" and ?p = "poller_params rid from_role to_role prompt"
  have "transition_guard Operator ?p r \<noteq> None"
    using assms poller_guard(1,2) by blast
  then have "transition_guard (re_caller ?e) ?p r \<noteq> None" by (simp add: poller_rpc_def)
  then have "snd (workflow_transition ?e ?p (Some r)) = Some r"
    using transition_admitted(1) [OF surjective_pairing, of ?e ?p r] by metis
  then show ?thesis by (auto simp: fire_static_transition_def split: prod.splits sum.splits)
qed

definition poller_moved ::
  "poller_state \<Rightarrow> transcripts \<Rightarrow> rpc_env \<Rightarrow> string \<Rightarrow> string \<Rightarrow> string \<Rightarrow> string \<Rightarrow> workflow_run \<Rightarrow> workflow_run" where
  "poller_moved st tr env rid from_role to_role prompt r =
     transition_mutation (poller_rpc st tr env to_role (Some r))
       (poller_params rid from_role to_role prompt) r"

text \<open>A transition that nobody interferes with happens or leaves the run as it was.\<close>

lemma transition_outcome:
  assumes "run_ok r" and "re_others env = id"
  shows "snd (workflow_transition env p (Some r)) = Some r \<or>
    transition_guard (re_caller env) p r = None \<and>
    snd (workflow_transition env p (Some r)) = Some (transition_mutation env p r)"
proof (cases "snd (workflow_transition env p (Some r)) = Some r")
  case False
  note adm = transition_admitted [OF surjective_pairing False]
  have "snd (workflow_transition env p (Some r)) = Some (transition_mutation env p r)"
    using adm(3)
  proof
    assume "snd (workflow_transition env p (Some r)) =
      after_rollback env (tp_run_id p) (rollback_transition r) (Some (transition_mutation env p r))"
    then show ?thesis
      using False assms(2) rollback_transition_inverse [OF assms(1)]
      by (cases rule: after_rollback_cases
          [of env "tp_run_id p" "rollback_transition r" "transition_mutation env p r"]) simp_all
  qed
  then show ?thesis using adm(1) by simp
qed simp

lemma fire_cases:
  assumes "run_ok r" and "re_others env = id"
  shows "snd (fire_static_transition st tr env rid from_role to_role prompt (Some r)) = Some r \<or>
    run_active r = Some from_role \<and> run_status r = Running \<and>
    snd (fire_static_transition st tr env rid from_role to_role prompt (Some r)) =
      Some (poller_moved st tr env rid from_role to_role prompt r)"
proof -
  let ?e = "poller_rpc st tr env to_role (Some r)" and ?p = "poller_params rid from_role to_role prompt"
  have d: "snd (fire_static_transition st tr env rid from_role to_role prompt (Some r)) =
      snd (workflow_transition ?e ?p (Some r))"
    by (auto simp: fire_static_transition_def split: prod.splits sum.splits)
  have "re_others ?e = id" "re_caller ?e = Operator" using assms(2) by (simp_all add: poller_rpc_def)
  then show ?thesis
    using transition_outcome [OF assms(1), of ?e ?p] poller_guard [of rid from_role to_role prompt r]
    by (auto simp: d poller_moved_def)
qed

text \<open>The file after a decision has been applied, when nobody interferes.\<close>

lemma apply_cases:
  assumes "run_ok r" and "re_others env = id"
  obtains (same) "apply_decision st tr env marked d (Some r) = Some r"
  | (marked) rid role prompt c where "d = Nudge rid role prompt c"
      "apply_decision st tr env marked d (Some r) = Some (marked_run c r)"
  | (handed) rid from_role to_role shown where "d = ActivateStatic rid from_role to_role shown"
      "run_active r = Some from_role" "run_status r = Running"
      "apply_decision st tr env marked d (Some r) =
        Some (poller_moved st tr env rid from_role to_role '''' r)"
  | (nudged) rid role prompt c where "d = Nudge rid role prompt c"
      "run_active r = Some role" "run_status r = Running"
      "apply_decision st tr env marked d (Some r) =
        Some (poller_moved st tr env rid role role prompt (marked_run c r))"
proof (cases d)
  case (ActivateStatic rid from_role to_role shown)
  then show thesis
    using fire_cases [OF assms, of st tr rid from_role to_role "''''"] same handed
    by (auto simp: apply_decision_def)
next
  case (Nudge rid role prompt c)
  have ok: "run_ok (marked_run c r)" using assms(1) by simp
  show thesis
    using Nudge persist_nudge_guard_cases [of rid marked c r]
      fire_cases [OF ok assms(2), of st tr rid role role prompt] that
    by (auto simp: apply_decision_def)
next
  case (Skip rid x)
  then show thesis using same by (simp add: apply_decision_def)
qed

lemma poller_moved_ok:
  assumes "run_ok r" and "run_status r = Running" and "unat (run_iteration r) < 2 ^ 32 - 1"
  shows "run_ok (poller_moved st tr env rid from_role to_role prompt r)"
  unfolding poller_moved_def by (rule transition_mutation_ok [OF assms(1,3,2)])

lemma poller_moved_frame:
  "run_active (poller_moved st tr env rid f t p r) = Some t"
  "run_iteration (poller_moved st tr env rid f t p r) = run_iteration r + 1"
  "run_status (poller_moved st tr env rid f t p r) = run_status r"
  "run_paused (poller_moved st tr env rid f t p r) = run_paused r"
  "map he_role (run_history (poller_moved st tr env rid f t p r)) = map he_role (run_history r)"
  "run_pending (poller_moved st tr env rid f t p r) = Some
     \<lparr> pa_id = ucast (run_iteration r + 1), pa_target = t, pa_iteration = run_iteration r + 1,
        pa_trigger = StaticIdle (case run_active r of None \<Rightarrow> '''' | Some a \<Rightarrow> a),
        pa_raw_prompt = p, pa_verbatim = False, pa_needs_fresh = to_role_is_fresh st (Some r) t,
        pa_is_initial = False, pa_phase = Queued, pa_rendered = None, pa_snapshot = None,
        pa_enter_at = None, pa_codex = None \<rparr>"
  by (simp_all add: poller_moved_def transition_mutation_def Let_def close_active_role_def
      map_map_last close_entry_def pending_trigger_def honored_trigger_def poller_rpc_def poller_params_def)

lemma apply_ok:
  assumes "run_ok r" and "re_others env = id" and "unat (run_iteration r) < 2 ^ 32 - 1"
  shows "\<exists>r'. apply_decision st tr env marked d (Some r) = Some r' \<and> run_ok r'"
  using assms(1,2)
proof (cases rule: apply_cases [where st = st and tr = tr and marked = marked and d = d])
  case (handed rid from_role to_role shown)
  then show ?thesis using poller_moved_ok [OF assms(1) handed(3) assms(3)] by blast
next
  case (nudged rid role prompt c)
  then show ?thesis using poller_moved_ok [of "marked_run c r"] assms by simp
qed (use assms in auto)

section \<open>The drainer's loop\<close>

lemma advance_keeps:
  assumes "advance_finalization env (fresh_call (Some r) ws ss) = (res, s')" and "\<forall>x\<in>set ss. snd x = id"
  obtains ios r' where "fs_disk s' = Some r'" "traced env r ios r'"
proof -
  have "undisturbed (fresh_call (Some r) ws ss)" "fs_disk (fresh_call (Some r) ws ss) = Some r"
    using assms(2) by (simp_all add: undisturbed_def fresh_call_def)
  with assms(1) show thesis by (rule advance_traced) (rule that)
qed

lemma drain_loop_call:
  "drain_loop ((env, ws, ss) # calls) disk =
     (case advance_finalization env (fresh_call disk ws ss) of
        (Inr (Advanced _), s) \<Rightarrow>
          (let (n, ended, disk') = drain_loop calls (fs_disk s) in (Suc n, ended, disk'))
      | (_, s) \<Rightarrow> (1, True, fs_disk s))"
  by (simp add: fresh_call_def)

declare drain_loop.simps(2) [simp del]

lemma drain_loop_keeps:
  assumes keep: "\<And>env r ios r'. traced env r ios r' \<Longrightarrow> P r \<Longrightarrow> P r'"
  shows "alone calls \<Longrightarrow> P r \<Longrightarrow> \<exists>r'. snd (snd (drain_loop calls (Some r))) = Some r' \<and> P r'"
proof (induction calls arbitrary: r)
  case (Cons c calls)
  obtain env ws ss where c: "c = (env, ws, ss)" by (cases c) auto
  obtain res s' where adv: "advance_finalization env (fresh_call (Some r) ws ss) = (res, s')" by fastforce
  have ss: "\<forall>x\<in>set ss. snd x = id" and rest: "alone calls"
    using Cons.prems(1) c by (simp_all add: alone_def list_all_iff)
  from advance_keeps [OF adv ss] obtain ios r1 where r1: "fs_disk s' = Some r1" "traced env r ios r1" .
  have P: "P r1" by (rule keep [OF r1(2) Cons.prems(2)])
  show ?case
    using Cons.IH [OF rest P] r1(1) P
    by (auto simp: c drain_loop_call adv split: sum.splits finalize_step.splits prod.splits)
qed simp

text \<open>
  How many calls can still advance: five to the rebinding, and three more when the prompt of a
  fresh Codex turn is typed once again.
\<close>

definition pending_advances :: "pending_activation \<Rightarrow> nat" where
  "pending_advances pa =
     (case pa_phase pa of Queued \<Rightarrow> 5 | Rendered \<Rightarrow> 4 | ClearBodySent \<Rightarrow> 3 | Appended \<Rightarrow> 2
      | BodySent \<Rightarrow> 1 | RebindPending \<Rightarrow> 0 | PhaseDone \<Rightarrow> 0) +
     (case pa_codex pa of None \<Rightarrow> 3 | Some c \<Rightarrow> if cc_redelivered c then 0 else 3)"

definition advances :: "workflow_run \<Rightarrow> nat" where
  "advances r = (case run_pending r of None \<Rightarrow> 0 | Some pa \<Rightarrow> pending_advances pa)"

lemma advances_pending: "run_pending r = Some pa \<Longrightarrow> advances r = pending_advances pa"
  by (simp add: advances_def)

text \<open>What is known of an effect that has succeeded.\<close>

lemma modify_succeeds:
  assumes "fin_bind (fin_modify rid f) c s = (Inr x, s')" and "undisturbed s" and "fs_disk s = Some d"
  obtains t where "undisturbed t" "fs_disk t = Some (f d)" "c (f d) t = (Inr x, s')"
proof -
  obtain y t where m: "fin_modify rid f s = (y, t)" by fastforce
  have v: "validate_run_id rid = None"
    using assms(1) m
    by (auto simp: fin_bind_def fin_modify_def run_modify_def Let_def split: option.splits prod.splits)
  from m assms(2,3) v show thesis
  proof (cases rule: fin_modify_cases)
    case failed
    then show thesis using assms(1) m by (simp add: fin_bind_def)
  next
    case saved
    then show thesis using assms(1) m that by (simp add: fin_bind_def)
  qed
qed

lemma write_succeeds:
  assumes "fin_bind (fin_write k) c s = (Inr x, s')" and "undisturbed s" and "fs_disk s = Some d"
  obtains t where "undisturbed t" "fs_disk t = Some d" "c () t = (Inr x, s')"
proof -
  obtain y t where w: "fin_write k s = (y, t)" by fastforce
  then show thesis
  proof (cases rule: fin_write_cases)
    case (failed ws)
    then show thesis using assms(1) w by (simp add: fin_bind_def)
  next
    case (written ws)
    then show thesis using assms w by (intro that [of t]) (simp_all add: fin_bind_def undisturbed_def)
  qed
qed

text \<open>A computation that, started on a run, advances only to a run with fewer advances left.\<close>

definition ends_below :: "nat \<Rightarrow> workflow_run \<Rightarrow> finalize_step fin \<Rightarrow> bool" where
  "ends_below n r m \<longleftrightarrow>
     (\<forall>s ph s'. undisturbed s \<longrightarrow> fs_disk s = Some r \<longrightarrow> m s = (Inr (Advanced ph), s') \<longrightarrow>
        (\<exists>r'. fs_disk s' = Some r' \<and> advances r' < n))"

lemma ends_below_return [simp]:
  "ends_below n r (fin_return x) \<longleftrightarrow> (\<forall>ph. x = Advanced ph \<longrightarrow> advances r < n)"
proof
  assume l: "ends_below n r (fin_return x)"
  show "\<forall>ph. x = Advanced ph \<longrightarrow> advances r < n"
  proof (intro allI impI)
    fix ph assume "x = Advanced ph"
    moreover have "undisturbed (fresh_call (Some r) [] [])" "fs_disk (fresh_call (Some r) [] []) = Some r"
      by (simp_all add: undisturbed_def fresh_call_def)
    ultimately show "advances r < n" using l by (fastforce simp: ends_below_def fin_return_def)
  qed
qed (auto simp: ends_below_def fin_return_def)

lemma ends_below_modify:
  "ends_below n (f r) (c (f r)) \<Longrightarrow> ends_below n r (fin_bind (fin_modify rid f) c)"
  unfolding ends_below_def by (metis modify_succeeds)

lemma ends_below_write: "ends_below n r (c ()) \<Longrightarrow> ends_below n r (fin_bind (fin_write k) c)"
  unfolding ends_below_def by (metis write_succeeds)

lemma ends_below_append:
  assumes "ends_below n (on_pending (\<lambda>p. p\<lparr> pa_phase := Appended, pa_enter_at := None \<rparr>)
      (snd (append_entry (fe_clock env) (pa_target pa) (pa_iteration pa) (pa_trigger pa) a b r))) (c ())"
  shows "ends_below n r (fin_bind (append_history env pa a b) c)"
  unfolding append_history_bind by (rule ends_below_modify) (rule assms)

lemma append_entry_pending [simp]: "run_pending (snd (append_entry t role it tg a b r)) = run_pending r"
  by (simp add: append_entry_def Let_def)

lemma deliver_body_advances:
  assumes "run_pending r = Some pa" and "pa_phase pa = Appended"
  shows "ends_below (pending_advances pa) r (deliver_body env r0 pa)"
  using assms unfolding deliver_body_def Let_def
  by (intro ends_below_write ends_below_modify) (simp add: advances_def pending_advances_def)

lemma retry_codex_advances:
  assumes "run_pending r = Some pa" and "pa_phase pa = RebindPending"
  shows "ends_below (pending_advances pa) r (retry_codex env pa)"
  using assms unfolding retry_codex_def Let_def
  by (auto simp: advances_def pending_advances_def split: option.splits
      intro!: ends_below_write ends_below_modify)

lemma step_phase_advances:
  assumes p: "run_pending r = Some pa"
  shows "ends_below (pending_advances pa) r (step_phase env r pa)"
proof (cases "pa_phase pa")
  case Queued
  then show ?thesis using p
    by (auto simp: step_phase_def step_queued_def Let_def advances_def pending_advances_def
        intro!: ends_below_modify)
next
  case Rendered
  then show ?thesis using p
    by (auto simp: step_phase_def step_rendered_def Let_def advances_def pending_advances_def
        reset_role_def split: prod.splits intro!: ends_below_write ends_below_modify ends_below_append)
next
  case ClearBodySent
  then show ?thesis using p
    by (auto simp: step_phase_def step_clear_body_sent_def advances_def pending_advances_def
        intro!: ends_below_write ends_below_append)
next
  case Appended
  have "ends_below (pending_advances pa) r (fin_bind (fin_modify rid (on_last_row role f))
      (\<lambda>_. deliver_body env r pa))" for rid role f
    by (rule ends_below_modify) (simp add: deliver_body_advances p Appended)
  then show ?thesis using p Appended deliver_body_advances [OF p Appended]
    by (auto simp: step_phase_def step_appended_def split: option.splits)
next
  case BodySent
  then show ?thesis using p
    by (auto simp: step_phase_def step_body_sent_def advances_def pending_advances_def
        split: option.splits intro!: ends_below_write ends_below_modify)
next
  case RebindPending
  then show ?thesis using p retry_codex_advances [OF p]
    by (auto simp: step_phase_def step_rebind_def Let_def try_rebind_def rebind_discovered_bind
        split: option.splits intro!: ends_below_modify)
next
  case PhaseDone
  then show ?thesis
    by (auto simp: step_phase_def intro!: ends_below_modify)
qed

lemma step_confirmed_advances: "ends_below n r (step_confirmed env pa sid)"
  by (auto simp: step_confirmed_def Let_def rebind_discovered_bind intro!: ends_below_modify)

lemma advance_advances:
  assumes "advance_finalization env (fresh_call (Some r) ws ss) = (Inr (Advanced ph), s')"
    and "\<forall>x\<in>set ss. snd x = id"
  shows "\<exists>r'. fs_disk s' = Some r' \<and> advances r' < advances r"
proof -
  have u: "undisturbed (fresh_call (Some r) ws ss)" "fs_disk (fresh_call (Some r) ws ss) = Some r"
    using assms(2) by (simp_all add: undisturbed_def fresh_call_def)
  obtain pa where pa: "run_pending r = Some pa"
    and m: "advance_finalization env (fresh_call (Some r) ws ss) =
      (case confirmed_rollout env pa of Some sid \<Rightarrow> step_confirmed env pa sid | None \<Rightarrow> step_phase env r pa)
        (fresh_call (Some r) ws ss)"
    using assms(1) u(2)
    by (auto simp: advance_finalization_def fin_return_def split: if_splits option.splits)
  have "ends_below (pending_advances pa) r
      (case confirmed_rollout env pa of Some sid \<Rightarrow> step_confirmed env pa sid | None \<Rightarrow> step_phase env r pa)"
    by (simp add: step_confirmed_advances step_phase_advances [OF pa] split: option.splits)
  then show ?thesis
    using u assms(1) m unfolding ends_below_def advances_pending [OF pa] by simp
qed

lemma drain_loop_ends_within:
  assumes "alone calls" and "advances r < length calls"
  shows "\<exists>n r'. drain_loop calls (Some r) = (n, True, Some r') \<and> n \<le> advances r + 1"
  using assms
proof (induction calls arbitrary: r)
  case (Cons c calls)
  obtain env ws ss where c: "c = (env, ws, ss)" by (cases c) auto
  obtain res s' where adv: "advance_finalization env (fresh_call (Some r) ws ss) = (res, s')" by fastforce
  have ss: "\<forall>x\<in>set ss. snd x = id" and rest: "alone calls"
    using Cons.prems(1) c by (simp_all add: alone_def list_all_iff)
  from advance_keeps [OF adv ss] obtain ios r1 where r1: "fs_disk s' = Some r1" .
  show ?case
  proof (cases "\<exists>ph. res = Inr (Advanced ph)")
    case True
    then have lt: "advances r1 < advances r" using advance_advances [OF _ ss] adv r1 by fastforce
    then have "advances r1 < length calls" using Cons.prems(2) by simp
    from Cons.IH [OF rest this] lt show ?thesis
      using True r1 by (auto simp: c drain_loop_call adv)
  next
    case False
    then show ?thesis
      using r1 by (auto simp: c drain_loop_call adv split: sum.splits finalize_step.splits)
  qed
qed simp

lemma advances_le: "advances r \<le> 8"
  by (simp add: advances_def pending_advances_def split: option.splits activation_phase.splits)

section \<open>The files of a pass\<close>

lemma map_of_put_run:
  "map_of (put_run rid disk files) k =
     (if k = rid then Option.bind (map_of files k) (\<lambda>_. disk) else map_of files k)"
proof -
  have "map_of (map (\<lambda>(k, r0). (k, if k = rid then r else r0)) files) k =
      (if k = rid then map_option (\<lambda>_. r) (map_of files k) else map_of files k)" for r
    by (induction files) auto
  moreover have "map_of (filter (\<lambda>e. fst e \<noteq> rid) files) k = (if k = rid then None else map_of files k)"
    by (induction files) auto
  ultimately show ?thesis
    by (cases disk; cases "map_of files k") (auto simp: put_run_def)
qed

lemma put_run_keys: "distinct (map fst files) \<Longrightarrow> distinct (map fst (put_run rid disk files))"
proof (cases disk)
  case (Some r)
  have "map fst (put_run rid (Some r) files) = map fst files"
    by (induction files) (auto simp: put_run_def)
  then show "distinct (map fst files) \<Longrightarrow> ?thesis" using Some by simp
qed (simp add: put_run_def distinct_map_filter)

lemma on_file_keys: "distinct (map fst files) \<Longrightarrow> distinct (map fst (on_file f rid files))"
  by (simp add: on_file_def put_run_keys)

lemma map_of_on_file:
  "map_of (on_file f rid files) k =
     (if k = rid then Option.bind (map_of files k) (\<lambda>r. f (Some r)) else map_of files k)"
  by (cases "map_of files rid") (simp_all add: on_file_def map_of_put_run)

lemma fold_on_file_keys:
  "distinct (map fst files) \<Longrightarrow> distinct (map fst (fold (\<lambda>(rid, x). on_file (f rid x) rid) items files))"
  by (induction items arbitrary: files) (auto simp: on_file_keys)

text \<open>Changes of different files do not meet.\<close>

lemma fold_on_file:
  "distinct (map fst items) \<Longrightarrow>
   map_of (fold (\<lambda>(rid, x). on_file (f rid x) rid) items files) k =
     (case map_of items k of
        None \<Rightarrow> map_of files k | Some x \<Rightarrow> Option.bind (map_of files k) (\<lambda>r. f k x (Some r)))"
proof (induction items arbitrary: files)
  case (Cons i items)
  obtain rid x where i: "i = (rid, x)" by (cases i)
  have "map_of items rid = None" using Cons.prems i by (simp add: map_of_eq_None_iff)
  then show ?case using Cons by (auto simp: i map_of_on_file split: option.splits)
qed simp

end
