(* ===== verification/PollerMachine.thy ===== *)
theory PollerMachine
  imports PollerLaws
begin

text \<open>
  A run under the poller: passes, the bridge of session ids, the pause key and every operation of
  the run's own machine, in any order. It stays well formed; and while a role without an idle
  hand-off is active and no agent moves the run, the passes advance it at most three times.
\<close>

section \<open>One pass\<close>

definition calm :: "tick_env \<Rightarrow> bool" where
  "calm te \<longleftrightarrow> te_others te = id \<and> re_others (te_rpc te) = id \<and>
     list_all (\<lambda>ob. list_all (\<lambda>x. snd x = id) (ob_saves ob)) (te_obs te)"

lemma fire_run_calm:
  assumes "calm te"
  shows "fire_run te (Some r) = (case decide_run te r of None \<Rightarrow> Some r
    | Some d \<Rightarrow> apply_decision (te_state te) (te_later te) (te_rpc te) (te_marked te) d (Some r))"
  using assms by (simp add: fire_run_def calm_def Let_def)

lemma drain_finalization_keeps:
  assumes "calm te" and "P r" and keep: "\<And>env r ios r'. traced env r ios r' \<Longrightarrow> P r \<Longrightarrow> P r'"
  shows "\<exists>r'. drain_finalization te (Some r) = Some r' \<and> P r'"
proof -
  have "alone (map (\<lambda>ob. (finalize_ctx g w b ob, ob_writes ob, ob_saves ob)) (te_obs te))" for g w b
    using assms(1) by (simp add: calm_def alone_def list.pred_map comp_def)
  from drain_loop_keeps [where P = P, OF keep this assms(2)] show ?thesis
    using assms(2) by (auto simp: drain_finalization_def drain_run_def split: option.splits)
qed

lemma fire_run_ok:
  assumes "calm te" and "run_ok r" and "unat (run_iteration r) < 2 ^ 32 - 1"
  shows "\<exists>r'. fire_run te (Some r) = Some r' \<and> run_ok r'"
  using assms(2) apply_ok [OF assms(2) _ assms(3), of "te_rpc te" "te_state te" "te_later te" "te_marked te"] assms(1)
  by (auto simp: fire_run_calm [OF assms(1)] calm_def split: option.splits)

lemma poll_run_ok:
  assumes "calm te" and "run_ok r" and "unat (run_iteration r) < 2 ^ 32 - 1"
  shows "\<exists>r'. poll_run te (Some r) = Some r' \<and> run_ok r'"
proof -
  obtain r1 where "fire_run te (Some r) = Some r1" "run_ok r1" using fire_run_ok [OF assms] by blast
  then show ?thesis
    using drain_finalization_keeps [where P = run_ok, OF assms(1) _ traced_ok]
    by (simp add: poll_run_def)
qed

lemma sync_change_ok: "run_ok r \<Longrightarrow> run_ok (sync_change c sid r)"
proof -
  have row: "run_ok (on_last_row role f r)" if "run_ok r" "\<And>h. he_role (f h) = he_role h"
    "\<And>h. he_iteration (f h) = he_iteration h" for role f r
    using that last_on_last_row [of r f role]
    by (auto simp: run_ok_def pending_ok_def activation_row_def)
  have bind: "run_ok (r\<lparr> run_roles := rs \<rparr>)" "run_ok (r\<lparr> run_roles := rs, run_baselines := bs \<rparr>)"
    if "run_ok r" for r rs bs
    using that by (auto simp: run_ok_def pending_ok_def activation_row_def iterations_def)
  assume "run_ok r"
  then show ?thesis
    by (auto simp: sync_change_def Let_def intro!: row bind split: option.splits)
qed

section \<open>The machine\<close>

datatype poll_op =
    Pass tick_env
  | SyncSid "pid \<Rightarrow> string option" "string \<Rightarrow> string option" poller_state string bool sync_candidate
  | RunOp wf_op

fun poll_step :: "workflow_run option \<Rightarrow> poll_op \<Rightarrow> workflow_run option" where
  "poll_step disk (Pass te) = poll_run te disk"
| "poll_step disk (SyncSid rollout codex_id st rid saved c) =
     sync_role_session_id rollout codex_id st rid saved c disk"
| "poll_step disk (RunOp e) = wf_step disk e"

fun poll_may :: "workflow_run option \<Rightarrow> poll_op \<Rightarrow> bool" where
  "poll_may disk (Pass te) \<longleftrightarrow> calm te \<and> (\<forall>r. disk = Some r \<longrightarrow> unat (run_iteration r) < 2 ^ 32 - 1)"
| "poll_may disk (SyncSid _ _ _ _ _ _) \<longleftrightarrow> True"
| "poll_may disk (RunOp e) \<longleftrightarrow> wf_may disk e"

lemma sync_step_cases:
  "sync_role_session_id rollout codex_id st rid saved c (Some r) = Some r \<or>
   (\<exists>sid. sync_role_session_id rollout codex_id st rid saved c (Some r) = Some (sync_change c sid r))"
  by (auto simp: sync_role_session_id_def Let_def run_modify_def split: option.splits)

lemma poll_step_disk_ok:
  assumes "disk_ok disk" and "poll_may disk e"
  shows "disk_ok (poll_step disk e)"
proof -
  obtain r where r: "disk = Some r" "run_ok r" using assms(1) by (auto simp: disk_ok_def)
  show ?thesis
  proof (cases e)
    case (Pass te)
    then show ?thesis using r assms(2) poll_run_ok [of te r] by (simp add: disk_ok_def)
  next
    case (SyncSid rollout codex_id st rid saved c)
    then show ?thesis
      using r sync_step_cases [of rollout codex_id st rid saved c r] sync_change_ok
      by (auto simp: disk_ok_def)
  next
    case (RunOp f)
    then show ?thesis using assms wf_step_ok by simp
  qed
qed

section \<open>Nudges\<close>

text \<open>How far a role's streak has come: its trailing rows, and the row of an activation under way.\<close>

definition nudge_level :: "workflow_run \<Rightarrow> string \<Rightarrow> nat" where
  "nudge_level r role = trailing_streak r role +
     (case run_pending r of None \<Rightarrow> 0 | Some pa \<Rightarrow> if row_written pa then 0 else 1)"

text \<open>The confirmation of a Codex turn begins after its row is written.\<close>

definition confirm_ok :: "workflow_run \<Rightarrow> bool" where
  "confirm_ok r \<longleftrightarrow> (\<forall>pa. run_pending r = Some pa \<longrightarrow> pa_codex pa \<noteq> None \<longrightarrow> row_written pa)"

lemma streak_roles:
  "map he_role (run_history r) = map he_role (run_history r') \<Longrightarrow> trailing_streak r role = trailing_streak r' role"
proof -
  have "trailing_streak r role = length (takeWhile (\<lambda>x. x = role) (rev (map he_role (run_history r))))" for r
    by (simp add: trailing_streak_def rev_map takeWhile_map comp_def)
  then show "map he_role (run_history r) = map he_role (run_history r') \<Longrightarrow> ?thesis" by simp
qed

lemma roles_on_last_row:
  "(\<And>h. he_role (f h) = he_role h) \<Longrightarrow> map he_role (run_history (on_last_row role f r)) = map he_role (run_history r)"
  by (simp add: on_last_row_def rev_map [symmetric] map_update_first)

lemma streak_on_last_row [simp]:
  "(\<And>h. he_role (f h) = he_role h) \<Longrightarrow> trailing_streak (on_last_row who f r) role = trailing_streak r role"
  by (rule streak_roles) (simp add: roles_on_last_row)

lemma streak_frame [simp]:
  "trailing_streak (on_pending f r) role = trailing_streak r role"
  "trailing_streak (clear_pending r) role = trailing_streak r role"
  "trailing_streak (reset_role who r) role = trailing_streak r role"
  "trailing_streak (bind_sid who found r) role = trailing_streak r role"
  "trailing_streak (adopt_initial_row who r) role = trailing_streak r role"
  "trailing_streak (r\<lparr> run_paused := b \<rparr>) role = trailing_streak r role"
  by (simp_all add: adopt_initial_row_def)
    (simp_all add: trailing_streak_def on_pending_def clear_pending_def reset_role_def bind_sid_def)

lemma streak_append:
  assumes "activation_row pa r = False" and "0 < pa_iteration pa" and "pa_target pa = role"
  shows "trailing_streak (snd (append_entry t (pa_target pa) (pa_iteration pa) tg a b r)) role =
    Suc (trailing_streak r role)"
  using assms by (auto simp: append_entry_def Let_def activation_row_def trailing_streak_def)

lemma unwritten_row:
  assumes "run_ok r" and "run_pending r = Some pa" and "\<not> row_written pa"
  shows "\<not> activation_row pa r" and "0 < pa_iteration pa"
  using assms by (auto simp: run_ok_def pending_ok_def activation_row_def last_iteration)

lemma streak_append_written:
  assumes "run_ok r" and "run_pending r = Some pa" and "row_written pa"
  shows "snd (append_entry t (pa_target pa) (pa_iteration pa) tg a b r) = r"
  using assms by (auto simp: run_ok_def pending_ok_def activation_row_def append_entry_def Let_def)

lemma change_level:
  assumes "change env r pa k r'" and "run_pending r = Some pa" and "run_ok r" and "confirm_ok r"
    and "run_active r = Some role"
  shows "nudge_level r' role = nudge_level r role" and "confirm_ok r'"
    and "run_active r' = Some role" and "run_iteration r' = run_iteration r"
proof -
  have t: "pa_target pa = role" using assms(2,3,5) by (auto simp: run_ok_def pending_ok_def)
  note un = unwritten_row [OF assms(3,2)]
  have w: "pa_codex pa = None \<or> row_written pa" using assms(2,4) by (auto simp: confirm_ok_def)
  show "nudge_level r' role = nudge_level r role"
    using assms(1)
  proof cases
    case (rebound sid)
    then have "row_written pa" using w by (auto simp: row_written_def)
    then show ?thesis using rebound assms(2) by (simp add: nudge_level_def)
  qed (use assms(2) t un streak_append [of pa r role] streak_append_written [OF assms(3,2)] in \<open>auto simp: nudge_level_def row_written_def\<close>)
  show "confirm_ok r'"
    using assms(1) by cases (use assms(2) w in \<open>auto simp: confirm_ok_def row_written_def split: if_splits\<close>)
  show "run_active r' = Some role"
    using assms(1) by cases (use assms(5) in \<open>simp_all add: on_pending_def clear_pending_def adopt_initial_row_def
      reset_role_def bind_sid_def append_entry_def Let_def\<close>)
  show "run_iteration r' = run_iteration r"
    using assms(1) by cases (simp_all add: on_pending_def clear_pending_def adopt_initial_row_def
      reset_role_def bind_sid_def append_entry_def Let_def)
qed

text \<open>What a trace of the drainer leaves alone, and what it adds up.\<close>

definition stays_with :: "string \<Rightarrow> nat \<Rightarrow> u32 \<Rightarrow> string \<Rightarrow> workflow_run \<Rightarrow> bool" where
  "stays_with role level iteration name r \<longleftrightarrow>
     run_ok r \<and> confirm_ok r \<and> run_active r = Some role \<and> nudge_level r role = level \<and>
     run_iteration r = iteration \<and> run_workflow r = name"

lemma change_workflow:
  assumes "change env r pa k r'"
  shows "run_workflow r' = run_workflow r"
  using assms by cases (simp_all add: on_pending_def clear_pending_def adopt_initial_row_def
      on_last_row_def reset_role_def bind_sid_def append_entry_def Let_def)

lemma traced_stays: "traced env r ios r' \<Longrightarrow> stays_with role level it name r \<Longrightarrow> stays_with role level it name r'"
proof (induction rule: traced.induct)
  case (quiet r pa r1 ios r2)
  then show ?case
    using change_level [OF quiet(2,1)] change_ok [OF quiet(2,1)] change_workflow [OF quiet(2)]
    by (simp add: stays_with_def)
next
  case (typed r pa k r1 ios r2)
  then show ?case
    using change_level [OF typed(2,1)] change_ok [OF typed(2,1)] change_workflow [OF typed(2)]
    by (simp add: stays_with_def)
qed simp_all

section \<open>The invariant of the machine\<close>

definition kept :: "workflow_run option \<Rightarrow> bool" where
  "kept disk \<longleftrightarrow> (\<exists>r. disk = Some r \<and> run_ok r \<and> confirm_ok r)"

lemma traced_confirm: "traced env r ios r' \<Longrightarrow> run_ok r \<and> confirm_ok r \<Longrightarrow> run_ok r' \<and> confirm_ok r'"
proof (induction rule: traced.induct)
  case (quiet r pa r1 ios r2)
  have a: "run_active r = Some (pa_target pa)"
    using quiet(1,5) by (auto simp: run_ok_def pending_ok_def)
  show ?case
    using change_level(2) [OF quiet(2,1) _ _ a] change_ok [OF quiet(2,1)] quiet by simp
next
  case (typed r pa k r1 ios r2)
  have a: "run_active r = Some (pa_target pa)"
    using typed(1,5) by (auto simp: run_ok_def pending_ok_def)
  show ?case
    using change_level(2) [OF typed(2,1) _ _ a] change_ok [OF typed(2,1)] typed by simp
qed simp_all

lemma confirm_ok_frame [simp]:
  "confirm_ok (marked_run c r) \<longleftrightarrow> confirm_ok r" "confirm_ok (clear_pending r)"
  "confirm_ok (transition_mutation env p r)" "confirm_ok (done_mutation env q r)"
  "confirm_ok (poller_moved st tr env rid f t x r)"
  by (simp_all add: confirm_ok_def poller_moved_def transition_mutation_def done_mutation_def mark_done_def Let_def)

lemma pending_confirm: "run_pending r' = run_pending r \<Longrightarrow> confirm_ok r \<Longrightarrow> confirm_ok r'"
  by (simp add: confirm_ok_def)

lemma done_outcome:
  assumes "run_ok r" and "re_others env = id"
  shows "snd (workflow_done env p (Some r)) \<in>
    {Some r, Some (done_mutation env p r), Some (clear_pending r)}"
proof (cases "snd (workflow_done env p (Some r)) = Some r")
  case False
  note adm = done_changes(3) [OF surjective_pairing False]
  then show ?thesis
  proof
    assume "snd (workflow_done env p (Some r)) =
      after_rollback env (dp_run_id p) (rollback_done r) (Some (done_mutation env p r))"
    then show ?thesis
      using assms(2) rollback_done_inverse [OF assms(1)]
      by (cases rule: after_rollback_cases [of env "dp_run_id p" "rollback_done r" "done_mutation env p r"])
        simp_all
  qed simp
qed simp

lemma modify_confirm:
  assumes "confirm_ok r" and "run_pending (f r) = run_pending r"
  shows "\<exists>r'. snd (run_modify rid saved f (Some r)) = Some r' \<and> confirm_ok r'"
  using assms pending_confirm [of "f r" r] by (auto simp: run_modify_def split: option.splits)

lemma drain_confirm:
  assumes "run_ok r" and "confirm_ok r" and "\<forall>x\<in>set ss. snd x = id"
  shows "\<exists>r'. fs_disk (snd (advance_finalization env (fresh_call (Some r) ws ss))) = Some r' \<and> confirm_ok r'"
proof -
  obtain res s' where adv: "advance_finalization env (fresh_call (Some r) ws ss) = (res, s')" by fastforce
  from advance_keeps [OF adv assms(3)] obtain ios r1 where "fs_disk s' = Some r1" "traced env r ios r1" .
  then have "confirm_ok r1" "fs_disk s' = Some r1" using traced_confirm assms(1,2) by blast+
  then show ?thesis by (simp add: adv)
qed

lemma wf_step_confirm:
  assumes "run_ok r" and "confirm_ok r" and "wf_may (Some r) e"
  shows "\<exists>r'. wf_step (Some r) e = Some r' \<and> confirm_ok r'"
proof (cases e)
  case (OpTransition env p)
  then show ?thesis using assms transition_outcome [OF assms(1), of env p] by fastforce
next
  case (OpDone env p)
  then show ?thesis using assms done_outcome [OF assms(1), of env p] by fastforce
next
  case (OpStop known auth saved caller rid)
  have "confirm_ok (apply_stop r)" using assms(2) by (simp add: apply_stop_def mark_detached_def confirm_ok_def)
  then show ?thesis
    using OpStop assms(2) stop_changes [OF surjective_pairing, of known auth saved caller rid r] by fastforce
next
  case (OpPause rid saved)
  then show ?thesis
    using modify_confirm [OF assms(2), of pause_focused] by (simp add: pause_focused_def set_paused_def)
next
  case (OpResume rid saved)
  then show ?thesis
    using modify_confirm [OF assms(2), of resume_focused] by (simp add: resume_focused_def set_paused_def)
next
  case (OpDrain env ws ss)
  then show ?thesis using drain_confirm [OF assms(1,2)] assms(3) by simp
qed

lemma sync_change_pending [simp]: "run_pending (sync_change c sid r) = run_pending r"
  by (simp add: sync_change_def Let_def split: option.splits)

lemma fire_run_confirm:
  assumes "calm te" and "run_ok r" and "confirm_ok r"
  shows "\<exists>r'. fire_run te (Some r) = Some r' \<and> confirm_ok r'"
proof (cases "decide_run te r")
  case None
  then show ?thesis using assms by (simp add: fire_run_calm)
next
  case (Some d)
  have o: "re_others (te_rpc te) = id" using assms(1) by (simp add: calm_def)
  from assms(2) o show ?thesis
    by (cases rule: apply_cases [where st = "te_state te" and tr = "te_later te" and marked = "te_marked te" and d = d])
      (use assms Some in \<open>simp_all add: fire_run_calm\<close>)
qed

lemma drain_finalization_confirm:
  assumes "calm te" and "run_ok r" and "confirm_ok r"
  shows "\<exists>r'. drain_finalization te (Some r) = Some r' \<and> run_ok r' \<and> confirm_ok r'"
  by (rule drain_finalization_keeps [OF assms(1)]) (use assms(2,3) traced_confirm in blast)+

lemma poll_step_kept:
  assumes "kept disk" and "poll_may disk e"
  shows "kept (poll_step disk e)"
proof -
  obtain r where r: "disk = Some r" "run_ok r" "confirm_ok r" using assms(1) by (auto simp: kept_def)
  have "disk_ok (poll_step disk e)"
    by (rule poll_step_disk_ok [OF _ assms(2)]) (use r in \<open>simp add: disk_ok_def\<close>)
  moreover have "\<exists>r'. poll_step disk e = Some r' \<and> confirm_ok r'"
  proof (cases e)
    case (Pass te)
    have c: "calm te" "unat (run_iteration r) < 2 ^ 32 - 1" using assms(2) Pass r(1) by simp_all
    obtain r1 where r1: "fire_run te (Some r) = Some r1" "run_ok r1" "confirm_ok r1"
      using fire_run_ok [OF c(1) r(2) c(2)] fire_run_confirm [OF c(1) r(2,3)] by auto
    then show ?thesis
      using Pass r(1) drain_finalization_confirm [OF c(1) r1(2,3)] by (auto simp: poll_run_def)
  next
    case (SyncSid rollout codex_id st rid saved c)
    then show ?thesis
      using r sync_step_cases [of rollout codex_id st rid saved c r] pending_confirm [of "sync_change c _ r" r]
      by auto
  next
    case (RunOp f)
    then show ?thesis using r assms(2) wf_step_confirm by simp
  qed
  ultimately show ?thesis by (auto simp: kept_def disk_ok_def)
qed

interpretation polled: invariant_system poll_step poll_may kept
  by unfold_locales (rule poll_step_kept)

lemma started_kept: "kept (Some (started now rid w k roles initial bl goal pl n prompt))"
proof -
  have "confirm_ok (started now rid w k roles initial bl goal pl n prompt)"
    by (auto simp: confirm_ok_def started_def queue_initial_def run_new_def Let_def)
  then show ?thesis using started_ok by (auto simp: kept_def disk_ok_def)
qed

section \<open>The bound\<close>

text \<open>What happens to a run whose active role idles and that no agent moves.\<close>

fun unattended :: "string \<Rightarrow> string \<Rightarrow> poll_op \<Rightarrow> bool" where
  "unattended name role (Pass te) \<longleftrightarrow>
     (case workflow_definition (te_state te) name of
        None \<Rightarrow> True | Some w \<Rightarrow> static_transition_on_idle w role = None)"
| "unattended name role (SyncSid _ _ _ _ _ _) \<longleftrightarrow> True"
| "unattended name role (RunOp (OpDrain _ _ _)) \<longleftrightarrow> True"
| "unattended name role (RunOp (OpPause _ _)) \<longleftrightarrow> True"
| "unattended name role (RunOp (OpResume _ _)) \<longleftrightarrow> True"
| "unattended name role (RunOp _) \<longleftrightarrow> False"

text \<open>The run has been advanced \<open>k\<close> times since the iteration \<open>n\<close>.\<close>

definition advanced_by :: "string \<Rightarrow> string \<Rightarrow> nat \<Rightarrow> nat \<Rightarrow> workflow_run \<Rightarrow> bool" where
  "advanced_by name role n k r \<longleftrightarrow>
     run_workflow r = name \<and> run_active r = Some role \<and> unat (run_iteration r) = n + k \<and>
     (k = 0 \<or> k + 1 \<le> nudge_level r role \<and> nudge_level r role \<le> 4)"

definition nudged :: "string \<Rightarrow> string \<Rightarrow> nat \<Rightarrow> workflow_run \<Rightarrow> bool" where
  "nudged name role n r \<longleftrightarrow> (\<exists>k. advanced_by name role n k r)"

lemma stays_advanced:
  assumes "advanced_by name role n k r" and "run_ok r" and "confirm_ok r"
    and "stays_with role (nudge_level r role) (run_iteration r) (run_workflow r) r'"
  shows "advanced_by name role n k r'"
  using assms by (simp add: advanced_by_def stays_with_def)

lemma stays_refl:
  "run_ok r \<Longrightarrow> confirm_ok r \<Longrightarrow> run_active r = Some role \<Longrightarrow>
   stays_with role (nudge_level r role) (run_iteration r) (run_workflow r) r"
  by (simp add: stays_with_def)

lemma start_count_streak: "active_start_count r = Some b \<Longrightarrow> run_active r = Some role \<Longrightarrow> 1 \<le> trailing_streak r role"
  by (cases "run_history r" rule: rev_cases)
    (auto simp: active_start_count_def trailing_streak_def split: if_splits)

lemma nudge_advances:
  assumes "advanced_by name role n k r" and "run_ok r" and "unat (run_iteration r) < 2 ^ 32 - 1"
    and "decide_run te r = Some (Nudge rid role' prompt c)"
  shows "advanced_by name role n (k + 1) (poller_moved st tr env rid role' role' prompt (marked_run c r))"
proof -
  have a: "run_active r = Some role" using assms(1) by (simp add: advanced_by_def)
  have ev: "evaluate_snapshot (te_gate te) (te_later te) (snapshot_of (te_state te) r) = Nudge rid role' prompt c"
    using assms(4) by (simp add: decide_run_def split: if_splits)
  have "\<exists>w wt sid baseline. map_option pa_target (run_pending r) \<noteq> Some role \<and>
      active_start_count r = Some baseline \<and>
      Nudge rid role' prompt c = decide_idle (te_later te) (snapshot_of (te_state te) r) w role
        (tr_count (te_later te) (session_engine (role_session_types (te_state te) r) role) wt sid AssistantMessages)"
    by (rule evaluate_acts [OF ev]) (use a in auto)
  then obtain w wt sid baseline where e: "map_option pa_target (run_pending r) \<noteq> Some role"
      "active_start_count r = Some baseline"
      "Nudge rid role' prompt c = decide_idle (te_later te) (snapshot_of (te_state te) r) w role
        (tr_count (te_later te) (session_engine (role_session_types (te_state te) r) role) wt sid AssistantMessages)"
    by blast
  note d = decide_idle_nudge [OF e(3) [symmetric]]
  have p: "run_pending r = None"
    using e(1) a assms(2) by (cases "run_pending r") (auto simp: run_ok_def pending_ok_def)
  have s: "1 \<le> trailing_streak r role" "trailing_streak r role \<le> 3"
    using start_count_streak [OF e(2) a] d(7) by (simp_all add: snapshot_of_def)
  let ?m = "poller_moved st tr env rid role' role' prompt (marked_run c r)"
  have "trailing_streak ?m role = trailing_streak r role"
    by (rule streak_roles) (simp add: poller_moved_frame)
  then have "nudge_level ?m role = nudge_level r role + 1" "nudge_level r role = trailing_streak r role"
    using p by (simp_all add: nudge_level_def poller_moved_frame row_written_def)
  moreover have "run_workflow ?m = run_workflow r"
    by (simp add: poller_moved_def transition_mutation_def Let_def close_active_role_def marked_run_def)
  ultimately show ?thesis
    using assms(1,3) s d(2) u32_Suc [of "run_iteration r"] by (auto simp: advanced_by_def poller_moved_frame)
qed

lemma advanced_by_frame:
  assumes "map he_role (run_history r') = map he_role (run_history r)" and "run_pending r' = run_pending r"
    and "run_active r' = run_active r" and "run_iteration r' = run_iteration r" and "run_workflow r' = run_workflow r"
  shows "advanced_by name role n k r' \<longleftrightarrow> advanced_by name role n k r"
  using assms(2-) streak_roles [OF assms(1), of role] by (simp add: advanced_by_def nudge_level_def)

lemma marked_advanced: "advanced_by name role n k (marked_run c r) \<longleftrightarrow> advanced_by name role n k r"
  by (rule advanced_by_frame) (simp_all add: marked_run_def)

lemma sync_advanced: "advanced_by name role n k (sync_change c sid r) \<longleftrightarrow> advanced_by name role n k r"
  by (rule advanced_by_frame)
    (simp_all add: sync_change_def Let_def on_last_row_def rev_map [symmetric] map_update_first split: option.splits)

lemma set_paused_advanced: "advanced_by name role n k (set_paused b r) \<longleftrightarrow> advanced_by name role n k r"
  by (rule advanced_by_frame) (simp_all add: set_paused_def)

lemma unattended_static:
  assumes "unattended (run_workflow r) role (Pass te)" and "run_active r = Some role"
  shows "decide_run te r \<noteq> Some (ActivateStatic rid from_role to_role shown)"
proof
  assume "decide_run te r = Some (ActivateStatic rid from_role to_role shown)"
  then have ev: "evaluate_snapshot (te_gate te) (te_later te) (snapshot_of (te_state te) r) =
      ActivateStatic rid from_role to_role shown"
    by (simp add: decide_run_def split: if_splits)
  have "\<exists>w count. workflow_definition (te_state te) (run_workflow r) = Some w \<and>
      decide_idle (te_later te) (snapshot_of (te_state te) r) w role count =
        ActivateStatic rid from_role to_role shown"
    by (rule evaluate_acts [OF ev]) (use assms(2) in auto)
  then obtain w count where w: "workflow_definition (te_state te) (run_workflow r) = Some w"
    "decide_idle (te_later te) (snapshot_of (te_state te) r) w role count =
        ActivateStatic rid from_role to_role shown" by blast
  from decide_idle_static(3) [OF w(2)] w(1) assms(1) show False by auto
qed

lemma fire_advances:
  assumes "advanced_by name role n k r" and "run_ok r" and "confirm_ok r" and "calm te"
    and "unat (run_iteration r) < 2 ^ 32 - 1" and "unattended name role (Pass te)"
  shows "\<exists>r'. fire_run te (Some r) = Some r' \<and> nudged name role n r'"
proof (cases "decide_run te r")
  case None
  then show ?thesis using assms(1,4) by (auto simp: fire_run_calm nudged_def)
next
  case (Some d)
  have u: "unattended (run_workflow r) role (Pass te)" and a: "run_active r = Some role"
    using assms(1,6) by (simp_all add: advanced_by_def)
  have o: "re_others (te_rpc te) = id" using assms(4) by (simp add: calm_def)
  from assms(2) o show ?thesis
  proof (cases rule: apply_cases [where st = "te_state te" and tr = "te_later te" and marked = "te_marked te" and d = d])
    case same
    then show ?thesis using Some assms(1,4) by (auto simp: fire_run_calm nudged_def)
  next
    case (marked rid role' prompt c)
    then show ?thesis using Some assms(1,4) by (auto simp: fire_run_calm nudged_def marked_advanced)
  next
    case (handed rid from_role to_role shown)
    then show ?thesis using Some unattended_static [OF u a] by blast
  next
    case (nudged rid role' prompt c)
    then have "decide_run te r = Some (Nudge rid role' prompt c)" using Some by simp
    from nudge_advances [OF assms(1,2,5) this, of "te_state te" "te_later te" "te_rpc te"] show ?thesis
      using Some nudged(1,4) assms(4) by (auto simp: fire_run_calm nudged_def simp del: One_nat_def)
  qed
qed

lemma traced_nudged:
  assumes "traced env r ios r'" and "nudged name role n r" and "run_ok r" and "confirm_ok r"
  shows "nudged name role n r'"
proof -
  obtain k where k: "advanced_by name role n k r" using assms(2) by (auto simp: nudged_def)
  then have "run_active r = Some role" by (simp add: advanced_by_def)
  then have "advanced_by name role n k r'"
    using stays_advanced [OF k assms(3,4)] traced_stays [OF assms(1)] stays_refl assms(3,4) by blast
  then show ?thesis by (auto simp: nudged_def)
qed

lemma unattended_step:
  assumes "kept (Some r)" and "nudged name role n r" and "poll_may (Some r) e" and "unattended name role e"
  shows "\<exists>r'. poll_step (Some r) e = Some r' \<and> nudged name role n r'"
proof -
  have ok: "run_ok r" "confirm_ok r" using assms(1) by (simp_all add: kept_def)
  obtain k where k: "advanced_by name role n k r" using assms(2) by (auto simp: nudged_def)
  have modify: "\<exists>r'. snd (run_modify rid saved f (Some r)) = Some r' \<and> nudged name role n r'"
    if "advanced_by name role n k (f r)" for rid saved f
    using that k by (auto simp: run_modify_def nudged_def split: option.splits)
  show ?thesis
  proof (cases e)
    case (Pass te)
    have c: "calm te" "unat (run_iteration r) < 2 ^ 32 - 1" using assms(3) Pass by simp_all
    obtain r1 where r1: "fire_run te (Some r) = Some r1" "nudged name role n r1"
      using fire_advances [OF k ok c] assms(4) Pass by blast
    have "run_ok r1" "confirm_ok r1"
      using fire_run_ok [OF c(1) ok(1) c(2)] fire_run_confirm [OF c(1) ok] r1 by simp_all
    then have "\<exists>r'. drain_finalization te (Some r1) = Some r' \<and> nudged name role n r' \<and> run_ok r' \<and> confirm_ok r'"
      using r1(2) traced_nudged traced_confirm
      by (intro drain_finalization_keeps [OF c(1)]) blast+
    then show ?thesis using Pass r1 by (auto simp: poll_run_def)
  next
    case (SyncSid rollout codex_id st rid saved c)
    then show ?thesis
      using sync_step_cases [of rollout codex_id st rid saved c r] k by (auto simp: nudged_def sync_advanced)
  next
    case (RunOp f)
    then show ?thesis
    proof (cases f)
      case (OpDrain env ws ss)
      obtain res s' where adv: "advance_finalization env (fresh_call (Some r) ws ss) = (res, s')" by fastforce
      have "\<forall>x\<in>set ss. snd x = id" using assms(3) RunOp OpDrain by simp
      from advance_keeps [OF adv this] obtain ios r1 where "fs_disk s' = Some r1" "traced env r ios r1" .
      then show ?thesis using RunOp OpDrain adv traced_nudged [OF _ assms(2) ok] by simp
    next
      case (OpPause rid saved)
      then show ?thesis
        using RunOp modify [of pause_focused rid saved] k by (simp add: pause_focused_def set_paused_advanced)
    next
      case (OpResume rid saved)
      then show ?thesis
        using RunOp modify [of resume_focused rid saved] k by (simp add: resume_focused_def set_paused_advanced)
    qed (use assms(4) in simp_all)
  qed
qed

lemma unattended_run:
  "kept (Some r) \<Longrightarrow> nudged name role n r \<Longrightarrow> polled.may_run (Some r) es \<Longrightarrow> list_all (unattended name role) es \<Longrightarrow>
   \<exists>r'. polled.run (Some r) es = Some r' \<and> nudged name role n r'"
proof (induction es arbitrary: r)
  case (Cons e es)
  then obtain r1 where r1: "poll_step (Some r) e = Some r1" "nudged name role n r1"
    using unattended_step [OF Cons.prems(1,2)] by auto
  have "kept (Some r1)" using poll_step_kept [OF Cons.prems(1), of e] Cons.prems(3) r1(1) by simp
  then show ?case using Cons.IH [of r1] Cons.prems r1 by simp
qed simp

lemma nudged_bound: "nudged name role n r \<Longrightarrow> run_active r = Some role \<and> unat (run_iteration r) \<le> n + 3"
  by (auto simp: nudged_def advanced_by_def)

end
