(* ===== verification/TemplateLaws.thy ===== *)
theory TemplateLaws
  imports Template
begin

text \<open>
  Rendering against its specification: a template that is made of literal text and holes renders
  to the literal text and the values of the holes, in order, each value as it is. And the index
  arithmetic of a hole never leaves the list it points into.
\<close>

section \<open>Templates as pieces\<close>

datatype piece =
    Literal string
  | Hole string

fun piece_source :: "piece \<Rightarrow> string" where
  "piece_source (Literal t) = t"
| "piece_source (Hole key) = CHR 0x7B # CHR 0x7B # key @ [CHR 0x7D, CHR 0x7D]"

fun piece_ok :: "piece \<Rightarrow> bool" where
  "piece_ok (Literal t) \<longleftrightarrow> CHR 0x7B \<notin> set t"
| "piece_ok (Hole key) \<longleftrightarrow> CHR 0x7D \<notin> set key"

fun piece_value :: "resolver \<Rightarrow> piece \<Rightarrow> string" where
  "piece_value rs (Literal t) = t"
| "piece_value rs (Hole key) = resolve_key (str_trim key) rs"

lemma find_close_key:
  "CHR 0x7D \<notin> set key \<Longrightarrow> find_close (key @ CHR 0x7D # CHR 0x7D # rest) = Some (key, rest)"
proof (induction key)
  case (Cons a key)
  then show ?case by (cases "key @ CHR 0x7D # CHR 0x7D # rest") auto
qed simp

lemma render_char: "a \<noteq> CHR 0x7B \<Longrightarrow> render_template rs (a # s) = a # render_template rs s"
  by (cases s) simp_all

lemma render_literal:
  "CHR 0x7B \<notin> set t \<Longrightarrow> render_template rs (t @ s) = t @ render_template rs s"
  by (induction t) (auto simp: render_char)

lemma render_hole:
  "CHR 0x7D \<notin> set key \<Longrightarrow> render_template rs (CHR 0x7B # CHR 0x7B # key @ CHR 0x7D # CHR 0x7D # s) =
     resolve_key (str_trim key) rs @ render_template rs s"
  by (simp add: find_close_key)

lemma render_piece:
  "piece_ok p \<Longrightarrow> render_template rs (piece_source p @ s) = piece_value rs p @ render_template rs s"
  by (cases p) (simp_all add: render_literal render_hole del: render_template.simps)

lemma pieces_render:
  "list_all piece_ok ps \<Longrightarrow>
     render_template rs (concat (map piece_source ps)) = concat (map (piece_value rs) ps)"
  by (induction ps) (simp_all add: render_piece)

section \<open>Indices\<close>

lemma norm_index_bound: "norm_index len idx = Some i \<Longrightarrow> i < len"
  by (auto simp: norm_index_def split: if_splits)

lemma norm_index_spec:
  "norm_index len idx = (if - int len \<le> idx \<and> idx < int len then Some (nat (idx mod int len)) else None)"
proof (cases "- int len \<le> idx \<and> idx < 0")
  case True
  have "idx mod int len = (idx + int len) mod int len" by simp
  also have "\<dots> = idx + int len" by (rule mod_pos_pos_trivial) (use True in auto)
  finally have "idx mod int len = idx + int len" .
  then show ?thesis using True by (auto simp: norm_index_def)
next
  case False
  then show ?thesis by (auto simp: norm_index_def)
qed

section \<open>Trimming\<close>

text \<open>Nothing is trimmed off a text whose ends are not the ends of white space.\<close>

lemma trim_left_none: "list_all (\<lambda>w. hd w \<noteq> c) ws \<Longrightarrow> trim_left ws (c # s) = c # s"
proof -
  assume "list_all (\<lambda>w. hd w \<noteq> c) ws"
  then have "w = [] \<or> take (length w) (c # s) \<noteq> w" if "w \<in> set ws" for w
    using that by (cases w) (auto simp: list_all_iff)
  then have "find (\<lambda>w. w \<noteq> [] \<and> take (length w) (c # s) = w) ws = None"
    by (auto simp: find_None_iff)
  then show ?thesis by (simp add: trim_left.simps [of ws])
qed

lemma str_trim_same:
  assumes "list_all (\<lambda>w. hd w \<noteq> c) white_space" and "list_all (\<lambda>w. last w \<noteq> d) white_space"
    and "s = c # t" and "rev s = d # u"
  shows "str_trim s = s"
proof -
  have "list_all (\<lambda>w. hd w \<noteq> d) (map rev white_space)"
    using assms(2) by (simp add: list_all_iff hd_rev)
  then have "trim_left (map rev white_space) (rev s) = rev s"
    unfolding assms(4) by (rule trim_left_none)
  then show ?thesis
    using trim_left_none [OF assms(1), of t] assms(3) by (simp add: str_trim_def)
qed

section \<open>The rendering of a template\<close>


definition echo_resolver :: resolver where
  "echo_resolver = \<lparr> rs_user = (\<lambda>_. [''u'']), rs_assistant = (\<lambda>role. [role, ''{{goal}}'']),
     rs_since_activation = (\<lambda>_. []), rs_prior_user = (\<lambda>_. []), rs_prior_assistant = (\<lambda>_. []),
     rs_plan = (\<lambda>_. None), rs_goal = None, rs_rejected = [] \<rparr>"


text \<open>C0. A negative index counts from the end, as Python's do: the position that \<open>norm_index\<close>
  gives is the index modulo the length, and there is none unless the index is within the length
  on either side.\<close>
theorem index_counts_from_either_end:
  "index_into v idx =
     (if - int (length v) \<le> idx \<and> idx < int (length v) then v ! nat (idx mod int (length v)) else '''')"
  by (simp add: index_into_def norm_index_spec)

end
