(* ===== verification/WorkflowProps.thy ===== *)
theory WorkflowProps
  imports Delivery TemplateLaws
begin

text \<open>
  The properties of workflow runs: the run as a machine, the RPCs, and the delivery of an
  activation by the drainer, each with a witness on a small run of two roles.
\<close>

section \<open>A run of two roles\<close>

definition bound_role :: "string \<Rightarrow> string \<Rightarrow> role_binding" where
  "bound_role label sid =
     \<lparr> rb_label = label, rb_session_id = Some sid, rb_daemon_uid = None, rb_bound = False \<rparr>"

definition demo_run :: workflow_run where
  "demo_run = started 0 ''r1'' ''wf'' ''/w''
     [(''a'', bound_role ''A'' ''s1''), (''b'', bound_role ''B'' ''s2'')] ''a'' [] '''' [] 0 None"

definition demo_rpc :: "bool list \<Rightarrow> rpc_env" where
  "demo_rpc appends = \<lparr> re_now = 7, re_event_id = ''e'', re_caller = Operator, re_captured = None,
     re_fresh = False, re_saved = True, re_appends = appends, re_others = id, re_rollback_saved = True \<rparr>"

definition demo_to :: "string \<Rightarrow> transition_params" where
  "demo_to role = \<lparr> tp_run_id = ''r1'', tp_to = role, tp_prompt = ''hi'', tp_role = ''a'',
     tp_trigger = None, tp_expected_from = None \<rparr>"

definition demo_env :: "millis \<Rightarrow> fin_env" where
  "demo_env now = \<lparr> fe_run_id = ''r1'', fe_engines = [], fe_roles = [], fe_rollout = None,
     fe_now = now, fe_clock = 9, fe_gap = 10, fe_quiet = True,
     fe_mode = \<lparr> tm_kitty = False, tm_bracketed = True \<rparr>, fe_resolver = (\<lambda>_. echo_resolver),
     fe_listing = (\<lambda>_. []), fe_discover = (\<lambda>_ _. None), fe_turn_complete = (\<lambda>_ _. True),
     fe_has_plan = (\<lambda>_ _. False), fe_assistant_count = (\<lambda>_ _. 0), fe_text_count = (\<lambda>_ _. 0) \<rparr>"

text \<open>The second role is active and its activation is queued.\<close>

definition demo_queued :: workflow_run where
  "demo_queued = transition_mutation (demo_rpc [True]) (demo_to ''b'') demo_run"

lemma demo_trim [simp]: "str_trim ''r1'' = ''r1''" "str_trim ''b'' = ''b''" "str_trim [] = []"
proof -
  show "str_trim ''r1'' = ''r1''" "str_trim ''b'' = ''b''"
    by (rule str_trim_same; simp add: white_space_def)+
  show "str_trim [] = []" by (simp add: str_trim_def white_space_def trim_left.simps)
qed

lemma demo_id [simp]: "validate_run_id ''r1'' = None"
  by (simp add: validate_run_id_def run_id_char_def ascii_alphanumeric_def)

lemma demo_roles [simp]:
  "run_roles demo_run = [(''a'', bound_role ''A'' ''s1''), (''b'', bound_role ''B'' ''s2'')]"
  "run_status demo_run = Running" "run_active demo_run = Some ''a''" "run_iteration demo_run = 1"
  "run_pending demo_run = None" "run_paused demo_run = False"
  by (simp_all add: demo_run_def started_def queue_initial_def run_new_def trim_blank_def)

lemma demo_run_ok: "run_ok demo_run"
  using started_ok unfolding demo_run_def disk_ok_def by auto

lemmas demo_simps = demo_rpc_def demo_to_def demo_env_def bound_role_def

lemma demo_guard: "transition_guard Operator (demo_to ''b'') demo_run = None"
  by (simp add: transition_guard_def participant_def demo_simps bt_get_def)

lemma demo_queued_frame [simp]:
  "run_status demo_queued = Running" "run_paused demo_queued = False" "run_iteration demo_queued = 2"
  "run_active demo_queued = Some ''b''" "run_roles demo_queued = run_roles demo_run"
  "run_pending demo_queued = Some \<lparr> pa_id = 2, pa_target = ''b'', pa_iteration = 2,
     pa_trigger = McpTransition ''a'' ''hi'' ''e'', pa_raw_prompt = ''hi'', pa_verbatim = False,
     pa_needs_fresh = False, pa_is_initial = False, pa_phase = Queued, pa_rendered = None,
     pa_snapshot = None, pa_enter_at = None, pa_codex = None \<rparr>"
  by (simp_all add: demo_queued_def transition_mutation_def Let_def close_active_role_def
      pending_trigger_def honored_trigger_def demo_simps)

section \<open>The run as a machine\<close>


lemma demo_transition:
  "workflow_transition (demo_rpc [True]) (demo_to ''b'') (Some demo_run) =
     (Inr (transition_event (demo_rpc [True]) (demo_to ''b'') demo_run demo_queued), Some demo_queued)"
  using demo_guard
  by (simp add: workflow_transition_def demo_simps trim_blank_def try_modify_def demo_queued_def
      append_event_with_retry_def)

lemma demo_may:
  "wf.may_run (Some demo_run) [OpTransition (demo_rpc [True]) (demo_to ''b''), OpPause ''r1'' True]"
  by (simp add: demo_simps)


text \<open>A run that is done or detached stays so for ever: no RPC, key or call of the drainer
  revives it, and no call of the drainer types a keystroke.\<close>
theorem ended_run_stays_ended:
  assumes "run_status r = Done \<or> run_status r = Detached" and "run_pending r = None"
    and "wf.may_run (Some r) ops"
  shows "\<exists>r'. wf.run (Some r) ops = Some r' \<and> run_status r' = run_status r \<and>
    fs_io (snd (advance_finalization env (fresh_call (Some r') ws ss))) = []"
proof -
  have "ended_as (run_status r) (Some r)" using assms(1,2) by (simp add: ended_as_def)
  from wf_ended.run_inv [OF this assms(3)] obtain r' where
    "wf.run (Some r) ops = Some r'" "run_status r' = run_status r" by (auto simp: ended_as_def)
  moreover from this(2) assms(1) have "run_status r' \<noteq> Running" by auto
  from ended_drain [OF this, of env ws ss]
  have "fs_io (snd (advance_finalization env (fresh_call (Some r') ws ss))) = []"
    by (simp add: fresh_call_def)
  ultimately show ?thesis by blast
qed

definition demo_done :: workflow_run where
  "demo_done = mark_done 8 ''ok'' demo_queued"

theorem ended_run_stays_ended_witness:
  "\<exists>r'. wf.run (Some demo_done) [OpResume ''r1'' True, OpPause ''r1'' True] = Some r' \<and>
    run_status r' = Done \<and> fs_io (snd (advance_finalization (demo_env 0) (fresh_call (Some r') [] []))) = []"
proof -
  have "run_status demo_done = Done" "run_pending demo_done = None"
    by (simp_all add: demo_done_def mark_done_def)
  then show ?thesis
    using ended_run_stays_ended [of demo_done "[OpResume ''r1'' True, OpPause ''r1'' True]" "demo_env 0" "[]" "[]"]
    by simp
qed

section \<open>Delivery\<close>


definition demo_pending :: "activation_phase \<Rightarrow> pending_activation" where
  "demo_pending ph = \<lparr> pa_id = 2, pa_target = ''b'', pa_iteration = 2, pa_trigger = Initial,
     pa_raw_prompt = ''hi'', pa_verbatim = True, pa_needs_fresh = False, pa_is_initial = False,
     pa_phase = ph, pa_rendered = (if ph = Queued then None else Some ''hi''), pa_snapshot = None,
     pa_enter_at = None, pa_codex = None \<rparr>"

text \<open>The same run, with the activation of the second role in some phase.\<close>

definition demo_at :: "activation_phase \<Rightarrow> workflow_run" where
  "demo_at ph =
     \<lparr> run_id = ''r1'', run_workflow = ''wf'', run_task_key = ''k'', run_task_id = None,
        run_roles = [(''a'', bound_role ''A'' ''s1''), (''b'', bound_role ''B'' ''s2'')],
        run_active = Some ''b'', run_iteration = 2, run_paused = False, run_status = Running,
        run_history =
          [\<lparr> he_iteration = 1, he_role = ''a'', he_session_id = None, he_last_message = None,
             he_activated_at = 0, he_deactivated_at = None, he_trigger = Initial,
             he_assistant_at_start = 0, he_text_at_start = 0 \<rparr>],
        run_started_at = 0, run_done_reason = None, run_events_offset = 0, run_baselines = [],
        run_goal = None, run_plans = [], run_rejected = [], run_pending = Some (demo_pending ph),
        run_nudge_count = None \<rparr>"

lemmas drain_simps = advance_finalization_def confirmed_rollout_def step_phase_def step_queued_def
  step_rendered_def append_history_def step_appended_def deliver_body_def step_body_sent_def
  bound_readiness_def due_def fin_bind_def fin_return_def fin_write_def fin_modify_def run_modify_def
  persistent_baselines_def on_pending_def clear_pending_def engine_for_def fresh_call_def Let_def
  bt_get_def append_entry_def role_sid_def render_activation_def
  bound_role_def demo_at_def demo_pending_def demo_env_def

text \<open>Five calls of which the second is killed between the body and the change of the file.\<close>

definition demo_calls :: "drain_call list" where
  "demo_calls = [(demo_env 0, [], []), (demo_env 1, [], [(False, id)]), (demo_env 2, [], []),
     (demo_env 3, [], []), (demo_env 50, [], [])]"

lemma demo_killed:
  obtains logs d where "drains (Some (demo_at Rendered)) demo_calls = (logs, Some d)"
    "run_pending d = None" "typed_keys logs = [PromptBody ''hi'', PromptBody ''hi'', EnterKey]"
    "lost_saves logs = 1"
proof -
  have "case drains (Some (demo_at Rendered)) demo_calls of (logs, d) \<Rightarrow>
      typed_keys logs = [PromptBody ''hi'', PromptBody ''hi'', EnterKey] \<and> lost_saves logs = 1 \<and>
      (case d of None \<Rightarrow> False | Some r \<Rightarrow> run_pending r = None)"
    by (simp add: demo_calls_def drain_simps)
  then show thesis using that by (auto split: prod.splits option.splits)
qed

text \<open>
  A kill between the body and the change that records it makes the next daemon type the body again:
  a keystroke goes out before its phase is saved.
\<close>
theorem kill_repeats_the_body:
  "\<exists>logs d. drains (Some (demo_at Rendered)) demo_calls = (logs, Some d) \<and> run_pending d = None \<and>
    typed_keys logs = [PromptBody ''hi'', PromptBody ''hi'', EnterKey]"
  by (rule demo_killed) blast

lemma demo_alone: "alone demo_calls"
  by (simp add: alone_def demo_calls_def)


text \<open>An activation costs at most two keystrokes, or nine for a role that starts afresh (the
  clear command and the body with an Enter key each, two more Enter keys, and one redelivery of
  three), and one more for each
  save that is lost after its keystroke.\<close>
theorem activation_keystrokes_bounded:
  assumes "drains (Some r) calls = (logs, disk)" and "alone calls"
    and "run_pending r = Some pa" and "pa_phase pa = Queued"
  shows "length (typed_keys logs) \<le> (if pa_needs_fresh pa then 9 else 2) + lost_saves logs"
proof -
  have "budget r \<le> (if pa_needs_fresh pa then 9 else 2)"
    using assms(3,4) by (auto simp: budget_def pending_budget_def codex_budget_def split: option.splits)
  then show ?thesis using drains_budget [OF assms(1,2)] by linarith
qed

theorem activation_keystrokes_bounded_witness:
  "length (typed_keys (fst (drains (Some (demo_at Queued)) demo_calls))) \<le>
     2 + lost_saves (fst (drains (Some (demo_at Queued)) demo_calls))"
proof -
  have "run_pending (demo_at Queued) = Some (demo_pending Queued)" by (simp add: demo_at_def)
  from activation_keystrokes_bounded [OF surjective_pairing demo_alone this] show ?thesis
    by (simp add: demo_pending_def)
qed


definition demo_helpful :: "drain_call list" where
  "demo_helpful = map (\<lambda>n. (demo_env (20 * n), [], [])) [0, 1, 2, 3, 4, 5]"


text \<open>When the confirmation of a fresh Codex turn runs out of time the run is paused with its
  activation kept and nothing more is typed; but its status stays \<open>Running\<close>, so the resume key,
  which looks for the status \<open>Paused\<close>, leaves it paused.\<close>
theorem unconfirmed_codex_pauses_for_good:
  assumes "run_status r = Running" and "\<not> run_paused r" and "run_pending r = Some pa"
    and "pa_phase pa = RebindPending" and "pa_codex pa = Some c" and "pa_needs_fresh pa"
    and "engine_for env (pa_target pa) = Codex" and "fe_rollout env = None"
    and "CODEX_CONFIRM_MAX \<le> fe_now env - cc_started_at c" and "validate_run_id (fe_run_id env) = None"
  shows "drains (Some r) [(env, ws, [])] =
      ([[Saved (r\<lparr> run_paused := True \<rparr>)]], Some (r\<lparr> run_paused := True \<rparr>)) \<and>
    resume_focused (r\<lparr> run_paused := True \<rparr>) = r\<lparr> run_paused := True \<rparr> \<and>
    drains (Some (r\<lparr> run_paused := True \<rparr>)) [(env2, ws2, ss2)] = ([[]], Some (r\<lparr> run_paused := True \<rparr>))"
proof (intro conjI)
  show "drains (Some r) [(env, ws, [])] = ([[Saved (r\<lparr> run_paused := True \<rparr>)]], Some (r\<lparr> run_paused := True \<rparr>))"
    using assms by (simp add: advance_finalization_def confirmed_rollout_def step_phase_def step_rebind_def
        retry_codex_def fin_bind_def fin_modify_def fin_return_def run_modify_def fresh_call_def Let_def)
  show "resume_focused (r\<lparr> run_paused := True \<rparr>) = r\<lparr> run_paused := True \<rparr>"
    using assms(1) by (simp add: resume_focused_def)
  show "drains (Some (r\<lparr> run_paused := True \<rparr>)) [(env2, ws2, ss2)] = ([[]], Some (r\<lparr> run_paused := True \<rparr>))"
    by (simp add: advance_finalization_def fin_return_def fresh_call_def)
qed

definition demo_codex :: workflow_run where
  "demo_codex = on_pending (\<lambda>p. p\<lparr> pa_needs_fresh := True,
     pa_codex := Some \<lparr> cc_started_at = 0, cc_enter_retries = 2, cc_redelivered = True \<rparr> \<rparr>)
     (demo_at RebindPending)"

theorem unconfirmed_codex_pauses_for_good_witness:
  "resume_focused (demo_codex\<lparr> run_paused := True \<rparr>) = demo_codex\<lparr> run_paused := True \<rparr> \<and>
   snd (drains (Some demo_codex) [((demo_env 75000)\<lparr> fe_engines := [(''b'', Codex)] \<rparr>, [], [])]) =
     Some (demo_codex\<lparr> run_paused := True \<rparr>)"
proof -
  let ?env = "(demo_env 75000)\<lparr> fe_engines := [(''b'', Codex)] \<rparr>"
  let ?c = "\<lparr> cc_started_at = 0, cc_enter_retries = 2, cc_redelivered = True \<rparr>"
  let ?pa = "(demo_pending RebindPending)\<lparr> pa_needs_fresh := True, pa_codex := Some ?c \<rparr>"
  have "run_status demo_codex = Running" "\<not> run_paused demo_codex"
    "run_pending demo_codex = Some ?pa"
    by (simp_all add: demo_codex_def demo_at_def on_pending_def)
  note run = unconfirmed_codex_pauses_for_good [OF this, of ?c ?env "[]" ?env "[]" "[]"]
  show ?thesis
    using run by (simp add: demo_pending_def engine_for_def demo_env_def bt_get_def CODEX_CONFIRM_MAX_def)
qed

section \<open>The RPCs\<close>

text \<open>A session moves a run only while it is the run's participant in the active role, the run is
  running and the target is a role of it; the run then goes to that role in the next iteration with
  the prompt queued, and no prompt of a session passes for an idle transition.\<close>
theorem session_moves_its_own_run_only:
  assumes "workflow_transition env p disk = (Inr ev, disk')" and "re_caller env = Session who"
  shows "\<exists>r r' pa. disk = Some r \<and> who = Some (Some (tp_run_id p), run_active r) \<and>
    run_status r = Running \<and> bt_get (run_roles r) (tp_to p) \<noteq> None \<and>
    disk' = Some r' \<and> run_active r' = Some (tp_to p) \<and> run_iteration r' = run_iteration r + 1 \<and>
    run_pending r' = Some pa \<and> pa_target pa = tp_to p \<and> pa_phase pa = Queued \<and>
    pa_raw_prompt pa = tp_prompt p \<and>
    pa_trigger pa = McpTransition (case run_active r of None \<Rightarrow> '''' | Some a \<Rightarrow> a) (tp_prompt p) (ev_id ev)"
proof -
  obtain r where r: "disk = Some r" "transition_guard (re_caller env) p r = None"
    "disk' = Some (transition_mutation env p r)"
    "ev = transition_event env p r (transition_mutation env p r)"
    using assms(1) by (auto simp: workflow_transition_def try_modify_def split: if_splits option.splits)
  moreover have "who = Some (Some (tp_run_id p), run_active r)"
    using r(2) assms(2) by (auto simp: transition_guard_def participant_def split: if_splits option.splits)
  moreover have "run_status r = Running" "bt_get (run_roles r) (tp_to p) \<noteq> None"
    using r(2) by (auto simp: transition_guard_def split: if_splits)
  ultimately show ?thesis
    using assms(2)
    by (simp add: transition_mutation_def transition_event_def pending_trigger_def honored_trigger_def Let_def)
qed

definition demo_session :: "workflow_caller" where
  "demo_session = Session (Some (Some ''r1'', Some ''a''))"

theorem session_moves_its_own_run_only_witness:
  "\<exists>ev r'. workflow_transition ((demo_rpc [False, True])\<lparr> re_caller := demo_session \<rparr>) (demo_to ''b'') (Some demo_run) =
     (Inr ev, Some r') \<and> run_active r' = Some ''b''"
proof -
  let ?env = "(demo_rpc [False, True])\<lparr> re_caller := demo_session \<rparr>"
  have "transition_guard demo_session (demo_to ''b'') demo_run = None"
    by (simp add: transition_guard_def participant_def demo_session_def demo_simps bt_get_def)
  then obtain ev d where run: "workflow_transition ?env (demo_to ''b'') (Some demo_run) = (Inr ev, d)"
    by (simp add: workflow_transition_def demo_simps trim_blank_def try_modify_def append_event_with_retry_def)
  have "re_caller ?env = Session (Some (Some ''r1'', Some ''a''))" by (simp add: demo_session_def)
  from session_moves_its_own_run_only [OF run this] show ?thesis
    using run by (auto simp: demo_to_def)
qed

text \<open>C28. A transition whose event cannot be appended, in any of its four attempts, is undone: the
  run is as it was, to the last field, when the roll back can be saved and no one has written in
  between.\<close>
theorem failed_transition_restores_the_run:
  assumes "run_ok r" and "workflow_transition env p (Some r) = (Inl AppendFailed, disk)"
    and "re_rollback_saved env" and "re_others env = id"
  shows "disk = Some r"
proof -
  have m: "disk = after_rollback env (tp_run_id p) (rollback_transition r) (Some (transition_mutation env p r))"
    and v: "validate_run_id (tp_run_id p) = None"
    using assms(2)
    by (auto simp: workflow_transition_def try_modify_def persist_failure_def transition_guard_def
        split: if_splits option.splits persist_error.splits)
  show ?thesis
    using m v assms(3,4) rollback_transition_inverse [OF assms(1)]
    by (simp add: after_rollback_def run_modify_def)
qed

theorem failed_transition_restores_the_run_witness:
  "workflow_transition (demo_rpc [False, False, False, False]) (demo_to ''b'') (Some demo_run) =
     (Inl AppendFailed, Some demo_run)"
proof -
  let ?env = "demo_rpc [False, False, False, False]"
  obtain d where run: "workflow_transition ?env (demo_to ''b'') (Some demo_run) = (Inl AppendFailed, d)"
    using demo_guard
    by (simp add: workflow_transition_def demo_simps trim_blank_def try_modify_def append_event_with_retry_def)
  have "d = Some demo_run"
    by (rule failed_transition_restores_the_run [OF demo_run_ok run]) (simp_all add: demo_rpc_def)
  then show ?thesis using run by simp
qed

text \<open>A \<open>workflow_done\<close> whose event cannot be appended is undone but for one field: the pending
  activation that ending the run has dropped is not put back, so its prompt is never delivered.\<close>
theorem failed_done_drops_the_activation:
  assumes "run_ok r" and "workflow_done env p (Some r) = (Inl AppendFailed, disk)"
    and "re_rollback_saved env" and "re_others env = id"
  shows "disk = Some (r\<lparr> run_pending := None \<rparr>)"
proof -
  have m: "disk = after_rollback env (dp_run_id p) (rollback_done r) (Some (done_mutation env p r))"
    and v: "validate_run_id (dp_run_id p) = None"
    using assms(2)
    by (auto simp: workflow_done_def try_modify_def persist_failure_def done_guard_def
        split: if_splits option.splits persist_error.splits)
  show ?thesis
    using m v assms(3,4) rollback_done_inverse [OF assms(1)]
    by (simp add: after_rollback_def run_modify_def clear_pending_def)
qed

lemma demo_at_ok: "run_ok (demo_at Queued)"
  by (simp add: run_ok_def demo_at_def demo_pending_def iterations_def pending_ok_def row_written_def)

theorem failed_done_drops_the_activation_witness:
  "workflow_done (demo_rpc []) \<lparr> dp_run_id = ''r1'', dp_role = ''b'', dp_reason = ''ok'' \<rparr> (Some (demo_at Queued)) =
     (Inl AppendFailed, Some ((demo_at Queued)\<lparr> run_pending := None \<rparr>)) \<and>
   run_pending (demo_at Queued) = Some (demo_pending Queued)"
proof -
  let ?p = "\<lparr> dp_run_id = ''r1'', dp_role = ''b'', dp_reason = ''ok'' \<rparr>"
  have "run_status (demo_at Queued) = Running" by (simp add: demo_at_def)
  then obtain d where run: "workflow_done (demo_rpc []) ?p (Some (demo_at Queued)) = (Inl AppendFailed, d)"
    by (simp add: workflow_done_def demo_simps trim_blank_def try_modify_def append_event_with_retry_def
        done_guard_def participant_def)
  have "d = Some ((demo_at Queued)\<lparr> run_pending := None \<rparr>)"
    by (rule failed_done_drops_the_activation [OF demo_at_ok run]) (simp_all add: demo_rpc_def)
  then show ?thesis using run by (simp add: demo_at_def)
qed

section \<open>A transition between the read and the change\<close>

text \<open>
  The call has read the run with the body sent; before it clears the activation another thread
  moves the run to the next role. The change does not look which activation it clears, and the
  new one, whose prompt has not been typed, is gone.
\<close>

theorem overtaken_delivery_drops_the_next:
  assumes "run_status r = Running" and "\<not> run_paused r" and "run_pending r = Some pa"
    and "pa_phase pa = BodySent" and "\<not> pa_needs_fresh pa" and "pa_snapshot pa = None"
    and "due env pa" and "pa_codex pa = None" and "validate_run_id (fe_run_id env) = None"
  shows "drains (Some r) [(env, [], [(True, transition_mutation re p)])] =
    ([[Wrote EnterKey, Saved ((transition_mutation re p r)\<lparr> run_pending := None \<rparr>)]],
     Some ((transition_mutation re p r)\<lparr> run_pending := None \<rparr>))"
  using assms
  by (simp add: advance_finalization_def confirmed_rollout_def step_phase_def step_body_sent_def
      fin_bind_def fin_write_def fin_modify_def fin_return_def run_modify_def fresh_call_def Let_def
      clear_pending_def)

end
