(* ===== verification/PollerProps.thy ===== *)
theory PollerProps
  imports PollerMachine WorkflowProps
begin

text \<open>
  The properties of the poller: when it moves a run and when it does not, how often it can nudge
  an idle role, that its drain ends, that the runs of a pass are independent; and two ways in
  which an idle role is never nudged. Witnesses on a run of two roles.
\<close>

section \<open>When a run is moved\<close>

text \<open>
  The role's turn is over: its prompt has been delivered, its transcript shows a completed turn
  since then, and nothing that the poller can see speaks against it.
\<close>

definition turn_over :: "tick_env \<Rightarrow> string \<Rightarrow> workflow_run \<Rightarrow> bool" where
  "turn_over te role r \<longleftrightarrow>
     is_active r \<and> \<not> run_paused r \<and> run_active r = Some role \<and> run_pending r = None \<and>
     daemon_owns_run (te_state te) r \<and> \<not> workflow_engine_blocks (te_state te) r \<and>
     (case (run_worktree (te_state te) r, role_sid r role, active_start_count r) of
        (Some wt, Some sid, Some baseline) \<Rightarrow>
          assistant_turn_completed_since (te_gate te)
            (session_engine (role_session_types (te_state te) r) role) wt sid baseline
      | _ \<Rightarrow> False)"

text \<open>The turns of the role that the poller counts when it chooses a marker.\<close>

definition turns_seen :: "tick_env \<Rightarrow> string \<Rightarrow> workflow_run \<Rightarrow> nat" where
  "turns_seen te role r =
     (case (run_worktree (te_state te) r, role_sid r role) of
        (Some wt, Some sid) \<Rightarrow> tr_count (te_later te)
          (session_engine (role_session_types (te_state te) r) role) wt sid AssistantMessages
      | _ \<Rightarrow> 0)"

lemma decide_acts:
  assumes "decide_run te r = Some d" and "\<And>rid x. d \<noteq> Skip rid x" and "run_ok r"
  obtains role w where "turn_over te role r" "workflow_definition (te_state te) (run_workflow r) = Some w"
    "d = decide_idle (te_later te) (snapshot_of (te_state te) r) w role (turns_seen te role r)"
proof -
  have act: "is_active r" and ev: "evaluate_snapshot (te_gate te) (te_later te) (snapshot_of (te_state te) r) = d"
    using assms(1) by (auto simp: decide_run_def split: if_splits)
  show thesis
  proof (rule evaluate_acts [OF ev assms(2)])
    fix role w wt sid baseline
    assume a: "run_active r = Some role" "map_option pa_target (run_pending r) \<noteq> Some role"
      and rest: "\<not> run_paused r" "daemon_owns_run (te_state te) r" "run_worktree (te_state te) r = Some wt"
        "role_sid r role = Some sid" "active_start_count r = Some baseline"
        "assistant_turn_completed_since (te_gate te)
          (session_engine (role_session_types (te_state te) r) role) wt sid baseline"
      and w: "workflow_definition (te_state te) (run_workflow r) = Some w"
      and d: "d = decide_idle (te_later te) (snapshot_of (te_state te) r) w role
         (tr_count (te_later te) (session_engine (role_session_types (te_state te) r) role) wt sid AssistantMessages)"
    have p: "run_pending r = None"
      using a assms(3) by (cases "run_pending r") (auto simp: run_ok_def pending_ok_def)
    have "\<not> workflow_engine_blocks (te_state te) r"
      using ev assms(2) a rest w
      by (auto simp: evaluate_snapshot_def snapshot_of_def Let_def p split: if_splits)
    then have "turn_over te role r" using act a(1) p rest by (simp add: turn_over_def)
    then show thesis using that w d rest by (simp add: turns_seen_def)
  qed
qed

lemma turn_over_decides:
  assumes "turn_over te role r" and "workflow_definition (te_state te) (run_workflow r) = Some w"
  shows "decide_run te r =
    Some (decide_idle (te_later te) (snapshot_of (te_state te) r) w role (turns_seen te role r))"
  using assms
  by (auto simp: turn_over_def turns_seen_def decide_run_def evaluate_snapshot_def snapshot_of_def Let_def
      split: option.splits)

text \<open>A hand-off that nothing stands in the way of.\<close>

lemma handover_fires:
  assumes "accept_workflow parsed = Inr w" and "t \<in> set (wd_transitions w)"
    and "workflow_definition (te_state te) (run_workflow r) = Some w"
    and "turn_over te (wt_from t) r" and "run_status r = Running"
    and "bt_get (run_roles r) (wt_to t) \<noteq> None"
    and "te_others te = id" and "re_saved (te_rpc te)" and "append_event_with_retry (re_appends (te_rpc te))"
    and "validate_run_id (run_id r) = None" and "\<not> trim_blank (run_id r)" and "\<not> trim_blank (wt_to t)"
  shows "fire_run te (Some r) =
    Some (poller_moved (te_state te) (te_later te) (te_rpc te) (run_id r) (wt_from t) (wt_to t) '''' r)"
proof -
  have st: "static_transition_on_idle w (wt_from t) = Some t"
    and to: "bt_get (wd_roles w) (wt_to t) \<noteq> None"
    using accepted_workflow_transition [OF assms(1), where t = t] assms(2) by auto
  have active: "run_active r = Some (wt_from t)" using assms(4) by (simp add: turn_over_def)
  obtain shown where d: "decide_run te r = Some (ActivateStatic (run_id r) (wt_from t) (wt_to t) shown)"
    using turn_over_decides [OF assms(4,3)] st to
    by (auto simp: decide_idle_def snapshot_of_def split: option.splits)
  let ?e = "poller_rpc (te_state te) (te_later te) (te_rpc te) (wt_to t) (Some r)"
  let ?p = "poller_params (run_id r) (wt_from t) (wt_to t) ''''"
  have g: "transition_guard Operator ?p r = None"
    using active assms(5,6) by (simp add: transition_guard_def poller_params_def participant_def)
  have "snd (workflow_transition ?e ?p (Some r)) =
      Some (poller_moved (te_state te) (te_later te) (te_rpc te) (run_id r) (wt_from t) (wt_to t) '''' r)"
    using g assms(8-12)
    by (simp add: workflow_transition_def poller_params_def poller_rpc_def try_modify_def poller_moved_def)
  then show ?thesis
    using d assms(7)
    by (auto simp: fire_run_def Let_def apply_decision_def fire_static_transition_def split: prod.splits sum.splits)
qed

section \<open>A run of two roles whose sessions are alive\<close>

definition duo_role :: "string \<Rightarrow> string \<Rightarrow> role_binding" where
  "duo_role uid sid =
     \<lparr> rb_label = uid, rb_session_id = Some sid, rb_daemon_uid = Some uid, rb_bound = False \<rparr>"

definition duo_run :: workflow_run where
  "duo_run = started 0 ''r1'' ''wf'' ''/w''
     [(''a'', duo_role ''u1'' ''s1''), (''b'', duo_role ''u2'' ''s2'')] ''a'' [] '''' [] 0 None"

definition duo_spec :: workflow_role where
  "duo_spec = \<lparr> ro_activation = Some ''go'', ro_subsequent = None, wr_engine = ClaudeCode,
     wr_context = Persistent, wr_needs_mcp = True, wr_model = None, wr_effort = None \<rparr>"

definition duo_def :: "wf_transition list \<Rightarrow> workflow_def" where
  "duo_def ts = \<lparr> wd_name = ''b'', wd_description = '''', wd_roles = [(''a'', duo_spec), (''b'', duo_spec)],
     wd_role_order = [''a'', ''b''], wd_transitions = ts \<rparr>"

definition duo_edge :: wf_transition where
  "duo_edge = \<lparr> wt_from = ''a'', wt_on = OnIdle, wt_to = ''b'' \<rparr>"

definition duo_session :: poller_session where
  "duo_session = \<lparr> ps_type = ''claude-code'', ps_workspace = ''/w'', ps_run = None, ps_role = None,
     ps_pid = 7, ps_transcript = None,
     ps_agent = \<lparr> ag_source = SrcPty, ag_turn_open = None, ag_state = AgIdle \<rparr> \<rparr>"

definition duo_state :: "wf_transition list \<Rightarrow> poller_state" where
  "duo_state ts = \<lparr> pl_sessions = [(''u1'', duo_session), (''u2'', duo_session)], pl_tui_sessions = [],
     pl_bindings = [], pl_worktrees = [(''/w'', Some ''/t'')], pl_definitions = [(''wf'', duo_def ts)],
     pl_base_definitions = [], pl_state_gate = True \<rparr>"

definition duo_transcripts :: "nat \<Rightarrow> transcripts" where
  "duo_transcripts n = \<lparr> tr_messages = (\<lambda>_ _ _ _. []), tr_count = (\<lambda>_ _ _ _. n),
     tr_turn_complete = (\<lambda>_ _ _. True), tr_last_message = (\<lambda>_ _ _. None), tr_plan = (\<lambda>_ _ _. None) \<rparr>"

text \<open>A pass that sees \<open>n\<close> turns, with what other threads do between the look and the fire.\<close>

definition duo_pass :: "wf_transition list \<Rightarrow> nat \<Rightarrow> (workflow_run \<Rightarrow> workflow_run) \<Rightarrow> tick_env" where
  "duo_pass ts n others = \<lparr> te_state = duo_state ts, te_gate = duo_transcripts n, te_later = duo_transcripts n,
     te_others = others, te_rpc = demo_rpc [True], te_marked = True, te_drain_state = duo_state ts,
     te_gap = 10, te_obs = [] \<rparr>"

lemma duo_frame [simp]:
  "run_roles duo_run = [(''a'', duo_role ''u1'' ''s1''), (''b'', duo_role ''u2'' ''s2'')]"
  "run_status duo_run = Running" "run_active duo_run = Some ''a''" "run_iteration duo_run = 1"
  "run_pending duo_run = None" "run_paused duo_run = False" "run_workflow duo_run = ''wf''"
  "run_id duo_run = ''r1''" "run_nudge_count duo_run = None" "run_task_key duo_run = ''/w''"
  "map he_role (run_history duo_run) = [''a'']" "active_start_count duo_run = Some 0"
  by (simp_all add: duo_run_def started_def queue_initial_def run_new_def trim_blank_def bt_get_def
      active_start_count_def)

lemma duo_pass_frame [simp]:
  "te_state (duo_pass ts n f) = duo_state ts" "te_gate (duo_pass ts n f) = duo_transcripts n"
  "te_later (duo_pass ts n f) = duo_transcripts n" "te_others (duo_pass ts n f) = f"
  "te_rpc (duo_pass ts n f) = demo_rpc [True]" "te_marked (duo_pass ts n f) = True"
  "te_obs (duo_pass ts n f) = []"
  by (simp_all add: duo_pass_def)

lemmas duo_simps = duo_state_def duo_role_def duo_session_def bt_get_def bound_session_def
  daemon_owns_run_def run_worktree_def resolve_role_session_context_def role_sid_def

lemma duo_transitions [simp]: "wd_transitions (duo_def ts) = ts"
  by (simp add: duo_def_def)

lemma duo_definition [simp]: "workflow_definition (duo_state ts) ''wf'' = Some (duo_def ts)"
  by (simp add: workflow_definition_def duo_state_def)

lemma duo_run_ok: "run_ok duo_run"
  using started_ok unfolding duo_run_def disk_ok_def by auto

lemma duo_calm: "calm (duo_pass ts n id)"
  by (simp add: calm_def demo_rpc_def)

lemma duo_appends [simp]: "append_event_with_retry (re_appends (demo_rpc [True]))" "re_saved (demo_rpc [True])"
  by (simp_all add: append_event_with_retry_def demo_rpc_def)

lemma duo_accepted: "accept_workflow (duo_def [duo_edge]) = Inr (duo_def [duo_edge])"
  by (simp add: accept_workflow_def validate_workflow_def duo_def_def duo_edge_def trim_blank_def bt_get_def Let_def)

lemma duo_turn:
  assumes "0 < n"
  shows "turn_over (duo_pass ts n f) ''a'' duo_run"
  using assms
  by (simp add: turn_over_def is_active_def duo_simps workflow_engine_blocks_def engine_reported_def
      assistant_turn_completed_since_def duo_transcripts_def)

lemma duo_hands_over:
  "fire_run (duo_pass [duo_edge] 5 id) (Some duo_run) =
     Some (poller_moved (duo_state [duo_edge]) (duo_transcripts 5) (demo_rpc [True]) ''r1'' ''a'' ''b'' '''' duo_run)"
  using handover_fires [OF duo_accepted, of duo_edge "duo_pass [duo_edge] 5 id" duo_run] duo_turn [of 5]
  by (simp add: duo_edge_def trim_blank_def bt_get_def)

section \<open>Moves\<close>



text \<open>C17. A decision that has gone stale moves nothing: if the run is no longer running, or its
  active role has changed, between the look at it and the fire, then whatever else happened to the
  file stays as it is; at most the marker of a nudge is set.\<close>
theorem stale_decision_moves_nothing:
  assumes "run_active (te_others te r) \<noteq> run_active r \<or> run_status (te_others te r) \<noteq> Running"
  shows "fire_run te (Some r) = Some (te_others te r) \<or>
    (\<exists>c. fire_run te (Some r) = Some ((te_others te r)\<lparr> run_nudge_count := Some c \<rparr>))"
proof (cases "decide_run te r")
  case None
  then show ?thesis by (simp add: fire_run_def Let_def)
next
  case (Some d)
  have ev: "evaluate_snapshot (te_gate te) (te_later te) (snapshot_of (te_state te) r) = d"
    using Some by (simp add: decide_run_def split: if_splits)
  have fire: "fire_run te (Some r) = apply_decision (te_state te) (te_later te) (te_rpc te)
      (te_marked te) d (Some (te_others te r))"
    using Some by (simp add: fire_run_def Let_def)
  show ?thesis
  proof (cases d)
    case (ActivateStatic rid from_role to_role shown)
    have "run_active r = Some from_role"
      by (rule evaluate_acts [OF ev]) (use ActivateStatic in \<open>auto dest: sym [THEN decide_idle_static(2)]\<close>)
    then have "run_active (te_others te r) \<noteq> Some from_role \<or> run_status (te_others te r) \<noteq> Running"
      using assms by auto
    from fire_stale [OF this] show ?thesis by (simp add: fire ActivateStatic apply_decision_def)
  next
    case (Nudge rid role prompt c)
    have "run_active r = Some role"
      by (rule evaluate_acts [OF ev]) (use Nudge in \<open>auto dest: sym [THEN decide_idle_nudge(2)]\<close>)
    then have "run_active (te_others te r) \<noteq> Some role \<or> run_status (te_others te r) \<noteq> Running"
      using assms by auto
    then have "snd (fire_static_transition (te_state te) (te_later te) (te_rpc te) rid role role prompt
        (Some (marked_run c (te_others te r)))) = Some (marked_run c (te_others te r))"
      by (intro fire_stale) simp
    then show ?thesis
      using persist_nudge_guard_cases [of rid "te_marked te" c "te_others te r"]
      by (auto simp: fire Nudge apply_decision_def marked_run_def)
  qed (simp add: fire apply_decision_def)
qed

theorem stale_decision_moves_nothing_witness:
  "fire_run (duo_pass [duo_edge] 5 (set_paused True)) (Some duo_run) = Some (set_paused True duo_run) \<or>
   (\<exists>c. fire_run (duo_pass [duo_edge] 5 (set_paused True)) (Some duo_run) =
      Some ((set_paused True duo_run)\<lparr> run_nudge_count := Some c \<rparr>))"
  using stale_decision_moves_nothing [of "duo_pass [duo_edge] 5 (set_paused True)" duo_run]
  by (simp add: set_paused_def)

text \<open>C26. In a workflow that passed its checks, a role that has a hand-off hands over as soon as its
  turn is over: the run goes to the role that the transition names, with an activation queued for
  it that the drainer will render from that role's own template.\<close>
theorem idle_role_hands_over:
  assumes "accept_workflow parsed = Inr w" and "t \<in> set (wd_transitions w)"
    and "workflow_definition (te_state te) (run_workflow r) = Some w"
    and "turn_over te (wt_from t) r" and "run_status r = Running"
    and "bt_get (run_roles r) (wt_to t) \<noteq> None"
    and "te_others te = id" and "re_saved (te_rpc te)" and "append_event_with_retry (re_appends (te_rpc te))"
    and "validate_run_id (run_id r) = None" and "\<not> trim_blank (run_id r)" and "\<not> trim_blank (wt_to t)"
  shows "\<exists>r' pa. fire_run te (Some r) = Some r' \<and> run_active r' = Some (wt_to t) \<and>
    run_iteration r' = run_iteration r + 1 \<and> run_pending r' = Some pa \<and> pa_target pa = wt_to t \<and>
    pa_phase pa = Queued \<and> pa_raw_prompt pa = '''' \<and> \<not> pa_verbatim pa \<and>
    pa_trigger pa = StaticIdle (wt_from t)"
proof -
  have "run_active r = Some (wt_from t)" using assms(4) by (simp add: turn_over_def)
  then show ?thesis using handover_fires [OF assms] by (simp add: poller_moved_frame)
qed

theorem idle_role_hands_over_witness:
  "\<exists>r' pa. fire_run (duo_pass [duo_edge] 5 id) (Some duo_run) = Some r' \<and>
    run_active r' = Some ''b'' \<and> run_iteration r' = 2 \<and> run_pending r' = Some pa \<and>
    pa_target pa = ''b'' \<and> pa_trigger pa = StaticIdle ''a''"
  using idle_role_hands_over [OF duo_accepted, of duo_edge "duo_pass [duo_edge] 5 id" duo_run] duo_turn [of 5]
  by (auto simp: duo_edge_def trim_blank_def bt_get_def)

section \<open>Nudges\<close>

text \<open>C13. While a role without an idle hand-off is active and no agent moves the run, the poller
  advances it at most three times, whatever the transcripts show, the passes, the drains and the
  pause keys do, and in whatever order; and the run stays with that role.\<close>
theorem nudges_are_bounded:
  assumes "polled.may_run (Some (started now rid w k roles initial bl goal pl n prompt)) before"
    and "polled.run (Some (started now rid w k roles initial bl goal pl n prompt)) before = Some r"
    and "run_active r = Some role"
    and "polled.may_run (Some r) ops" and "list_all (unattended (run_workflow r) role) ops"
  shows "\<exists>r'. polled.run (Some r) ops = Some r' \<and> run_active r' = Some role \<and>
    unat (run_iteration r') \<le> unat (run_iteration r) + 3"
proof -
  have "kept (Some r)" using polled.run_inv [OF started_kept assms(1)] assms(2) by simp
  moreover have "nudged (run_workflow r) role (unat (run_iteration r)) r"
    using assms(3) by (auto simp: nudged_def advanced_by_def intro: exI [of _ 0])
  ultimately show ?thesis
    using unattended_run [OF _ _ assms(4,5)] nudged_bound by blast
qed

theorem nudges_are_bounded_witness:
  "\<exists>r'. polled.run (Some duo_run) [RunOp (OpPause ''r1'' True), RunOp (OpResume ''r1'' True),
      Pass (duo_pass [] 5 id)] = Some r' \<and> run_active r' = Some ''a'' \<and> unat (run_iteration r') \<le> 4"
proof -
  let ?ops = "[RunOp (OpPause ''r1'' True), RunOp (OpResume ''r1'' True), Pass (duo_pass [] 5 id)]"
  have start: "polled.may_run (Some duo_run) []" "polled.run (Some duo_run) [] = Some duo_run"
    "run_active duo_run = Some ''a''"
    by simp_all
  have ops: "polled.may_run (Some duo_run) ?ops" "list_all (unattended (run_workflow duo_run) ''a'') ?ops"
    using duo_calm [of "[]" 5]
    by (simp_all add: run_modify_def pause_focused_def resume_focused_def set_paused_def
        static_transition_on_idle_def)
  show ?thesis
    using nudges_are_bounded [OF start [unfolded duo_run_def] ops [unfolded duo_run_def], folded duo_run_def]
    by simp
qed

text \<open>An agent's RPC, a key or the drainer leaves the marker of a nudge as it is.\<close>

lemma change_marker:
  assumes "change env r pa k r'"
  shows "run_nudge_count r' = run_nudge_count r"
  using assms by cases (simp_all add: on_pending_def clear_pending_def adopt_initial_row_def
      on_last_row_def reset_role_def bind_sid_def append_entry_def Let_def)

lemma traced_marker: "traced env r ios r' \<Longrightarrow> run_nudge_count r' = run_nudge_count r"
  by (induction rule: traced.induct) (simp_all add: change_marker)

lemma wf_step_marker:
  assumes "run_ok r" and "wf_may (Some r) e" and "wf_step (Some r) e = Some r'"
  shows "run_nudge_count r' = run_nudge_count r"
proof -
  have modify: "run_nudge_count r1 = run_nudge_count r"
    if "snd (run_modify rid saved f (Some r)) = Some r1" "run_nudge_count (f r) = run_nudge_count r" for rid saved f r1
    using that by (auto simp: run_modify_def split: option.splits if_splits)
  show ?thesis
  proof (cases e)
    case (OpTransition env p)
    then show ?thesis
      using assms transition_outcome [OF assms(1), of env p]
      by (auto simp: transition_mutation_def Let_def close_active_role_def)
  next
    case (OpDone env p)
    then show ?thesis
      using assms done_outcome [OF assms(1), of env p]
      by (auto simp: done_mutation_def mark_done_def close_active_role_def clear_pending_def)
  next
    case (OpStop known auth saved caller rid)
    then show ?thesis
      using assms(3) stop_changes [OF surjective_pairing, of known auth saved caller rid r]
      by (auto simp: apply_stop_def mark_detached_def)
  next
    case (OpDrain env ws ss)
    obtain res s' where adv: "advance_finalization env (fresh_call (Some r) ws ss) = (res, s')" by fastforce
    have "\<forall>x\<in>set ss. snd x = id" using assms(2) OpDrain by simp
    from advance_keeps [OF adv this] obtain ios r1 where "fs_disk s' = Some r1" "traced env r ios r1" .
    then show ?thesis using OpDrain assms(3) adv traced_marker by simp
  next
    case (OpPause rid saved)
    then show ?thesis using assms(3) modify by (auto simp: pause_focused_def set_paused_def)
  next
    case (OpResume rid saved)
    then show ?thesis using assms(3) modify by (auto simp: resume_focused_def set_paused_def)
  qed
qed

lemma wf_run_marker:
  "run_ok r \<Longrightarrow> wf.may_run (Some r) ops \<Longrightarrow> wf.run (Some r) ops = Some r' \<Longrightarrow>
   run_nudge_count r' = run_nudge_count r"
proof (induction ops arbitrary: r)
  case (Cons e ops)
  obtain r1 where r1: "wf_step (Some r) e = Some r1" "run_ok r1"
    using wf_step_ok [of "Some r" e] Cons.prems(1,2) by (auto simp: disk_ok_def)
  then show ?case using Cons.IH [OF r1(2)] Cons.prems wf_step_marker [OF Cons.prems(1) _ r1(1)] by simp
qed simp

text \<open>The marker of a nudge outlives the role it was set for. After a role has been nudged at
  some number of turns, and whatever the agents, the keys and the drainer then do to the run,
  another role that idles at the same number of turns is taken for nudged: if it has no idle
  hand-off the pass decides to skip it and leaves the run as it is, and so does every later pass
  that sees the same, although this role was never nudged.\<close>
theorem marker_silences_another_role:
  assumes "run_ok r0" and "calm te0" and "unat (run_iteration r0) < 2 ^ 32 - 1"
    and "decide_run te0 r0 = Some (Nudge rid role0 prompt c)"
    and "fire_run te0 (Some r0) = Some r1" and "run_iteration r1 \<noteq> run_iteration r0"
    and "wf.may_run (Some r1) ops" and "wf.run (Some r1) ops = Some r"
    and "turn_over te role r" and "turns_seen te role r = c" and "te_others te = id"
    and "workflow_definition (te_state te) (run_workflow r) = Some w"
    and "static_transition_on_idle w role = None"
  shows "decide_run te r = Some (Skip (run_id r) NudgeDebounced) \<and> poll_run te (Some r) = Some r"
proof -
  have o: "re_others (te_rpc te0) = id" using assms(2) by (simp add: calm_def)
  have m: "run_nudge_count r1 = Some c"
    using assms(1) o
  proof (cases rule: apply_cases [where st = "te_state te0" and tr = "te_later te0"
        and marked = "te_marked te0" and d = "Nudge rid role0 prompt c"])
    case (nudged rid' role' prompt' c')
    then have "r1 = poller_moved (te_state te0) (te_later te0) (te_rpc te0) rid' role' role' prompt' (marked_run c r0)"
      using assms(2,4,5) by (simp add: fire_run_calm)
    then show ?thesis by (simp add: poller_moved_def transition_mutation_def Let_def close_active_role_def)
  qed (use assms(2,4-6) in \<open>auto simp: fire_run_calm\<close>)
  have "run_ok r1" using fire_run_ok [OF assms(2,1,3)] assms(5) by simp
  then have "run_nudge_count r = Some c" using wf_run_marker [OF _ assms(7,8)] m by simp
  then have d: "decide_run te r = Some (Skip (run_id r) NudgeDebounced)"
    using turn_over_decides [OF assms(9,12)] assms(10,13) by (simp add: decide_idle_def snapshot_of_def)
  have "run_pending r = None" using assms(9) by (simp add: turn_over_def)
  then have "drain_work_of st r = None" for st by (simp add: drain_work_of_def)
  then show ?thesis using d assms(11)
    by (simp add: poll_run_def fire_run_def drain_finalization_def apply_decision_def Let_def)
qed

text \<open>The first role is nudged at five turns and hands over by a tool call; the second has five turns.\<close>

definition duo_nudged :: workflow_run where
  "duo_nudged = poller_moved (duo_state []) (duo_transcripts 5) (demo_rpc [True]) ''r1'' ''a'' ''a''
     IDLE_NUDGE_PROMPT (marked_run 5 duo_run)"

definition duo_agents :: "wf_op list" where
  "duo_agents = [OpTransition (demo_rpc [True]) (demo_to ''b''), OpDrain (demo_env 50) [] [],
     OpDrain (demo_env 50) [] [], OpDrain (demo_env 50) [] [], OpDrain (demo_env 90) [] []]"

lemma duo_trim [simp]: "str_trim ''a'' = ''a''"
  by (rule str_trim_same) (simp_all add: white_space_def)

lemma duo_decides:
  "decide_run (duo_pass [] 5 id) duo_run = Some (Nudge ''r1'' ''a'' IDLE_NUDGE_PROMPT 5)"
proof -
  have "trailing_streak duo_run ''a'' = 1"
    by (simp add: duo_run_def started_def queue_initial_def run_new_def trim_blank_def trailing_streak_def)
  moreover have "turns_seen (duo_pass [] 5 id) ''a'' duo_run = 5"
    by (simp add: turns_seen_def duo_simps duo_transcripts_def)
  ultimately show ?thesis
    using turn_over_decides [OF duo_turn, of 5 "[]" id "duo_def []"]
    by (simp add: decide_idle_def static_transition_on_idle_def snapshot_of_def MAX_CONSECUTIVE_IDLE_NUDGES_def)
qed

lemma duo_fires: "fire_run (duo_pass [] 5 id) (Some duo_run) = Some duo_nudged"
  by (simp add: fire_run_calm duo_calm duo_decides apply_decision_def persist_nudge_guard_def run_modify_def
      fire_static_transition_def workflow_transition_def poller_params_def poller_rpc_def trim_blank_def
      try_modify_def transition_guard_def participant_def bt_get_def duo_nudged_def poller_moved_def
      marked_run_def [symmetric])

text \<open>The run when the drainer begins with the second role.\<close>

definition duo_queued :: workflow_run where
  "duo_queued =
     \<lparr> run_id = ''r1'', run_workflow = ''wf'', run_task_key = ''/w'', run_task_id = None,
        run_roles = [(''a'', duo_role ''u1'' ''s1''), (''b'', duo_role ''u2'' ''s2'')],
        run_active = Some ''b'', run_iteration = 3, run_paused = False, run_status = Running,
        run_history =
          [\<lparr> he_iteration = 1, he_role = ''a'', he_session_id = Some ''s1'', he_last_message = None,
             he_activated_at = 0, he_deactivated_at = Some 7, he_trigger = Initial,
             he_assistant_at_start = 0, he_text_at_start = 0 \<rparr>],
        run_started_at = 0, run_done_reason = None, run_events_offset = 0, run_baselines = [],
        run_goal = None, run_plans = [], run_rejected = [],
        run_pending = Some \<lparr> pa_id = 3, pa_target = ''b'', pa_iteration = 3,
          pa_trigger = McpTransition ''a'' ''hi'' ''e'', pa_raw_prompt = ''hi'', pa_verbatim = False,
          pa_needs_fresh = False, pa_is_initial = False, pa_phase = Queued, pa_rendered = None,
          pa_snapshot = None, pa_enter_at = None, pa_codex = None \<rparr>,
        run_nudge_count = Some 5 \<rparr>"

lemma duo_nudged_frame [simp]:
  "run_active duo_nudged = Some ''a''" "run_status duo_nudged = Running" "run_iteration duo_nudged = 2"
  "run_roles duo_nudged = run_roles duo_run"
  by (simp_all add: duo_nudged_def poller_moved_frame)
    (simp_all add: poller_moved_def transition_mutation_def Let_def)

lemma duo_tool_call: "transition_mutation (demo_rpc [True]) (demo_to ''b'') duo_nudged = duo_queued"
  by (simp add: duo_nudged_def poller_moved_def transition_mutation_def Let_def close_active_role_def
      map_last_def close_entry_def pending_trigger_def honored_trigger_def poller_rpc_def poller_params_def
      marked_run_def duo_run_def started_def queue_initial_def run_new_def trim_blank_def bt_get_def
      capture_outgoing_last_message_def role_sid_def duo_transcripts_def duo_queued_def demo_rpc_def demo_to_def
      duo_role_def resolve_role_session_context_def bound_session_def duo_state_def duo_session_def)

lemma duo_agents_run:
  obtains r where "wf.may_run (Some duo_nudged) duo_agents" "wf.run (Some duo_nudged) duo_agents = Some r"
    "turn_over (duo_pass [] 5 id) ''b'' r" "run_workflow r = ''wf''"
proof -
  have call: "snd (workflow_transition (demo_rpc [True]) (demo_to ''b'') (Some duo_nudged)) = Some duo_queued"
    by (simp add: workflow_transition_def try_modify_def transition_guard_def participant_def duo_tool_call
        demo_rpc_def [of "[True]"] demo_to_def [of "''b''"] trim_blank_def bt_get_def append_event_with_retry_def)
      (simp add: duo_tool_call [unfolded demo_rpc_def demo_to_def])
  have may: "wf.may_run (Some duo_nudged) duo_agents"
    by (simp add: duo_agents_def) (simp add: demo_rpc_def)
  have "case wf.run (Some duo_queued) (tl duo_agents) of None \<Rightarrow> False
      | Some r \<Rightarrow> turn_over (duo_pass [] 5 id) ''b'' r \<and> run_workflow r = ''wf''"
    by (simp add: duo_agents_def duo_queued_def drain_simps template_source_def duo_role_def
        turn_over_def is_active_def duo_simps workflow_engine_blocks_def engine_reported_def
        assistant_turn_completed_since_def duo_transcripts_def active_start_count_def)
  then show thesis using that may call by (auto simp: duo_agents_def split: option.splits)
qed


theorem marker_silences_another_role_witness:
  "\<exists>r. wf.run (Some duo_nudged) duo_agents = Some r \<and> turn_over (duo_pass [] 5 id) ''b'' r \<and>
    decide_run (duo_pass [] 5 id) r = Some (Skip (run_id r) NudgeDebounced) \<and>
    poll_run (duo_pass [] 5 id) (Some r) = Some r"
proof -
  obtain r where r: "wf.may_run (Some duo_nudged) duo_agents" "wf.run (Some duo_nudged) duo_agents = Some r"
    "turn_over (duo_pass [] 5 id) ''b'' r" "run_workflow r = ''wf''"
    by (rule duo_agents_run)
  have "turns_seen (duo_pass [] 5 id) ''b'' r = 5"
    using r(3) by (auto simp: turn_over_def turns_seen_def duo_transcripts_def split: option.splits)
  then show ?thesis
    using marker_silences_another_role [OF duo_run_ok duo_calm _ duo_decides duo_fires _ r(1-3)] r(2-4)
    by (auto simp: static_transition_on_idle_def)
qed

text \<open>
  A nudge whose event cannot be appended is rolled back, but its marker stays: the passes after it
  take the role for nudged.
\<close>

lemma marked_session [simp]:
  "tagged (marked_run c r) = tagged r" "bound_session st (marked_run c r) = bound_session st r"
  by (simp_all add: fun_eq_iff tagged_def bound_session_def) (simp add: marked_run_def)

lemma marked_lookup [simp]:
  "tagged_session st (marked_run c r) = tagged_session st r"
  "tagged_tui_session st (marked_run c r) = tagged_tui_session st r"
  "run_id (marked_run c r) = run_id r" "run_task_key (marked_run c r) = run_task_key r"
  "run_workflow (marked_run c r) = run_workflow r"
  by (simp_all add: fun_eq_iff tagged_session_def tagged_tui_session_def) (simp_all add: marked_run_def)

lemma marked_resolve [simp]:
  "resolve_role_session_type st (marked_run c r) = resolve_role_session_type st r"
  "resolve_role_session_context st (marked_run c r) = resolve_role_session_context st r"
  by (simp_all add: fun_eq_iff resolve_role_session_type_def resolve_role_session_context_def
      cong: option.case_cong)

lemma marked_turn [simp]:
  "turn_over te role (marked_run c r) \<longleftrightarrow> turn_over te role r"
  "turns_seen te role (marked_run c r) = turns_seen te role r"
  by (simp_all add: turn_over_def turns_seen_def is_active_def active_start_count_def role_sid_def
      run_worktree_def role_session_types_def daemon_owns_run_def workflow_engine_blocks_def
      cong: option.case_cong)

lemma decide_marked:
  assumes "decide_run te r = Some (Nudge rid role prompt c)" and "run_ok r"
  shows "decide_run te (marked_run c r) = Some (Skip (run_id r) NudgeDebounced)"
proof -
  obtain role' w where t: "turn_over te role' r" "workflow_definition (te_state te) (run_workflow r) = Some w"
    and d: "decide_idle (te_later te) (snapshot_of (te_state te) r) w role' (turns_seen te role' r) =
      Nudge rid role prompt c"
    by (rule decide_acts [OF assms(1) _ assms(2)]) simp_all
  note n = decide_idle_nudge [OF d]
  have "decide_run te (marked_run c r) =
      Some (decide_idle (te_later te) (snapshot_of (te_state te) (marked_run c r)) w role' c)"
    using turn_over_decides [of te role' "marked_run c r" w] t n(4) by simp
  then show ?thesis using n(5) by (simp add: decide_idle_def snapshot_of_def)
qed

theorem failed_nudge_is_lost:
  assumes "run_ok r" and "calm te" and "decide_run te r = Some (Nudge rid role prompt c)"
    and "te_marked te" and "validate_run_id rid = None"
    and "\<not> append_event_with_retry (re_appends (te_rpc te))" and "re_rollback_saved (te_rpc te)"
  shows "fire_run te (Some r) = Some (r\<lparr> run_nudge_count := Some c \<rparr>) \<and>
    decide_run te (r\<lparr> run_nudge_count := Some c \<rparr>) = Some (Skip (run_id r) NudgeDebounced)"
proof -
  let ?m = "marked_run c r"
  let ?e = "poller_rpc (te_state te) (te_later te) (te_rpc te) role (Some ?m)"
  let ?p = "poller_params rid role role prompt"
  have ok: "run_ok ?m" using assms(1) by simp
  have e: "re_others ?e = id" "re_rollback_saved ?e" "\<not> append_event_with_retry (re_appends ?e)"
    using assms(2,6,7) by (simp_all add: poller_rpc_def calm_def)
  have "snd (workflow_transition ?e ?p (Some ?m)) = Some ?m"
    using e assms(5) rollback_transition_inverse [OF ok, of ?e ?p]
    by (auto simp: workflow_transition_def try_modify_def after_rollback_def run_modify_def poller_params_def
        split: option.splits)
  then have "snd (fire_static_transition (te_state te) (te_later te) (te_rpc te) rid role role prompt (Some ?m)) = Some ?m"
    by (auto simp: fire_static_transition_def split: prod.splits sum.splits)
  then have "fire_run te (Some r) = Some ?m"
    using assms(2-5) by (simp add: fire_run_calm apply_decision_def persist_nudge_guard_def run_modify_def marked_run_def)
  then show ?thesis using decide_marked [OF assms(3,1)] by (simp add: marked_run_def)
qed

text \<open>
  A nudge is typed word for word: its text has no placeholder. But a role that starts afresh is
  reset before it is typed, although the text speaks of the role's last turn.
\<close>

lemma render_plain: "CHR 0x7B \<notin> set s \<Longrightarrow> render_template rs s = s"
  by (induction rs s rule: render_template.induct) auto

lemma nudge_prompt_plain: "render_template rs IDLE_NUDGE_PROMPT = IDLE_NUDGE_PROMPT"
  by (rule render_plain) (simp add: IDLE_NUDGE_PROMPT_def em_dash_def)

lemma nudge_prompt_some: "IDLE_NUDGE_PROMPT \<noteq> []"
  by (simp add: IDLE_NUDGE_PROMPT_def)

lemma nudge_resets_a_fresh_role:
  assumes "run_ok r" and "calm te" and "decide_run te r = Some (Nudge rid role prompt c)"
    and "fire_run te (Some r) = Some r'" and "run_iteration r' \<noteq> run_iteration r"
    and "workflow_definition (te_state te) (run_workflow r) = Some w"
    and "bt_get (wd_roles w) role = Some spec" and "wr_context spec = Fresh"
  shows "\<exists>pa. run_pending r' = Some pa \<and> pa_needs_fresh pa \<and>
    render_activation env r' pa = IDLE_NUDGE_PROMPT"
proof -
  have o: "re_others (te_rpc te) = id" using assms(2) by (simp add: calm_def)
  obtain role' w' where "decide_idle (te_later te) (snapshot_of (te_state te) r) w' role' (turns_seen te role' r) =
      Nudge rid role prompt c"
    by (rule decide_acts [OF assms(3) _ assms(1)]) simp_all
  then have p: "prompt = IDLE_NUDGE_PROMPT" by (rule decide_idle_nudge)
  have fire: "apply_decision (te_state te) (te_later te) (te_rpc te) (te_marked te)
      (Nudge rid role prompt c) (Some r) = Some r'"
    using assms(2-4) by (simp add: fire_run_calm)
  have "\<exists>tr. r' = poller_moved (te_state te) tr (te_rpc te) rid role role prompt (marked_run c r)"
    using assms(1) o
    by (cases rule: apply_cases [where st = "te_state te" and tr = "te_later te"
          and marked = "te_marked te" and d = "Nudge rid role prompt c"])
      (use assms(5) fire in auto)
  then obtain tr where "r' = poller_moved (te_state te) tr (te_rpc te) rid role role prompt (marked_run c r)" by blast
  then show ?thesis
    using assms(6-8) p
    by (simp add: poller_moved_frame to_role_is_fresh_def render_activation_def template_source_def
        nudge_prompt_plain nudge_prompt_some)
qed

section \<open>The drain and the pass\<close>





end
