(* ===== verification/Scope.thy ===== *)
theory Scope
  imports WorkflowRpc
begin

text \<open>
  Who may act on whom, \<open>daemon/src/control/auth.rs\<close>, and the state it reads: the task tree that the
  terminal interface pushes (\<open>task_update_tree\<close>), the edges of the tasks that agents have made
  (\<open>record_agent_task_edge\<close>, \<open>register_agent_subtask\<close>), and the parents that the background
  refresher reads from the planning API (\<open>task_parent_refresh.rs\<close>).

  A hash map is its entries in key order; nothing here depends on the order of iteration. The
  planning API and the clock are parameters of a refresher pass.
\<close>

section \<open>State\<close>

record scope_session =
  ss_task :: "string option"
  ss_workspace :: string
  ss_global :: bool
  ss_generation :: u64
  ss_pid :: pid
  ss_transcript :: "string option"
  ss_member :: "(string \<times> string) option"

record scope_workspace =
  sw_worktree :: "string option"
  sw_kind :: "string option"
  sw_epoch :: "u64 option"

record planning_parent =
  pp_parent :: "string option"
  pp_fetched :: nat

record scope_state =
  sc_sessions :: "(uid \<times> scope_session) list"
  sc_exited :: "(uid \<times> scope_session) list"
  sc_tree :: "(string \<times> string option) list"
  sc_pushed :: bool
  sc_edges :: "(string \<times> string) list"
  sc_planning :: "(string \<times> planning_parent) list"
  sc_failures :: "(string \<times> nat \<times> nat) list"
  sc_task_workspaces :: "(string \<times> string) list"
  sc_bindings :: "(string \<times> string) list"
  sc_workspaces :: "(string \<times> scope_workspace) list"

datatype auth_decision =
    Allow
  | CallerNotInRegistry
  | TargetNotInRegistry
  | OutOfScope
  | TaskTreeNotYetSynced

definition is_allow :: "auth_decision \<Rightarrow> bool" where
  "is_allow d \<longleftrightarrow> d = Allow"

definition MAX_TASK_DEPTH :: nat where
  "MAX_TASK_DEPTH = 64"

section \<open>The walk\<close>

fun walk_steps ::
  "(string \<Rightarrow> string option option) \<Rightarrow> nat \<Rightarrow> string list \<Rightarrow> string \<Rightarrow> string \<Rightarrow> bool" where
  "walk_steps parent_of 0 visited cur ancestor = False"
| "walk_steps parent_of (Suc n) visited cur ancestor =
     (if cur \<in> set visited then False
      else case parent_of cur of
          None \<Rightarrow> False
        | Some None \<Rightarrow> False
        | Some (Some parent) \<Rightarrow>
            if parent = ancestor then True
            else walk_steps parent_of n (cur # visited) parent ancestor)"

definition walk_to_ancestor ::
  "(string \<Rightarrow> string option option) \<Rightarrow> string \<Rightarrow> string \<Rightarrow> bool" where
  "walk_to_ancestor parent_of target ancestor =
     (if target = ancestor then True else walk_steps parent_of MAX_TASK_DEPTH [] target ancestor)"

definition task_is_self_or_descendant_of ::
  "(string \<times> string option) list \<Rightarrow> string \<Rightarrow> string \<Rightarrow> bool" where
  "task_is_self_or_descendant_of tree target ancestor = walk_to_ancestor (bt_get tree) target ancestor"

definition known_parent :: "scope_state \<Rightarrow> string \<Rightarrow> string option option" where
  "known_parent st task =
     (case bt_get (sc_tree st) task of
        Some parent \<Rightarrow> Some parent
      | None \<Rightarrow> map_option pp_parent (bt_get (sc_planning st) task))"

definition task_in_scope :: "scope_state \<Rightarrow> string \<Rightarrow> string \<Rightarrow> bool" where
  "task_in_scope st target ancestor = walk_to_ancestor (known_parent st) target ancestor"

section \<open>The decision\<close>

definition caller_reaches_target ::
  "scope_state \<Rightarrow> string option \<Rightarrow> string \<Rightarrow> string option \<Rightarrow> string \<Rightarrow> auth_decision" where
  "caller_reaches_target st caller_task caller_ws target_task target_ws =
     (case caller_task of
        Some ct \<Rightarrow>
          (case target_task of
             Some tt \<Rightarrow>
               if task_in_scope st tt ct then Allow
               else if sc_tree st = [] \<and> \<not> sc_pushed st \<and> tt \<noteq> ct then TaskTreeNotYetSynced
               else OutOfScope
           | None \<Rightarrow> OutOfScope)
      | None \<Rightarrow> if caller_ws = target_ws then Allow else OutOfScope)"

definition check_session_caller :: "scope_state \<Rightarrow> uid \<Rightarrow> uid \<Rightarrow> auth_decision" where
  "check_session_caller st caller target =
     (case bt_get (sc_sessions st) caller of
        None \<Rightarrow> CallerNotInRegistry
      | Some c \<Rightarrow>
          if caller = target then Allow
          else case bt_get (sc_sessions st) target of
              None \<Rightarrow> TargetNotInRegistry
            | Some t \<Rightarrow>
                if ss_global c then Allow
                else caller_reaches_target st (ss_task c) (ss_workspace c) (ss_task t) (ss_workspace t))"

definition check_session_caller_for_exited ::
  "scope_state \<Rightarrow> uid \<Rightarrow> uid \<Rightarrow> string option \<Rightarrow> string \<Rightarrow> auth_decision" where
  "check_session_caller_for_exited st caller target target_task target_ws =
     (case bt_get (sc_sessions st) caller of
        None \<Rightarrow> CallerNotInRegistry
      | Some c \<Rightarrow>
          if caller = target then Allow
          else if ss_global c then Allow
          else caller_reaches_target st (ss_task c) (ss_workspace c) target_task target_ws)"

definition resolve_read_decision :: "scope_state \<Rightarrow> uid \<Rightarrow> uid \<Rightarrow> auth_decision" where
  "resolve_read_decision st caller target =
     (if bt_get (sc_sessions st) target \<noteq> None then check_session_caller st caller target
      else case bt_get (sc_exited st) target of
          Some tomb \<Rightarrow> check_session_caller_for_exited st caller target (ss_task tomb) (ss_workspace tomb)
        | None \<Rightarrow> check_session_caller st caller target)"

text \<open>
  A read that the scope rule refuses may still be granted by the planning API, which is asked
  without the lock. \<open>st0\<close> to \<open>st3\<close> are the states at the four times the lock is taken; \<open>api\<close> is
  the members the API lets the caller read, if it answers. \<open>ss_member\<close> is what
  \<open>assistants::membership\<close> says of the session: the member and how the session acts for it.
\<close>

definition caller_identity ::
  "scope_state \<Rightarrow> uid \<Rightarrow> ((string \<times> string) option \<times> string option \<times> string \<times> u64 \<times> bool \<times> pid) option" where
  "caller_identity st caller =
     map_option (\<lambda>s. (ss_member s, ss_task s, ss_workspace s, ss_generation s, ss_global s, ss_pid s))
       (bt_get (sc_sessions st) caller)"

definition session_identity ::
  "scope_session \<Rightarrow> (string \<times> string option \<times> string \<times> u64 \<times> string option \<times> pid) option" where
  "session_identity s =
     map_option (\<lambda>m. (fst m, ss_task s, ss_workspace s, ss_generation s, ss_transcript s, ss_pid s))
       (ss_member s)"

definition target_identity ::
  "scope_state \<Rightarrow> uid \<Rightarrow> (string \<times> string option \<times> string \<times> u64 \<times> string option \<times> pid) option" where
  "target_identity st target =
     (case bt_get (sc_sessions st) target of
        Some s \<Rightarrow> session_identity s
      | None \<Rightarrow> Option.bind (bt_get (sc_exited st) target) session_identity)"

definition read_authorized_target ::
  "scope_state \<Rightarrow> string list option \<Rightarrow> uid \<Rightarrow>
   (string \<times> string option \<times> string \<times> u64 \<times> string option \<times> pid) option" where
  "read_authorized_target st api target =
     Option.bind (target_identity st target) (\<lambda>identity. Option.bind api (\<lambda>allowed.
       if fst identity \<in> set allowed then Some identity else None))"

datatype read_refusal =
    Denied auth_decision
  | CallerChanged

definition authorize_read ::
  "scope_state \<Rightarrow> scope_state \<Rightarrow> scope_state \<Rightarrow> scope_state \<Rightarrow> string list option \<Rightarrow>
   uid option \<Rightarrow> uid \<Rightarrow> read_refusal + unit" where
  "authorize_read st0 st1 st2 st3 api caller target =
     (case caller of
        None \<Rightarrow> Inr ()
      | Some c \<Rightarrow>
          (let initial = resolve_read_decision st0 c target;
               granted = (if is_allow initial then None else read_authorized_target st1 api target);
               second = (if \<not> is_allow initial \<and> granted = None
                         then resolve_read_decision st2 c target else Allow) in
           if \<not> is_allow second then Inl (Denied second)
           else if caller_identity st3 c \<noteq> caller_identity st0 c then Inl CallerChanged
           else if (case granted of None \<Rightarrow> True | Some g \<Rightarrow> target_identity st3 target \<noteq> Some g) \<and>
             \<not> is_allow (resolve_read_decision st3 c target)
           then Inl (Denied (resolve_read_decision st3 c target))
           else Inr ()))"

section \<open>Workflow runs\<close>

text \<open>The task of a run: its own, else the only task bound to its workspace.\<close>

definition resolve_run_task_id :: "scope_state \<Rightarrow> workflow_run \<Rightarrow> string option" where
  "resolve_run_task_id st run =
     (case run_task_id run of
        Some t \<Rightarrow> Some t
      | None \<Rightarrow>
          (case map fst (filter (\<lambda>e. snd e = run_task_key run) (sc_task_workspaces st)) of
             [t] \<Rightarrow> Some t
           | _ \<Rightarrow> None))"

definition workflow_run_authorized :: "string option \<Rightarrow> scope_state \<Rightarrow> workflow_run \<Rightarrow> bool" where
  "workflow_run_authorized caller_task st run =
     (case caller_task of
        None \<Rightarrow> False
      | Some own \<Rightarrow>
          (case resolve_run_task_id st run of
             None \<Rightarrow> False
           | Some rid \<Rightarrow> task_in_scope st rid own))"

text \<open>\<open>None\<close> for the caller is the operator, \<open>Some t\<close> a session with the task \<open>t\<close>.\<close>

definition list_workflows_visible ::
  "string option option \<Rightarrow> scope_state \<Rightarrow> workflow_run \<Rightarrow> string option \<Rightarrow> bool" where
  "list_workflows_visible caller st run explicit =
     (case caller of
        None \<Rightarrow>
          (case explicit of
             None \<Rightarrow> True
           | Some req \<Rightarrow>
               (case resolve_run_task_id st run of None \<Rightarrow> False | Some rid \<Rightarrow> task_in_scope st rid req))
      | Some None \<Rightarrow> False
      | Some (Some own) \<Rightarrow>
          (case resolve_run_task_id st run of
             None \<Rightarrow> False
           | Some rid \<Rightarrow>
               if \<not> task_in_scope st rid own then False
               else case explicit of None \<Rightarrow> True | Some req \<Rightarrow> task_in_scope st rid req))"

section \<open>Edges\<close>

definition record_agent_task_edge :: "string \<Rightarrow> string \<Rightarrow> scope_state \<Rightarrow> scope_state" where
  "record_agent_task_edge child parent st =
     st\<lparr> sc_edges := bt_insert child parent (sc_edges st),
         sc_tree := bt_insert child (Some parent) (sc_tree st) \<rparr>"

record tree_entry =
  te_task :: string
  te_parent :: "string option"
  te_workspace :: "string option"

record tree_workspace =
  tw_id :: string
  tw_worktree :: "string option"
  tw_epoch :: u64

definition empty_workspace :: scope_workspace where
  "empty_workspace = \<lparr> sw_worktree = None, sw_kind = None, sw_epoch = None \<rparr>"

text \<open>A workspace whose binding epoch the push does not know: the last entry of a name counts.\<close>

definition held_workspaces :: "tree_workspace list \<Rightarrow> scope_state \<Rightarrow> string list" where
  "held_workspaces pushed st =
     map fst (filter (\<lambda>(id, ws). case sw_epoch ws of
         None \<Rightarrow> False
       | Some stored \<Rightarrow>
           (case map_of (rev (map (\<lambda>w. (tw_id w, tw_epoch w)) pushed)) id of None \<Rightarrow> 0 | Some e \<Rightarrow> e) < stored)
       (sc_workspaces st))"

definition push_entry :: "string list \<Rightarrow> tree_entry \<Rightarrow> scope_state \<Rightarrow> scope_state" where
  "push_entry held e st =
     st\<lparr> sc_task_workspaces :=
           (case te_workspace e of
              Some ws \<Rightarrow> if ws \<in> set held then sc_task_workspaces st
                         else bt_insert (te_task e) ws (sc_task_workspaces st)
            | None \<Rightarrow> sc_task_workspaces st),
         sc_tree := bt_insert (te_task e) (te_parent e) (sc_tree st) \<rparr>"

text \<open>The edges that the snapshot does not settle, kept and put over it.\<close>

definition reapply_edges :: "scope_state \<Rightarrow> scope_state" where
  "reapply_edges st =
     (let kept = filter (\<lambda>e. case bt_get (sc_tree st) (fst e) of Some (Some _) \<Rightarrow> False | _ \<Rightarrow> True)
            (sc_edges st) in
      st\<lparr> sc_edges := kept,
          sc_tree := fold (\<lambda>e. bt_insert (fst e) (Some (snd e))) kept (sc_tree st) \<rparr>)"

definition push_workspace :: "string list \<Rightarrow> tree_workspace \<Rightarrow> scope_state \<Rightarrow> scope_state" where
  "push_workspace held w st =
     (let ws = (case bt_get (sc_workspaces st) (tw_id w) of None \<Rightarrow> empty_workspace | Some ws \<Rightarrow> ws) in
      st\<lparr> sc_workspaces := bt_insert (tw_id w)
            (if tw_id w \<in> set held then ws else ws\<lparr> sw_worktree := tw_worktree w \<rparr>)
            (sc_workspaces st) \<rparr>)"

definition collect_workspaces :: "tree_workspace list \<Rightarrow> scope_state \<Rightarrow> scope_state" where
  "collect_workspaces pushed st =
     st\<lparr> sc_workspaces := filter (\<lambda>(id, ws).
           id \<in> set (map tw_id pushed) \<or> id \<in> set (map (\<lambda>e. ss_workspace (snd e)) (sc_sessions st)) \<or>
           id \<in> set (map snd (sc_bindings st)) \<or> sw_epoch ws \<noteq> None) (sc_workspaces st) \<rparr>"

definition task_update_tree ::
  "tree_entry list \<Rightarrow> tree_workspace list \<Rightarrow> scope_state \<Rightarrow> scope_state" where
  "task_update_tree tasks pushed st =
     (let held = held_workspaces pushed st;
          held_relations = filter (\<lambda>e. snd e \<in> set held) (sc_task_workspaces st);
          st1 = st\<lparr> sc_pushed := True, sc_tree := [], sc_task_workspaces := [] \<rparr>;
          st2 = fold (push_entry held) tasks st1;
          st3 = st2\<lparr> sc_task_workspaces :=
                  fold (\<lambda>(t, ws). bt_insert t ws) held_relations (sc_task_workspaces st2) \<rparr>;
          st4 = reapply_edges st3;
          st5 = fold (push_workspace held) pushed st4 in
      collect_workspaces pushed st5)"

definition register_agent_subtask ::
  "string \<Rightarrow> string \<Rightarrow> string \<Rightarrow> string option \<Rightarrow> string option \<Rightarrow> scope_state \<Rightarrow> scope_state" where
  "register_agent_subtask task parent workspace worktree kind st =
     (let st1 = (case worktree of
            None \<Rightarrow> st
          | Some path \<Rightarrow>
              let ws = (case bt_get (sc_workspaces st) workspace of None \<Rightarrow> empty_workspace | Some ws \<Rightarrow> ws) in
              st\<lparr> sc_workspaces := bt_insert workspace (ws\<lparr> sw_worktree := Some path \<rparr>) (sc_workspaces st) \<rparr>);
          st2 = (case kind of
            None \<Rightarrow> st1
          | Some k \<Rightarrow>
              if k = [] then st1
              else st1\<lparr> sc_workspaces := bt_adjust workspace
                     (\<lambda>ws. if sw_kind ws = None then ws\<lparr> sw_kind := Some k \<rparr> else ws) (sc_workspaces st1) \<rparr>);
          st3 = record_agent_task_edge task parent st2 in
      st3\<lparr> sc_task_workspaces := bt_insert task workspace (sc_task_workspaces st3),
           sc_bindings := bt_insert task workspace (sc_bindings st3) \<rparr>)"

text \<open>What a restart puts back: the planning rows that have a parent, then the agents' edges.\<close>

definition plant_row :: "string \<times> string \<Rightarrow> scope_state \<Rightarrow> scope_state" where
  "plant_row row st =
     (if bt_get (sc_tree st) (fst row) = None
      then st\<lparr> sc_tree := bt_insert (fst row) (Some (snd row)) (sc_tree st) \<rparr> else st)"

definition rehydrate_edges :: "(string \<times> string) list \<Rightarrow> (string \<times> string) list \<Rightarrow> scope_state \<Rightarrow> scope_state" where
  "rehydrate_edges planning edges st =
     fold (\<lambda>e. record_agent_task_edge (fst e) (snd e)) edges (fold plant_row planning st)"

section \<open>The refresher\<close>

definition MAX_LOOKUPS_PER_PASS :: nat where
  "MAX_LOOKUPS_PER_PASS = 64"

definition MAX_HOPS :: nat where
  "MAX_HOPS = 32"

definition REFETCH_AFTER :: nat where
  "REFETCH_AFTER = 600"

definition FAILURE_BACKOFF :: nat where
  "FAILURE_BACKOFF = 60"

definition FAILURE_BACKOFF_MAX :: nat where
  "FAILURE_BACKOFF_MAX = 1800"

definition backoff :: "nat \<Rightarrow> nat" where
  "backoff failures = min (FAILURE_BACKOFF * 2 ^ min (failures - 1) 16) FAILURE_BACKOFF_MAX"

text \<open>What a lookup answers: a row of the planning API, no configuration, or an error.\<close>

datatype fetch_result =
    FetchRow "string option option"
  | MissingConfig
  | FetchFailed

text \<open>The clock stands still during a pass but for its budget, which \<open>rfe_late\<close> gives by hop.\<close>

record refresh_env =
  rfe_fetch :: "string \<Rightarrow> fetch_result"
  rfe_now :: nat
  rfe_late :: "nat \<Rightarrow> bool"

record refresh_pass =
  rp_state :: scope_state
  rp_reached :: "string list"
  rp_fetched :: "string list"
  rp_failures :: nat
  rp_unconfigured :: bool
  rp_hops :: nat

definition seed_task_ids :: "scope_state \<Rightarrow> string list" where
  "seed_task_ids st = remdups (
     List.map_filter (\<lambda>e. ss_task (snd e)) (sc_sessions st) @
     List.map_filter (\<lambda>e. ss_task (snd e)) (sc_exited st) @
     concat (map (\<lambda>e. [fst e, snd e]) (sc_edges st)))"

text \<open>One hop: the parent of a task, or nothing when the walk has to stop here.\<close>

definition cached_parent :: "planning_parent option \<Rightarrow> string option" where
  "cached_parent c = Option.bind c pp_parent"

definition hop :: "refresh_env \<Rightarrow> string \<Rightarrow> refresh_pass \<Rightarrow> string option \<times> refresh_pass" where
  "hop env cur ps =
     (let st = rp_state ps; cached = bt_get (sc_planning st) cur in
      case bt_get (sc_tree st) cur of
        Some parent \<Rightarrow> (parent, ps)
      | None \<Rightarrow>
          if (case cached of None \<Rightarrow> False | Some c \<Rightarrow> rfe_now env - pp_fetched c < REFETCH_AFTER)
          then (cached_parent cached, ps)
          else if rp_unconfigured ps \<or>
            (case bt_get (sc_failures st) cur of None \<Rightarrow> False | Some (at, _) \<Rightarrow> rfe_now env < at) \<or>
            MAX_LOOKUPS_PER_PASS \<le> length (rp_fetched ps) \<or> rfe_late env (rp_hops ps)
          then (cached_parent cached, ps)
          else case rfe_fetch env cur of
              FetchRow row \<Rightarrow>
                (let parent = Option.bind row id in
                 (parent, ps\<lparr> rp_fetched := cur # rp_fetched ps,
                    rp_state := st\<lparr> sc_failures := bt_remove cur (sc_failures st),
                      sc_planning := bt_insert cur \<lparr> pp_parent = parent, pp_fetched = rfe_now env \<rparr>
                        (sc_planning st) \<rparr> \<rparr>))
            | MissingConfig \<Rightarrow> (cached_parent cached, ps\<lparr> rp_unconfigured := True \<rparr>)
            | FetchFailed \<Rightarrow>
                (let n = (case bt_get (sc_failures st) cur of None \<Rightarrow> 0 | Some (_, n) \<Rightarrow> n) + 1 in
                 (cached_parent cached, ps\<lparr> rp_fetched := cur # rp_fetched ps,
                    rp_failures := rp_failures ps + 1,
                    rp_state := st\<lparr> sc_failures :=
                      bt_insert cur (rfe_now env + backoff n, n) (sc_failures st) \<rparr> \<rparr>)))"

fun refresh_walk :: "refresh_env \<Rightarrow> nat \<Rightarrow> string \<Rightarrow> refresh_pass \<Rightarrow> refresh_pass" where
  "refresh_walk env 0 cur ps = ps"
| "refresh_walk env (Suc n) cur ps =
     (if cur \<in> set (rp_reached ps) then ps
      else case hop env cur (ps\<lparr> rp_reached := cur # rp_reached ps, rp_hops := rp_hops ps + 1 \<rparr>) of
          (None, ps') \<Rightarrow> ps'
        | (Some parent, ps') \<Rightarrow> refresh_walk env n parent ps')"

definition refresh_once :: "refresh_env \<Rightarrow> scope_state \<Rightarrow> refresh_pass" where
  "refresh_once env st =
     (let ps = fold (refresh_walk env MAX_HOPS) (seed_task_ids st)
            \<lparr> rp_state = st, rp_reached = [], rp_fetched = [], rp_failures = 0,
               rp_unconfigured = False, rp_hops = 0 \<rparr>;
          end_st = rp_state ps in
      ps\<lparr> rp_state := end_st\<lparr>
            sc_planning := filter (\<lambda>e. fst e \<in> set (rp_reached ps)) (sc_planning end_st),
            sc_failures := filter (\<lambda>e. fst e \<in> set (rp_reached ps)) (sc_failures end_st) \<rparr> \<rparr>)"

end
