(* ===== verification/ScopeLaws.thy ===== *)
theory ScopeLaws
  imports Scope
begin

text \<open>
  The scope rule against its meaning: a tasked session reaches exactly the sessions of its own
  task's subtree, and passing work on never leads out of it. The edges of agent-made tasks outlive
  the pushes that do not know them. A pass of the refresher is bounded.
\<close>

section \<open>Ancestors\<close>

text \<open>The ancestor so many steps up, if there is one.\<close>

fun ancestor_at :: "(string \<Rightarrow> string option option) \<Rightarrow> nat \<Rightarrow> string \<Rightarrow> string option" where
  "ancestor_at f 0 t = Some t"
| "ancestor_at f (Suc n) t = (case f t of Some (Some p) \<Rightarrow> ancestor_at f n p | _ \<Rightarrow> None)"

lemma ancestor_at_add:
  "ancestor_at f (m + n) t = Option.bind (ancestor_at f m t) (ancestor_at f n)"
  by (induction m arbitrary: t) (simp_all split: option.splits)

text \<open>A cycle that misses a task never comes to it.\<close>

lemma cycle_misses:
  assumes "ancestor_at f (Suc j) t = Some t" and "\<And>i. i \<le> j \<Longrightarrow> ancestor_at f (Suc i) t \<noteq> Some a"
  shows "ancestor_at f (Suc k) t \<noteq> Some a"
proof (induction k rule: less_induct)
  case (less k)
  show ?case
  proof (cases "k \<le> j")
    case False
    define i where "i = k - Suc j"
    have i: "Suc k = Suc j + Suc i" "i < k" using False by (simp_all add: i_def)
    have "ancestor_at f (Suc k) t = ancestor_at f (Suc i) t"
      by (simp only: i(1) ancestor_at_add assms(1) bind.bind_lunit)
    then show ?thesis using less.IH [OF i(2)] by simp
  qed (use assms(2) in blast)
qed

text \<open>Every visited task has led here without passing the ancestor.\<close>

definition leads_past :: "(string \<Rightarrow> string option option) \<Rightarrow> string \<Rightarrow> string \<Rightarrow> string \<Rightarrow> bool" where
  "leads_past f a v t \<longleftrightarrow> (\<exists>j. ancestor_at f (Suc j) v = Some t \<and>
     (\<forall>i\<le>j. ancestor_at f (Suc i) v \<noteq> Some a))"

lemma leads_past_step:
  assumes "leads_past f a v t" and "f t = Some (Some p)" and "p \<noteq> a"
  shows "leads_past f a v p"
proof -
  obtain j where j: "ancestor_at f (Suc j) v = Some t" "\<forall>i\<le>j. ancestor_at f (Suc i) v \<noteq> Some a"
    using assms(1) by (auto simp: leads_past_def)
  have "ancestor_at f (Suc j + 1) v = Some p"
    using j(1) assms(2) by (simp only: ancestor_at_add) simp
  moreover from this have "\<forall>i\<le>Suc j. ancestor_at f (Suc i) v \<noteq> Some a"
    using j(2) assms(3) by (auto simp: le_Suc_eq simp del: ancestor_at.simps)
  ultimately show ?thesis by (auto simp: leads_past_def simp del: ancestor_at.simps intro!: exI [of _ "Suc j"])
qed

lemma walk_steps_iff:
  assumes "\<forall>v\<in>set visited. leads_past f a v t"
  shows "walk_steps f n visited t a \<longleftrightarrow> (\<exists>k<n. ancestor_at f (Suc k) t = Some a)"
  using assms
proof (induction n arbitrary: visited t)
  case 0
  then show ?case by simp
next
  case (Suc n)
  show ?case
  proof (cases "t \<in> set visited")
    case True
    then have "leads_past f a t t" using Suc.prems by blast
    then obtain j where "ancestor_at f (Suc j) t = Some t" "\<forall>i\<le>j. ancestor_at f (Suc i) t \<noteq> Some a"
      unfolding leads_past_def by blast
    then have "ancestor_at f (Suc k) t \<noteq> Some a" for k
      using cycle_misses [of f j t a] by blast
    then show ?thesis using True by (simp del: ancestor_at.simps)
  next
    case False
    show ?thesis
    proof (cases "f t")
      case None
      then show ?thesis using False by simp
    next
      case (Some parent)
      show ?thesis
      proof (cases parent)
        case None
        then show ?thesis using False Some by simp
      next
        case (Some p)
        with \<open>f t = Some parent\<close> have p: "f t = Some (Some p)" by simp
        show ?thesis
        proof (cases "p = a")
          case True
          then show ?thesis using False p by auto
        next
          case other: False
          have "leads_past f a t p" using p other by (auto simp: leads_past_def intro!: exI [of _ 0])
          then have "\<forall>v\<in>set (t # visited). leads_past f a v p"
            using Suc.prems leads_past_step [where f = f, OF _ p other] by auto
          note IH = Suc.IH [OF this]
          have "(\<exists>k<Suc n. ancestor_at f (Suc k) t = Some a) \<longleftrightarrow> (\<exists>k<n. ancestor_at f (Suc k) p = Some a)"
            using p other by (auto simp: less_Suc_eq_0_disj)
          then show ?thesis using False p other IH by simp
        qed
      qed
    qed
  qed
qed

lemma walk_to_ancestor_iff:
  "walk_to_ancestor f t a \<longleftrightarrow> (\<exists>k\<le>MAX_TASK_DEPTH. ancestor_at f k t = Some a)"
proof -
  have "(\<exists>k\<le>MAX_TASK_DEPTH. ancestor_at f k t = Some a) \<longleftrightarrow>
      t = a \<or> (\<exists>k<MAX_TASK_DEPTH. ancestor_at f (Suc k) t = Some a)"
    by (metis Suc_le_eq Suc_less_eq ancestor_at.simps(1) le_0_eq le_imp_less_Suc less_eq_Suc_le not0_implies_Suc option.inject zero_le)
  then show ?thesis using walk_steps_iff [of "[]" f a t MAX_TASK_DEPTH] by (simp add: walk_to_ancestor_def)
qed

section \<open>Delegation\<close>

text \<open>A session that may act on the next, none of them global, and so on.\<close>

fun delegates :: "scope_state \<Rightarrow> uid list \<Rightarrow> bool" where
  "delegates st (a # b # us) \<longleftrightarrow>
     (case bt_get (sc_sessions st) a of None \<Rightarrow> False | Some s \<Rightarrow> \<not> ss_global s) \<and>
     check_session_caller st a b = Allow \<and> delegates st (b # us)"
| "delegates st _ \<longleftrightarrow> True"

definition session_task :: "scope_state \<Rightarrow> uid \<Rightarrow> string option" where
  "session_task st u = Option.bind (bt_get (sc_sessions st) u) ss_task"

lemma allowed_within:
  assumes "check_session_caller st a b = Allow" and "session_task st a = Some t"
    and "bt_get (sc_sessions st) a = Some s" and "\<not> ss_global s"
  shows "\<exists>t'. session_task st b = Some t' \<and> (\<exists>k. ancestor_at (known_parent st) k t' = Some t)"
proof (cases "a = b")
  case True
  then show ?thesis using assms(2) by (auto intro!: exI [of _ 0])
next
  case False
  then show ?thesis
    using assms
    by (auto simp: check_session_caller_def caller_reaches_target_def session_task_def task_in_scope_def
        walk_to_ancestor_iff split: option.splits if_splits)
qed

lemma delegates_within:
  assumes "delegates st (a # us)" and "session_task st a = Some t"
  shows "\<exists>t'. session_task st (last (a # us)) = Some t' \<and>
    (\<exists>k. ancestor_at (known_parent st) k t' = Some t)"
  using assms
proof (induction us arbitrary: a t)
  case Nil
  then show ?case by (auto intro!: exI [of _ 0])
next
  case (Cons b us)
  obtain s where "bt_get (sc_sessions st) a = Some s" "\<not> ss_global s"
    "check_session_caller st a b = Allow" "delegates st (b # us)"
    using Cons.prems(1) by (auto split: option.splits)
  moreover obtain t1 k1 where 1: "session_task st b = Some t1" "ancestor_at (known_parent st) k1 t1 = Some t"
    using allowed_within [OF calculation(3) Cons.prems(2) calculation(1,2)] by blast
  ultimately obtain t2 k2 where 2: "session_task st (last (b # us)) = Some t2"
    "ancestor_at (known_parent st) k2 t2 = Some t1"
    using Cons.IH [of b t1] by blast
  have "ancestor_at (known_parent st) (k2 + k1) t2 = Some t"
    using 1(2) 2(2) by (simp add: ancestor_at_add)
  then show ?case using 2(1) by auto
qed

section \<open>Edges\<close>

definition scope_ok :: "scope_state \<Rightarrow> bool" where
  "scope_ok st \<longleftrightarrow> bt_sorted (sc_tree st) \<and> bt_sorted (sc_edges st) \<and>
     (\<forall>c p. bt_get (sc_edges st) c = Some p \<longrightarrow> bt_get (sc_tree st) c = Some (Some p))"

lemma record_edge_ok: "scope_ok st \<Longrightarrow> scope_ok (record_agent_task_edge c p st)"
  by (auto simp: scope_ok_def record_agent_task_edge_def bt_get_insert bt_sorted_insert split: if_splits)

lemma scope_ok_cong:
  assumes "sc_tree st' = sc_tree st" and "sc_edges st' = sc_edges st"
  shows "scope_ok st' = scope_ok st"
  by (simp add: scope_ok_def assms)

lemma register_ok: "scope_ok st \<Longrightarrow> scope_ok (register_agent_subtask t p w wt k st)"
proof -
  assume ok: "scope_ok st"
  let ?r = "register_agent_subtask t p w wt k st"
  have "sc_tree ?r = sc_tree (record_agent_task_edge t p st)" "sc_edges ?r = sc_edges (record_agent_task_edge t p st)"
    by (simp_all add: register_agent_subtask_def record_agent_task_edge_def Let_def split: option.splits)
  then show ?thesis using record_edge_ok [OF ok] scope_ok_cong by blast
qed

text \<open>The tree of a snapshot: the last entry of a task counts.\<close>

definition snapshot_tree :: "tree_entry list \<Rightarrow> string \<Rightarrow> string option option" where
  "snapshot_tree tasks = map_of (rev (map (\<lambda>e. (te_task e, te_parent e)) tasks))"

lemma push_entries:
  assumes "bt_sorted (sc_tree st)"
  shows "bt_sorted (sc_tree (fold (push_entry held) tasks st))"
    and "bt_get (sc_tree (fold (push_entry held) tasks st)) t =
      (case snapshot_tree tasks t of None \<Rightarrow> bt_get (sc_tree st) t | Some p \<Rightarrow> Some p)"
    and "sc_edges (fold (push_entry held) tasks st) = sc_edges st"
proof -
  have "bt_sorted (sc_tree (fold (push_entry held) tasks st)) \<and>
    bt_get (sc_tree (fold (push_entry held) tasks st)) t =
      (case snapshot_tree tasks t of None \<Rightarrow> bt_get (sc_tree st) t | Some p \<Rightarrow> Some p) \<and>
    sc_edges (fold (push_entry held) tasks st) = sc_edges st"
    using assms
    by (induction tasks rule: rev_induct)
      (auto simp: snapshot_tree_def push_entry_def bt_sorted_insert bt_get_insert split: option.splits)
  then show "bt_sorted (sc_tree (fold (push_entry held) tasks st))"
    "bt_get (sc_tree (fold (push_entry held) tasks st)) t =
      (case snapshot_tree tasks t of None \<Rightarrow> bt_get (sc_tree st) t | Some p \<Rightarrow> Some p)"
    "sc_edges (fold (push_entry held) tasks st) = sc_edges st" by blast+
qed

lemma fold_edges:
  assumes "bt_sorted tree"
  shows "bt_sorted (fold (\<lambda>e. bt_insert (fst e) (Some (snd e))) es tree) \<and>
    bt_get (fold (\<lambda>e. bt_insert (fst e) (Some (snd e))) es tree) c =
      (case map_of (rev es) c of None \<Rightarrow> bt_get tree c | Some p \<Rightarrow> Some (Some p))"
  using assms
  by (induction es rule: rev_induct) (auto simp: bt_sorted_insert bt_get_insert split: option.splits)

lemma map_of_rev_sorted: "bt_sorted m \<Longrightarrow> map_of (rev m) c = bt_get m c"
proof -
  assume "bt_sorted m"
  then have "distinct (map fst m)" by (rule bt_sorted_distinct)
  then have "map_of (rev m) = map_of m" by (subst map_of_inject_set) (simp_all add: rev_map [symmetric])
  then show ?thesis by (simp add: bt_get_def)
qed

lemma bt_sorted_filter: "bt_sorted m \<Longrightarrow> bt_sorted (filter P m)"
  by (induction m) (auto simp: bt_sorted_Cons)

lemma bt_get_filter:
  assumes "bt_sorted m"
  shows "bt_get (filter (\<lambda>e. P (fst e)) m) k = (if P k then bt_get m k else None)"
  using assms by (induction m) (auto simp: bt_get_def bt_sorted_Cons)

lemma reapply:
  assumes "bt_sorted (sc_tree st)" and "bt_sorted (sc_edges st)"
  defines "settled c \<equiv> (\<exists>p. bt_get (sc_tree st) c = Some (Some p))"
  shows "bt_sorted (sc_tree (reapply_edges st))" and "bt_sorted (sc_edges (reapply_edges st))"
    and "bt_get (sc_edges (reapply_edges st)) c = (if settled c then None else bt_get (sc_edges st) c)"
    and "bt_get (sc_tree (reapply_edges st)) c =
      (if settled c then bt_get (sc_tree st) c
       else case bt_get (sc_edges st) c of None \<Rightarrow> bt_get (sc_tree st) c | Some p \<Rightarrow> Some (Some p))"
proof -
  let ?P = "\<lambda>c. case bt_get (sc_tree st) c of Some (Some _) \<Rightarrow> False | _ \<Rightarrow> True"
  let ?kept = "filter (\<lambda>e. ?P (fst e)) (sc_edges st)"
  have P: "?P c \<longleftrightarrow> \<not> settled c" for c by (auto simp: settled_def split: option.splits)
  have kept: "bt_sorted ?kept" "bt_get ?kept c = (if settled c then None else bt_get (sc_edges st) c)"
    using assms(2) bt_get_filter [OF assms(2), of "\<lambda>c. \<not> settled c" c]
    by (simp_all add: P bt_sorted_filter)
  note r = reapply_edges_def [of st, unfolded Let_def]
  show "bt_sorted (sc_edges (reapply_edges st))" using kept(1) by (simp add: r)
  show "bt_get (sc_edges (reapply_edges st)) c = (if settled c then None else bt_get (sc_edges st) c)"
    using kept(2) by (simp add: r)
  show "bt_sorted (sc_tree (reapply_edges st))"
    using fold_edges [OF assms(1)] by (simp add: r)
  show "bt_get (sc_tree (reapply_edges st)) c =
      (if settled c then bt_get (sc_tree st) c
       else case bt_get (sc_edges st) c of None \<Rightarrow> bt_get (sc_tree st) c | Some p \<Rightarrow> Some (Some p))"
    using fold_edges [OF assms(1), of ?kept c] map_of_rev_sorted [OF kept(1), of c] kept(2)
    by (simp add: r)
qed

lemma push_workspace_frame [simp]:
  "sc_tree (fold (push_workspace held) ws st) = sc_tree st"
  "sc_edges (fold (push_workspace held) ws st) = sc_edges st"
  by (induction ws rule: rev_induct) (simp_all add: push_workspace_def Let_def)

lemma collect_frame [simp]:
  "sc_tree (collect_workspaces ws st) = sc_tree st" "sc_edges (collect_workspaces ws st) = sc_edges st"
  by (simp_all add: collect_workspaces_def)

text \<open>What a push leaves of the tree and of the edges.\<close>

lemma push_spec:
  assumes "scope_ok st"
  shows "scope_ok (task_update_tree tasks ws st)"
    and "bt_get (sc_tree (task_update_tree tasks ws st)) c =
      (case snapshot_tree tasks c of
         Some (Some p) \<Rightarrow> Some (Some p)
       | snap \<Rightarrow> (case bt_get (sc_edges st) c of Some p \<Rightarrow> Some (Some p) | None \<Rightarrow> snap))"
    and "bt_get (sc_edges (task_update_tree tasks ws st)) c =
      (case snapshot_tree tasks c of Some (Some p) \<Rightarrow> None | _ \<Rightarrow> bt_get (sc_edges st) c)"
proof -
  let ?held = "held_workspaces ws st"
  let ?st1 = "st\<lparr> sc_pushed := True, sc_tree := [], sc_task_workspaces := [] \<rparr>"
  let ?st2 = "fold (push_entry ?held) tasks ?st1"
  obtain tw where
    st: "task_update_tree tasks ws st =
      collect_workspaces ws (fold (push_workspace ?held) ws (reapply_edges (?st2\<lparr> sc_task_workspaces := tw \<rparr>)))"
    by (auto simp: task_update_tree_def Let_def)
  let ?st3 = "?st2\<lparr> sc_task_workspaces := tw \<rparr>"
  have s1: "bt_sorted (sc_tree ?st1)" by simp
  have t3: "bt_get (sc_tree ?st3) c = snapshot_tree tasks c" for c
    using push_entries(2) [OF s1, of ?held tasks c] by (auto simp: bt_get_def split: option.splits)
  have sorted: "bt_sorted (sc_tree ?st3)" "bt_sorted (sc_edges ?st3)" and e3: "sc_edges ?st3 = sc_edges st"
    using push_entries(1,3) [OF s1, of ?held tasks] assms by (simp_all add: scope_ok_def)
  note re = reapply [OF sorted, unfolded t3 e3]
  show tree: "bt_get (sc_tree (task_update_tree tasks ws st)) c =
      (case snapshot_tree tasks c of
         Some (Some p) \<Rightarrow> Some (Some p)
       | snap \<Rightarrow> (case bt_get (sc_edges st) c of Some p \<Rightarrow> Some (Some p) | None \<Rightarrow> snap))" for c
    using re(4) by (simp add: st split: option.splits)
  show edges: "bt_get (sc_edges (task_update_tree tasks ws st)) c =
      (case snapshot_tree tasks c of Some (Some p) \<Rightarrow> None | _ \<Rightarrow> bt_get (sc_edges st) c)" for c
    using re(3) by (simp add: st split: option.splits)
  have "bt_sorted (sc_tree (task_update_tree tasks ws st))" "bt_sorted (sc_edges (task_update_tree tasks ws st))"
    using re(1,2) by (simp_all add: st)
  then show "scope_ok (task_update_tree tasks ws st)"
    by (auto simp: scope_ok_def tree edges split: option.splits)
qed

section \<open>The machine\<close>

datatype scope_op =
    OpPush "tree_entry list" "tree_workspace list"
  | OpRegister string string string "string option" "string option"
  | OpRehydrate "(string \<times> string) list" "(string \<times> string) list"
  | OpRefresh refresh_env

fun scope_step :: "scope_state \<Rightarrow> scope_op \<Rightarrow> scope_state" where
  "scope_step st (OpPush tasks ws) = task_update_tree tasks ws st"
| "scope_step st (OpRegister t p w wt k) = register_agent_subtask t p w wt k st"
| "scope_step st (OpRehydrate planning edges) = rehydrate_edges planning edges st"
| "scope_step st (OpRefresh env) = rp_state (refresh_once env st)"

lemma fold_keeps: "(\<And>x s. P s \<Longrightarrow> P (f x s)) \<Longrightarrow> P s \<Longrightarrow> P (fold f xs s)"
  by (induction xs arbitrary: s) auto

lemma plant_row_ok: "scope_ok st \<Longrightarrow> scope_ok (plant_row row st)"
  by (auto simp: scope_ok_def plant_row_def bt_get_insert bt_sorted_insert)

lemma plant_row_edges [simp]: "sc_edges (fold plant_row rows st) = sc_edges st"
  by (induction rows rule: rev_induct) (simp_all add: plant_row_def)

lemma rehydrate_ok: "scope_ok st \<Longrightarrow> scope_ok (rehydrate_edges planning edges st)"
  unfolding rehydrate_edges_def by (intro fold_keeps [of scope_ok] record_edge_ok plant_row_ok)

lemma hop_frame:
  "sc_tree (rp_state (snd (hop env cur ps))) = sc_tree (rp_state ps)"
  "sc_edges (rp_state (snd (hop env cur ps))) = sc_edges (rp_state ps)"
  "rp_reached (snd (hop env cur ps)) = rp_reached ps"
  by (simp_all add: hop_def Let_def split: option.splits fetch_result.splits prod.splits)

lemma refresh_walk_frame:
  "sc_tree (rp_state (refresh_walk env n cur ps)) = sc_tree (rp_state ps) \<and>
   sc_edges (rp_state (refresh_walk env n cur ps)) = sc_edges (rp_state ps)"
proof (induction n arbitrary: cur ps)
  case (Suc n)
  let ?h = "hop env cur (ps\<lparr> rp_reached := cur # rp_reached ps, rp_hops := rp_hops ps + 1 \<rparr>)"
  show ?case
    using Suc.IH [of _ "snd ?h"] hop_frame [of env cur "ps\<lparr> rp_reached := cur # rp_reached ps, rp_hops := rp_hops ps + 1 \<rparr>"]
    by (auto split: prod.splits option.splits)
qed simp

lemma refresh_frame:
  "sc_tree (rp_state (refresh_once env st)) = sc_tree st"
  "sc_edges (rp_state (refresh_once env st)) = sc_edges st"
proof -
  have "sc_tree (rp_state (fold (refresh_walk env n) seeds ps)) = sc_tree (rp_state ps) \<and>
      sc_edges (rp_state (fold (refresh_walk env n) seeds ps)) = sc_edges (rp_state ps)" for seeds n ps
    by (induction seeds rule: rev_induct) (simp_all add: refresh_walk_frame)
  then show "sc_tree (rp_state (refresh_once env st)) = sc_tree st"
    "sc_edges (rp_state (refresh_once env st)) = sc_edges st"
    by (simp_all add: refresh_once_def Let_def)
qed

lemma scope_step_ok: "scope_ok st \<Longrightarrow> scope_ok (scope_step st e)"
  by (cases e) (simp_all add: push_spec(1) register_ok rehydrate_ok
      scope_ok_cong [OF refresh_frame])

interpretation scopes: invariant_system scope_step "\<lambda>_ _. True" scope_ok
  by unfold_locales (rule scope_step_ok)

text \<open>An edge stands until a push gives the task a parent of its own.\<close>

fun parents_task :: "string \<Rightarrow> scope_op \<Rightarrow> bool" where
  "parents_task c (OpPush tasks ws) \<longleftrightarrow> list_ex (\<lambda>e. te_task e = c \<and> te_parent e \<noteq> None) tasks"
| "parents_task c (OpRegister t p w wt k) \<longleftrightarrow> t = c"
| "parents_task c (OpRehydrate planning edges) \<longleftrightarrow> list_ex (\<lambda>e. fst e = c) edges"
| "parents_task c (OpRefresh env) \<longleftrightarrow> False"

lemma snapshot_unparented:
  "\<not> parents_task c (OpPush tasks ws) \<Longrightarrow> snapshot_tree tasks c \<in> {None, Some None}"
proof (rule ccontr)
  assume no: "\<not> parents_task c (OpPush tasks ws)" and "snapshot_tree tasks c \<notin> {None, Some None}"
  then obtain p where "snapshot_tree tasks c = Some (Some p)"
    by (cases "snapshot_tree tasks c") auto
  then have "(c, Some p) \<in> set (map (\<lambda>e. (te_task e, te_parent e)) tasks)"
    unfolding snapshot_tree_def by (auto dest: map_of_SomeD)
  then show False using no by (auto simp: list_ex_iff)
qed

lemma edge_stands:
  assumes "scope_ok st" and "bt_get (sc_edges st) c = Some p" and "\<not> parents_task c e"
  shows "bt_get (sc_edges (scope_step st e)) c = Some p"
proof (cases e)
  case (OpPush tasks ws)
  then show ?thesis
    using push_spec(3) [OF assms(1), of tasks ws c] snapshot_unparented [of c tasks ws] assms(2,3) by auto
next
  case (OpRegister t q w wt k)
  have "sc_edges (register_agent_subtask t q w wt k st) = bt_insert t q (sc_edges st)"
    by (simp add: register_agent_subtask_def record_agent_task_edge_def Let_def split: option.splits)
  then show ?thesis using OpRegister assms by (simp add: bt_get_insert scope_ok_def)
next
  case (OpRehydrate planning edges)
  define st0 where "st0 = fold plant_row planning st"
  have s0: "bt_sorted (sc_edges st0)" "bt_get (sc_edges st0) c = Some p"
    using assms(1,2) by (simp_all add: st0_def scope_ok_def)
  have "bt_sorted (sc_edges (fold (\<lambda>e. record_agent_task_edge (fst e) (snd e)) es st0)) \<and>
      (c \<notin> fst ` set es \<longrightarrow>
        bt_get (sc_edges (fold (\<lambda>e. record_agent_task_edge (fst e) (snd e)) es st0)) c = Some p)" for es
    using s0
    by (induction es rule: rev_induct) (auto simp: record_agent_task_edge_def bt_get_insert bt_sorted_insert)
  then show ?thesis
    using OpRehydrate assms(3) by (auto simp: rehydrate_edges_def st0_def list_ex_iff)
qed (use assms in \<open>simp add: refresh_frame\<close>)

lemma edge_stands_run:
  assumes "scope_ok st" and "bt_get (sc_edges st) c = Some p" and "\<forall>e\<in>set es. \<not> parents_task c e"
  shows "scope_ok (scopes.run st es) \<and> bt_get (sc_edges (scopes.run st es)) c = Some p"
  using assms
  by (induction es arbitrary: st) (auto simp: edge_stands scope_step_ok)

section \<open>The refresher\<close>

lemma hop_fetched:
  assumes "hop env cur ps = (parent, ps')" and "length (rp_fetched ps) \<le> MAX_LOOKUPS_PER_PASS"
  shows "length (rp_fetched ps') \<le> MAX_LOOKUPS_PER_PASS \<and>
    (rp_fetched ps' = rp_fetched ps \<or> rp_fetched ps' = cur # rp_fetched ps)"
  using assms by (auto simp: hop_def Let_def split: option.splits if_splits fetch_result.splits prod.splits)

definition pass_ok :: "refresh_pass \<Rightarrow> bool" where
  "pass_ok ps \<longleftrightarrow> length (rp_fetched ps) \<le> MAX_LOOKUPS_PER_PASS \<and> distinct (rp_fetched ps) \<and>
     set (rp_fetched ps) \<subseteq> set (rp_reached ps)"

lemma refresh_walk_pass: "pass_ok ps \<Longrightarrow> pass_ok (refresh_walk env n cur ps)"
proof (induction n arbitrary: cur ps)
  case (Suc n)
  show ?case
  proof (cases "cur \<in> set (rp_reached ps)")
    case False
    let ?ps = "ps\<lparr> rp_reached := cur # rp_reached ps, rp_hops := rp_hops ps + 1 \<rparr>"
    obtain parent ps' where h: "hop env cur ?ps = (parent, ps')" by fastforce
    have "pass_ok ps'"
      using hop_fetched [OF h] hop_frame(3) [of env cur ?ps] Suc.prems False h
      by (auto simp: pass_ok_def)
    then show ?thesis using Suc.IH h False by (cases parent) simp_all
  qed (use Suc.prems in simp)
qed simp

lemma refresh_pass_ok: "pass_ok (refresh_once env st)"
proof -
  have "pass_ok ps \<Longrightarrow> pass_ok (fold (refresh_walk env n) seeds ps)" for seeds n ps
    by (induction seeds rule: rev_induct) (simp_all add: refresh_walk_pass)
  then show ?thesis by (simp add: refresh_once_def Let_def pass_ok_def)
qed

end
