(* ===== verification/ScopeProps.thy ===== *)
theory ScopeProps
  imports ScopeLaws
begin

text \<open>
  The properties of session authorization, with witnesses on a tree of three tasks.
\<close>

section \<open>A tree of three tasks\<close>

definition demo_session_on :: "string \<Rightarrow> bool \<Rightarrow> scope_session" where
  "demo_session_on task global = \<lparr> ss_task = Some task, ss_workspace = ''w'', ss_global = global,
     ss_generation = 0, ss_pid = 7, ss_transcript = None, ss_member = Some (''m'', ''self'') \<rparr>"

definition demo_scope :: scope_state where
  "demo_scope = \<lparr> sc_sessions = [(''u1'', demo_session_on ''t1'' False), (''u2'', demo_session_on ''t2'' False),
       (''u3'', demo_session_on ''t3'' False)], sc_exited = [],
     sc_tree = [(''t1'', None), (''t2'', Some ''t1''), (''t3'', Some ''t2'')], sc_pushed = True,
     sc_edges = [], sc_planning = [], sc_failures = [], sc_task_workspaces = [], sc_bindings = [],
     sc_workspaces = [] \<rparr>"

lemmas demo_scope_simps = demo_scope_def demo_session_on_def bt_get_def

lemma demo_scope_ok: "scope_ok demo_scope"
  by (simp add: scope_ok_def demo_scope_simps bt_sorted_def)

section \<open>The scope rule\<close>

text \<open>C16. The walk and the decision against their meaning: a live session may act on a session
  exactly when it is itself, or the other is live and the caller is global, or has no task and
  shares the workspace, or has a task that is the other's task or one of its ancestors, at most 64
  steps up. Cycles in the tree change nothing.\<close>
theorem scope_rule:
  "check_session_caller st c t = Allow \<longleftrightarrow>
     (\<exists>s. bt_get (sc_sessions st) c = Some s \<and>
        (c = t \<or> (\<exists>s'. bt_get (sc_sessions st) t = Some s' \<and>
           (ss_global s \<or>
            (case ss_task s of
               None \<Rightarrow> ss_workspace s' = ss_workspace s
             | Some ct \<Rightarrow> (\<exists>tt. ss_task s' = Some tt \<and>
                 (\<exists>k\<le>64. ancestor_at (known_parent st) k tt = Some ct)))))))"
  by (auto simp: check_session_caller_def caller_reaches_target_def task_in_scope_def
      walk_to_ancestor_iff MAX_TASK_DEPTH_def split: option.splits if_splits)

text \<open>C29. Passing work on never leads out of a subtree: along any chain of sessions each of which may
  act on the next, none of them global, the last one has a task below the first one's.\<close>
theorem authority_stays_in_the_subtree:
  assumes "delegates st (u # us)" and "session_task st u = Some t"
  shows "\<exists>t'. session_task st (last (u # us)) = Some t' \<and>
    (\<exists>k. ancestor_at (known_parent st) k t' = Some t)"
  using assms by (rule delegates_within)

theorem authority_stays_in_the_subtree_witness:
  "delegates demo_scope [''u1'', ''u2'', ''u3''] \<and>
   (\<exists>t' k. session_task demo_scope ''u3'' = Some t' \<and>
      ancestor_at (known_parent demo_scope) k t' = Some ''t1'')"
proof -
  have d: "delegates demo_scope [''u1'', ''u2'', ''u3'']"
    by (simp add: check_session_caller_def caller_reaches_target_def task_in_scope_def
        walk_to_ancestor_def MAX_TASK_DEPTH_def known_parent_def numeral_eq_Suc demo_scope_simps)
  have "session_task demo_scope ''u1'' = Some ''t1''" by (simp add: session_task_def demo_scope_simps)
  from authority_stays_in_the_subtree [OF d this] d show ?thesis by auto
qed


definition demo_push :: scope_op where
  "demo_push = OpPush [\<lparr> te_task = ''t1'', te_parent = None, te_workspace = Some ''w'' \<rparr>,
     \<lparr> te_task = ''t9'', te_parent = None, te_workspace = None \<rparr>] []"


text \<open>What a push leaves: a task has the parent the snapshot gives it, else the parent that the
  agents' edges give it, else what the snapshot says or does not say; and an edge is retired exactly
  when the snapshot gives its task a parent.\<close>
lemma push_settles_parents:
  assumes "scope_ok st"
  shows "bt_get (sc_tree (task_update_tree tasks ws st)) c =
      (case snapshot_tree tasks c of
         Some (Some p) \<Rightarrow> Some (Some p)
       | snap \<Rightarrow> (case bt_get (sc_edges st) c of Some p \<Rightarrow> Some (Some p) | None \<Rightarrow> snap)) \<and>
    bt_get (sc_edges (task_update_tree tasks ws st)) c =
      (case snapshot_tree tasks c of Some (Some p) \<Rightarrow> None | _ \<Rightarrow> bt_get (sc_edges st) c)"
  using push_spec(2,3) [OF assms] by blast

section \<open>Reads\<close>

text \<open>A read is authorized by what holds when it is served, not when it was asked: the scope rule
  allows it at that moment, or the planning API has granted it for a target that is still the same
  member, task, transcript and process; and the caller has not changed since.\<close>
theorem read_is_authorized_when_served:
  assumes "authorize_read st0 st1 st2 st3 api (Some c) target = Inr ()"
  shows "caller_identity st3 c = caller_identity st0 c \<and>
    (resolve_read_decision st3 c target = Allow \<or>
     (\<exists>identity members. target_identity st3 target = Some identity \<and> target_identity st1 target = Some identity \<and>
        api = Some members \<and> fst identity \<in> set members))"
  using assms
  by (auto simp: authorize_read_def Let_def is_allow_def read_authorized_target_def
      split: if_splits option.splits bind_splits)

theorem read_is_authorized_when_served_witness:
  "authorize_read demo_scope demo_scope demo_scope demo_scope (Some [''m'']) (Some ''u2'') ''u1'' = Inr () \<and>
   resolve_read_decision demo_scope ''u2'' ''u1'' = OutOfScope \<and>
   (\<exists>identity. target_identity demo_scope ''u1'' = Some identity \<and> fst identity \<in> set [''m''])"
proof -
  have deny: "resolve_read_decision demo_scope ''u2'' ''u1'' = OutOfScope"
    by (simp add: resolve_read_decision_def check_session_caller_def caller_reaches_target_def task_in_scope_def
        walk_to_ancestor_def MAX_TASK_DEPTH_def known_parent_def numeral_eq_Suc demo_scope_simps)
  then have run: "authorize_read demo_scope demo_scope demo_scope demo_scope (Some [''m'']) (Some ''u2'') ''u1'' = Inr ()"
    by (simp add: authorize_read_def Let_def is_allow_def read_authorized_target_def target_identity_def
        session_identity_def demo_scope_simps)
  show ?thesis using read_is_authorized_when_served [OF run] run deny by auto
qed

section \<open>The refresher\<close>

text \<open>A pass of the refresher asks the planning API at most 64 times, and for no task twice,
  whatever the tree, the readings and the answers.\<close>
theorem refresh_is_bounded:
  "length (rp_fetched (refresh_once env st)) \<le> 64 \<and> distinct (rp_fetched (refresh_once env st))"
  using refresh_pass_ok [of env st] by (simp add: pass_ok_def MAX_LOOKUPS_PER_PASS_def)

section \<open>The window after a restart\<close>

text \<open>
  \<open>TaskTreeNotYetSynced\<close> asks the caller to try again while no snapshot has been pushed, and is
  given only on an empty tree. A restart puts edges into the tree before the first push, and then
  the refusal is the permanent one.
\<close>

lemma fold_tree_nonempty:
  assumes "sc_tree st \<noteq> [] \<or> edges \<noteq> []"
  shows "sc_tree (fold (\<lambda>e. record_agent_task_edge (fst e) (snd e)) edges st) \<noteq> []"
  using assms
  by (induction edges rule: rev_induct) (auto simp: record_agent_task_edge_def bt_insert_def)

theorem restart_hides_the_startup_window:
  assumes "edges \<noteq> []"
  shows "check_session_caller (rehydrate_edges planning edges st) c t \<noteq> TaskTreeNotYetSynced"
proof -
  have "sc_tree (rehydrate_edges planning edges st) \<noteq> []"
    unfolding rehydrate_edges_def by (rule fold_tree_nonempty) (use assms in simp)
  then show ?thesis
    by (simp add: check_session_caller_def caller_reaches_target_def split: option.splits)
qed

end
