(* ===== verification/Continuous.thy ===== *)
theory Continuous
  imports Scope Kernel
begin

text \<open>
  Continuous tasks, \<open>daemon/src/continuous/task.rs\<close>: the durable record, its file, the stop
  request of \<open>drain.rs\<close> and the file of standing instructions (\<open>instructions.rs\<close>).

  Fields of the record that no operation of the model reads or writes (labels, caps, retention,
  review hints, the receipt of an adoption) are left out. A time stamp that is an \<open>f64\<close> is only
  compared, and is a natural number.
\<close>

section \<open>Saturating arithmetic\<close>

definition sat_add :: "'a::len word \<Rightarrow> 'a word \<Rightarrow> 'a word" where
  "sat_add a b = (if a \<le> a + b then a + b else - 1)"

definition sat_sub :: "'a::len word \<Rightarrow> 'a word \<Rightarrow> 'a word" where
  "sat_sub a b = (if b \<le> a then a - b else 0)"

definition sat_mul :: "'a::len word \<Rightarrow> 'a word \<Rightarrow> 'a word" where
  "sat_mul a b = (if unat a * unat b < 2 ^ LENGTH('a) then a * b else - 1)"

lemma unat_minus_1: "unat (- 1 :: 'a::len word) = 2 ^ LENGTH('a) - 1"
  by (simp add: unsigned_minus_1_eq_mask mask_eq_exp_minus_1)

lemma unat_sat_add: "unat (sat_add a b) = min (unat a + unat b) (2 ^ LENGTH('a) - 1)"
  for a b :: "'a::len word"
proof (cases "a \<le> a + b")
  case True
  then have s: "unat (a + b) = unat a + unat b" by (simp add: unat_plus_simple [symmetric])
  then have "unat a + unat b < 2 ^ LENGTH('a)" by (metis unsigned_less)
  with True s show ?thesis by (simp add: sat_add_def)
next
  case False
  then have "\<not> unat a + unat b < 2 ^ LENGTH('a)"
    by (meson no_olen_add_nat)
  with False show ?thesis by (simp add: sat_add_def unat_minus_1)
qed

lemma unat_sat_sub: "unat (sat_sub a b) = unat a - unat b"
  by (auto simp: sat_sub_def unat_sub word_le_nat_alt not_le)

lemma unat_sat_mul: "unat (sat_mul a b) = min (unat a * unat b) (2 ^ LENGTH('a) - 1)"
  for a b :: "'a::len word"
  by (auto simp: sat_mul_def unat_minus_1 unat_mult_lem [THEN iffD1])

section \<open>The record\<close>

datatype ct_engine = CtClaude | CtCodex | CtBash

datatype ct_mode = ModeFresh | ModePersistent

datatype ct_schedule =
    OnDemand
  | Periodic u64
  | Consumer string u32 u64 u32
  | Cron string

datatype ct_status =
    RunPending | RunRunning | RunIdle | RunDone | RunFailed | RunStuck | RunOrphaned

record in_flight =
  if_token :: string
  if_uid :: string
  if_started :: u64

record run_record =
  rr_seq :: u64
  rr_token :: string
  rr_started :: u64
  rr_finished :: "u64 option"
  rr_uid :: "string option"
  rr_status :: ct_status
  rr_source :: string

datatype block_kind = AuthExpired | UsageLimited

record account_block =
  abk_seq :: u64
  abk_uid :: string
  abk_detected :: u64
  abk_kind :: block_kind
  abk_detail :: string

record recovery_hold =
  rhd_seq :: u64
  rhd_uid :: string
  rhd_token :: string
  rhd_detected :: u64
  rhd_detail :: string
  rhd_capacity :: bool

record task_channel =
  tch_subscription :: string
  tch_space :: string
  tch_channel :: string
  tch_revision :: u64
  tch_uid :: "string option"
  tch_path :: "string option"

record acknowledgment =
  ack_received :: nat
  ack_uid :: string
  ack_seq :: "u64 option"
  ack_token :: "string option"

record drain_checkpoint =
  dck_recorded :: nat
  dck_monitors :: string
  dck_workers :: string
  dck_notes :: string

record drain_record =
  drn_request :: string
  drn_requested :: u64
  drn_token :: "string option"
  drn_seq :: "u64 option"
  drn_uid :: "string option"
  drn_diagnostic :: "string option"
  drn_ack :: "acknowledgment option"
  drn_checkpoint :: "drain_checkpoint option"
  drn_notice :: "nat option"

datatype item_status = ItemCompleted | ItemUnfinished | ItemAmbiguous

record ct_reconciliation =
  crc_request :: string
  crc_evidence :: string
  crc_recorded :: u64
  crc_handover :: "string \<times> string"
  crc_notes :: string
  crc_items :: "(string \<times> item_status \<times> string) list"
  crc_batch :: string
  crc_self_clear :: "(string \<times> u64 \<times> string) option"

record ct_retirement =
  crt_request :: string
  crt_engine :: ct_engine
  crt_run_count :: u32
  crt_source_uid :: "string option"
  crt_uids :: "string list"
  crt_proof :: string
  crt_recorded :: u64

record engine_change =
  ech_operation :: string
  ech_source :: ct_engine
  ech_target :: ct_engine
  ech_hash :: string
  ech_old_uid :: "string option"
  ech_run_count :: u32
  ech_committed :: u64

record recovery_progress =
  rcp_seq :: u64
  rcp_token :: string
  rcp_uid :: string
  rcp_binding :: string
  rcp_reconciliation :: ct_reconciliation
  rcp_retired :: "string list"
  rcp_replayed :: "string list"

record continuous_task =
  ct_id :: string
  ct_standing :: "string option"
  ct_worktree :: string
  ct_channel :: "task_channel option"
  ct_engine :: ct_engine
  ct_mode :: ct_mode
  ct_schedule :: ct_schedule
  ct_prompt :: string
  ct_presets :: "(string \<times> string) list"
  ct_session :: "string option"
  ct_adoption :: "string option"
  ct_run_count :: u32
  ct_enabled :: bool
  ct_paused :: bool
  ct_drain :: "drain_record option"
  ct_reconciliation :: "ct_reconciliation option"
  ct_retirement :: "ct_retirement option"
  ct_engine_changes :: "engine_change list"
  ct_revision :: u64
  ct_in_flight :: "in_flight option"
  ct_last_run :: "run_record option"
  ct_next_fire :: u64
  ct_last_fired :: u64
  ct_compact_every :: "u32 option"
  ct_supervise :: bool
  ct_max_runtime :: "u32 option"
  ct_failures :: u32
  ct_investigations :: u32
  ct_wedge_closes :: u32
  ct_hold_releases :: u32
  ct_blocked :: "account_block option"
  ct_hold :: "recovery_hold option"
  ct_recovery :: "recovery_progress option"
  ct_wedge_grace :: "u64 option"
  ct_investigator :: "string option"
  ct_investigator_started :: "u64 option"

text \<open>\<open>ContinuousTask::new\<close>, with the remaining configuration that \<open>continuous.create\<close> assigns.\<close>

definition task_new ::
  "string \<Rightarrow> string \<Rightarrow> ct_engine \<Rightarrow> ct_mode \<Rightarrow> ct_schedule \<Rightarrow> string \<Rightarrow> continuous_task" where
  "task_new tid wt e m s prompt =
     \<lparr> ct_id = tid, ct_standing = None, ct_worktree = wt, ct_channel = None, ct_engine = e,
        ct_mode = m, ct_schedule = s, ct_prompt = prompt, ct_presets = [], ct_session = None,
        ct_adoption = None, ct_run_count = 0, ct_enabled = True, ct_paused = False,
        ct_drain = None, ct_reconciliation = None, ct_retirement = None, ct_engine_changes = [],
        ct_revision = 0, ct_in_flight = None, ct_last_run = None, ct_next_fire = 0,
        ct_last_fired = 0, ct_compact_every = None, ct_supervise = False, ct_max_runtime = None,
        ct_failures = 0, ct_investigations = 0, ct_wedge_closes = 0, ct_hold_releases = 0,
        ct_blocked = None, ct_hold = None, ct_recovery = None, ct_wedge_grace = None,
        ct_investigator = None, ct_investigator_started = None \<rparr>"

definition on_last_run :: "(run_record \<Rightarrow> run_record) \<Rightarrow> continuous_task \<Rightarrow> continuous_task" where
  "on_last_run f t = t\<lparr> ct_last_run := map_option f (ct_last_run t) \<rparr>"

definition channel_handover :: "string \<Rightarrow> task_channel \<Rightarrow> task_channel" where
  "channel_handover uid c =
     (if tch_uid c = Some uid then c
      else c\<lparr> tch_revision := sat_add (tch_revision c) 1, tch_uid := Some uid \<rparr>)"

section \<open>The file\<close>

text \<open>
  A task's \<open>state.json\<close>: absent (or unreadable) is \<open>None\<close>. \<open>saved\<close> says whether the write and
  the rename go through. The lock serialises the calls, so each is one step.
\<close>

definition validate_task_id :: "string \<Rightarrow> run_id_error option" where
  "validate_task_id tid =
     (if tid = [] then Some IdEmpty
      else if 128 < length tid then Some (IdTooLong (length tid))
      else if tid = ''.'' \<or> tid = ''..'' then Some IdTraversal
      else map_option IdCharacter
        (find (\<lambda>c. \<not> (ascii_alphanumeric c \<or> c = CHR ''_'' \<or> c = CHR ''-'')) tid))"

datatype 'e ct_outcome =
    CtSaved continuous_task
  | CtAborted 'e
  | CtPersist persist_error

definition load_task :: "string \<Rightarrow> continuous_task option \<Rightarrow> continuous_task option" where
  "load_task tid disk = (if validate_task_id tid = None then disk else None)"

definition ct_try_modify ::
  "string \<Rightarrow> bool \<Rightarrow> (continuous_task \<Rightarrow> 'e + continuous_task) \<Rightarrow> continuous_task option \<Rightarrow>
   'e ct_outcome \<times> continuous_task option" where
  "ct_try_modify tid saved f disk =
     (case validate_task_id tid of
        Some e \<Rightarrow> (CtPersist (PeInvalidId e), disk)
      | None \<Rightarrow>
          (case disk of
             None \<Rightarrow> (CtPersist PeNotFound, disk)
           | Some t \<Rightarrow>
               (case f t of
                  Inl e \<Rightarrow> (CtAborted e, disk)
                | Inr t' \<Rightarrow> if saved then (CtSaved t', Some t') else (CtPersist PeIo, disk))))"

definition ct_modify ::
  "string \<Rightarrow> bool \<Rightarrow> (continuous_task \<Rightarrow> continuous_task) \<Rightarrow> continuous_task option \<Rightarrow>
   (persist_error + continuous_task) \<times> continuous_task option" where
  "ct_modify tid saved f disk =
     (case validate_task_id tid of
        Some e \<Rightarrow> (Inl (PeInvalidId e), disk)
      | None \<Rightarrow>
          (case disk of
             None \<Rightarrow> (Inl PeNotFound, disk)
           | Some t \<Rightarrow> if saved then (Inr (f t), Some (f t)) else (Inl PeIo, disk)))"

text \<open>The idempotent first write.\<close>

definition ct_create ::
  "bool \<Rightarrow> continuous_task \<Rightarrow> continuous_task option \<Rightarrow>
   (persist_error + bool) \<times> continuous_task option" where
  "ct_create saved t disk =
     (case validate_task_id (ct_id t) of
        Some e \<Rightarrow> (Inl (PeInvalidId e), disk)
      | None \<Rightarrow>
          (case disk of
             Some _ \<Rightarrow> (Inr False, disk)
           | None \<Rightarrow> if saved then (Inr True, Some t) else (Inl PeIo, disk)))"

section \<open>The stop request\<close>

definition drain_captured ::
  "continuous_task \<Rightarrow> string option \<times> u64 option \<times> string option" where
  "drain_captured t =
     (case ct_in_flight t of
        Some fire \<Rightarrow>
          (Some (if_token fire),
           Some (case ct_last_run t of
               Some r \<Rightarrow> if rr_token r = if_token fire then rr_seq r else ucast (ct_run_count t) + 1
             | None \<Rightarrow> ucast (ct_run_count t) + 1),
           Some (if_uid fire))
      | None \<Rightarrow>
          (map_option rr_token (ct_last_run t), map_option rr_seq (ct_last_run t),
           (case ct_session t of
              Some uid \<Rightarrow> Some uid
            | None \<Rightarrow> Option.bind (ct_last_run t) rr_uid)))"

definition drain_request :: "u64 \<Rightarrow> string \<Rightarrow> continuous_task \<Rightarrow> continuous_task" where
  "drain_request now request_id t =
     (let t = t\<lparr> ct_paused := True \<rparr> in
      if ct_drain t \<noteq> None then t
      else case drain_captured t of
          (token, seq, uid) \<Rightarrow>
            t\<lparr> ct_revision := sat_add (ct_revision t) 1,
               ct_drain := Some \<lparr> drn_request = request_id, drn_requested = now,
                 drn_token = token, drn_seq = seq, drn_uid = uid, drn_diagnostic = None,
                 drn_ack = None, drn_checkpoint = None, drn_notice = None \<rparr> \<rparr>)"

section \<open>Standing instructions\<close>

text \<open>
  What a worktree answers: whether it is a directory, and the text of a file, which is missing
  also when the file cannot be read or is not UTF-8. Rendering the text is a parameter of
  \<open>materialize\<close>: the literal of \<open>render\<close> around the marker.
\<close>

datatype file_read = FileText string | FileUnreadable | FileAbsent

record worktree_view =
  wv_dir :: bool
  wv_read :: "string \<Rightarrow> file_read"
  wv_writes :: bool

definition STANDING_MARKER :: string where
  "STANDING_MARKER = ''<!-- cm-standing-instructions v1 -->''"

definition standing_file_name :: "ct_engine \<Rightarrow> string option" where
  "standing_file_name e =
     (case e of CtCodex \<Rightarrow> Some ''AGENTS.override.md'' | CtClaude \<Rightarrow> Some ''CLAUDE.local.md''
      | CtBash \<Rightarrow> None)"

definition ascii_space :: "char \<Rightarrow> bool" where
  "ascii_space c \<longleftrightarrow> c = CHR '' '' \<or> (CHR 0x09 \<le> c \<and> c \<le> CHR 0x0D)"

definition blank :: "string \<Rightarrow> bool" where
  "blank s \<longleftrightarrow> list_all ascii_space s"

definition trim :: "string \<Rightarrow> string" where
  "trim s = rev (dropWhile ascii_space (rev (dropWhile ascii_space s)))"

definition trim_end :: "string \<Rightarrow> string" where
  "trim_end s = rev (dropWhile ascii_space (rev s))"

definition repo_doc :: "worktree_view \<Rightarrow> ct_engine \<Rightarrow> string option" where
  "repo_doc wv e =
     (if e \<noteq> CtCodex then None
      else case wv_read wv ''AGENTS.md'' of
          FileText s \<Rightarrow>
            if \<not> blank s then Some s
            else (case wv_read wv ''CLAUDE.md'' of FileText s \<Rightarrow> if blank s then None else Some s | _ \<Rightarrow> None)
        | _ \<Rightarrow> (case wv_read wv ''CLAUDE.md'' of FileText s \<Rightarrow> if blank s then None else Some s | _ \<Rightarrow> None))"

definition engine_debug :: "ct_engine \<Rightarrow> string" where
  "engine_debug e = (case e of CtClaude \<Rightarrow> ''Claude'' | CtCodex \<Rightarrow> ''Codex'' | CtBash \<Rightarrow> ''Bash'')"

definition render_standing :: "(string \<Rightarrow> string) \<Rightarrow> continuous_task \<Rightarrow> string option \<Rightarrow> string" where
  "render_standing preamble t repo =
     STANDING_MARKER @ '' task='' @ ct_id t @ '' engine='' @ engine_debug (ct_engine t) @ '' -->'' @ [CHR 0x0A] @
     (case repo of None \<Rightarrow> [] | Some r \<Rightarrow> trim_end r @ [CHR 0x0A, CHR 0x0A]) @
     preamble (ct_id t) @
     trim (case ct_standing t of None \<Rightarrow> [] | Some s \<Rightarrow> s) @ [CHR 0x0A]"

datatype standing_error = NotADirectory | ForeignFile | StandingWrite

text \<open>The answer, and the file written with its text.\<close>

definition materialize ::
  "(string \<Rightarrow> string) \<Rightarrow> worktree_view \<Rightarrow> continuous_task \<Rightarrow>
   (standing_error + string option) \<times> (string \<times> string) option" where
  "materialize preamble wv t =
     (case standing_file_name (ct_engine t) of
        None \<Rightarrow> (Inr None, None)
      | Some name \<Rightarrow>
          (case ct_standing t of
             None \<Rightarrow> (Inr None, None)
           | Some standing \<Rightarrow>
               if blank standing then (Inr None, None)
               else if \<not> wv_dir wv then (Inl NotADirectory, None)
               else
                 let content = render_standing preamble t (repo_doc wv (ct_engine t));
                     write = (if wv_writes wv then (Inr (Some name), Some (name, content))
                       else (Inl StandingWrite, None)) in
                 case wv_read wv name of
                   FileText existing \<Rightarrow>
                     if existing = content then (Inr (Some name), None)
                     else if take (length STANDING_MARKER) existing \<noteq> STANDING_MARKER then (Inl ForeignFile, None)
                     else write
                 | _ \<Rightarrow> write))"

text \<open>The file that \<open>remove\<close> deletes.\<close>

definition standing_remove :: "worktree_view \<Rightarrow> continuous_task \<Rightarrow> string option" where
  "standing_remove wv t =
     Option.bind (standing_file_name (ct_engine t)) (\<lambda>name.
       case wv_read wv name of
         FileText existing \<Rightarrow>
           if take (length STANDING_MARKER) existing = STANDING_MARKER then Some name else None
       | _ \<Rightarrow> None)"

end
