(* ===== verification/ContinuousFire.thy ===== *)
theory ContinuousFire
  imports Continuous
begin

text \<open>
  Firing a continuous task, \<open>trigger\<close> of \<open>daemon/src/control/methods.rs\<close>: the plan made of a
  snapshot of the record, the guard armed under the lock, the batch of a consumer, the executor,
  and the record of the run. The lock is not held in between, so the file is read again each time.

  The planning API, the session registry and the file system answer through \<open>fire_env\<close>; what
  \<open>trigger\<close> does to them is a list of effects. The text that the daemon wraps around a prompt is a
  constructor, and an audit line keeps what the proofs need of it.
\<close>

section \<open>Effects\<close>

record queue_item =
  qi_id :: string
  qi_payload :: json
  qi_dedupe :: "string option"
  qi_source :: "string option"
  qi_enqueued :: string

datatype fire_prompt =
    PromptText string
  | WithCompletion fire_prompt
  | WithBatch fire_prompt nat string string u64
  | WithRunContext fire_prompt string u64 string u64 "string option"
  | InvestigatorPrompt string u64

record audit_line =
  al_seq :: u64
  al_event :: string
  al_token :: "string option"
  al_uid :: "string option"
  al_source :: "string option"
  al_status :: "string option"

datatype ct_io =
    IoStanding string string
  | IoClaim string u32 string
  | IoStage string u64 "queue_item list"
  | IoPrune "string list"
  | IoAck string "string list"
  | IoRelease string "string list"
  | IoEnqueue string queue_item string
  | IoSpawn string
  | IoPaste string fire_prompt
  | IoPersistent string fire_prompt bool
  | IoInput string string
  | IoKill string
  | IoAudit audit_line
  | IoNotify string
  | IoChannel string

definition audit :: "u64 \<Rightarrow> string \<Rightarrow> string option \<Rightarrow> string option \<Rightarrow> string \<Rightarrow> string option \<Rightarrow> ct_io" where
  "audit seq event token uid source status =
     IoAudit \<lparr> al_seq = seq, al_event = event, al_token = token, al_uid = uid,
       al_source = Some source, al_status = status \<rparr>"

section \<open>Callers and answers\<close>

datatype ct_caller = OperatorToken string | SessionUid string

record trigger_params =
  tg_task :: string
  tg_prompt :: "string option"
  tg_mode :: "string option"
  tg_token :: "string option"

datatype fire_skip =
    SkipPaused | SkipBusy | SkipDuplicate | SkipStale | SkipReconciliation

datatype trigger_answer =
    Fired string string ct_mode bool
  | NotFired fire_skip

datatype trigger_error =
    TriggerInvalidId run_id_error
  | TriggerUnauthorized
  | TriggerNotFound
  | TriggerUnknownMode string
  | TriggerArm persist_error
  | TriggerQueueName
  | TriggerQueue
  | TriggerStage
  | TriggerSpawn

record fire_env =
  tv_scope :: scope_state
  tv_rotating :: "string \<Rightarrow> bool"
  tv_live :: "string \<Rightarrow> bool"
  tv_preamble :: "string \<Rightarrow> string"
  tv_tree :: worktree_view
  tv_uid :: string
  tv_token :: string
  tv_now :: u64
  tv_before_arm :: "continuous_task \<Rightarrow> continuous_task"
  tv_arm_saved :: bool
  tv_client :: bool
  tv_claim :: "queue_item list option"
  tv_staged :: bool
  tv_batches :: "string list option"
  tv_batch_keep :: u64
  tv_spawns :: bool
  tv_still_there :: bool
  tv_before_record :: "continuous_task \<Rightarrow> continuous_task"
  tv_record_saved :: bool

definition SCHEDULER_CALLER_TOKEN :: string where
  "SCHEDULER_CALLER_TOKEN = ''continuous-scheduler''"

section \<open>The plan\<close>

record fire_plan =
  fp_task :: continuous_task
  fp_prompt :: fire_prompt
  fp_standing :: "string option"
  fp_source :: string
  fp_live :: "string option"
  fp_uid :: string
  fp_token :: string
  fp_scheduled :: bool

definition is_consumer :: "continuous_task \<Rightarrow> bool" where
  "is_consumer t \<longleftrightarrow> (case ct_schedule t of Consumer _ _ _ _ \<Rightarrow> True | _ \<Rightarrow> False)"

definition with_completion_instruction :: "fire_prompt \<Rightarrow> ct_engine \<Rightarrow> ct_mode \<Rightarrow> bool \<Rightarrow> fire_prompt" where
  "with_completion_instruction prompt e m consumer =
     (if e = CtBash \<or> (m = ModePersistent \<and> \<not> consumer) then prompt else WithCompletion prompt)"

definition with_continuous_run_context ::
  "fire_prompt \<Rightarrow> ct_engine \<Rightarrow> string \<Rightarrow> u64 \<Rightarrow> string \<Rightarrow> u64 \<Rightarrow> bool \<Rightarrow> string option \<Rightarrow> fire_prompt" where
  "with_continuous_run_context prompt e tid seq token started compact standing =
     (if e = CtBash \<or> compact then prompt else WithRunContext prompt tid seq token started standing)"

definition caller_may_fire :: "scope_state \<Rightarrow> ct_caller \<Rightarrow> string \<Rightarrow> bool" where
  "caller_may_fire st caller tid \<longleftrightarrow>
     (case caller of
        OperatorToken _ \<Rightarrow> True
      | SessionUid uid \<Rightarrow>
          (case Option.bind (bt_get (sc_sessions st) uid) ss_task of
             None \<Rightarrow> False
           | Some own \<Rightarrow> task_in_scope st tid own))"

text \<open>A failed refresh of the standing instructions is logged, and the file kept is named.\<close>

definition standing_for :: "fire_env \<Rightarrow> continuous_task \<Rightarrow> string option \<times> ct_io list" where
  "standing_for env t =
     (case materialize (tv_preamble env) (tv_tree env) t of
        (Inr name, written) \<Rightarrow>
          (name, case written of None \<Rightarrow> [] | Some (n, c) \<Rightarrow> [IoStanding n c])
      | (Inl e, _) \<Rightarrow>
          (if ct_standing t \<noteq> None then standing_file_name (ct_engine t) else None, []))"

definition resolve_prompt :: "trigger_params \<Rightarrow> continuous_task \<Rightarrow> trigger_error + string" where
  "resolve_prompt p t =
     (case tg_prompt p of
        Some text \<Rightarrow> Inr text
      | None \<Rightarrow>
          (case tg_mode p of
             None \<Rightarrow> Inr (ct_prompt t)
           | Some m \<Rightarrow>
               (case bt_get (ct_presets t) m of
                  None \<Rightarrow> Inl (TriggerUnknownMode m)
                | Some text \<Rightarrow> Inr text)))"

definition trigger_source :: "ct_caller \<Rightarrow> string" where
  "trigger_source caller =
     (case caller of OperatorToken _ \<Rightarrow> ''operator'' | SessionUid uid \<Rightarrow> ''session:'' @ uid)"

definition persistent_target :: "fire_env \<Rightarrow> continuous_task \<Rightarrow> string option" where
  "persistent_target env t =
     (if ct_mode t = ModePersistent
      then (case ct_session t of None \<Rightarrow> None | Some uid \<Rightarrow> if tv_live env uid then Some uid else None)
      else None)"

definition rotating :: "fire_env \<Rightarrow> continuous_task \<Rightarrow> bool" where
  "rotating env t \<longleftrightarrow> (case ct_session t of None \<Rightarrow> False | Some uid \<Rightarrow> tv_rotating env uid)"

definition fire_plan_for ::
  "fire_env \<Rightarrow> ct_caller \<Rightarrow> trigger_params \<Rightarrow> continuous_task \<Rightarrow> string option \<Rightarrow> string \<Rightarrow> fire_plan" where
  "fire_plan_for env caller p t standing text =
     (let live = persistent_target env t in
      \<lparr> fp_task = t,
        fp_prompt = with_completion_instruction (PromptText text) (ct_engine t) (ct_mode t) (is_consumer t),
        fp_standing = standing,
        fp_source = trigger_source caller,
        fp_live = live,
        fp_uid = (case live of Some uid \<Rightarrow> uid | None \<Rightarrow> tv_uid env),
        fp_token = (case tg_token p of Some tok \<Rightarrow> tok | None \<Rightarrow> tv_token env),
        fp_scheduled = (caller = OperatorToken SCHEDULER_CALLER_TOKEN) \<rparr>)"

text \<open>Everything before the guard: a refusal, a skip, or a plan.\<close>

definition prepare_fire ::
  "fire_env \<Rightarrow> ct_caller \<Rightarrow> trigger_params \<Rightarrow> continuous_task option \<Rightarrow>
   (trigger_error + (fire_skip + fire_plan)) \<times> ct_io list" where
  "prepare_fire env caller p disk =
     (case validate_task_id (tg_task p) of
        Some e \<Rightarrow> (Inl (TriggerInvalidId e), [])
      | None \<Rightarrow>
          if \<not> caller_may_fire (tv_scope env) caller (tg_task p) then (Inl TriggerUnauthorized, [])
          else case load_task (tg_task p) disk of
              None \<Rightarrow> (Inl TriggerNotFound, [])
            | Some t \<Rightarrow>
                if ct_paused t \<or> ct_adoption t \<noteq> None then (Inr (Inl SkipPaused), [])
                else case standing_for env t of (standing, ios) \<Rightarrow>
                  (case resolve_prompt p t of
                     Inl e \<Rightarrow> (Inl e, ios)
                   | Inr text \<Rightarrow>
                       if rotating env t then (Inr (Inl SkipBusy), ios)
                       else (Inr (Inr (fire_plan_for env caller p t standing text)), ios)))"

section \<open>The guard\<close>

datatype fire_abort = AbortPaused | AbortRecoveryHeld | AbortStale | AbortBusy | AbortDuplicate

definition arm_check ::
  "continuous_task \<Rightarrow> string \<Rightarrow> string \<Rightarrow> u64 \<Rightarrow> continuous_task \<Rightarrow> fire_abort + continuous_task" where
  "arm_check snapshot token uid started t =
     (if ct_adoption t \<noteq> None \<or> ct_paused t \<or> ct_drain t \<noteq> None then Inl AbortPaused
      else if ct_hold t \<noteq> None \<or> ct_blocked t \<noteq> None \<or> ct_retirement t \<noteq> None \<or> ct_recovery t \<noteq> None
      then Inl AbortRecoveryHeld
      else if ct_revision t \<noteq> ct_revision snapshot \<or> ct_engine t \<noteq> ct_engine snapshot then Inl AbortStale
      else if ct_in_flight t \<noteq> None then Inl AbortBusy
      else if map_option rr_token (ct_last_run t) = Some token then Inl AbortDuplicate
      else if ct_run_count t \<noteq> ct_run_count snapshot \<or> ct_session t \<noteq> ct_session snapshot then Inl AbortStale
      else Inr (t\<lparr> ct_in_flight := Some \<lparr> if_token = token, if_uid = uid, if_started = started \<rparr> \<rparr>))"

definition arm_continuous_fire ::
  "continuous_task \<Rightarrow> string \<Rightarrow> string \<Rightarrow> u64 \<Rightarrow> bool \<Rightarrow> continuous_task option \<Rightarrow>
   fire_abort ct_outcome \<times> continuous_task option" where
  "arm_continuous_fire snapshot token uid started saved disk =
     ct_try_modify (ct_id snapshot) saved (arm_check snapshot token uid started) disk"

definition skip_of_abort :: "fire_abort \<Rightarrow> fire_skip" where
  "skip_of_abort a =
     (case a of AbortPaused \<Rightarrow> SkipPaused | AbortRecoveryHeld \<Rightarrow> SkipReconciliation
      | AbortStale \<Rightarrow> SkipStale | AbortBusy \<Rightarrow> SkipBusy | AbortDuplicate \<Rightarrow> SkipDuplicate)"

definition plan_seq :: "fire_plan \<Rightarrow> u64" where
  "plan_seq plan = ucast (ct_run_count (fp_task plan)) + 1"

definition compact_fire :: "fire_plan \<Rightarrow> bool" where
  "compact_fire plan \<longleftrightarrow>
     fp_live plan \<noteq> None \<and> fp_scheduled plan \<and>
     (case ct_compact_every (fp_task plan) of
        None \<Rightarrow> False
      | Some n \<Rightarrow> 0 < n \<and> plan_seq plan mod ucast n = 0)"

section \<open>The batch of a consumer\<close>

record consumer_batch =
  cb_queue :: string
  cb_ids :: "string list"

definition validate_queue_name :: "string \<Rightarrow> bool" where
  "validate_queue_name q \<longleftrightarrow>
     q \<noteq> [] \<and> length q \<le> 128 \<and>
     list_all (\<lambda>c. ascii_alphanumeric c \<or> c = CHR ''_'' \<or> c = CHR ''-'') q"

definition release_consumer_batch :: "string \<Rightarrow> string list \<Rightarrow> ct_io list" where
  "release_consumer_batch q ids = (if ids = [] then [] else [IoRelease q ids])"

definition ack_consumer_batch :: "string \<Rightarrow> string list \<Rightarrow> ct_io list" where
  "ack_consumer_batch q ids = (if ids = [] then [] else [IoAck q ids])"

definition protected_batch_seqs :: "continuous_task \<Rightarrow> u64 \<Rightarrow> u64 list" where
  "protected_batch_seqs t staging =
     [staging] @
     (case ct_last_run t of
        Some r \<Rightarrow> if rr_status r = RunRunning then [rr_seq r] else [] | None \<Rightarrow> []) @
     (case ct_blocked t of Some b \<Rightarrow> [abk_seq b] | None \<Rightarrow> [])"

definition drop_prefix :: "string \<Rightarrow> string \<Rightarrow> string option" where
  "drop_prefix p s = (if take (length p) s = p then Some (drop (length p) s) else None)"

definition drop_suffix :: "string \<Rightarrow> string \<Rightarrow> string option" where
  "drop_suffix p s = map_option rev (drop_prefix (rev p) (rev s))"

definition batch_seq :: "string \<Rightarrow> u64 option" where
  "batch_seq name =
     Option.bind (drop_prefix ''batch-'' name) (\<lambda>rest.
       Option.bind (drop_suffix ''.json'' rest) parse_u64)"

definition staged_batches :: "string list \<Rightarrow> (u64 \<times> string) list" where
  "staged_batches names =
     concat (map (\<lambda>n. case batch_seq n of None \<Rightarrow> [] | Some s \<Rightarrow> [(s, n)]) names)"

text \<open>The files that \<open>prune_staged_batches\<close> deletes, of those the directory lists.\<close>

definition prune_staged_batches :: "string list option \<Rightarrow> u64 \<Rightarrow> u64 list \<Rightarrow> string list" where
  "prune_staged_batches listing keep protected =
     (if keep = 0 then []
      else case listing of
          None \<Rightarrow> []
        | Some names \<Rightarrow>
            let batches = staged_batches names in
            if length batches \<le> unat keep then []
            else map snd (filter (\<lambda>b. fst b \<notin> set protected)
              (drop (unat keep) (sort_key (\<lambda>b. 2 ^ 64 - unat (fst b)) batches))))"

fun dec_digits :: "nat \<Rightarrow> nat \<Rightarrow> string" where
  "dec_digits 0 n = []"
| "dec_digits (Suc k) n =
     (if n < 10 then [char_of (48 + n)] else dec_digits k (n div 10) @ [char_of (48 + n mod 10)])"

definition show_u64 :: "u64 \<Rightarrow> string" where
  "show_u64 w = dec_digits 20 (unat w)"

definition stage_consumer_batch ::
  "fire_env \<Rightarrow> continuous_task \<Rightarrow> u64 \<Rightarrow> (trigger_error + consumer_batch option) \<times> ct_io list" where
  "stage_consumer_batch env t seq =
     (case ct_schedule t of
        Consumer q batch_max window threshold \<Rightarrow>
          if \<not> validate_queue_name q then (Inl TriggerQueueName, [])
          else if \<not> tv_client env then (Inl TriggerQueue, [])
          else
            let claim = IoClaim q (max batch_max 1) (ct_id t @ ''#'' @ show_u64 seq) in
            (case tv_claim env of
               None \<Rightarrow> (Inl TriggerQueue, [claim])
             | Some items \<Rightarrow>
                 let ids = map qi_id items in
                 if tv_staged env
                 then (Inr (Some \<lparr> cb_queue = q, cb_ids = ids \<rparr>),
                   [claim, IoStage (ct_worktree t) seq items,
                    IoPrune (prune_staged_batches (tv_batches env) (tv_batch_keep env)
                      (protected_batch_seqs t seq))])
                 else (Inl TriggerStage, claim # release_consumer_batch q ids))
      | _ \<Rightarrow> (Inr None, []))"

section \<open>The executor\<close>

definition fire_text :: "fire_plan \<Rightarrow> consumer_batch option \<Rightarrow> u64 \<Rightarrow> fire_prompt" where
  "fire_text plan batch started =
     (let t = fp_task plan;
          prompt = (case batch of
              None \<Rightarrow> fp_prompt plan
            | Some b \<Rightarrow> WithBatch (fp_prompt plan) (length (cb_ids b)) (cb_queue b) (ct_worktree t) (plan_seq plan)) in
      with_continuous_run_context prompt (ct_engine t) (ct_id t) (plan_seq plan) (fp_token plan) started
        (compact_fire plan) (fp_standing plan))"

text \<open>
  A live persistent session gets the prompt, or \<open>/compact\<close>; otherwise a session is spawned, and the
  prompt pasted unless the session has gone again already. A failed spawn releases the batch.
\<close>

definition execute_fire ::
  "fire_env \<Rightarrow> fire_plan \<Rightarrow> u64 \<Rightarrow> (trigger_error + consumer_batch option) \<times> ct_io list" where
  "execute_fire env plan started =
     (let t = fp_task plan in
      case (if compact_fire plan then (Inr None, []) else stage_consumer_batch env t (plan_seq plan)) of
        (Inl e, ios) \<Rightarrow> (Inl e, ios)
      | (Inr batch, ios) \<Rightarrow>
          let text = fire_text plan batch started in
          (case fp_live plan of
             Some uid \<Rightarrow> (Inr batch, ios @ [IoPersistent uid text (compact_fire plan)])
           | None \<Rightarrow>
               if tv_spawns env
               then (Inr batch, ios @ [IoSpawn (fp_uid plan)] @
                 (if tv_still_there env then [IoPaste (fp_uid plan) text] else []))
               else (Inl TriggerSpawn, ios @
                 (case batch of None \<Rightarrow> [] | Some b \<Rightarrow> release_consumer_batch (cb_queue b) (cb_ids b)))))"

section \<open>The record of the run\<close>

definition fire_run_record :: "fire_plan \<Rightarrow> u64 \<Rightarrow> run_record" where
  "fire_run_record plan started =
     \<lparr> rr_seq = plan_seq plan, rr_token = fp_token plan, rr_started = started,
        rr_finished = (if compact_fire plan then Some started else None),
        rr_uid = Some (fp_uid plan),
        rr_status = (if compact_fire plan then RunDone else RunRunning),
        rr_source = fp_source plan \<rparr>"

definition record_fire :: "fire_plan \<Rightarrow> u64 \<Rightarrow> continuous_task \<Rightarrow> continuous_task" where
  "record_fire plan started t =
     t\<lparr> ct_last_run := Some (fire_run_record plan started),
        ct_session := Some (fp_uid plan),
        ct_channel := map_option (channel_handover (fp_uid plan)) (ct_channel t),
        ct_run_count := sat_add (ct_run_count t) 1,
        ct_last_fired := started,
        ct_in_flight := None,
        ct_blocked := None,
        ct_investigations := 0,
        ct_investigator := None,
        ct_investigator_started := None \<rparr>"

definition clear_in_flight :: "continuous_task \<Rightarrow> continuous_task" where
  "clear_in_flight t = t\<lparr> ct_in_flight := None \<rparr>"

definition disk_modify ::
  "string \<Rightarrow> bool \<Rightarrow> (continuous_task \<Rightarrow> continuous_task) \<Rightarrow> continuous_task option \<Rightarrow> continuous_task option" where
  "disk_modify tid saved f disk = snd (ct_modify tid saved f disk)"

text \<open>What follows the guard: the executor, then the record or the roll back.\<close>

definition finish_fire ::
  "fire_env \<Rightarrow> trigger_params \<Rightarrow> fire_plan \<Rightarrow> u64 \<Rightarrow> continuous_task option \<Rightarrow>
   (trigger_error + trigger_answer) \<times> continuous_task option \<times> ct_io list" where
  "finish_fire env p plan started disk =
     (let seq = plan_seq plan; compact = compact_fire plan in
      case execute_fire env plan started of
        (Inl e, ios) \<Rightarrow>
          (Inl e, disk_modify (tg_task p) (tv_record_saved env) clear_in_flight disk,
           ios @ [audit seq ''fired'' (Some (fp_token plan)) (Some (fp_uid plan)) (fp_source plan) (Some ''failed'')])
      | (Inr batch, ios) \<Rightarrow>
          (Inr (Fired (fp_token plan) (fp_uid plan) (ct_mode (fp_task plan)) compact),
           disk_modify (tg_task p) (tv_record_saved env) (record_fire plan started) disk,
           ios @ (case batch of None \<Rightarrow> [] | Some b \<Rightarrow> ack_consumer_batch (cb_queue b) (cb_ids b)) @
           [audit seq ''fired'' (Some (fp_token plan)) (Some (fp_uid plan)) (fp_source plan)
              (Some (if compact then ''done'' else ''running''))]))"

definition trigger ::
  "fire_env \<Rightarrow> ct_caller \<Rightarrow> trigger_params \<Rightarrow> continuous_task option \<Rightarrow>
   (trigger_error + trigger_answer) \<times> continuous_task option \<times> ct_io list" where
  "trigger env caller p disk =
     (case prepare_fire env caller p disk of
        (Inl e, ios) \<Rightarrow> (Inl e, disk, ios)
      | (Inr (Inl sk), ios) \<Rightarrow> (Inr (NotFired sk), disk, ios)
      | (Inr (Inr plan), ios) \<Rightarrow>
          (case arm_continuous_fire (fp_task plan) (fp_token plan) (fp_uid plan) (tv_now env)
                  (tv_arm_saved env) (map_option (tv_before_arm env) disk) of
             (CtAborted a, d) \<Rightarrow> (Inr (NotFired (skip_of_abort a)), d, ios)
           | (CtPersist e, d) \<Rightarrow> (Inl (TriggerArm e), d, ios)
           | (CtSaved _, d) \<Rightarrow>
               (case finish_fire env p plan (tv_now env) (map_option (tv_before_record env) d) of
                  (res, d', ios') \<Rightarrow> (res, d', ios @ ios'))))"

definition continuous_run_now ::
  "fire_env \<Rightarrow> ct_caller \<Rightarrow> trigger_params \<Rightarrow> continuous_task option \<Rightarrow>
   (trigger_error + trigger_answer) \<times> continuous_task option \<times> ct_io list" where
  "continuous_run_now = trigger"

end
