(* ===== verification/ContinuousRuns.thy ===== *)
theory ContinuousRuns
  imports ContinuousFire
begin

text \<open>
  How the runs of a continuous task end and how an operator closes admission: \<open>report_done\<close>,
  \<open>continuous.force_done\<close>, the exit of a session, \<open>resolve_stuck\<close> and the helpers it shares with
  the watchdog, \<open>continuous.pause\<close> and \<open>continuous.drain\<close> (\<open>daemon/src/control/methods.rs\<close>). The
  status and the receipts of a stop request are in \<open>ContinuousDrain\<close>.

  Each operation is a change of the record under its lock, wrapped in what the call checks before.
\<close>

section \<open>Closing a run\<close>

definition owns_running :: "string \<Rightarrow> continuous_task \<Rightarrow> bool" where
  "owns_running uid t \<longleftrightarrow>
     (case ct_last_run t of
        None \<Rightarrow> False
      | Some r \<Rightarrow> rr_uid r = Some uid \<and> rr_status r = RunRunning)"

definition end_run :: "ct_status \<Rightarrow> u64 \<Rightarrow> run_record \<Rightarrow> run_record" where
  "end_run status now r = r\<lparr> rr_status := status, rr_finished := Some now \<rparr>"

definition clean_close :: "continuous_task \<Rightarrow> continuous_task" where
  "clean_close t = t\<lparr> ct_wedge_closes := 0, ct_hold_releases := 0 \<rparr>"

definition unblock :: "continuous_task \<Rightarrow> continuous_task" where
  "unblock t = t\<lparr> ct_blocked := None \<rparr>"

definition report_flip :: "string \<Rightarrow> u64 \<Rightarrow> continuous_task \<Rightarrow> continuous_task" where
  "report_flip uid now t =
     (if owns_running uid t
      then (unblock (clean_close (on_last_run (end_run RunDone now) t)))
        \<lparr> ct_drain := map_option (\<lambda>d. d\<lparr> drn_diagnostic := None \<rparr>) (ct_drain t) \<rparr>
      else t)"

datatype report_error =
    ReportOperator | ReportRetired | ReportNoSession | ReportShell | ReportPersist persist_error

datatype report_answer = SessionReported | RunReported bool

text \<open>
  \<open>session\<close> is the type of the caller's session and the continuous task it is a tick of. The file
  is the one of that task.
\<close>

definition report_done ::
  "ct_caller \<Rightarrow> bool \<Rightarrow> (string \<times> string option) option \<Rightarrow> u64 \<Rightarrow> bool \<Rightarrow> continuous_task option \<Rightarrow>
   (report_error + report_answer) \<times> continuous_task option \<times> ct_io list" where
  "report_done caller open session now saved disk =
     (case caller of
        OperatorToken _ \<Rightarrow> (Inl ReportOperator, disk, [])
      | SessionUid uid \<Rightarrow>
          if \<not> open then (Inl ReportRetired, disk, [])
          else case session of
              None \<Rightarrow> (Inl ReportNoSession, disk, [])
            | Some (stype, task) \<Rightarrow>
                if stype = ''bash'' then (Inl ReportShell, disk, [])
                else case task of
                    None \<Rightarrow> (Inr SessionReported, disk, [])
                  | Some tid \<Rightarrow>
                      (case ct_modify tid saved (report_flip uid now) disk of
                         (Inl e, d) \<Rightarrow> (Inl (ReportPersist e), d, [])
                       | (Inr t', d) \<Rightarrow>
                           let marked = (case disk of None \<Rightarrow> False | Some t \<Rightarrow> owns_running uid t) in
                           (Inr (RunReported marked), d,
                            (case ct_last_run t' of
                               Some r \<Rightarrow> if marked
                                 then [audit (rr_seq r) ''report_done'' (Some (rr_token r)) (rr_uid r) (''session:'' @ uid) (Some ''done'')]
                                 else []
                             | None \<Rightarrow> []))))"

definition force_matches :: "u64 \<Rightarrow> continuous_task \<Rightarrow> bool" where
  "force_matches seq t \<longleftrightarrow>
     (case ct_last_run t of None \<Rightarrow> False | Some r \<Rightarrow> rr_seq r = seq \<and> rr_status r = RunRunning)"

definition force_flip :: "u64 \<Rightarrow> u64 \<Rightarrow> continuous_task \<Rightarrow> continuous_task" where
  "force_flip seq now t =
     (if force_matches seq t then unblock (clean_close (on_last_run (end_run RunDone now) t)) else t)"

datatype operator_error =
    OpAdoptionPending | OpInvalidId run_id_error | OpNotFound | OpConflict | OpPersist persist_error | OpLock

definition continuous_force_done ::
  "bool \<Rightarrow> string \<Rightarrow> u64 \<Rightarrow> u64 \<Rightarrow> bool \<Rightarrow> continuous_task option \<Rightarrow>
   (operator_error + bool) \<times> continuous_task option \<times> ct_io list" where
  "continuous_force_done available tid seq now saved disk =
     (if \<not> available then (Inl OpAdoptionPending, disk, [])
      else case validate_task_id tid of
          Some e \<Rightarrow> (Inl (OpInvalidId e), disk, [])
        | None \<Rightarrow>
            (case disk of
               None \<Rightarrow> (Inl OpNotFound, disk, [])
             | Some t \<Rightarrow>
                 (case ct_modify tid saved (force_flip seq now) disk of
                    (Inl e, d) \<Rightarrow> (Inl (OpPersist e), d, [])
                  | (Inr t', d) \<Rightarrow>
                      (Inr (force_matches seq t), d,
                       if force_matches seq t
                       then [audit seq ''force_done'' (map_option rr_token (ct_last_run t'))
                         (Option.bind (ct_last_run t') rr_uid) ''operator'' (Some ''done'')]
                       else []))))"

text \<open>The exit of a session: a kill under the memory cap and a non-zero code are failures.\<close>

definition exit_run_status :: "bool \<Rightarrow> int option \<Rightarrow> ct_status" where
  "exit_run_status memory_cap code =
     (if memory_cap then RunFailed
      else case code of Some c \<Rightarrow> if c \<noteq> 0 then RunFailed else RunDone | None \<Rightarrow> RunDone)"

definition exit_held :: "continuous_task \<Rightarrow> bool" where
  "exit_held t \<longleftrightarrow> ct_recovery t \<noteq> None \<or> (ct_engine t = CtCodex \<and> ct_blocked t \<noteq> None)"

definition exit_flip :: "string \<Rightarrow> ct_status \<Rightarrow> u64 \<Rightarrow> continuous_task \<Rightarrow> continuous_task" where
  "exit_flip uid status now t =
     (if \<not> exit_held t \<and> owns_running uid t
      then unblock ((if status = RunDone then clean_close else id) (on_last_run (end_run status now) t))
      else t)"

definition close_continuous_run_for_exit ::
  "string \<Rightarrow> string \<Rightarrow> ct_status \<Rightarrow> u64 \<Rightarrow> bool \<Rightarrow> continuous_task option \<Rightarrow>
   continuous_task option \<times> ct_io list" where
  "close_continuous_run_for_exit tid uid status now saved disk =
     (disk_modify tid saved (exit_flip uid status now) disk,
      (case disk of
         None \<Rightarrow> []
       | Some t \<Rightarrow>
           if validate_task_id tid = None \<and> \<not> exit_held t \<and> owns_running uid t
           then (case ct_last_run t of
               None \<Rightarrow> []
             | Some r \<Rightarrow> [audit (rr_seq r) ''session_exited'' (Some (rr_token r)) (Some uid) ''session-exit''
                 (Some (if status = RunDone then ''done'' else ''failed''))])
           else []))"

section \<open>A stuck run\<close>

definition mark_stuck :: "continuous_task \<Rightarrow> continuous_task" where
  "mark_stuck t = (on_last_run (\<lambda>r. r\<lparr> rr_status := RunStuck \<rparr>) t)\<lparr> ct_investigator := None \<rparr>"

definition run_audit :: "continuous_task \<Rightarrow> u64 \<Rightarrow> string \<Rightarrow> string \<Rightarrow> string option \<Rightarrow> ct_io" where
  "run_audit t seq event source status =
     audit seq event (map_option rr_token (ct_last_run t)) (Option.bind (ct_last_run t) rr_uid) source status"

definition kill_run :: "continuous_task \<Rightarrow> ct_io list" where
  "kill_run t = (case Option.bind (ct_last_run t) rr_uid of None \<Rightarrow> [] | Some uid \<Rightarrow> [IoKill uid])"

definition escalate_stuck ::
  "continuous_task \<Rightarrow> u64 \<Rightarrow> bool \<Rightarrow> continuous_task option \<Rightarrow>
   (persist_error + unit) \<times> continuous_task option \<times> ct_io list" where
  "escalate_stuck task seq saved disk =
     (case ct_modify (ct_id task) saved mark_stuck disk of
        (Inl e, d) \<Rightarrow> (Inl e, d, kill_run task)
      | (Inr _, d) \<Rightarrow>
          (Inr (), d, kill_run task @
             [run_audit task seq ''escalated'' ''continuous-watchdog'' (Some ''stuck''), IoNotify ''stuck-escalated'']))"

definition abandon_investigator :: "continuous_task \<Rightarrow> continuous_task" where
  "abandon_investigator t = t\<lparr> ct_investigator := None, ct_investigator_started := None \<rparr>"

definition abandon_timed_out_investigator ::
  "continuous_task \<Rightarrow> u64 \<Rightarrow> string \<Rightarrow> bool \<Rightarrow> continuous_task option \<Rightarrow> continuous_task option \<times> ct_io list" where
  "abandon_timed_out_investigator task seq investigator saved disk =
     (disk_modify (ct_id task) saved abandon_investigator disk,
      [IoKill investigator,
       audit seq ''investigator_timeout'' (map_option rr_token (ct_last_run task)) (Some investigator)
         ''continuous-watchdog'' None])"

definition record_investigator :: "string \<Rightarrow> u64 \<Rightarrow> continuous_task \<Rightarrow> continuous_task" where
  "record_investigator uid now t =
     t\<lparr> ct_investigator := Some uid, ct_investigator_started := Some now,
        ct_investigations := sat_add (ct_investigations t) 1 \<rparr>"

text \<open>\<open>spawns\<close> is the answer of composing the parameters and of the spawn.\<close>

definition spawn_investigator ::
  "continuous_task \<Rightarrow> u64 \<Rightarrow> string \<Rightarrow> bool \<Rightarrow> bool \<Rightarrow> u64 \<Rightarrow> bool \<Rightarrow> continuous_task option \<Rightarrow>
   (trigger_error + string) \<times> continuous_task option \<times> ct_io list" where
  "spawn_investigator task seq uid spawns still_there now saved disk =
     (if \<not> spawns then (Inl TriggerSpawn, disk, [])
      else
        let ios = [IoSpawn uid] @
          (if still_there then [IoPaste uid (InvestigatorPrompt (ct_id task) seq)] else []) in
        (case ct_modify (ct_id task) saved (record_investigator uid now) disk of
           (Inl e, d) \<Rightarrow> (Inl (TriggerArm e), d, ios)
         | (Inr _, d) \<Rightarrow>
             (Inr uid, d, ios @ [run_audit task seq ''stuck'' ''continuous-watchdog'' (Some ''running'')])))"

record stuck_env =
  sk_caller :: ct_caller
  sk_tick_of :: "string \<Rightarrow> string option"
  sk_lock :: bool
  sk_now :: u64
  sk_others :: "continuous_task \<Rightarrow> continuous_task"
  sk_saved :: bool
  sk_fire :: fire_env

datatype stuck_error =
    StuckInvalidId run_id_error | StuckOperator | StuckNotATick | StuckLock | StuckNotFound
  | StuckNotInvestigator | StuckPersist persist_error | StuckAction string | StuckRefire trigger_error

datatype stuck_answer = StuckDraining | Unstuck | Restarted trigger_answer | Escalated

definition mark_unstuck :: "u64 \<Rightarrow> continuous_task \<Rightarrow> continuous_task" where
  "mark_unstuck now t = (on_last_run (\<lambda>r. r\<lparr> rr_started := now \<rparr>) t)\<lparr> ct_investigator := None \<rparr>"

definition clear_investigator :: "continuous_task \<Rightarrow> continuous_task" where
  "clear_investigator t = t\<lparr> ct_investigator := None \<rparr>"

definition resolve_restart ::
  "stuck_env \<Rightarrow> continuous_task \<Rightarrow> string \<Rightarrow> u64 \<Rightarrow> continuous_task option \<Rightarrow>
   (stuck_error + stuck_answer) \<times> continuous_task option \<times> ct_io list" where
  "resolve_restart env t tid seq disk =
     (case ct_modify tid (sk_saved env) clear_investigator disk of
        (Inl e, d) \<Rightarrow> (Inl (StuckPersist e), d, kill_run t)
      | (Inr _, d) \<Rightarrow>
          (case trigger (sk_fire env) (OperatorToken ''continuous-resolve-stuck'')
                  \<lparr> tg_task = tid, tg_prompt = None, tg_mode = None, tg_token = None \<rparr> d of
             (res, d', ios) \<Rightarrow>
               ((case res of Inl e \<Rightarrow> Inl (StuckRefire e) | Inr a \<Rightarrow> Inr (Restarted a)), d',
                kill_run t @ [run_audit t seq ''restarted'' ''continuous-investigator'' None] @ ios)))"

definition resolve_action ::
  "stuck_env \<Rightarrow> continuous_task \<Rightarrow> string \<Rightarrow> u64 \<Rightarrow> string \<Rightarrow> continuous_task option \<Rightarrow>
   (stuck_error + stuck_answer) \<times> continuous_task option \<times> ct_io list" where
  "resolve_action env t tid seq action disk =
     (if action = ''mark_unstuck'' then
        (case ct_modify tid (sk_saved env) (mark_unstuck (sk_now env)) disk of
           (Inl e, d) \<Rightarrow> (Inl (StuckPersist e), d, [])
         | (Inr _, d) \<Rightarrow>
             (Inr Unstuck, d, [run_audit t seq ''unstuck'' ''continuous-investigator'' None]))
      else if action = ''restart'' then resolve_restart env t tid seq disk
      else if action = ''escalate'' then
        (case escalate_stuck t seq (sk_saved env) disk of
           (Inl e, d, ios) \<Rightarrow> (Inl (StuckPersist e), d, ios)
         | (Inr _, d, ios) \<Rightarrow> (Inr Escalated, d, ios))
      else (Inl (StuckAction action), disk, []))"

definition resolve_stuck ::
  "stuck_env \<Rightarrow> string \<Rightarrow> u64 \<Rightarrow> string \<Rightarrow> continuous_task option \<Rightarrow>
   (stuck_error + stuck_answer) \<times> continuous_task option \<times> ct_io list" where
  "resolve_stuck env tid seq action disk =
     (case validate_task_id tid of
        Some e \<Rightarrow> (Inl (StuckInvalidId e), disk, [])
      | None \<Rightarrow>
          (case sk_caller env of
             OperatorToken _ \<Rightarrow> (Inl StuckOperator, disk, [])
           | SessionUid uid \<Rightarrow>
               if sk_tick_of env uid \<noteq> Some tid then (Inl StuckNotATick, disk, [])
               else if \<not> sk_lock env then (Inl StuckLock, disk, [])
               else (case load_task tid disk of
                   None \<Rightarrow> (Inl StuckNotFound, disk, [])
                 | Some t \<Rightarrow>
                     if ct_investigator t \<noteq> Some uid then (Inl StuckNotInvestigator, disk, [])
                     else if ct_drain t \<noteq> None \<and> action \<noteq> ''mark_unstuck''
                     then (Inr StuckDraining, disk, [])
                     else resolve_action env t tid seq action (map_option (sk_others env) disk))))"

section \<open>Pause and drain\<close>

record pause_params =
  pz_task :: string
  pz_paused :: bool
  pz_request :: "string option"
  pz_revision :: "u64 option"

definition unreconciled :: "continuous_task \<Rightarrow> bool" where
  "unreconciled t \<longleftrightarrow>
     (case ct_reconciliation t of
        None \<Rightarrow> False
      | Some r \<Rightarrow> list_ex (\<lambda>(_, status, _). status \<noteq> ItemCompleted) (crc_items r)) \<and>
     ct_blocked t = None \<and> ct_hold t = None \<and> ct_recovery t = None"

definition retired_in_place :: "continuous_task \<Rightarrow> bool" where
  "retired_in_place t \<longleftrightarrow>
     ct_retirement t \<noteq> None \<and>
     \<not> (ct_session t = None \<and> ct_engine_changes t \<noteq> [] \<and>
        ech_target (last (ct_engine_changes t)) = ct_engine t \<and>
        ech_run_count (last (ct_engine_changes t)) = ct_run_count t)"

definition pause_change :: "pause_params \<Rightarrow> continuous_task \<Rightarrow> unit + continuous_task" where
  "pause_change p t =
     (if \<not> pz_paused p \<and> unreconciled t then Inl ()
      else if \<not> pz_paused p \<and> retired_in_place t then Inl ()
      else if (case pz_revision p of None \<Rightarrow> False | Some v \<Rightarrow> v \<noteq> ct_revision t) \<or>
          (case pz_request p of None \<Rightarrow> False | Some rid \<Rightarrow> map_option drn_request (ct_drain t) \<noteq> Some rid)
      then Inl ()
      else
        let t1 = (if ct_paused t \<noteq> pz_paused p \<or> (\<not> pz_paused p \<and> ct_drain t \<noteq> None)
              then t\<lparr> ct_revision := sat_add (ct_revision t) 1 \<rparr> else t);
            t2 = t1\<lparr> ct_paused := pz_paused p \<rparr> in
        Inr (if pz_paused p then t2
             else t2\<lparr> ct_drain := None, ct_reconciliation := None, ct_retirement := None \<rparr>))"

definition continuous_pause ::
  "bool \<Rightarrow> bool \<Rightarrow> pause_params \<Rightarrow> bool \<Rightarrow> continuous_task option \<Rightarrow>
   (operator_error + bool) \<times> continuous_task option" where
  "continuous_pause available lock p saved disk =
     (if \<not> available then (Inl OpAdoptionPending, disk)
      else case validate_task_id (pz_task p) of
          Some e \<Rightarrow> (Inl (OpInvalidId e), disk)
        | None \<Rightarrow>
            if disk = None then (Inl OpNotFound, disk)
            else if \<not> lock then (Inl OpLock, disk)
            else (case ct_try_modify (pz_task p) saved (pause_change p) disk of
                (CtSaved t, d) \<Rightarrow> (Inr (ct_paused t), d)
              | (CtAborted _, d) \<Rightarrow> (Inl OpConflict, d)
              | (CtPersist e, d) \<Rightarrow> (Inl (OpPersist e), d)))"

definition continuous_drain ::
  "bool \<Rightarrow> bool \<Rightarrow> string \<Rightarrow> u64 \<Rightarrow> string \<Rightarrow> bool \<Rightarrow> continuous_task option \<Rightarrow>
   (operator_error + continuous_task) \<times> continuous_task option" where
  "continuous_drain available lock tid now request_id saved disk =
     (if \<not> available then (Inl OpAdoptionPending, disk)
      else case validate_task_id tid of
          Some e \<Rightarrow> (Inl (OpInvalidId e), disk)
        | None \<Rightarrow>
            if disk = None then (Inl OpNotFound, disk)
            else if \<not> lock then (Inl OpLock, disk)
            else (case ct_modify tid saved (drain_request now request_id) disk of
                (Inl e, d) \<Rightarrow> (Inl (OpPersist e), d)
              | (Inr t, d) \<Rightarrow> (Inr t, d)))"

end
