(* ===== verification/ContinuousTick.thy ===== *)
theory ContinuousTick
  imports ContinuousRuns
begin

text \<open>
  The scheduler of continuous tasks, \<open>daemon/src/continuous/scheduler.rs\<close>: what is due, how a fire
  advances the schedule, and the passes of a tick. A pass reads the snapshot that the tick loaded
  and changes the file; \<open>dead\<close> is what \<open>session_is_dead\<close> answers.

  Of the passes of \<open>tick_once\<close> the one over transcript tails (\<open>auth_wedge_pass\<close>) is in
  \<open>ContinuousWedge\<close>; the one over the credentials file is not modelled.
\<close>

definition RECONCILE_GRACE_SECS :: u64 where "RECONCILE_GRACE_SECS = 60"
definition BACKOFF_CAP_SECS :: u64 where "BACKOFF_CAP_SECS = 3600"
definition CONSECUTIVE_FAILURE_LIMIT :: u32 where "CONSECUTIVE_FAILURE_LIMIT = 5"
definition CONSUMER_REFIRE_SPACING_SECS :: u64 where "CONSUMER_REFIRE_SPACING_SECS = 60"
definition QUEUE_DEPTH_CACHE_TTL_SECS :: u64 where "QUEUE_DEPTH_CACHE_TTL_SECS = 30"
definition QUEUE_DEPTH_MAX_STALE_SECS :: u64 where "QUEUE_DEPTH_MAX_STALE_SECS = 300"
definition CAPACITY_HOLD_RELEASE_BASE_SECS :: u64 where "CAPACITY_HOLD_RELEASE_BASE_SECS = 1800"
definition CAPACITY_HOLD_RELEASE_MAX_SECS :: u64 where "CAPACITY_HOLD_RELEASE_MAX_SECS = 14400"
definition COMPACT_SETTLE_SPACING_SECS :: u64 where "COMPACT_SETTLE_SPACING_SECS = 600"

section \<open>Backoff\<close>

text \<open>\<open>1u64 << n.min(16)\<close> never overflows, so \<open>checked_shl\<close> always has its value.\<close>

definition backoff_secs :: "u64 \<Rightarrow> u32 \<Rightarrow> u64" where
  "backoff_secs every failures =
     min (sat_mul (max every 1) (2 ^ unat (min failures 16))) BACKOFF_CAP_SECS"

definition capacity_hold_backoff :: "u32 \<Rightarrow> u64" where
  "capacity_hold_backoff releases =
     min (sat_mul CAPACITY_HOLD_RELEASE_BASE_SECS (2 ^ unat (min releases 16))) CAPACITY_HOLD_RELEASE_MAX_SECS"

section \<open>Advance\<close>

datatype fire_outcome = OutFired | OutFiredCompact | OutSkipped | OutSkipActive | OutFailed

text \<open>The spacing of a schedule; an on-demand or cron task has none and is left alone.\<close>

definition fire_spacing :: "ct_schedule \<Rightarrow> u64 option" where
  "fire_spacing s =
     (case s of
        Periodic every \<Rightarrow> Some (max every 1)
      | Consumer _ _ _ _ \<Rightarrow> Some CONSUMER_REFIRE_SPACING_SECS
      | _ \<Rightarrow> None)"

definition fail_launch :: "u64 \<Rightarrow> u64 \<Rightarrow> continuous_task \<Rightarrow> continuous_task" where
  "fail_launch every now t =
     (let n = sat_add (ct_failures t) 1 in
      t\<lparr> ct_failures := n,
         ct_next_fire := sat_add now (backoff_secs every n),
         ct_paused := ct_paused t \<or> CONSECUTIVE_FAILURE_LIMIT \<le> n \<rparr>)"

definition advance_change :: "fire_outcome \<Rightarrow> u64 \<Rightarrow> continuous_task \<Rightarrow> continuous_task" where
  "advance_change outcome now t =
     (case fire_spacing (ct_schedule t) of
        None \<Rightarrow> t
      | Some every \<Rightarrow>
          (case outcome of
             OutFired \<Rightarrow>
               t\<lparr> ct_last_fired := now, ct_failures := 0, ct_next_fire := sat_add now every \<rparr>
           | OutFiredCompact \<Rightarrow>
               t\<lparr> ct_last_fired := now, ct_failures := 0,
                  ct_next_fire := sat_add now (max every COMPACT_SETTLE_SPACING_SECS) \<rparr>
           | OutSkipped \<Rightarrow> t
           | OutSkipActive \<Rightarrow> t\<lparr> ct_next_fire := sat_add now every \<rparr>
           | OutFailed \<Rightarrow> fail_launch every now t))"

definition auto_pauses :: "fire_outcome \<Rightarrow> continuous_task \<Rightarrow> bool" where
  "auto_pauses outcome t \<longleftrightarrow>
     fire_spacing (ct_schedule t) \<noteq> None \<and> outcome = OutFailed \<and> \<not> ct_paused t \<and>
     CONSECUTIVE_FAILURE_LIMIT \<le> sat_add (ct_failures t) 1"

definition run_or_count :: "continuous_task \<Rightarrow> u64" where
  "run_or_count t = (case ct_last_run t of Some r \<Rightarrow> rr_seq r | None \<Rightarrow> ucast (ct_run_count t))"

definition advance_after_fire ::
  "string \<Rightarrow> fire_outcome \<Rightarrow> u64 \<Rightarrow> bool \<Rightarrow> continuous_task option \<Rightarrow> continuous_task option \<times> ct_io list" where
  "advance_after_fire tid outcome now saved disk =
     (disk_modify tid saved (advance_change outcome now) disk,
      (case disk of
         None \<Rightarrow> []
       | Some t \<Rightarrow>
           if validate_task_id tid = None \<and> auto_pauses outcome t
           then [IoNotify ''circuit-breaker'',
             audit (run_or_count t) ''auto_paused'' None None SCHEDULER_CALLER_TOKEN (Some ''paused'')]
           else []))"

section \<open>What is due\<close>

definition active_account_block :: "continuous_task \<Rightarrow> account_block option" where
  "active_account_block t =
     (case ct_last_run t of
        None \<Rightarrow> None
      | Some r \<Rightarrow>
          (case ct_blocked t of
             None \<Rightarrow> None
           | Some b \<Rightarrow>
               if rr_status r = RunRunning \<and> abk_seq b = rr_seq r \<and> rr_uid r = Some (abk_uid b)
               then Some b else None))"

definition run_active :: "continuous_task \<Rightarrow> bool" where
  "run_active t \<longleftrightarrow> map_option rr_status (ct_last_run t) = Some RunRunning"

definition should_supervise :: "continuous_task \<Rightarrow> bool" where
  "should_supervise t \<longleftrightarrow>
     ct_mode t = ModePersistent \<and> ct_adoption t = None \<and> ct_supervise t \<and> ct_enabled t \<and>
     \<not> ct_paused t \<and> ct_in_flight t = None \<and> active_account_block t = None \<and>
     ct_hold t = None \<and> ct_recovery t = None \<and> ct_retirement t = None"

definition fresh_run_active :: "continuous_task \<Rightarrow> bool" where
  "fresh_run_active t \<longleftrightarrow> ct_mode t = ModeFresh \<and> run_active t"

definition run_active_blocks_fire :: "continuous_task \<Rightarrow> bool" where
  "run_active_blocks_fire t \<longleftrightarrow>
     (if ct_hold t \<noteq> None \<or> ct_recovery t \<noteq> None \<or> ct_retirement t \<noteq> None \<or> active_account_block t \<noteq> None
      then True
      else if is_consumer t then run_active t
      else fresh_run_active t)"

record queue_depth =
  qd_pending :: u64
  qd_oldest :: "u64 option"
  qd_fetched :: u64

definition depth_usable :: "u64 \<Rightarrow> queue_depth \<Rightarrow> bool" where
  "depth_usable now d \<longleftrightarrow> sat_sub now (qd_fetched d) \<le> QUEUE_DEPTH_MAX_STALE_SECS"

definition consumer_due :: "u64 \<Rightarrow> u64 \<Rightarrow> u32 \<Rightarrow> u64 \<Rightarrow> queue_depth \<Rightarrow> bool" where
  "consumer_due now window threshold last_fired d \<longleftrightarrow>
     depth_usable now d \<and> 0 < qd_pending d \<and>
     ((0 < threshold \<and> ucast threshold \<le> qd_pending d) \<or> last_fired = 0 \<or>
      window \<le> sat_sub now (case qd_oldest d of Some at \<Rightarrow> at | None \<Rightarrow> last_fired))"

definition may_be_due :: "u64 \<Rightarrow> continuous_task \<Rightarrow> bool" where
  "may_be_due now t \<longleftrightarrow>
     ct_adoption t = None \<and> ct_enabled t \<and> \<not> ct_paused t \<and> ct_in_flight t = None \<and> ct_next_fire t \<le> now"

definition is_due :: "u64 \<Rightarrow> (string \<times> queue_depth) list \<Rightarrow> continuous_task \<Rightarrow> bool" where
  "is_due now depths t \<longleftrightarrow>
     may_be_due now t \<and>
     (case ct_schedule t of
        Periodic _ \<Rightarrow> True
      | Consumer q _ window threshold \<Rightarrow>
          (case map_of depths q of
             None \<Rightarrow> False
           | Some d \<Rightarrow> consumer_due now window threshold (ct_last_fired t) d)
      | _ \<Rightarrow> False)"

definition collect_due :: "continuous_task list \<Rightarrow> u64 \<Rightarrow> (string \<times> queue_depth) list \<Rightarrow> string list" where
  "collect_due tasks now depths = map ct_id (filter (is_due now depths) tasks)"

section \<open>The depth cache\<close>

record depth_entry =
  dce_attempt :: u64
  dce_good :: "queue_depth option"
  dce_logged :: u64

definition depth_entry_zero :: depth_entry where
  "depth_entry_zero = \<lparr> dce_attempt = 0, dce_good = None, dce_logged = 0 \<rparr>"

definition wanted_queues :: "continuous_task list \<Rightarrow> u64 \<Rightarrow> string list" where
  "wanted_queues tasks now =
     rev (remdups (rev (concat (map (\<lambda>t.
       if ct_enabled t \<and> \<not> ct_paused t \<and> ct_next_fire t \<le> now
       then (case ct_schedule t of Consumer q _ _ _ \<Rightarrow> [q] | _ \<Rightarrow> [])
       else []) tasks))))"

text \<open>
  One queue: what the due check sees of it, the entry after, and whether the API was asked.
  \<open>answer\<close> is the API's: pending items and the oldest of them.
\<close>

definition poll_depth ::
  "u64 \<Rightarrow> (u64 \<times> u64 option) option \<Rightarrow> depth_entry option \<Rightarrow> queue_depth option \<times> depth_entry \<times> bool" where
  "poll_depth now answer entry =
     (case entry of
        Some e \<Rightarrow>
          if sat_sub now (dce_attempt e) < QUEUE_DEPTH_CACHE_TTL_SECS then (dce_good e, e, False)
          else
            (case answer of
               Some (pending, oldest) \<Rightarrow>
                 let d = \<lparr> qd_pending = pending, qd_oldest = oldest, qd_fetched = now \<rparr> in
                 (Some d, \<lparr> dce_attempt = now, dce_good = Some d, dce_logged = 0 \<rparr>, True)
             | None \<Rightarrow>
                 (dce_good e,
                  e\<lparr> dce_attempt := now,
                     dce_logged := (if dce_logged e = 0 \<or> QUEUE_DEPTH_CACHE_TTL_SECS \<le> sat_sub now (dce_logged e)
                       then now else dce_logged e) \<rparr>, True))
      | None \<Rightarrow>
          (case answer of
             Some (pending, oldest) \<Rightarrow>
               let d = \<lparr> qd_pending = pending, qd_oldest = oldest, qd_fetched = now \<rparr> in
               (Some d, \<lparr> dce_attempt = now, dce_good = Some d, dce_logged = 0 \<rparr>, True)
           | None \<Rightarrow> (None, depth_entry_zero\<lparr> dce_attempt := now, dce_logged := now \<rparr>, True)))"

fun poll_queues ::
  "u64 \<Rightarrow> (string \<Rightarrow> (u64 \<times> u64 option) option) \<Rightarrow> string list \<Rightarrow> (string \<times> depth_entry) list \<Rightarrow>
   (string \<times> queue_depth) list \<times> (string \<times> depth_entry) list" where
  "poll_queues now api [] cache = ([], cache)"
| "poll_queues now api (q # qs) cache =
     (case poll_depth now (api q) (map_of cache q) of
        (seen, e, _) \<Rightarrow>
          (case poll_queues now api qs ((q, e) # cache) of
             (out, cache') \<Rightarrow> ((case seen of None \<Rightarrow> [] | Some d \<Rightarrow> [(q, d)]) @ out, cache')))"

definition consumer_depth_snapshot ::
  "u64 \<Rightarrow> (string \<Rightarrow> (u64 \<times> u64 option) option) \<Rightarrow> continuous_task list \<Rightarrow> (string \<times> depth_entry) list \<Rightarrow>
   (string \<times> queue_depth) list \<times> (string \<times> depth_entry) list" where
  "consumer_depth_snapshot now api tasks cache = poll_queues now api (wanted_queues tasks now) cache"

section \<open>The passes\<close>

definition fire_outcome_of :: "trigger_error + trigger_answer \<Rightarrow> fire_outcome" where
  "fire_outcome_of res =
     (case res of
        Inl _ \<Rightarrow> OutFailed
      | Inr (NotFired _) \<Rightarrow> OutSkipped
      | Inr (Fired _ _ _ compact) \<Rightarrow> if compact then OutFiredCompact else OutFired)"

text \<open>\<open>fire_task\<close>: a panic of \<open>trigger\<close> is caught and is a failure.\<close>

definition fire_task ::
  "fire_env \<Rightarrow> bool \<Rightarrow> string \<Rightarrow> string \<Rightarrow> continuous_task option \<Rightarrow>
   fire_outcome \<times> continuous_task option \<times> ct_io list" where
  "fire_task env panics tid token disk =
     (case trigger env (OperatorToken SCHEDULER_CALLER_TOKEN)
             \<lparr> tg_task = tid, tg_prompt = None, tg_mode = None, tg_token = Some token \<rparr> disk of
        (res, d, ios) \<Rightarrow> (if panics then OutFailed else fire_outcome_of res, d, ios))"

record sched_env =
  se_now :: u64
  se_dead :: "string \<Rightarrow> bool"
  se_token :: string
  se_fire :: fire_env
  se_saved :: bool
  se_others :: "continuous_task \<Rightarrow> continuous_task"
  se_depths :: "(string \<times> queue_depth) list"
  se_lock :: bool
  se_max_investigations :: u32
  se_investigator_budget :: u32
  se_uid :: string
  se_spawns :: bool
  se_still_there :: bool

text \<open>A stranded run: an armed guard, else a run that is running in a session.\<close>

definition stranded_run :: "continuous_task \<Rightarrow> (string \<times> u64 \<times> u64 \<times> string) option" where
  "stranded_run t =
     (case ct_in_flight t of
        Some fl \<Rightarrow> Some (if_uid fl, if_started fl, run_or_count t, if_token fl)
      | None \<Rightarrow>
          (case ct_last_run t of
             None \<Rightarrow> None
           | Some r \<Rightarrow>
               (case rr_uid r of
                  None \<Rightarrow> None
                | Some uid \<Rightarrow>
                    if rr_status r = RunRunning then Some (uid, rr_started r, rr_seq r, rr_token r) else None)))"

definition orphan_change :: "u64 \<Rightarrow> continuous_task \<Rightarrow> continuous_task" where
  "orphan_change now t =
     (on_last_run (\<lambda>r. r\<lparr> rr_status := RunOrphaned,
          rr_finished := Some (case rr_finished r of Some at \<Rightarrow> at | None \<Rightarrow> now) \<rparr>) t)
       \<lparr> ct_blocked := None, ct_in_flight := None \<rparr>"

definition orphan_exempt :: "continuous_task \<Rightarrow> bool" where
  "orphan_exempt t \<longleftrightarrow>
     ct_adoption t \<noteq> None \<or> ct_recovery t \<noteq> None \<or>
     (ct_engine t = CtCodex \<and> (ct_blocked t \<noteq> None \<or> ct_hold t \<noteq> None))"

definition orphan_verdict :: "sched_env \<Rightarrow> continuous_task \<Rightarrow> (string \<times> u64 \<times> string) option" where
  "orphan_verdict env t =
     (if orphan_exempt t then None
      else case stranded_run t of
          None \<Rightarrow> None
        | Some (uid, started, seq, token) \<Rightarrow>
            if sat_sub (se_now env) started < RECONCILE_GRACE_SECS \<or> \<not> se_dead env uid then None
            else Some (uid, seq, token))"

definition reconcile_orphan ::
  "sched_env \<Rightarrow> continuous_task \<Rightarrow> continuous_task option \<Rightarrow> continuous_task option \<times> ct_io list" where
  "reconcile_orphan env t disk =
     (case orphan_verdict env t of
        None \<Rightarrow> (disk, [])
      | Some (uid, seq, token) \<Rightarrow>
          (disk_modify (ct_id t) (se_saved env) (orphan_change (se_now env)) (map_option (se_others env) disk),
           [audit seq ''orphaned'' (Some token) (Some uid) SCHEDULER_CALLER_TOKEN (Some ''orphaned'')]))"

text \<open>Supervision of one task; the answer says whether the task has been acted on.\<close>

definition supervision_step ::
  "sched_env \<Rightarrow> bool \<Rightarrow> continuous_task \<Rightarrow> continuous_task option \<Rightarrow> bool \<times> continuous_task option \<times> ct_io list" where
  "supervision_step env panics t disk =
     (if \<not> should_supervise t then (False, disk, [])
      else case ct_session t of
          None \<Rightarrow> (False, disk, [])
        | Some uid \<Rightarrow>
            if \<not> se_dead env uid then (False, disk, [])
            else (case fire_task (se_fire env) panics (ct_id t) (se_token env) disk of
                (out, d, ios) \<Rightarrow>
                  if out = OutFired
                  then (case advance_after_fire (ct_id t) OutFired (se_now env) (se_saved env) d of
                      (d', ios') \<Rightarrow>
                        (True, d', ios @
                          [audit (ucast (ct_run_count t)) ''supervised_restart'' (Some (se_token env)) (ct_session t)
                             SCHEDULER_CALLER_TOKEN None] @ ios'))
                  else (False, d, ios)))"

text \<open>The watchdog over one task: the record is read again under the lifecycle lock.\<close>

definition overran :: "sched_env \<Rightarrow> continuous_task \<Rightarrow> (run_record \<times> string) option" where
  "overran env t =
     (case ct_last_run t of
        None \<Rightarrow> None
      | Some r \<Rightarrow>
          if rr_status r \<noteq> RunRunning then None
          else case ct_max_runtime t of
              None \<Rightarrow> None
            | Some budget \<Rightarrow>
                (case rr_uid r of
                   None \<Rightarrow> None
                 | Some uid \<Rightarrow>
                     if sat_sub (se_now env) (rr_started r) \<le> ucast budget \<or> se_dead env uid then None
                     else Some (r, uid)))"

definition live_investigator :: "sched_env \<Rightarrow> continuous_task \<Rightarrow> string option" where
  "live_investigator env t =
     (case ct_investigator t of
        None \<Rightarrow> None
      | Some who \<Rightarrow> if se_dead env who then None else Some who)"

definition investigator_overran :: "sched_env \<Rightarrow> continuous_task \<Rightarrow> bool" where
  "investigator_overran env t \<longleftrightarrow>
     \<not> sat_sub (se_now env) (case ct_investigator_started t of Some at \<Rightarrow> at | None \<Rightarrow> se_now env)
         \<le> ucast (se_investigator_budget env)"

definition watchdog_off :: "continuous_task \<Rightarrow> bool" where
  "watchdog_off t \<longleftrightarrow> ct_mode t \<noteq> ModeFresh \<or> \<not> ct_enabled t \<or> ct_paused t"

definition watchdog_act ::
  "sched_env \<Rightarrow> continuous_task \<Rightarrow> u64 \<Rightarrow> continuous_task option \<Rightarrow> continuous_task option \<times> ct_io list" where
  "watchdog_act env t seq disk =
     (case live_investigator env t of
        Some who \<Rightarrow>
          if investigator_overran env t
          then abandon_timed_out_investigator t seq who (se_saved env) disk
          else (disk, [])
      | None \<Rightarrow>
          if ct_investigations t < se_max_investigations env
          then (case spawn_investigator t seq (se_uid env) (se_spawns env) (se_still_there env)
                  (se_now env) (se_saved env) disk of (_, d, ios) \<Rightarrow> (d, ios))
          else (case escalate_stuck t seq (se_saved env) disk of (_, d, ios) \<Rightarrow> (d, ios)))"

definition watchdog_step ::
  "sched_env \<Rightarrow> continuous_task \<Rightarrow> continuous_task option \<Rightarrow> continuous_task option \<times> ct_io list" where
  "watchdog_step env snapshot disk =
     (if watchdog_off snapshot \<or> \<not> se_lock env then (disk, [])
      else case load_task (ct_id snapshot) disk of
          None \<Rightarrow> (disk, [])
        | Some t \<Rightarrow>
            if watchdog_off t \<or> ct_drain t \<noteq> None then (disk, [])
            else (case overran env t of
                None \<Rightarrow> (disk, [])
              | Some (r, uid) \<Rightarrow> watchdog_act env t (rr_seq r) (map_option (se_others env) disk)))"

text \<open>
  The stall of a persistent session: the latch of a task, the alert. \<open>mtime\<close> is the one of the
  session's transcript, when it has one that can be read.
\<close>

definition stall_step ::
  "u32 option \<Rightarrow> u64 \<Rightarrow> (string \<Rightarrow> bool) \<Rightarrow> (string \<Rightarrow> u64 option) \<Rightarrow> continuous_task \<Rightarrow> u64 option \<Rightarrow>
   u64 option \<times> ct_io list" where
  "stall_step budget now dead mtime t latch =
     (case budget of
        None \<Rightarrow> (latch, [])
      | Some b \<Rightarrow>
          if b = 0 \<or> ct_mode t \<noteq> ModePersistent \<or> \<not> ct_enabled t \<or> ct_paused t \<or> ct_last_fired t = 0 \<or>
            sat_sub now (ct_last_fired t) \<le> ucast b
          then (latch, [])
          else case ct_session t of
              None \<Rightarrow> (latch, [])
            | Some uid \<Rightarrow>
                if dead uid then (latch, [])
                else (case mtime uid of
                    None \<Rightarrow> (latch, [])
                  | Some m \<Rightarrow>
                      if ct_last_fired t \<le> m then (None, [])
                      else if latch = Some (ct_last_fired t) then (latch, [])
                      else (Some (ct_last_fired t),
                        [IoNotify ''persistent-stall'',
                         audit (run_or_count t) ''stalled'' (map_option rr_token (ct_last_run t)) (Some uid)
                           SCHEDULER_CALLER_TOKEN (Some ''running'')])))"

text \<open>Fire and advance: one task of the due set, unless the tick has acted on it.\<close>

definition due_step ::
  "sched_env \<Rightarrow> bool \<Rightarrow> bool \<Rightarrow> continuous_task \<Rightarrow> continuous_task option \<Rightarrow> continuous_task option \<times> ct_io list" where
  "due_step env panics acted t disk =
     (if \<not> is_due (se_now env) (se_depths env) t \<or> acted then (disk, [])
      else if run_active_blocks_fire t
      then advance_after_fire (ct_id t) OutSkipActive (se_now env) (se_saved env) disk
      else (case fire_task (se_fire env) panics (ct_id t) (se_token env) disk of
          (out, d, ios) \<Rightarrow>
            (case advance_after_fire (ct_id t) out (se_now env) (se_saved env) d of
               (d', ios') \<Rightarrow> (d', ios @ ios'))))"

end
