(* ===== verification/ContinuousDrain.thy ===== *)
theory ContinuousDrain
  imports ContinuousRuns
begin

text \<open>
  The receipts of a stop request, \<open>handle\<close> and \<open>notice\<close> of \<open>control/continuous_drain.rs\<close>, and its
  status, \<open>status_with_evidence\<close> of \<open>continuous/drain.rs\<close>. The evidence of sessions and monitors
  is a parameter, and so is the digest of the workers' fingerprint. The text of an obligation is a
  constructor.
\<close>

section \<open>Status\<close>

datatype obligation_kind =
    AdmissionOpen
  | FireInFlight
  | RunIdentityChanged
  | RunStillActive
  | RunNeedsReconciliation
  | AdmittedRunMissing
  | BatchReconciliationRequired
  | AccountBlocked
  | CompletionMissing
  | SessionNeedsReconciliation
  | OrchestratorTurn
  | WorkerPending
  | SessionEvidenceUnavailable
  | NoticeUnacknowledged
  | CompletionEvidenceUnavailable
  | CheckpointStale
  | CheckpointReport
  | CheckpointMissing
  | MonitorObligation string

type_synonym obligation = "obligation_kind \<times> string option"

record session_observation =
  so_uid :: string
  so_orchestrator :: bool
  so_exited :: bool
  so_reported_done :: bool
  so_final_turn_ended :: bool
  so_reported_at :: "nat option"
  so_last_input :: "nat option"
  so_failed :: bool

record monitor_evidence =
  me_fingerprint :: "string option"
  me_outstanding :: "obligation list"

datatype drain_state = Draining | Drained | DrainBlocked

text \<open>What an obligation does to the state: it blocks, it is still going on, or it only waits.\<close>

datatype weight = Blocks | Goes | Waits

type_synonym weighed = "obligation \<times> weight"

definition worker_rows :: "session_observation list \<Rightarrow> (string \<times> nat option \<times> bool \<times> bool) list" where
  "worker_rows sessions =
     sort_key fst (map (\<lambda>s. (so_uid s, so_reported_at s, so_reported_at s = None \<and> so_exited s, so_failed s))
       (filter (\<lambda>s. \<not> so_orchestrator s) sessions))"

definition run_obligations :: "drain_record \<Rightarrow> continuous_task \<Rightarrow> weighed list" where
  "run_obligations d t =
     (case ct_last_run t of
        Some r \<Rightarrow>
          let same = (drn_token d = Some (rr_token r) \<and> drn_seq d = Some (rr_seq r)) in
          if \<not> same \<and> ct_in_flight t = None then [((RunIdentityChanged, rr_uid r), Blocks)]
          else if same then
            (if rr_status r = RunPending \<or> rr_status r = RunRunning then [((RunStillActive, rr_uid r), Goes)]
             else if rr_status r = RunFailed \<or> rr_status r = RunStuck \<or> rr_status r = RunOrphaned
             then [((RunNeedsReconciliation, rr_uid r), Blocks)]
             else [])
          else []
      | None \<Rightarrow>
          if drn_seq d \<noteq> None \<and> ct_in_flight t = None then [((AdmittedRunMissing, drn_uid d), Blocks)] else [])"

definition task_obligations :: "drain_record \<Rightarrow> continuous_task \<Rightarrow> weighed list" where
  "task_obligations d t =
     (if ct_paused t then [] else [((AdmissionOpen, None), Blocks)]) @
     (case ct_in_flight t of None \<Rightarrow> [] | Some fl \<Rightarrow> [((FireInFlight, Some (if_uid fl)), Goes)]) @
     run_obligations d t @
     (case ct_hold t of None \<Rightarrow> [] | Some h \<Rightarrow> [((BatchReconciliationRequired, Some (rhd_uid h)), Blocks)]) @
     (if ct_blocked t = None then [] else [((AccountBlocked, drn_uid d), Blocks)]) @
     (if drn_diagnostic d = None then [] else [((CompletionMissing, drn_uid d), Blocks)])"

definition session_obligations :: "session_observation \<Rightarrow> weighed list" where
  "session_obligations s =
     (if so_failed s \<or> (so_exited s \<and> \<not> so_reported_done s)
      then [((SessionNeedsReconciliation, Some (so_uid s)), Blocks)] else []) @
     (if \<not> so_exited s \<and> \<not> (so_reported_done s \<and> so_final_turn_ended s)
      then [((if so_orchestrator s then OrchestratorTurn else WorkerPending, Some (so_uid s)), Goes)] else [])"

definition checkpoint_obligations ::
  "((string \<times> nat option \<times> bool \<times> bool) list \<Rightarrow> string) \<Rightarrow> drain_record \<Rightarrow> session_observation list \<Rightarrow>
   monitor_evidence \<Rightarrow> weighed list" where
  "checkpoint_obligations digest d sessions monitors =
     (case drn_checkpoint d of
        None \<Rightarrow> [((CheckpointMissing, drn_uid d), Waits)]
      | Some c \<Rightarrow>
          (if me_fingerprint monitors \<noteq> Some (dck_monitors c) \<or>
              digest (worker_rows sessions) \<noteq> dck_workers c \<or>
              list_ex (\<lambda>s. so_orchestrator s \<and>
                (case so_last_input s of None \<Rightarrow> False | Some at \<Rightarrow> dck_recorded c < at)) sessions
           then [((CheckpointStale, drn_uid d), Waits)] else []) @
          (if list_ex (\<lambda>s. so_orchestrator s \<and>
                (case so_reported_at s of None \<Rightarrow> False | Some at \<Rightarrow> dck_recorded c \<le> at)) sessions
           then [] else [((CheckpointReport, drn_uid d), Goes)]))"

definition evidence_obligations ::
  "((string \<times> nat option \<times> bool \<times> bool) list \<Rightarrow> string) \<Rightarrow> drain_record \<Rightarrow> continuous_task \<Rightarrow>
   session_observation list \<Rightarrow> monitor_evidence \<Rightarrow> weighed list" where
  "evidence_obligations digest d t sessions monitors =
     (case drn_uid d of
        None \<Rightarrow> []
      | Some uid \<Rightarrow>
          if list_ex (\<lambda>s. so_uid s = uid) sessions then []
          else [((SessionEvidenceUnavailable, Some uid), Waits)]) @
     (if 0 < ct_run_count t \<or> drn_seq d \<noteq> None \<or> drn_uid d \<noteq> None \<or> sessions \<noteq> []
      then
        (if drn_ack d = None then [((NoticeUnacknowledged, drn_uid d), Waits)] else []) @
        (if me_fingerprint monitors = None \<and> me_outstanding monitors = []
         then [((CompletionEvidenceUnavailable, drn_uid d), Waits)] else []) @
        checkpoint_obligations digest d sessions monitors
      else [])"

definition weighed_obligations ::
  "((string \<times> nat option \<times> bool \<times> bool) list \<Rightarrow> string) \<Rightarrow> drain_record \<Rightarrow> continuous_task \<Rightarrow>
   session_observation list \<Rightarrow> monitor_evidence \<Rightarrow> weighed list" where
  "weighed_obligations digest d t sessions monitors =
     task_obligations d t @ concat (map session_obligations sessions) @
     evidence_obligations digest d t sessions monitors"

record drain_status =
  ds_request :: string
  ds_state :: drain_state
  ds_closed :: bool
  ds_outstanding :: "obligation list"

definition status_with_evidence ::
  "((string \<times> nat option \<times> bool \<times> bool) list \<Rightarrow> string) \<Rightarrow> continuous_task \<Rightarrow>
   session_observation list \<Rightarrow> monitor_evidence \<Rightarrow> drain_status option" where
  "status_with_evidence digest t sessions monitors =
     map_option (\<lambda>d.
       let ws = weighed_obligations digest d t sessions monitors;
           outstanding = map fst ws @ me_outstanding monitors in
       \<lparr> ds_request = drn_request d,
          ds_state =
            (if list_ex (\<lambda>w. snd w = Blocks) ws then DrainBlocked
             else if list_ex (\<lambda>w. snd w = Goes) ws then Draining
             else if outstanding = [] then Drained
             else DrainBlocked),
          ds_closed = ct_paused t,
          ds_outstanding = outstanding \<rparr>) (ct_drain t)"

section \<open>Receipts\<close>

definition notice_due :: "continuous_task \<Rightarrow> bool" where
  "notice_due t \<longleftrightarrow>
     (case ct_drain t of None \<Rightarrow> False | Some d \<Rightarrow> ct_paused t \<and> drn_ack d = None)"

definition valid_binding :: "string \<Rightarrow> string \<Rightarrow> continuous_task \<Rightarrow> bool" where
  "valid_binding request uid t \<longleftrightarrow>
     ct_paused t \<and>
     (case ct_drain t of
        None \<Rightarrow> False
      | Some d \<Rightarrow>
          drn_request d = request \<and> drn_uid d = Some uid \<and>
          (case ct_last_run t of
             None \<Rightarrow> False
           | Some r \<Rightarrow> drn_seq d = Some (rr_seq r) \<and> drn_token d = Some (rr_token r) \<and> rr_uid r = Some uid))"

text \<open>A notice is delivered under the lifecycle lock only to the run that the request captured.\<close>

definition notice_binding :: "string \<Rightarrow> string \<Rightarrow> bool \<Rightarrow> continuous_task \<Rightarrow> bool" where
  "notice_binding request uid ready t \<longleftrightarrow>
     valid_binding request uid t \<and> notice_due t \<and> ct_in_flight t = None \<and> ready"

datatype receipt =
    AckDrain string
  | CheckpointDrain string bool bool string

datatype receipt_error =
    ReceiptUnauthorized | ReceiptNotLive | ReceiptInvalid | ReceiptLock | ReceiptNotFound
  | ReceiptConflict | ReceiptPersist persist_error

record receipt_env =
  rx_caller :: ct_caller
  rx_session :: "string option option"
  rx_lock :: bool
  rx_sessions :: "session_observation list"
  rx_monitors :: monitor_evidence
  rx_digest :: "(string \<times> nat option \<times> bool \<times> bool) list \<Rightarrow> string"
  rx_now :: nat
  rx_others :: "continuous_task \<Rightarrow> continuous_task"
  rx_saved :: bool

definition receipt_request :: "receipt \<Rightarrow> string" where
  "receipt_request rc = (case rc of AckDrain r \<Rightarrow> r | CheckpointDrain r _ _ _ \<Rightarrow> r)"

definition checkpoint_params_ok :: "receipt \<Rightarrow> bool" where
  "checkpoint_params_ok rc \<longleftrightarrow>
     (case rc of
        AckDrain _ \<Rightarrow> True
      | CheckpointDrain _ background reconciled notes \<Rightarrow>
          background \<and> reconciled \<and> \<not> blank notes \<and> length notes \<le> 8192)"

definition workers_settled :: "session_observation list \<Rightarrow> bool" where
  "workers_settled sessions \<longleftrightarrow>
     \<not> list_ex (\<lambda>s. \<not> so_orchestrator s \<and>
        (so_failed s \<or> \<not> so_reported_done s \<or> (\<not> so_exited s \<and> \<not> so_final_turn_ended s))) sessions"

text \<open>The checkpoint that the evidence allows, when the receipt asks for one.\<close>

definition checkpoint_proof ::
  "receipt_env \<Rightarrow> receipt \<Rightarrow> continuous_task \<Rightarrow> receipt_error + drain_checkpoint option" where
  "checkpoint_proof env rc t =
     (case rc of
        AckDrain _ \<Rightarrow> Inr None
      | CheckpointDrain _ _ _ notes \<Rightarrow>
          if ct_in_flight t \<noteq> None \<or> Option.bind (ct_drain t) drn_ack = None then Inl ReceiptConflict
          else if \<not> workers_settled (rx_sessions env) then Inl ReceiptConflict
          else if me_outstanding (rx_monitors env) \<noteq> [] then Inl ReceiptConflict
          else (case me_fingerprint (rx_monitors env) of
              None \<Rightarrow> Inl ReceiptConflict
            | Some fp \<Rightarrow> Inr (Some \<lparr> dck_recorded = rx_now env, dck_monitors = fp,
                dck_workers = rx_digest env (worker_rows (rx_sessions env)), dck_notes = notes \<rparr>)))"

definition receipt_change ::
  "receipt_env \<Rightarrow> string \<Rightarrow> receipt \<Rightarrow> drain_checkpoint option \<Rightarrow> continuous_task \<Rightarrow> unit + continuous_task" where
  "receipt_change env uid rc proof t =
     (if \<not> valid_binding (receipt_request rc) uid t then Inl ()
      else Inr (t\<lparr> ct_drain := map_option (\<lambda>d.
        case rc of
          AckDrain _ \<Rightarrow>
            d\<lparr> drn_ack := Some (case drn_ack d of
                Some a \<Rightarrow> a
              | None \<Rightarrow> \<lparr> ack_received = rx_now env, ack_uid = uid, ack_seq = drn_seq d, ack_token = drn_token d \<rparr>) \<rparr>
        | CheckpointDrain _ _ _ _ \<Rightarrow> d\<lparr> drn_checkpoint := proof \<rparr>) (ct_drain t) \<rparr>))"

text \<open>\<open>rx_session\<close>: the continuous task of the caller's session, when the session is live.\<close>

definition handle_receipt ::
  "receipt_env \<Rightarrow> receipt \<Rightarrow> continuous_task option \<Rightarrow>
   (receipt_error + drain_record option) \<times> continuous_task option" where
  "handle_receipt env rc disk =
     (case rx_caller env of
        OperatorToken _ \<Rightarrow> (Inl ReceiptUnauthorized, disk)
      | SessionUid uid \<Rightarrow>
          (case rx_session env of
             None \<Rightarrow> (Inl ReceiptNotLive, disk)
           | Some None \<Rightarrow> (Inl ReceiptUnauthorized, disk)
           | Some (Some tid) \<Rightarrow>
               if \<not> checkpoint_params_ok rc then (Inl ReceiptInvalid, disk)
               else if \<not> rx_lock env then (Inl ReceiptLock, disk)
               else (case load_task tid disk of
                   None \<Rightarrow> (Inl ReceiptNotFound, disk)
                 | Some t \<Rightarrow>
                     if \<not> valid_binding (receipt_request rc) uid t then (Inl ReceiptConflict, disk)
                     else (case checkpoint_proof env rc t of
                         Inl e \<Rightarrow> (Inl e, disk)
                       | Inr pr \<Rightarrow>
                           (case ct_try_modify tid (rx_saved env) (receipt_change env uid rc pr)
                                   (map_option (rx_others env) disk) of
                              (CtSaved t', d) \<Rightarrow> (Inr (ct_drain t'), d)
                            | (CtAborted _, d) \<Rightarrow> (Inl ReceiptConflict, d)
                            | (CtPersist e, d) \<Rightarrow> (Inl (ReceiptPersist e), d))))))"

end
