(* ===== verification/ContinuousWedge.thy ===== *)
theory ContinuousWedge
  imports ContinuousTick ContinuousDrain
begin

text \<open>
  Runs that no longer make progress: the pass over transcript tails of
  \<open>daemon/src/continuous/scheduler.rs\<close> (\<open>auth_wedge_pass\<close> with the helpers it calls) and the sweep
  at the start of a daemon (\<open>continuous/startup_sweep.rs\<close>).

  What the tail of a transcript says is a parameter, and so are the evidence of sessions and
  monitors, the answer of the account probe and what \<open>recover_codex\<close> does to the file. The latches
  that the scheduler keeps in memory are the ones of one task.
\<close>

definition TAIL_PROBE_INTERVAL_SECS :: u64 where "TAIL_PROBE_INTERVAL_SECS = 30"
definition TRANSIENT_POOL_RETRY_AFTER_SECS :: u64 where "TRANSIENT_POOL_RETRY_AFTER_SECS = 300"
definition TRANSIENT_POOL_MAX_RETRIES :: u32 where "TRANSIENT_POOL_MAX_RETRIES = 2"
definition HOLD_RELEASE_CHECK_INTERVAL_SECS :: u64 where "HOLD_RELEASE_CHECK_INTERVAL_SECS = 60"
definition STALE_HOLD_ALERT_SECS :: u64 where "STALE_HOLD_ALERT_SECS = 7200"
definition STALE_HOLD_REALERT_SECS :: u64 where "STALE_HOLD_REALERT_SECS = 43200"
definition AUTH_REALERT_SECS :: u64 where "AUTH_REALERT_SECS = 21600"
definition ACCOUNT_RECOVERY_SETTLE_SECS :: u64 where "ACCOUNT_RECOVERY_SETTLE_SECS = 5"

section \<open>Tails, latches, answers\<close>

datatype tail_shape = MidTurn | TurnComplete | AwaitingResponse

record tail_probe =
  tl_shape :: tail_shape
  tl_auth :: "string option"
  tl_usage :: "string option"
  tl_pool :: "string option"
  tl_transient :: bool
  tl_capacity :: bool

record sched_latches =
  lt_probe :: u64
  lt_pool :: "(u64 \<times> u64 \<times> u64 \<times> u32) option"
  lt_evidence :: "(u64 \<times> u64) option"
  lt_auth :: u64
  lt_escalated :: "u64 option"
  lt_release :: u64
  lt_hold :: "(u64 \<times> u64) option"

record staged_batch =
  sb_queue :: string
  sb_task :: string
  sb_seq :: u64
  sb_items :: "queue_item list"

record wedge_env =
  we_now :: u64
  we_grace :: u64
  we_limit :: u32
  we_runtime :: "string \<Rightarrow> string option"
  we_live :: "string \<Rightarrow> string option"
  we_dead :: "string \<Rightarrow> bool"
  we_mtime :: "string \<Rightarrow> u64 option"
  we_tail :: "tail_probe option"
  we_tail_again :: "tail_probe option"
  we_probe_ok :: "u64 \<Rightarrow> bool"
  we_recover :: "continuous_task \<Rightarrow> continuous_task"
  we_lock :: bool
  we_others :: "continuous_task \<Rightarrow> continuous_task"
  we_saved :: bool
  we_batch :: "staged_batch option"
  we_client :: bool
  we_accepts :: "queue_item \<Rightarrow> bool"
  we_sessions :: "session_observation list"
  we_monitors :: monitor_evidence
  we_delivers :: bool

definition session_type_of :: "ct_engine \<Rightarrow> string" where
  "session_type_of e = (case e of CtClaude \<Rightarrow> ''claude-code'' | CtCodex \<Rightarrow> ''codex'' | CtBash \<Rightarrow> ''bash'')"

text \<open>The run that a pass has seen is still the one of the record, and running.\<close>

definition still_running :: "u64 \<Rightarrow> string \<Rightarrow> continuous_task \<Rightarrow> bool" where
  "still_running seq uid t \<longleftrightarrow>
     (case ct_last_run t of
        None \<Rightarrow> False
      | Some r \<Rightarrow> rr_seq r = seq \<and> rr_uid r = Some uid \<and> rr_status r = RunRunning)"

definition same_token :: "string \<Rightarrow> continuous_task \<Rightarrow> bool" where
  "same_token token t \<longleftrightarrow> map_option rr_token (ct_last_run t) = Some token"

section \<open>The changes of the record\<close>

definition diagnostic_change ::
  "continuous_task \<Rightarrow> u64 \<Rightarrow> string \<Rightarrow> string option \<Rightarrow> continuous_task \<Rightarrow> unit + continuous_task" where
  "diagnostic_change snapshot seq uid detail t =
     (case (if still_running seq uid t then ct_drain t else None) of
        None \<Rightarrow> Inl ()
      | Some d \<Rightarrow>
          if (case ct_drain snapshot of None \<Rightarrow> False | Some old \<Rightarrow> drn_request old \<noteq> drn_request d) then Inl ()
          else if drn_seq d = Some seq \<and> drn_uid d = Some uid \<and> drn_diagnostic d \<noteq> detail
          then Inr (t\<lparr> ct_drain := Some (d\<lparr> drn_diagnostic := detail \<rparr>) \<rparr>)
          else Inl ())"

text \<open>Whether a stop request owns the observation, and the file. An unreadable file counts.\<close>

definition record_drain_diagnostic ::
  "bool \<Rightarrow> continuous_task \<Rightarrow> u64 \<Rightarrow> string \<Rightarrow> string option \<Rightarrow> continuous_task option \<Rightarrow>
   bool \<times> continuous_task option" where
  "record_drain_diagnostic saved snapshot seq uid detail disk =
     (case ct_try_modify (ct_id snapshot) saved (diagnostic_change snapshot seq uid detail) disk of
        (CtPersist e, d) \<Rightarrow> (True, d)
      | (_, d) \<Rightarrow>
          ((case disk of None \<Rightarrow> False | Some t \<Rightarrow> still_running seq uid t \<and> ct_drain t \<noteq> None), d))"

definition pool_hold_guard :: "run_record \<Rightarrow> string \<Rightarrow> continuous_task \<Rightarrow> bool" where
  "pool_hold_guard run uid t \<longleftrightarrow>
     ct_engine t = CtCodex \<and> ct_in_flight t = None \<and> ct_hold t = None \<and>
     still_running (rr_seq run) uid t \<and> same_token (rr_token run) t"

definition pool_hold_change ::
  "run_record \<Rightarrow> string \<Rightarrow> string \<Rightarrow> bool \<Rightarrow> u64 \<Rightarrow> continuous_task \<Rightarrow> continuous_task" where
  "pool_hold_change run uid detail capacity now t =
     (if pool_hold_guard run uid t
      then (unblock (on_last_run (end_run RunFailed now) t))
        \<lparr> ct_hold := Some \<lparr> rhd_seq = rr_seq run, rhd_uid = uid, rhd_token = rr_token run,
             rhd_detected = now, rhd_detail = detail, rhd_capacity = capacity \<rparr>,
           ct_revision := sat_add (ct_revision t) 1 \<rparr>
      else t)"

definition block_guard :: "run_record \<Rightarrow> string \<Rightarrow> ct_engine \<Rightarrow> continuous_task \<Rightarrow> bool" where
  "block_guard run uid e t \<longleftrightarrow>
     still_running (rr_seq run) uid t \<and> same_token (rr_token run) t \<and> ct_engine t = e \<and> ct_in_flight t = None"

definition block_change ::
  "run_record \<Rightarrow> string \<Rightarrow> ct_engine \<Rightarrow> account_block \<Rightarrow> continuous_task \<Rightarrow> continuous_task" where
  "block_change run uid e b t = (if block_guard run uid e t then t\<lparr> ct_blocked := Some b \<rparr> else t)"

definition recovered_guard :: "u64 \<Rightarrow> string \<Rightarrow> continuous_task \<Rightarrow> bool" where
  "recovered_guard seq uid t \<longleftrightarrow>
     (case ct_blocked t of None \<Rightarrow> False | Some b \<Rightarrow> abk_seq b = seq \<and> abk_uid b = uid) \<and>
     still_running seq uid t"

definition recovered_change :: "u64 \<Rightarrow> string \<Rightarrow> u64 \<Rightarrow> continuous_task \<Rightarrow> continuous_task" where
  "recovered_change seq uid now t =
     (if recovered_guard seq uid t
      then (unblock (on_last_run (end_run RunFailed now) t))
        \<lparr> ct_wedge_closes := 0,
           ct_next_fire := max (ct_next_fire t) (sat_add now ACCOUNT_RECOVERY_SETTLE_SECS) \<rparr>
      else t)"

definition wedge_guard :: "ct_engine \<Rightarrow> u64 \<Rightarrow> string \<Rightarrow> continuous_task \<Rightarrow> bool" where
  "wedge_guard e seq uid t \<longleftrightarrow>
     \<not> ct_paused t \<and> ct_drain t = None \<and> ct_in_flight t = None \<and> ct_engine t = e \<and> still_running seq uid t"

text \<open>The text of the hold a consumer's wedge leaves behind.\<close>

definition WEDGE_HOLD_DETAIL :: string where
  "WEDGE_HOLD_DETAIL =
     ''Codex turn ended without report_done. The staged batch remains held until completed and unfinished items are reconciled.''"

definition wedge_close_change :: "ct_engine \<Rightarrow> u64 \<Rightarrow> string \<Rightarrow> u64 \<Rightarrow> continuous_task \<Rightarrow> continuous_task" where
  "wedge_close_change e seq uid now t =
     (if wedge_guard e seq uid t
      then
        let closed = (unblock (on_last_run (end_run RunFailed now) t))
              \<lparr> ct_wedge_closes := sat_add (ct_wedge_closes t) 1 \<rparr> in
        if ct_engine t = CtCodex \<and> is_consumer t
        then closed\<lparr> ct_hold := Some \<lparr> rhd_seq = seq, rhd_uid = uid,
                 rhd_token = (case ct_last_run t of Some r \<Rightarrow> rr_token r | None \<Rightarrow> []),
                 rhd_detected = now, rhd_detail = WEDGE_HOLD_DETAIL, rhd_capacity = False \<rparr>,
               ct_revision := sat_add (ct_revision t) 1 \<rparr>
        else closed
      else t)"

definition redrive_change :: "u64 \<Rightarrow> string \<Rightarrow> u64 \<Rightarrow> continuous_task \<Rightarrow> continuous_task" where
  "redrive_change seq uid now t =
     (case ct_last_run t of
        Some r \<Rightarrow>
          if rr_seq r = seq \<and> rr_uid r = Some uid then t\<lparr> ct_last_fired := max (ct_last_fired t) now \<rparr> else t
      | None \<Rightarrow> t)"

section \<open>Capacity holds\<close>

fun str_contains :: "string \<Rightarrow> string \<Rightarrow> bool" where
  "str_contains pat [] = (pat = [])"
| "str_contains pat (c # cs) = (take (length pat) (c # cs) = pat \<or> str_contains pat cs)"

definition auto_releasable :: "recovery_hold \<Rightarrow> bool" where
  "auto_releasable h \<longleftrightarrow>
     rhd_capacity h \<or> str_contains ''(server_overloaded)'' (rhd_detail h)"

definition quiescent :: "continuous_task \<Rightarrow> bool" where
  "quiescent t \<longleftrightarrow>
     ct_engine t = CtCodex \<and> ct_enabled t \<and> \<not> ct_paused t \<and> ct_drain t = None \<and> ct_in_flight t = None \<and>
     ct_recovery t = None \<and> ct_reconciliation t = None \<and> ct_retirement t = None \<and> ct_blocked t = None"

definition hold_identifies :: "recovery_hold \<Rightarrow> ct_status \<Rightarrow> continuous_task \<Rightarrow> bool" where
  "hold_identifies h status t \<longleftrightarrow>
     (case ct_last_run t of
        None \<Rightarrow> False
      | Some r \<Rightarrow> rr_seq r = rhd_seq h \<and> rr_token r = rhd_token h \<and> rr_uid r = Some (rhd_uid h) \<and>
          rr_status r = status)"

definition release_guard :: "recovery_hold \<Rightarrow> continuous_task \<Rightarrow> bool" where
  "release_guard h t \<longleftrightarrow> ct_hold t = Some h \<and> quiescent t \<and> hold_identifies h RunFailed t"

definition release_change :: "recovery_hold \<Rightarrow> u64 \<Rightarrow> continuous_task \<Rightarrow> continuous_task" where
  "release_change h now t =
     (if release_guard h t
      then (on_last_run (\<lambda>r. r\<lparr> rr_status := RunRunning, rr_finished := None \<rparr>) t)
        \<lparr> ct_hold := None,
           ct_hold_releases := sat_add (ct_hold_releases t) 1,
           ct_last_fired := max (ct_last_fired t) now,
           ct_next_fire := (case ct_schedule t of
               Periodic every \<Rightarrow> max (ct_next_fire t) (sat_add now every) | _ \<Rightarrow> ct_next_fire t),
           ct_revision := sat_add (ct_revision t) 1 \<rparr>
      else t)"

definition rehold_change :: "recovery_hold \<Rightarrow> u64 \<Rightarrow> continuous_task \<Rightarrow> continuous_task" where
  "rehold_change h now t =
     (if ct_hold t = None \<and> ct_in_flight t = None \<and> hold_identifies h RunRunning t
      then (on_last_run (end_run RunFailed now) t)
        \<lparr> ct_hold := Some h, ct_revision := sat_add (ct_revision t) 1 \<rparr>
      else t)"

definition may_release :: "wedge_env \<Rightarrow> recovery_hold \<Rightarrow> continuous_task \<Rightarrow> bool" where
  "may_release env h t \<longleftrightarrow>
     auto_releasable h \<and> quiescent t \<and> hold_identifies h RunFailed t \<and>
     capacity_hold_backoff (ct_hold_releases t) \<le> sat_sub (we_now env) (rhd_detected h)"

definition release_ready :: "wedge_env \<Rightarrow> recovery_hold \<Rightarrow> bool" where
  "release_ready env h \<longleftrightarrow>
     we_live env (rhd_uid h) = Some (session_type_of CtCodex) \<and> we_probe_ok env (rhd_detected h) \<and> we_lock env"

text \<open>Whether the hold has been released; a delivery that fails puts it back.\<close>

definition try_release_capacity_hold ::
  "wedge_env \<Rightarrow> continuous_task \<Rightarrow> sched_latches \<Rightarrow> continuous_task option \<Rightarrow>
   bool \<times> sched_latches \<times> continuous_task option \<times> ct_io list" where
  "try_release_capacity_hold env tk lt disk =
     (case ct_hold tk of
        None \<Rightarrow> (False, lt, disk, [])
      | Some h \<Rightarrow>
          if \<not> may_release env h tk then (False, lt, disk, [])
          else if sat_sub (we_now env) (lt_release lt) < HOLD_RELEASE_CHECK_INTERVAL_SECS then (False, lt, disk, [])
          else
            let lt1 = lt\<lparr> lt_release := we_now env \<rparr> in
            if \<not> release_ready env h then (False, lt1, disk, [])
            else
              let d0 = map_option (we_others env) disk;
                  d1 = disk_modify (ct_id tk) (we_saved env) (release_change h (we_now env)) d0 in
              if \<not> (validate_task_id (ct_id tk) = None \<and> (case d0 of None \<Rightarrow> False | Some t \<Rightarrow> release_guard h t))
              then (False, lt1, d1, [])
              else
                let lt2 = lt1\<lparr> lt_pool := None, lt_hold := None \<rparr> in
                if we_delivers env
                then (True, lt2, d1, [IoInput (rhd_uid h) ''capacity-resume'',
                  audit (rhd_seq h) ''capacity_hold_released'' (Some (rhd_token h)) (Some (rhd_uid h))
                    SCHEDULER_CALLER_TOKEN (Some ''running''), IoChannel ''recovery-hold-released''])
                else (False, lt2,
                  disk_modify (ct_id tk) (we_saved env) (rehold_change h (we_now env)) d1,
                  [IoInput (rhd_uid h) ''capacity-resume'']))"

definition page_stale_hold :: "u64 \<Rightarrow> continuous_task \<Rightarrow> sched_latches \<Rightarrow> sched_latches \<times> ct_io list" where
  "page_stale_hold now t lt =
     (case ct_hold t of
        None \<Rightarrow> (lt, [])
      | Some h \<Rightarrow>
          if sat_sub now (rhd_detected h) < STALE_HOLD_ALERT_SECS then (lt, [])
          else if (case lt_hold lt of
              None \<Rightarrow> False
            | Some (detected, at) \<Rightarrow>
                detected = rhd_detected h \<and> sat_sub now at < STALE_HOLD_REALERT_SECS)
          then (lt, [])
          else (lt\<lparr> lt_hold := Some (rhd_detected h, now) \<rparr>, [IoNotify ''continuous-hold'']))"

section \<open>Replay of a batch\<close>

definition replay_key :: "string \<Rightarrow> queue_item \<Rightarrow> string" where
  "replay_key tid item =
     (case qi_dedupe item of Some k \<Rightarrow> k | None \<Rightarrow> ''cm-account-replay:'' @ tid @ '':'' @ qi_id item)"

fun replay_items :: "(queue_item \<Rightarrow> bool) \<Rightarrow> string \<Rightarrow> string \<Rightarrow> queue_item list \<Rightarrow> bool \<times> ct_io list" where
  "replay_items accepts q tid [] = (True, [])"
| "replay_items accepts q tid (item # items) =
     (if accepts item
      then (case replay_items accepts q tid items of
          (ok, ios) \<Rightarrow> (ok, IoEnqueue q item (replay_key tid item) # ios))
      else (False, [IoEnqueue q item (replay_key tid item)]))"

definition replay_account_blocked_consumer_batch ::
  "wedge_env \<Rightarrow> continuous_task \<Rightarrow> u64 \<Rightarrow> bool \<times> ct_io list" where
  "replay_account_blocked_consumer_batch env t seq =
     (case ct_schedule t of
        Consumer q _ _ _ \<Rightarrow>
          (case we_batch env of
             None \<Rightarrow> (False, [])
           | Some b \<Rightarrow>
               if sb_queue b \<noteq> q \<or> sb_task b \<noteq> ct_id t \<or> sb_seq b \<noteq> seq then (False, [])
               else if sb_items b = [] then (True, [])
               else if \<not> we_client env then (False, [])
               else replay_items (we_accepts env) q (ct_id t) (sb_items b))
      | _ \<Rightarrow> (True, []))"

section \<open>Account blocks\<close>

definition surface_account_block ::
  "u64 \<Rightarrow> continuous_task \<Rightarrow> u64 \<Rightarrow> string \<Rightarrow> block_kind \<Rightarrow> sched_latches \<Rightarrow> sched_latches \<times> ct_io list" where
  "surface_account_block now t seq uid kind lt =
     (if sat_sub now (lt_auth lt) < AUTH_REALERT_SECS then (lt, [])
      else (lt\<lparr> lt_auth := now \<rparr>,
        [IoNotify ''account-blocked'',
         audit seq (case kind of AuthExpired \<Rightarrow> ''auth_expired'' | UsageLimited \<Rightarrow> ''usage_limited'')
           (map_option rr_token (ct_last_run t)) (Some uid) SCHEDULER_CALLER_TOKEN (Some ''running'')]))"

definition recover_guard :: "continuous_task \<Rightarrow> u64 \<Rightarrow> string \<Rightarrow> account_block \<Rightarrow> continuous_task \<Rightarrow> bool" where
  "recover_guard snapshot seq uid b t \<longleftrightarrow>
     \<not> ct_paused t \<and> ct_drain t = None \<and> ct_engine t = ct_engine snapshot \<and> ct_in_flight t = None \<and>
     ct_enabled t \<and> ct_blocked t = Some b \<and> still_running seq uid t"

definition recover_account_block ::
  "wedge_env \<Rightarrow> continuous_task \<Rightarrow> u64 \<Rightarrow> string \<Rightarrow> account_block \<Rightarrow> sched_latches \<Rightarrow> continuous_task option \<Rightarrow>
   sched_latches \<times> continuous_task option \<times> ct_io list" where
  "recover_account_block env tk seq uid b lt disk =
     (if ct_engine tk = CtCodex then (lt, map_option (we_recover env) disk, [])
      else if \<not> we_lock env then (lt, disk, [])
      else case load_task (ct_id tk) disk of
          None \<Rightarrow> (lt, disk, [])
        | Some t \<Rightarrow>
            if \<not> recover_guard tk seq uid b t then (lt, disk, [])
            else (case replay_account_blocked_consumer_batch env t seq of
                (False, ios) \<Rightarrow> (lt, disk, ios)
              | (True, ios) \<Rightarrow>
                  let d0 = map_option (we_others env) disk;
                      d1 = disk_modify (ct_id tk) (we_saved env) (recovered_change seq uid (we_now env)) d0 in
                  if \<not> we_saved env \<or> \<not> (case d0 of None \<Rightarrow> False | Some t' \<Rightarrow> recovered_guard seq uid t')
                  then (lt, d1, ios)
                  else (lt\<lparr> lt_auth := 0 \<rparr>, d1, ios @
                    [IoKill uid, IoNotify ''account-recovered'',
                     audit seq ''account_recovered'' (map_option rr_token (ct_last_run t)) (Some uid)
                       SCHEDULER_CALLER_TOKEN (Some ''failed'')])))"

section \<open>Transient pool errors\<close>

text \<open>Whether the transient path still owns the run.\<close>

definition redrive_transient_pool_error ::
  "wedge_env \<Rightarrow> continuous_task \<Rightarrow> u64 \<Rightarrow> string \<Rightarrow> sched_latches \<Rightarrow> continuous_task option \<Rightarrow>
   bool \<times> sched_latches \<times> continuous_task option \<times> ct_io list" where
  "redrive_transient_pool_error env tk seq uid lt disk =
     (let now = we_now env;
          entry = (case lt_pool lt of
              Some (s, f, l, n) \<Rightarrow> if s = seq then (s, f, l, n) else (seq, now, now, 0)
            | None \<Rightarrow> (seq, now, now, 0)) in
      case entry of
        (s, first_seen, last_action, retries) \<Rightarrow>
          let lt1 = lt\<lparr> lt_pool := Some entry \<rparr> in
          if TRANSIENT_POOL_MAX_RETRIES \<le> retries then (False, lt1, disk, [])
          else if sat_sub now last_action < TRANSIENT_POOL_RETRY_AFTER_SECS then (True, lt1, disk, [])
          else (True, lt1\<lparr> lt_pool := Some (seq, first_seen, now, retries + 1) \<rparr>,
            disk_modify (ct_id tk) (we_saved env) (redrive_change seq uid now) disk,
            [IoInput uid ''pool-redrive'',
             audit seq ''pool_transient_redrive'' (map_option rr_token (ct_last_run tk)) (Some uid)
               SCHEDULER_CALLER_TOKEN (Some ''running'')]))"

section \<open>Wedges\<close>

definition wedge_evidence :: "wedge_env \<Rightarrow> bool" where
  "wedge_evidence env \<longleftrightarrow>
     workers_settled (we_sessions env) \<and> me_fingerprint (we_monitors env) \<noteq> None \<and>
     me_outstanding (we_monitors env) = [] \<and>
     (case we_tail_again env of
        None \<Rightarrow> False
      | Some tail \<Rightarrow> tl_shape tail \<noteq> MidTurn \<and> tl_auth tail = None \<and> tl_usage tail = None \<and> tl_pool tail = None)"

definition close_wedged_run ::
  "wedge_env \<Rightarrow> continuous_task \<Rightarrow> u64 \<Rightarrow> string \<Rightarrow> continuous_task option \<Rightarrow> continuous_task option \<times> ct_io list" where
  "close_wedged_run env tk seq uid disk =
     (if \<not> we_lock env \<or> (ct_engine tk = CtCodex \<and> \<not> wedge_evidence env) then (disk, [])
      else
        let d0 = map_option (we_others env) disk;
            d1 = disk_modify (ct_id tk) (we_saved env) (wedge_close_change (ct_engine tk) seq uid (we_now env)) d0;
            closed = (validate_task_id (ct_id tk) = None \<and>
              (case d0 of None \<Rightarrow> False | Some t \<Rightarrow> wedge_guard (ct_engine tk) seq uid t));
            held = (closed \<and> (case d0 of None \<Rightarrow> False | Some t \<Rightarrow> ct_engine t = CtCodex \<and> is_consumer t)) in
        (d1, (if held then [IoChannel ''recovery-hold''] else []) @
          (if closed
           then [IoNotify ''run-wedge'',
             audit seq ''wedge_closed'' (map_option rr_token (ct_last_run tk)) (Some uid)
               SCHEDULER_CALLER_TOKEN (Some ''failed'')]
           else [])))"

definition escalate_wedged_run ::
  "continuous_task \<Rightarrow> u64 \<Rightarrow> string \<Rightarrow> sched_latches \<Rightarrow> sched_latches \<times> ct_io list" where
  "escalate_wedged_run tk seq uid lt =
     (if lt_escalated lt = Some seq then (lt, [])
      else (lt\<lparr> lt_escalated := Some seq \<rparr>,
        [IoNotify ''run-wedge'',
         audit seq ''wedge_escalated'' (map_option rr_token (ct_last_run tk)) (Some uid)
           SCHEDULER_CALLER_TOKEN (Some ''running'')]))"

section \<open>The pass\<close>

definition wedge_quiet_since :: "u64 \<Rightarrow> run_record \<Rightarrow> continuous_task \<Rightarrow> u64" where
  "wedge_quiet_since mtime run t = max (max mtime (rr_started run)) (ct_last_fired t)"

definition account_blocker :: "tail_probe \<Rightarrow> (block_kind \<times> string) option" where
  "account_blocker tail =
     (case tl_auth tail of
        Some banner \<Rightarrow> Some (AuthExpired, banner)
      | None \<Rightarrow> map_option (\<lambda>banner. (UsageLimited, banner)) (tl_usage tail))"

text \<open>The part after a tail has been read: wedged runs.\<close>

definition wedge_tail_quiet ::
  "wedge_env \<Rightarrow> continuous_task \<Rightarrow> run_record \<Rightarrow> string \<Rightarrow> u64 \<Rightarrow> tail_probe \<Rightarrow> sched_latches \<Rightarrow>
   continuous_task option \<Rightarrow> bool \<times> sched_latches \<times> continuous_task option \<times> ct_io list" where
  "wedge_tail_quiet env tk run uid mtime tail lt disk =
     (let grace = (case ct_wedge_grace tk of Some g \<Rightarrow> g | None \<Rightarrow> we_grace env);
          seq = rr_seq run in
      if grace = 0 \<or> sat_sub (we_now env) (wedge_quiet_since mtime run tk) < grace \<or> tl_shape tail = MidTurn
      then (False, lt, disk, [])
      else (case record_drain_diagnostic (we_saved env) tk seq uid (Some ''no-report'') disk of
          (True, d) \<Rightarrow> (False, lt, d, [])
        | (False, d) \<Rightarrow>
            if we_limit env \<le> ct_wedge_closes tk
            then (case escalate_wedged_run tk seq uid lt of (lt', ios) \<Rightarrow> (False, lt', d, ios))
            else (case close_wedged_run env tk seq uid d of (d', ios) \<Rightarrow> (False, lt, d', ios))))"

text \<open>Pool errors and account blockers.\<close>

definition wedge_tail ::
  "wedge_env \<Rightarrow> continuous_task \<Rightarrow> run_record \<Rightarrow> string \<Rightarrow> u64 \<Rightarrow> tail_probe \<Rightarrow> sched_latches \<Rightarrow>
   continuous_task option \<Rightarrow> bool \<times> sched_latches \<times> continuous_task option \<times> ct_io list" where
  "wedge_tail env tk run uid mtime tail lt0 disk0 =
     (let now = we_now env; seq = rr_seq run;
          lt = lt0\<lparr> lt_evidence := None \<rparr>;
          disk = (if tl_shape tail = MidTurn
            then snd (record_drain_diagnostic (we_saved env) tk seq uid None disk0) else disk0) in
      case tl_pool tail of
        Some detail \<Rightarrow>
          (case (if tl_transient tail then redrive_transient_pool_error env tk seq uid lt disk
                 else (False, lt, disk, [])) of
             (True, lt1, d, ios) \<Rightarrow> (True, lt1, d, ios)
           | (False, lt1, d, ios) \<Rightarrow>
               let recorded = (validate_task_id (ct_id tk) = None \<and>
                     (case d of None \<Rightarrow> False | Some t \<Rightarrow> pool_hold_guard run uid t)) in
               (True, (if recorded then lt1\<lparr> lt_pool := None \<rparr> else lt1),
                disk_modify (ct_id tk) (we_saved env) (pool_hold_change run uid detail (tl_capacity tail) now) d,
                ios @ (if recorded
                  then [IoNotify ''codex-pool'', IoChannel ''recovery-hold'',
                    audit seq ''pool_unavailable'' (Some (rr_token run)) (Some uid) SCHEDULER_CALLER_TOKEN (Some ''failed'')]
                  else [])))
      | None \<Rightarrow>
          (case account_blocker tail of
             Some (kind, banner) \<Rightarrow>
               let b = \<lparr> abk_seq = seq, abk_uid = uid, abk_detected = now, abk_kind = kind, abk_detail = banner \<rparr>;
                   recorded = (validate_task_id (ct_id tk) = None \<and>
                     (case disk of None \<Rightarrow> False | Some t \<Rightarrow> block_guard run uid (ct_engine tk) t));
                   d = disk_modify (ct_id tk) (we_saved env) (block_change run uid (ct_engine tk) b) disk in
               (case (if recorded then surface_account_block now tk seq uid kind lt else (lt, [])) of
                  (lt', ios) \<Rightarrow> (True, lt', d, ios))
           | None \<Rightarrow> wedge_tail_quiet env tk run uid mtime tail (lt\<lparr> lt_auth := 0 \<rparr>) disk))"

definition evidence_missing ::
  "u64 \<Rightarrow> u64 \<Rightarrow> sched_latches \<Rightarrow> sched_latches \<times> ct_io list" where
  "evidence_missing now seq lt =
     (if (case lt_evidence lt of None \<Rightarrow> True | Some (s, at) \<Rightarrow> s \<noteq> seq \<or> 300 \<le> sat_sub now at)
      then (lt\<lparr> lt_evidence := Some (seq, now) \<rparr>,
        if (case lt_evidence lt of None \<Rightarrow> True | Some (s, at) \<Rightarrow> s \<noteq> seq) then [] else [IoChannel ''held-run''])
      else (lt, []))"

text \<open>One task: whether it is held for the rest of the tick, and the effects.\<close>

definition wedge_running ::
  "wedge_env \<Rightarrow> continuous_task \<Rightarrow> run_record \<Rightarrow> string \<Rightarrow> sched_latches \<Rightarrow> continuous_task option \<Rightarrow>
   bool \<times> sched_latches \<times> continuous_task option \<times> ct_io list" where
  "wedge_running env tk run uid lt disk =
     (let now = we_now env; seq = rr_seq run in
      case active_account_block tk of
        Some b \<Rightarrow>
          if we_probe_ok env (abk_detected b)
          then (case recover_account_block env tk seq uid b lt disk of (lt', d, ios) \<Rightarrow> (True, lt', d, ios))
          else (case surface_account_block now tk seq uid (abk_kind b) lt of (lt', ios) \<Rightarrow> (True, lt', disk, ios))
      | None \<Rightarrow>
          if we_dead env uid then (False, lt, disk, [])
          else (case we_mtime env uid of
              None \<Rightarrow> (False, lt, disk, [])
            | Some mtime \<Rightarrow>
                (case we_tail env of
                   None \<Rightarrow>
                     if ct_engine tk = CtCodex
                     then (case evidence_missing now seq lt of
                         (lt', ios) \<Rightarrow>
                           (True, lt', snd (record_drain_diagnostic (we_saved env) tk seq uid (Some ''no-evidence'') disk), ios))
                     else (False, lt, disk, [])
                 | Some tail \<Rightarrow> wedge_tail env tk run uid mtime tail lt disk)))"

definition runtime_mismatch :: "wedge_env \<Rightarrow> continuous_task \<Rightarrow> string \<Rightarrow> bool" where
  "runtime_mismatch env tk uid \<longleftrightarrow>
     (case we_runtime env uid of
        None \<Rightarrow> ct_engine tk = CtCodex
      | Some s \<Rightarrow> s \<noteq> session_type_of (ct_engine tk))"

definition auth_wedge_step ::
  "wedge_env \<Rightarrow> continuous_task \<Rightarrow> sched_latches \<Rightarrow> continuous_task option \<Rightarrow>
   bool \<times> sched_latches \<times> continuous_task option \<times> ct_io list" where
  "auth_wedge_step env tk lt disk =
     (if ct_engine tk = CtBash \<or> \<not> ct_enabled tk \<or> (ct_paused tk \<and> ct_drain tk = None) then (False, lt, disk, [])
      else if ct_engine tk = CtCodex \<and> (ct_hold tk \<noteq> None \<or> ct_recovery tk \<noteq> None)
      then (case try_release_capacity_hold env tk lt disk of
          (True, lt1, d, ios) \<Rightarrow> (True, lt1, d, ios)
        | (False, lt1, d, ios) \<Rightarrow>
            (case page_stale_hold (we_now env) tk lt1 of
               (lt2, ios') \<Rightarrow> (True, lt2, map_option (we_recover env) d, ios @ ios')))
      else case Option.bind (ct_last_run tk)
          (\<lambda>r. if rr_status r = RunRunning then map_option (\<lambda>u. (r, u)) (rr_uid r) else None) of
          None \<Rightarrow> (False, lt, disk, [])
        | Some (run, uid) \<Rightarrow>
            if runtime_mismatch env tk uid
            then (True, lt, snd (record_drain_diagnostic (we_saved env) tk (rr_seq run) uid (Some ''engine-identity'') disk), [])
            else if sat_sub (we_now env) (lt_probe lt) < TAIL_PROBE_INTERVAL_SECS then (False, lt, disk, [])
            else wedge_running env tk run uid (lt\<lparr> lt_probe := we_now env \<rparr>) disk)"

section \<open>The sweep at the start of a daemon\<close>

definition sweep_stranded :: "continuous_task \<Rightarrow> (string option \<times> u64 \<times> string) option" where
  "sweep_stranded t =
     (case ct_in_flight t of
        Some fl \<Rightarrow> Some (Some (if_uid fl), run_or_count t, if_token fl)
      | None \<Rightarrow>
          (case ct_last_run t of
             None \<Rightarrow> None
           | Some r \<Rightarrow> if rr_status r = RunRunning then Some (rr_uid r, rr_seq r, rr_token r) else None))"

definition sweep_guard :: "u64 \<Rightarrow> continuous_task \<Rightarrow> bool" where
  "sweep_guard seq t \<longleftrightarrow>
     (case ct_last_run t of None \<Rightarrow> False | Some r \<Rightarrow> rr_seq r = seq \<and> rr_status r = RunRunning)"

definition sweep_change :: "u64 \<Rightarrow> u64 \<Rightarrow> continuous_task \<Rightarrow> continuous_task" where
  "sweep_change seq now t =
     (if sweep_guard seq t
      then unblock (on_last_run (\<lambda>r. r\<lparr> rr_status := RunOrphaned,
        rr_finished := Some (case rr_finished r of Some at \<Rightarrow> at | None \<Rightarrow> now) \<rparr>) t)
      else t)\<lparr> ct_in_flight := None \<rparr>"

definition sweep_step ::
  "(string \<Rightarrow> bool) \<Rightarrow> u64 \<Rightarrow> bool \<Rightarrow> continuous_task \<Rightarrow> continuous_task option \<Rightarrow>
   continuous_task option \<times> ct_io list" where
  "sweep_step alive now saved tk disk =
     (if ct_recovery tk \<noteq> None \<or> (ct_engine tk = CtCodex \<and> (ct_blocked tk \<noteq> None \<or> ct_hold tk \<noteq> None))
      then (disk, [])
      else case sweep_stranded tk of
          None \<Rightarrow> (disk, [])
        | Some (uid, seq, token) \<Rightarrow>
            if (case uid of None \<Rightarrow> False | Some u \<Rightarrow> alive u)
            then (disk, [audit seq ''readopted'' (Some token) uid ''startup-sweep'' (Some ''running'')])
            else
              let closed = (validate_task_id (ct_id tk) = None \<and>
                    (case disk of None \<Rightarrow> False | Some t \<Rightarrow> sweep_guard seq t)) in
              (disk_modify (ct_id tk) saved (sweep_change seq now) disk,
               if closed \<or> ct_in_flight tk \<noteq> None
               then [audit seq ''restart_orphaned'' (Some token) uid ''startup-sweep'' (Some ''orphaned'')]
               else []))"

end
