(* ===== verification/ContinuousMachine.thy ===== *)
theory ContinuousMachine
  imports ContinuousWedge
begin

text \<open>
  A continuous task as a machine of interleaved threads. A fire is four atomic sections (plan, arm,
  execute, record); every other operation is one change of the record under its lock. At most one
  fire is between its guard and its record, and the recorded runs are numbered one after another.

  The orphan reconciler and the start-up sweep clear the guard of any fire; the machine takes those
  two steps only while no fire is under way.
\<close>

section \<open>Changes\<close>

datatype ct_change =
    ChReport string u64
  | ChForce u64 u64
  | ChExit string ct_status u64
  | ChStuck
  | ChUnstuck u64
  | ChClearInvestigator
  | ChAbandon
  | ChInvestigator string u64
  | ChPause pause_params
  | ChDrain u64 string
  | ChReceipt receipt_env string receipt "drain_checkpoint option"
  | ChAdvance fire_outcome u64
  | ChDiagnostic continuous_task u64 string "string option"
  | ChPoolHold run_record string string bool u64
  | ChBlock run_record string ct_engine account_block
  | ChRecovered u64 string u64
  | ChWedge ct_engine u64 string u64
  | ChRedrive u64 string u64
  | ChRelease recovery_hold u64
  | ChRehold recovery_hold u64
  | ChOrphan u64
  | ChSweep u64 u64

definition or_keep :: "continuous_task \<Rightarrow> 'e + continuous_task \<Rightarrow> continuous_task" where
  "or_keep t r = (case r of Inl _ \<Rightarrow> t | Inr t' \<Rightarrow> t')"

fun change_task :: "ct_change \<Rightarrow> continuous_task \<Rightarrow> continuous_task" where
  "change_task (ChReport uid now) t = report_flip uid now t"
| "change_task (ChForce seq now) t = force_flip seq now t"
| "change_task (ChExit uid status now) t = exit_flip uid status now t"
| "change_task ChStuck t = mark_stuck t"
| "change_task (ChUnstuck now) t = mark_unstuck now t"
| "change_task ChClearInvestigator t = clear_investigator t"
| "change_task ChAbandon t = abandon_investigator t"
| "change_task (ChInvestigator uid now) t = record_investigator uid now t"
| "change_task (ChPause p) t = or_keep t (pause_change p t)"
| "change_task (ChDrain now rid) t = drain_request now rid t"
| "change_task (ChReceipt env uid rc pr) t = or_keep t (receipt_change env uid rc pr t)"
| "change_task (ChAdvance out now) t = advance_change out now t"
| "change_task (ChDiagnostic s seq uid d) t = or_keep t (diagnostic_change s seq uid d t)"
| "change_task (ChPoolHold run uid d c now) t = pool_hold_change run uid d c now t"
| "change_task (ChBlock run uid e b) t = block_change run uid e b t"
| "change_task (ChRecovered seq uid now) t = recovered_change seq uid now t"
| "change_task (ChWedge e seq uid now) t = wedge_close_change e seq uid now t"
| "change_task (ChRedrive seq uid now) t = redrive_change seq uid now t"
| "change_task (ChRelease h now) t = release_change h now t"
| "change_task (ChRehold h now) t = rehold_change h now t"
| "change_task (ChOrphan now) t = orphan_change now t"
| "change_task (ChSweep seq now) t = sweep_change seq now t"

definition clears_guard :: "ct_change \<Rightarrow> bool" where
  "clears_guard c \<longleftrightarrow> (case c of ChOrphan _ \<Rightarrow> True | ChSweep _ _ \<Rightarrow> True | _ \<Rightarrow> False)"

definition resumes :: "ct_change \<Rightarrow> bool" where
  "resumes c \<longleftrightarrow> (case c of ChPause p \<Rightarrow> \<not> pz_paused p | _ \<Rightarrow> False)"

named_theorems change_defs

lemmas [change_defs] =
  report_flip_def force_flip_def exit_flip_def mark_stuck_def mark_unstuck_def clear_investigator_def
  abandon_investigator_def record_investigator_def pause_change_def drain_request_def
  receipt_change_def advance_change_def diagnostic_change_def pool_hold_change_def block_change_def
  recovered_change_def wedge_close_change_def redrive_change_def release_change_def rehold_change_def
  orphan_change_def sweep_change_def fail_launch_def on_last_run_def unblock_def clean_close_def
  end_run_def or_keep_def clears_guard_def resumes_def

definition run_key :: "continuous_task \<Rightarrow> (u64 \<times> string \<times> string option) option" where
  "run_key t = map_option (\<lambda>r. (rr_seq r, rr_token r, rr_uid r)) (ct_last_run t)"

definition stopped :: "continuous_task \<Rightarrow> bool" where
  "stopped t \<longleftrightarrow> ct_paused t \<or> ct_drain t \<noteq> None"

lemma change_frame [simp]:
  "ct_id (change_task c t) = ct_id t"
  "ct_run_count (change_task c t) = ct_run_count t"
  "ct_session (change_task c t) = ct_session t"
  "ct_engine (change_task c t) = ct_engine t"
  "ct_schedule (change_task c t) = ct_schedule t"
  by (cases c; simp add: change_defs Let_def split: option.splits sum.splits fire_outcome.splits prod.splits)+

lemma change_key [simp]: "run_key (change_task c t) = run_key t"
  by (cases c; simp add: run_key_def change_defs Let_def option.map_comp comp_def
    split: option.splits sum.splits fire_outcome.splits prod.splits)

lemma change_guard: "\<not> clears_guard c \<Longrightarrow> ct_in_flight (change_task c t) = ct_in_flight t"
  by (cases c; simp add: change_defs Let_def split: option.splits sum.splits fire_outcome.splits prod.splits)

lemma le_sat_add: "a \<le> sat_add a b" for a :: "'a::len word"
proof -
  have "unat a < 2 ^ LENGTH('a)" by simp
  then have "unat a \<le> 2 ^ LENGTH('a) - 1" by linarith
  then show ?thesis by (simp add: word_le_nat_alt unat_sat_add)
qed

lemma change_revision: "ct_revision t \<le> ct_revision (change_task c t)"
  by (cases c; simp add: change_defs Let_def le_sat_add split: option.splits sum.splits fire_outcome.splits prod.splits)

lemma change_stopped: "stopped t \<Longrightarrow> \<not> resumes c \<Longrightarrow> stopped (change_task c t)"
  by (cases c; auto simp: stopped_def change_defs Let_def split: option.splits sum.splits fire_outcome.splits prod.splits)

section \<open>Worlds\<close>

datatype fire_thread =
    Planned trigger_params fire_plan
  | Armed trigger_params fire_plan u64
  | Ran trigger_params fire_plan u64 "trigger_error + consumer_batch option"

text \<open>The record's file, the fires under way and the runs recorded so far.\<close>

record ct_world =
  cw_disk :: "continuous_task option"
  cw_fires :: "nat \<Rightarrow> fire_thread option"
  cw_log :: "run_record list"

fun thread_plan :: "fire_thread \<Rightarrow> fire_plan" where
  "thread_plan (Planned p plan) = plan"
| "thread_plan (Armed p plan s) = plan"
| "thread_plan (Ran p plan s r) = plan"

fun thread_params :: "fire_thread \<Rightarrow> trigger_params" where
  "thread_params (Planned p plan) = p"
| "thread_params (Armed p plan s) = p"
| "thread_params (Ran p plan s r) = p"

text \<open>The guard of a thread that is between its guard and its record.\<close>

fun thread_guard :: "fire_thread \<Rightarrow> in_flight option" where
  "thread_guard (Planned p plan) = None"
| "thread_guard (Armed p plan s) = Some \<lparr> if_token = fp_token plan, if_uid = fp_uid plan, if_started = s \<rparr>"
| "thread_guard (Ran p plan s r) = Some \<lparr> if_token = fp_token plan, if_uid = fp_uid plan, if_started = s \<rparr>"

definition under_way :: "ct_world \<Rightarrow> nat \<Rightarrow> bool" where
  "under_way w n \<longleftrightarrow> Option.bind (cw_fires w n) thread_guard \<noteq> None"

datatype ct_event =
    EvPlan nat fire_env ct_caller trigger_params
  | EvArm nat u64 bool
  | EvExecute nat fire_env
  | EvFinish nat bool
  | EvChange ct_change bool

definition with_thread :: "nat \<Rightarrow> fire_thread option \<Rightarrow> ct_world \<Rightarrow> ct_world" where
  "with_thread n th w = w\<lparr> cw_fires := (cw_fires w)(n := th) \<rparr>"

definition saved_change :: "bool \<Rightarrow> (continuous_task \<Rightarrow> continuous_task) \<Rightarrow> continuous_task option \<Rightarrow> continuous_task option" where
  "saved_change saved f disk = (if saved then map_option f disk else disk)"

fun ct_step :: "ct_world \<Rightarrow> ct_event \<Rightarrow> ct_world" where
  "ct_step w (EvPlan n env caller p) =
     (case cw_fires w n of
        Some _ \<Rightarrow> w
      | None \<Rightarrow>
          (case fst (prepare_fire env caller p (cw_disk w)) of
             Inr (Inr plan) \<Rightarrow> with_thread n (Some (Planned p plan)) w
           | _ \<Rightarrow> w))"
| "ct_step w (EvArm n now saved) =
     (case cw_fires w n of
        Some (Planned p plan) \<Rightarrow>
          (case arm_continuous_fire (fp_task plan) (fp_token plan) (fp_uid plan) now saved (cw_disk w) of
             (CtSaved _, d) \<Rightarrow> with_thread n (Some (Armed p plan now)) (w\<lparr> cw_disk := d \<rparr>)
           | (_, d) \<Rightarrow> with_thread n None (w\<lparr> cw_disk := d \<rparr>))
      | _ \<Rightarrow> w)"
| "ct_step w (EvExecute n env) =
     (case cw_fires w n of
        Some (Armed p plan s) \<Rightarrow> with_thread n (Some (Ran p plan s (fst (execute_fire env plan s)))) w
      | _ \<Rightarrow> w)"
| "ct_step w (EvFinish n saved) =
     (case cw_fires w n of
        Some (Ran p plan s (Inl e)) \<Rightarrow>
          with_thread n None (w\<lparr> cw_disk := disk_modify (tg_task p) saved clear_in_flight (cw_disk w) \<rparr>)
      | Some (Ran p plan s (Inr b)) \<Rightarrow>
          with_thread n None (w\<lparr> cw_disk := disk_modify (tg_task p) saved (record_fire plan s) (cw_disk w),
            cw_log := cw_log w @ (if saved then [fire_run_record plan s] else []) \<rparr>)
      | _ \<Rightarrow> w)"
| "ct_step w (EvChange c saved) = w\<lparr> cw_disk := saved_change saved (change_task c) (cw_disk w) \<rparr>"

fun ct_may :: "ct_world \<Rightarrow> ct_event \<Rightarrow> bool" where
  "ct_may w (EvFinish n saved) \<longleftrightarrow> (\<forall>t. cw_disk w = Some t \<longrightarrow> unat (ct_run_count t) < 2 ^ 32 - 1)"
| "ct_may w (EvChange c saved) \<longleftrightarrow> (clears_guard c \<longrightarrow> (\<forall>n. \<not> under_way w n))"
| "ct_may w e \<longleftrightarrow> True"

text \<open>What holds of every thread, of the threads under way, and of the log.\<close>

definition thread_ok :: "continuous_task \<Rightarrow> fire_thread \<Rightarrow> bool" where
  "thread_ok t th \<longleftrightarrow>
     ct_id (fp_task (thread_plan th)) = ct_id t \<and> validate_task_id (tg_task (thread_params th)) = None \<and>
     ct_revision (fp_task (thread_plan th)) \<le> ct_revision t \<and>
     (thread_guard th \<noteq> None \<longrightarrow>
        ct_in_flight t = thread_guard th \<and> ct_run_count (fp_task (thread_plan th)) = ct_run_count t)"

definition log_ok :: "run_record list \<Rightarrow> continuous_task \<Rightarrow> bool" where
  "log_ok log t \<longleftrightarrow>
     length log \<le> unat (ct_run_count t) \<and>
     map (\<lambda>r. unat (rr_seq r)) log = map Suc [unat (ct_run_count t) - length log ..< unat (ct_run_count t)] \<and>
     (log \<noteq> [] \<longrightarrow> run_key t = Some (rr_seq (last log), rr_token (last log), rr_uid (last log)))"

definition task_ok :: "ct_world \<Rightarrow> continuous_task \<Rightarrow> bool" where
  "task_ok w t \<longleftrightarrow>
     validate_task_id (ct_id t) = None \<and> log_ok (cw_log w) t \<and>
     (\<forall>n th. cw_fires w n = Some th \<longrightarrow> thread_ok t th) \<and>
     (\<forall>n m. under_way w n \<longrightarrow> under_way w m \<longrightarrow> n = m)"

definition world_ok :: "ct_world \<Rightarrow> bool" where
  "world_ok w \<longleftrightarrow> (case cw_disk w of None \<Rightarrow> False | Some t \<Rightarrow> task_ok w t)"

lemma world_okE:
  assumes "world_ok w"
  obtains t where "cw_disk w = Some t" "task_ok w t"
  using assms by (auto simp: world_ok_def split: option.splits)

lemma task_ok_thread: "task_ok w t \<Longrightarrow> cw_fires w n = Some th \<Longrightarrow> thread_ok t th"
  by (simp add: task_ok_def)

lemma unat_widen: "unat (ucast (x :: u32) :: u64) = unat x"
proof -
  have "unat x < 2 ^ 32" using unsigned_less [of x] by simp
  then show ?thesis by (simp add: unsigned_ucast_eq take_bit_nat_eq_self)
qed

section \<open>Steps\<close>

lemma plan_facts:
  assumes "fst (prepare_fire env caller p (Some t)) = Inr (Inr plan)"
  shows "fp_task plan = t" and "validate_task_id (tg_task p) = None"
  using assms
  by (auto simp: prepare_fire_def load_task_def fire_plan_for_def Let_def
    split: option.splits if_splits prod.splits sum.splits)

lemma arm_facts:
  assumes "arm_continuous_fire s token uid now saved (Some t) = (CtSaved t', d)"
  shows "d = Some t'" and "ct_in_flight t = None" and "\<not> stopped t"
    and "ct_revision s = ct_revision t" and "ct_run_count s = ct_run_count t"
    and "t' = t\<lparr> ct_in_flight := Some \<lparr> if_token = token, if_uid = uid, if_started = now \<rparr> \<rparr>"
  using assms
  by (auto simp: arm_continuous_fire_def ct_try_modify_def arm_check_def stopped_def
    split: option.splits if_splits sum.splits)

lemma arm_refused:
  assumes "arm_continuous_fire s token uid now saved disk = (out, d)" and "\<forall>t'. out \<noteq> CtSaved t'"
  shows "d = disk"
  using assms
  by (auto simp: arm_continuous_fire_def ct_try_modify_def split: option.splits if_splits sum.splits)

lemma disk_modify_valid:
  "validate_task_id tid = None \<Longrightarrow> disk_modify tid saved f (Some t) = Some (if saved then f t else t)"
  by (simp add: disk_modify_def ct_modify_def)

lemma under_way_with [simp]:
  "under_way (with_thread n th w) m \<longleftrightarrow> (if m = n then Option.bind th thread_guard \<noteq> None else under_way w m)"
  "under_way (w\<lparr> cw_disk := d \<rparr>) m \<longleftrightarrow> under_way w m"
  "under_way (w\<lparr> cw_log := l \<rparr>) m \<longleftrightarrow> under_way w m"
  by (simp_all add: under_way_def with_thread_def)

lemma with_thread_frame [simp]:
  "cw_disk (with_thread n th w) = cw_disk w" "cw_log (with_thread n th w) = cw_log w"
  "cw_fires (with_thread n th w) = (cw_fires w)(n := th)"
  by (simp_all add: with_thread_def)

text \<open>A thread under way has its guard in the record.\<close>

lemma under_way_guard:
  assumes "task_ok w t" and "under_way w n"
  shows "ct_in_flight t \<noteq> None"
proof -
  obtain th where "cw_fires w n = Some th" "thread_guard th \<noteq> None"
    using assms(2) by (auto simp: under_way_def bind_eq_Some_conv)
  then show ?thesis using assms(1) unfolding task_ok_def thread_ok_def by metis
qed

lemma thread_ok_change:
  assumes "thread_ok t th" and "clears_guard c \<longrightarrow> thread_guard th = None"
  shows "thread_ok (change_task c t) th"
  using assms change_guard [of c t] change_revision [of t c]
  unfolding thread_ok_def by (cases "thread_guard th") auto

lemma log_ok_change [simp]: "log_ok log (change_task c t) = log_ok log t"
  by (simp add: log_ok_def)

lemma step_plan_ok:
  assumes "task_ok w t" and "cw_disk w = Some t"
  shows "task_ok (ct_step w (EvPlan n env caller p)) t \<and> cw_disk (ct_step w (EvPlan n env caller p)) = Some t"
proof (cases "cw_fires w n")
  case None
  have "thread_ok t (Planned p plan)" if "fst (prepare_fire env caller p (Some t)) = Inr (Inr plan)" for plan
    using plan_facts [OF that] by (simp add: thread_ok_def)
  with None assms show ?thesis
    by (auto simp: task_ok_def split: sum.splits)
qed (use assms in simp)

lemma step_arm_ok:
  assumes ok: "task_ok w t" and disk: "cw_disk w = Some t"
  shows "world_ok (ct_step w (EvArm n now saved))"
proof (cases "\<exists>p plan. cw_fires w n = Some (Planned p plan)")
  case False
  then have "ct_step w (EvArm n now saved) = w" by (auto split: option.splits fire_thread.splits)
  then show ?thesis using ok disk by (simp add: world_ok_def)
next
  case True
  then obtain p plan where th: "cw_fires w n = Some (Planned p plan)" by blast
  obtain out d where arm: "arm_continuous_fire (fp_task plan) (fp_token plan) (fp_uid plan) now saved (Some t) = (out, d)"
    by fastforce
  show ?thesis
  proof (cases "\<exists>t'. out = CtSaved t'")
    case False
    then have "d = Some t" using arm_refused [OF arm] by blast
    with False arm th ok disk show ?thesis
      by (cases out) (auto simp: world_ok_def task_ok_def)
  next
    case True
    then obtain t' where out: "out = CtSaved t'" by blast
    note af = arm_facts [OF arm [unfolded out]]
    have free: "\<not> under_way w m" for m using under_way_guard [OF ok] af(2) by blast
    have "thread_ok t' th'" if "cw_fires w m = Some th'" for m th'
    proof -
      have "thread_ok t th'" "thread_guard th' = None"
        using ok that free [of m] by (auto simp: task_ok_def under_way_def)
      then show ?thesis by (simp add: thread_ok_def af(6))
    qed
    moreover have "thread_ok t' (Armed p plan now)"
      using task_ok_thread [OF ok th] af by (simp add: thread_ok_def)
    moreover have "log_ok (cw_log w) t' \<and> validate_task_id (ct_id t') = None"
      using ok by (simp add: af(6) log_ok_def run_key_def task_ok_def)
    ultimately show ?thesis using out arm th disk free af(1)
      by (auto simp: world_ok_def task_ok_def)
  qed
qed

lemma step_execute_ok:
  assumes "task_ok w t" and "cw_disk w = Some t"
  shows "world_ok (ct_step w (EvExecute n env))"
proof (cases "\<exists>p plan s. cw_fires w n = Some (Armed p plan s)")
  case True
  then obtain p plan s where th: "cw_fires w n = Some (Armed p plan s)" by blast
  have "thread_ok t (Armed p plan s)" using assms(1) th by (simp add: task_ok_def)
  then have "thread_ok t (Ran p plan s r)" for r by (simp add: thread_ok_def)
  moreover have "under_way w n" using th by (simp add: under_way_def)
  ultimately show ?thesis using assms th by (auto simp: world_ok_def task_ok_def)
next
  case False
  then have "ct_step w (EvExecute n env) = w" by (auto split: option.splits fire_thread.splits)
  then show ?thesis using assms by (simp add: world_ok_def)
qed

lemma log_ok_record:
  assumes "log_ok log t" and "ct_run_count (fp_task plan) = ct_run_count t" and "unat (ct_run_count t) < 2 ^ 32 - 1"
  shows "log_ok (log @ [fire_run_record plan s]) (record_fire plan s t)"
proof -
  have c: "unat (sat_add (ct_run_count t) 1) = Suc (unat (ct_run_count t))"
    using assms(3) by (simp add: unat_sat_add)
  have "unat (ucast (ct_run_count t) + 1 :: u64) = Suc (unat (ct_run_count t))"
    using assms(3) by (simp add: unat_word_ariths unat_widen)
  then show ?thesis using assms(1,2) c
    by (auto simp: log_ok_def record_fire_def fire_run_record_def plan_seq_def run_key_def Suc_diff_le)
qed

lemma other_thread_free:
  assumes "task_ok w t" and "under_way w n" and "cw_fires w m = Some th" and "m \<noteq> n"
  shows "thread_guard th = None \<and> thread_ok t th"
proof -
  have "\<not> under_way w m" using assms unfolding task_ok_def by blast
  then show ?thesis using assms(1,3) by (auto simp: under_way_def task_ok_def)
qed

lemma step_finish_ok:
  assumes ok: "task_ok w t" and disk: "cw_disk w = Some t" and may: "unat (ct_run_count t) < 2 ^ 32 - 1"
  shows "world_ok (ct_step w (EvFinish n saved))"
proof (cases "\<exists>p plan s r. cw_fires w n = Some (Ran p plan s r)")
  case False
  then have "ct_step w (EvFinish n saved) = w" by (auto split: option.splits fire_thread.splits)
  then show ?thesis using ok disk by (simp add: world_ok_def)
next
  case True
  then obtain p plan s r where th: "cw_fires w n = Some (Ran p plan s r)" by blast
  have n: "under_way w n" using th by (simp add: under_way_def)
  have tok: "validate_task_id (tg_task p) = None" "ct_run_count (fp_task plan) = ct_run_count t"
    using task_ok_thread [OF ok th] by (simp_all add: thread_ok_def)
  note other = other_thread_free [OF ok n]
  have alone: "under_way w m \<Longrightarrow> m = n" for m using ok n by (auto simp: task_ok_def)
  have frame: "thread_ok (f t) th' \<and> thread_ok t th'"
    if "cw_fires w m = Some th'" "m \<noteq> n" "ct_id (f t) = ct_id t" "ct_revision (f t) = ct_revision t" for m th' f
    using other [OF that(1,2)] that(3,4) by (simp add: thread_ok_def)
  have fin: "ct_id (clear_in_flight t) = ct_id t" "ct_revision (clear_in_flight t) = ct_revision t"
    "ct_id (record_fire plan s t) = ct_id t" "ct_revision (record_fire plan s t) = ct_revision t"
    "log_ok (cw_log w) (clear_in_flight t) = log_ok (cw_log w) t"
    by (simp_all add: clear_in_flight_def record_fire_def log_ok_def run_key_def)
  note facts = tok fin frame [of _ _ clear_in_flight] frame [of _ _ "record_fire plan s"]
    log_ok_record [OF _ tok(2) may] disk_modify_valid [OF tok(1)]
  show ?thesis
    using th disk ok facts alone
    by (cases r) (auto simp: world_ok_def task_ok_def)
qed

lemma step_change_ok:
  assumes "task_ok w t" and "cw_disk w = Some t" and "clears_guard c \<longrightarrow> (\<forall>n. \<not> under_way w n)"
  shows "world_ok (ct_step w (EvChange c saved))"
proof -
  have "thread_ok (change_task c t) th" if "cw_fires w n = Some th" for n th
  proof (rule thread_ok_change)
    show "thread_ok t th" using assms(1) that by (simp add: task_ok_def)
    show "clears_guard c \<longrightarrow> thread_guard th = None"
      using assms(3) that unfolding under_way_def by (metis bind.bind_lunit)
  qed
  then show ?thesis using assms(1,2)
    by (auto simp: world_ok_def task_ok_def saved_change_def)
qed

lemma ct_step_ok: "world_ok w \<Longrightarrow> ct_may w e \<Longrightarrow> world_ok (ct_step w e)"
proof (elim world_okE)
  fix t
  assume t: "cw_disk w = Some t" "task_ok w t" and may: "ct_may w e"
  show "world_ok (ct_step w e)"
  proof (cases e)
    case (EvPlan n env caller p)
    then show ?thesis using step_plan_ok [OF t(2,1)] by (simp add: world_ok_def)
  next
    case (EvArm n now saved)
    then show ?thesis using step_arm_ok [OF t(2,1)] by blast
  next
    case (EvExecute n env)
    then show ?thesis using step_execute_ok [OF t(2,1)] by blast
  next
    case (EvFinish n saved)
    then show ?thesis using step_finish_ok [OF t(2,1)] may t(1) by simp
  next
    case (EvChange c saved)
    then show ?thesis using step_change_ok [OF t(2,1)] may by simp
  qed
qed

interpretation fires: invariant_system ct_step ct_may world_ok
  by unfold_locales (rule ct_step_ok)

section \<open>A stop\<close>

fun resuming :: "ct_event \<Rightarrow> bool" where
  "resuming (EvChange c saved) \<longleftrightarrow> resumes c"
| "resuming e \<longleftrightarrow> False"

definition stopped_world :: "ct_world \<Rightarrow> bool" where
  "stopped_world w \<longleftrightarrow> (\<exists>t. cw_disk w = Some t \<and> stopped t)"

text \<open>The runs recorded so far, with the one that may still be recorded.\<close>

definition admitted :: "ct_world \<Rightarrow> nat" where
  "admitted w = length (cw_log w) + (if \<exists>n. under_way w n then 1 else 0)"

lemma stopped_record [simp]:
  "stopped (record_fire plan s t) = stopped t" "stopped (clear_in_flight t) = stopped t"
  by (simp_all add: stopped_def record_fire_def clear_in_flight_def)

lemma arm_when_stopped:
  assumes "stopped t"
  shows "\<exists>out. arm_continuous_fire s token uid now saved (Some t) = (out, Some t) \<and> (\<forall>t'. out \<noteq> CtSaved t')"
  using assms
  by (auto simp: arm_continuous_fire_def ct_try_modify_def arm_check_def stopped_def
    split: option.splits sum.splits)

lemma stopped_step:
  assumes ok: "world_ok w" and may: "ct_may w e" and st: "stopped_world w" and e: "\<not> resuming e"
  shows "stopped_world (ct_step w e) \<and> admitted (ct_step w e) \<le> admitted w"
proof -
  obtain t where t: "cw_disk w = Some t" "task_ok w t" using ok by (rule world_okE)
  have stop: "stopped t" using st t by (auto simp: stopped_world_def)
  have valid: "validate_task_id (tg_task (thread_params th)) = None" if "cw_fires w n = Some th" for n th
    using t(2) that by (simp add: task_ok_def thread_ok_def)
  have one: "under_way w n \<Longrightarrow> under_way w m \<Longrightarrow> n = m" for n m
    using t(2) by (auto simp: task_ok_def)
  show ?thesis
  proof (cases e)
    case (EvPlan n env caller p)
    then show ?thesis using t stop
      by (auto simp: stopped_world_def admitted_def split: option.splits sum.splits if_splits)
  next
    case (EvArm n now saved)
    show ?thesis
    proof (cases "\<exists>p plan. cw_fires w n = Some (Planned p plan)")
      case True
      then obtain p plan where th: "cw_fires w n = Some (Planned p plan)" by blast
      from arm_when_stopped [OF stop] obtain out where
        "arm_continuous_fire (fp_task plan) (fp_token plan) (fp_uid plan) now saved (Some t) = (out, Some t)"
        "\<forall>t'. out \<noteq> CtSaved t'" by blast
      then show ?thesis using EvArm th t stop
        by (cases out) (auto simp: stopped_world_def admitted_def)
    next
      case False
      then have "ct_step w e = w" using EvArm by (auto split: option.splits fire_thread.splits)
      then show ?thesis using st by simp
    qed
  next
    case (EvExecute n env)
    have "under_way (ct_step w e) m \<Longrightarrow> under_way w m" for m
      using EvExecute by (auto simp: under_way_def split: option.splits fire_thread.splits if_splits)
    then have "(\<exists>m. under_way (ct_step w e) m) \<Longrightarrow> (\<exists>m. under_way w m)" by blast
    moreover have "cw_disk (ct_step w e) = cw_disk w" "cw_log (ct_step w e) = cw_log w"
      using EvExecute by (auto split: option.splits fire_thread.splits)
    ultimately show ?thesis using st by (simp add: stopped_world_def admitted_def)
  next
    case (EvFinish n saved)
    show ?thesis
    proof (cases "\<exists>p plan s r. cw_fires w n = Some (Ran p plan s r)")
      case True
      then obtain p plan s r where th: "cw_fires w n = Some (Ran p plan s r)" by blast
      have v: "validate_task_id (tg_task p) = None" using valid [OF th] by simp
      have n: "under_way w n" using th by (simp add: under_way_def)
      then have alone: "\<not> under_way (ct_step w e) m" for m
        using EvFinish th one [of n m] by (cases r) auto
      show ?thesis using EvFinish th t stop n alone disk_modify_valid [OF v]
        by (cases r) (auto simp: stopped_world_def admitted_def)
    next
      case False
      then have "ct_step w e = w" using EvFinish by (auto split: option.splits fire_thread.splits)
      then show ?thesis using st by simp
    qed
  next
    case (EvChange c saved)
    then show ?thesis using t stop e change_stopped [OF stop, of c]
      by (auto simp: stopped_world_def admitted_def saved_change_def)
  qed
qed

interpretation halted: invariant_system ct_step "\<lambda>w e. ct_may w e \<and> \<not> resuming e"
    "\<lambda>w. world_ok w \<and> stopped_world w"
  by unfold_locales (use ct_step_ok stopped_step in blast)

lemma halted_admits_nothing:
  "world_ok w \<and> stopped_world w \<Longrightarrow> halted.may_run w es \<Longrightarrow> admitted (halted.run w es) \<le> admitted w"
proof (induction es arbitrary: w)
  case (Cons e es)
  then have "admitted (halted.run (ct_step w e) es) \<le> admitted (ct_step w e)"
    using ct_step_ok stopped_step by (auto simp: halted.run.simps)
  moreover have "admitted (ct_step w e) \<le> admitted w" using Cons.prems stopped_step by simp
  ultimately show ?case by simp
qed simp

section \<open>A plan made before a stop\<close>

definition plan_is_stale :: "nat \<Rightarrow> ct_world \<Rightarrow> bool" where
  "plan_is_stale n w \<longleftrightarrow>
     (case cw_fires w n of
        None \<Rightarrow> True
      | Some (Planned p plan) \<Rightarrow> (\<exists>t. cw_disk w = Some t \<and> ct_revision (fp_task plan) < ct_revision t)
      | Some _ \<Rightarrow> False)"

fun plans :: "nat \<Rightarrow> ct_event \<Rightarrow> bool" where
  "plans n (EvPlan m env caller p) \<longleftrightarrow> m = n"
| "plans n e \<longleftrightarrow> False"

lemma stale_step:
  assumes ok: "world_ok w" and may: "ct_may w e" and st: "plan_is_stale n w" and e: "\<not> plans n e"
  shows "plan_is_stale n (ct_step w e)"
proof -
  obtain t where t: "cw_disk w = Some t" "task_ok w t" using ok by (rule world_okE)
  have rec: "ct_revision (record_fire plan s t) = ct_revision t" "ct_revision (clear_in_flight t) = ct_revision t"
    for plan s by (simp_all add: record_fire_def clear_in_flight_def)
  have valid: "validate_task_id (tg_task (thread_params th)) = None" if "cw_fires w m = Some th" for m th
    using t(2) that by (simp add: task_ok_def thread_ok_def)
  show ?thesis
  proof (cases e)
    case (EvPlan m env caller p)
    then show ?thesis using st e by (auto simp: plan_is_stale_def split: option.splits sum.splits fire_thread.splits)
  next
    case (EvArm m now saved)
    show ?thesis
    proof (cases "cw_fires w m")
      case (Some th)
      show ?thesis
      proof (cases th)
        case (Planned p plan)
        obtain out d where arm: "arm_continuous_fire (fp_task plan) (fp_token plan) (fp_uid plan) now saved (Some t) = (out, d)"
          by fastforce
        show ?thesis
        proof (cases "\<exists>t'. out = CtSaved t'")
          case True
          then obtain t' where out: "out = CtSaved t'" by blast
          note af = arm_facts [OF arm [unfolded out]]
          have "m \<noteq> n" using st Some Planned af(4) t(1) by (auto simp: plan_is_stale_def)
          then show ?thesis using EvArm Some Planned arm out st t(1) af(1,6)
            by (auto simp: plan_is_stale_def split: option.splits fire_thread.splits)
        next
          case False
          then have "d = Some t" using arm_refused [OF arm] by blast
          then show ?thesis using EvArm Some Planned arm False st t(1)
            by (cases out) (auto simp: plan_is_stale_def split: option.splits fire_thread.splits)
        qed
      qed (use EvArm Some st in auto)
    qed (use EvArm st in simp)
  next
    case (EvExecute m env)
    then show ?thesis using st by (auto simp: plan_is_stale_def split: option.splits fire_thread.splits)
  next
    case (EvFinish m saved)
    show ?thesis
    proof (cases "cw_fires w m")
      case (Some th)
      then show ?thesis using EvFinish st t(1) rec valid [OF Some]
        by (cases th) (auto simp: plan_is_stale_def disk_modify_valid split: option.splits fire_thread.splits sum.splits)
    qed (use EvFinish st in simp)
  next
    case (EvChange c saved)
    then show ?thesis using st t(1) change_revision [of t c]
      by (auto simp: plan_is_stale_def saved_change_def split: option.splits fire_thread.splits intro: less_le_trans)
  qed
qed

end
