(* ===== verification/ContinuousLaws.thy ===== *)
theory ContinuousLaws
  imports ContinuousMachine
begin

text \<open>
  What the operations of a continuous task do: \<open>trigger\<close> is a run of the machine, the batch of a
  consumer is settled once, the backoff and the breaker, the first closer of a run, the watchdog,
  the status of a stop request.
\<close>

section \<open>A fire is its sections\<close>

fun section_of :: "nat \<Rightarrow> fire_env \<Rightarrow> ct_caller \<Rightarrow> trigger_params \<Rightarrow> ct_event \<Rightarrow> bool" where
  "section_of n env caller p (EvPlan m e c q) \<longleftrightarrow> m = n \<and> e = env \<and> c = caller \<and> q = p"
| "section_of n env caller p (EvArm m now saved) \<longleftrightarrow> m = n \<and> now = tv_now env \<and> saved = tv_arm_saved env"
| "section_of n env caller p (EvExecute m e) \<longleftrightarrow> m = n \<and> e = env"
| "section_of n env caller p (EvFinish m saved) \<longleftrightarrow> m = n \<and> saved = tv_record_saved env"
| "section_of n env caller p (EvChange c saved) \<longleftrightarrow> False"

definition changes :: "ct_change list \<Rightarrow> ct_event list" where
  "changes cs = map (\<lambda>c. EvChange c True) cs"

lemma run_changes:
  "fires.run w (changes cs @ es) =
     fires.run (w\<lparr> cw_disk := map_option (fold change_task cs) (cw_disk w) \<rparr>) es"
proof (induction cs arbitrary: w)
  case Nil
  show ?case by (cases w) (simp add: changes_def id_def option.map_ident)
next
  case (Cons c cs)
  show ?case using Cons.IH [of "ct_step w (EvChange c True)"]
    by (simp add: changes_def saved_change_def option.map_comp comp_def)
qed

lemma finish_disk:
  assumes "validate_task_id (tg_task p) = None"
  shows "finish_fire env p plan s (Some t) = (res, d, ios) \<Longrightarrow>
    d = Some (if tv_record_saved env
      then (case fst (execute_fire env plan s) of Inl _ \<Rightarrow> clear_in_flight t | Inr _ \<Rightarrow> record_fire plan s t) else t)
    \<and> ((\<exists>a b m c. res = Inr (Fired a b m c)) \<longleftrightarrow> (\<exists>b. fst (execute_fire env plan s) = Inr b))"
  using assms
  by (auto simp: finish_fire_def Let_def disk_modify_valid split: sum.splits prod.splits if_splits)

lemma trigger_is_a_run:
  assumes fire: "trigger env caller p (cw_disk w) = (res, d, ios)"
    and w: "cw_disk w = Some t" "cw_fires w n = None"
    and before: "tv_before_arm env = fold change_task cs" "tv_before_record env = fold change_task ds"
  shows "\<exists>es. (\<forall>e\<in>set es. section_of n env caller p e \<or> e \<in> set (changes (cs @ ds))) \<and>
    cw_disk (fires.run w es) = d \<and>
    length (cw_log (fires.run w es)) = length (cw_log w) +
      (if (\<exists>a b m c. res = Inr (Fired a b m c)) \<and> tv_record_saved env then 1 else 0) \<and>
    cw_fires (fires.run w es) = cw_fires w"
proof (cases "\<exists>plan. fst (prepare_fire env caller p (Some t)) = Inr (Inr plan)")
  case False
  then have "d = Some t" "\<not> (\<exists>a b m c. res = Inr (Fired a b m c))"
    using fire w(1) by (auto simp: trigger_def split: prod.splits sum.splits)
  then show ?thesis using w(1) by (intro exI [of _ "[]"]) simp
next
  case True
  then obtain plan where plan: "fst (prepare_fire env caller p (Some t)) = Inr (Inr plan)" by blast
  note pf = plan_facts [OF plan]
  have idle: "(cw_fires w)(n := None) = cw_fires w" using w(2) by (simp add: fun_upd_idem)
  let ?w1 = "with_thread n (Some (Planned p plan)) w"
  let ?t1 = "fold change_task cs t"
  have p1: "ct_step w (EvPlan n env caller p) = ?w1" using w plan by simp
  obtain out d1 where arm: "arm_continuous_fire (fp_task plan) (fp_token plan) (fp_uid plan) (tv_now env)
      (tv_arm_saved env) (Some ?t1) = (out, d1)" by fastforce
  let ?es = "EvPlan n env caller p # changes cs @ [EvArm n (tv_now env) (tv_arm_saved env)]"
  have run1: "fires.run w (?es @ fs) =
      fires.run (ct_step (?w1\<lparr> cw_disk := Some ?t1 \<rparr>) (EvArm n (tv_now env) (tv_arm_saved env))) fs" for fs
    using p1 w(1) by (simp add: run_changes)
  show ?thesis
  proof (cases "\<exists>t'. out = CtSaved t'")
    case False
    have "d1 = Some ?t1" using arm_refused [OF arm] False by blast
    then have "d = Some ?t1" "\<not> (\<exists>a b m c. res = Inr (Fired a b m c))"
      using fire plan arm False w(1) before(1)
      by (cases out; auto simp: trigger_def split: prod.splits)+
    then show ?thesis using run1 [of "[]"] arm False idle \<open>d1 = Some ?t1\<close>
      by (intro exI [of _ ?es]) (cases out; auto simp: changes_def)
  next
    case True
    then obtain t' where out: "out = CtSaved t'" by blast
    note af = arm_facts [OF arm [unfolded out]]
    let ?t2 = "fold change_task ds t'"
    let ?w2 = "with_thread n (Some (Armed p plan (tv_now env))) (?w1\<lparr> cw_disk := Some t' \<rparr>)"
    let ?fs = "changes ds @ [EvExecute n env, EvFinish n (tv_record_saved env)]"
    obtain ios' where fin: "finish_fire env p plan (tv_now env) (Some ?t2) = (res, d, ios')"
      using fire plan arm out w(1) before af(1) by (auto simp: trigger_def split: prod.splits)
    note fd = finish_disk [OF pf(2) fin]
    have "fires.run w (?es @ ?fs) =
        fires.run (?w2\<lparr> cw_disk := Some ?t2 \<rparr>) [EvExecute n env, EvFinish n (tv_record_saved env)]"
      using run1 [of ?fs] arm out af(1) by (simp add: run_changes)
    moreover have "cw_disk \<dots> = d \<and> length (cw_log \<dots>) = length (cw_log w) +
      (if (\<exists>a b m c. res = Inr (Fired a b m c)) \<and> tv_record_saved env then 1 else 0) \<and>
      cw_fires \<dots> = cw_fires w"
      using fd disk_modify_valid [OF pf(2)] idle
      by (cases "fst (execute_fire env plan (tv_now env))") auto
    ultimately show ?thesis
      by (intro exI [of _ "?es @ ?fs"]) (auto simp: changes_def)
  qed
qed

section \<open>Batches\<close>

definition claims :: "ct_io list \<Rightarrow> bool" where
  "claims ios \<longleftrightarrow> (\<exists>q n by. IoClaim q n by \<in> set ios)"

lemma standing_quiet: "standing_for env t = (s, ios) \<Longrightarrow> \<forall>io\<in>set ios. \<exists>a b. io = IoStanding a b"
  by (auto simp: standing_for_def split: prod.splits sum.splits option.splits)

lemma prepare_quiet:
  "prepare_fire env caller p disk = (r, ios) \<Longrightarrow> \<forall>io\<in>set ios. \<exists>a b. io = IoStanding a b"
  by (auto simp: prepare_fire_def dest: standing_quiet split: option.splits if_splits prod.splits sum.splits)

text \<open>What a consumer's fire does to its batch.\<close>

definition settles :: "string \<Rightarrow> string list \<Rightarrow> bool \<Rightarrow> ct_io list \<Rightarrow> bool" where
  "settles q ids acked ios \<longleftrightarrow>
     filter (\<lambda>io. case io of IoAck _ _ \<Rightarrow> True | IoRelease _ _ \<Rightarrow> True | _ \<Rightarrow> False) ios =
       (if ids = [] then [] else if acked then [IoAck q ids] else [IoRelease q ids])"

lemma execute_batch:
  assumes "execute_fire env plan s = (r, ios)" and "ct_schedule (fp_task plan) = Consumer q n w th"
    and "claims ios" and "tv_claim env = Some items"
  shows "(case r of Inr b \<Rightarrow> b = Some \<lparr> cb_queue = q, cb_ids = map qi_id items \<rparr> \<and> settles q [] True ios
    | Inl _ \<Rightarrow> settles q (map qi_id items) False ios)"
  using assms
  by (auto simp: execute_fire_def stage_consumer_batch_def settles_def claims_def Let_def
      release_consumer_batch_def ack_consumer_batch_def split: if_splits option.splits prod.splits)

lemma execute_claims:
  assumes "execute_fire env plan s = (r, ios)" and "claims ios"
  shows "\<not> compact_fire plan \<and> (\<exists>q n w th. ct_schedule (fp_task plan) = Consumer q n w th)"
  using assms
  by (auto simp: execute_fire_def stage_consumer_batch_def claims_def Let_def
      split: if_splits option.splits prod.splits ct_schedule.splits)

lemma settles_append:
  assumes "settles q ids b ios" and "\<forall>io\<in>set pre. \<exists>a b. io = IoStanding a b"
  shows "settles q ids b (pre @ ios @ [IoAudit l])"
proof -
  have "filter (\<lambda>io. case io of IoAck _ _ \<Rightarrow> True | IoRelease _ _ \<Rightarrow> True | _ \<Rightarrow> False) pre = []"
    using assms(2) by (auto simp: filter_empty_conv split: ct_io.splits)
  then show ?thesis using assms(1) by (simp add: settles_def)
qed

lemma claims_append: "claims (xs @ ys) \<longleftrightarrow> claims xs \<or> claims ys"
  by (auto simp: claims_def)

lemma claims_none [simp]: "\<not> claims (ack_consumer_batch q ids)" "\<not> claims [IoAudit l]" "\<not> claims []"
  by (auto simp: claims_def ack_consumer_batch_def)

lemma trigger_batch:
  assumes fire: "trigger env caller p (Some t) = (res, d, ios)"
    and "claims ios" and items: "tv_claim env = Some items"
  shows "\<exists>q n w th. ct_schedule t = Consumer q n w th \<and>
    settles q (map qi_id items) (\<exists>a b m. res = Inr (Fired a b m False)) ios"
proof -
  obtain r pre where prep: "prepare_fire env caller p (Some t) = (r, pre)" by fastforce
  note quiet = prepare_quiet [OF prep]
  then have pre: "\<not> claims pre" by (force simp: claims_def)
  then obtain plan where r: "r = Inr (Inr plan)"
    using fire assms(2) prep by (auto simp: trigger_def split: sum.splits)
  have t: "fp_task plan = t" using plan_facts(1) [of env caller p t plan] prep r by simp
  obtain t' post where fin: "finish_fire env p plan (tv_now env) (map_option (tv_before_record env) (Some t')) = (res, d, post)"
    and ios: "ios = pre @ post"
    using fire assms(2) prep r pre
    by (auto simp: trigger_def arm_continuous_fire_def ct_try_modify_def
        split: prod.splits ct_outcome.splits option.splits sum.splits if_splits)
  obtain er eios where ex: "execute_fire env plan (tv_now env) = (er, eios)" by fastforce
  have "claims post" using assms(2) ios pre by (simp add: claims_append)
  then have "claims eios"
    using fin ex
    by (auto simp: finish_fire_def claims_append audit_def Let_def split: sum.splits option.splits)
  note cl = execute_claims [OF ex this] and b = execute_batch [OF ex _ this items]
  from cl t obtain q n w th where s: "ct_schedule t = Consumer q n w th" by blast
  show ?thesis
  proof (cases er)
    case (Inl e)
    then have "settles q (map qi_id items) False eios" using b s t by auto
    then show ?thesis using settles_append [OF _ quiet] fin ex Inl ios s
      by (auto simp: finish_fire_def audit_def Let_def)
  next
    case (Inr bt)
    then have "bt = Some \<lparr> cb_queue = q, cb_ids = map qi_id items \<rparr>" "settles q [] True eios"
      using b s t by auto
    then have "settles q (map qi_id items) True (eios @ ack_consumer_batch q (map qi_id items))"
      by (auto simp: settles_def ack_consumer_batch_def)
    from settles_append [OF this quiet] show ?thesis
      using fin ex Inr ios s cl \<open>bt = _\<close> by (auto simp: finish_fire_def audit_def Let_def)
  qed
qed

section \<open>Backoff and breaker\<close>

lemma unat_pow2: "n \<le> 16 \<Longrightarrow> unat (2 ^ n :: u64) = 2 ^ n"
proof -
  assume "n \<le> 16"
  then have "(2::nat) ^ n \<le> 2 ^ 16" by (rule power_increasing) simp
  then have "2 ^ n mod 2 ^ 64 = (2::nat) ^ n" by simp
  then have "unat (of_nat (2 ^ n) :: u64) = 2 ^ n" by (simp only: unat_of_nat len_of_numeral_defs) simp
  then show ?thesis by simp
qed

lemma unat_min: "unat (min a b) = min (unat a) (unat b)"
  by (simp add: min_def word_le_nat_alt)

lemma unat_max: "unat (max a b) = max (unat a) (unat b)"
  by (simp add: max_def word_le_nat_alt)

lemma backoff_value:
  "unat (backoff_secs every n) = min (max 1 (unat every) * 2 ^ min 16 (unat n)) 3600"
proof -
  have "unat (min n 16) \<le> 16" by (simp add: unat_min)
  then show ?thesis
    by (simp add: backoff_secs_def BACKOFF_CAP_SECS_def unat_min unat_max unat_sat_mul unat_pow2 max.commute min.commute)
      (simp add: min_def)
qed

lemma capacity_backoff_value:
  "unat (capacity_hold_backoff n) = min (1800 * 2 ^ min 16 (unat n)) 14400"
proof -
  have "unat (min n 16) \<le> 16" by (simp add: unat_min)
  then show ?thesis
    by (simp add: capacity_hold_backoff_def CAPACITY_HOLD_RELEASE_BASE_SECS_def
      CAPACITY_HOLD_RELEASE_MAX_SECS_def unat_min unat_sat_mul unat_pow2 min.commute)
qed

text \<open>A row of failed launches.\<close>

definition failed_launches :: "u64 list \<Rightarrow> continuous_task \<Rightarrow> continuous_task" where
  "failed_launches nows t = fold (advance_change OutFailed) nows t"

lemma advance_schedule [simp]: "ct_schedule (advance_change out now t) = ct_schedule t"
  using change_frame(5) [of "ChAdvance out now" t] by simp

lemma failed_launches_value:
  assumes "fire_spacing (ct_schedule t) = Some every" and "ct_failures t = 0" and "\<not> ct_paused t"
    and "length nows < 2 ^ 32"
  shows "unat (ct_failures (failed_launches nows t)) = length nows \<and>
    ct_paused (failed_launches nows t) = (5 \<le> length nows)"
  using assms(4)
proof (induction nows rule: rev_induct)
  case Nil
  then show ?case using assms by (simp add: failed_launches_def)
next
  case (snoc now nows)
  let ?u = "failed_launches nows t"
  have s: "ct_schedule ?u = ct_schedule t"
    unfolding failed_launches_def by (induction nows arbitrary: t) auto
  have "unat (sat_add (ct_failures ?u) 1) = Suc (length nows)"
    using snoc by (simp add: unat_sat_add)
  then show ?case using snoc s assms(1)
    by (auto simp: failed_launches_def advance_change_def fail_launch_def Let_def
        CONSECUTIVE_FAILURE_LIMIT_def word_le_nat_alt)
qed

end
