(* ===== verification/ContinuousEnds.thy ===== *)
theory ContinuousEnds
  imports ContinuousLaws
begin

text \<open>
  How runs and stop requests of a continuous task end: a stranded run that is fired again, the
  first closer of a run, the watchdog, the status of a stop request, the standing instructions and
  the staged batches.
\<close>

section \<open>A fire that nothing stands in the way of\<close>

definition fires_well :: "fire_env \<Rightarrow> bool" where
  "fires_well env \<longleftrightarrow>
     tv_before_arm env = id \<and> tv_before_record env = id \<and> tv_arm_saved env \<and> tv_record_saved env \<and> tv_spawns env"

text \<open>A task that may be armed, and whose fires spawn a session of their own.\<close>

definition ready_to_fire :: "continuous_task \<Rightarrow> bool" where
  "ready_to_fire t \<longleftrightarrow>
     validate_task_id (ct_id t) = None \<and> \<not> stopped t \<and> ct_adoption t = None \<and> ct_hold t = None \<and>
     ct_blocked t = None \<and> ct_retirement t = None \<and> ct_recovery t = None \<and> ct_in_flight t = None \<and>
     ct_mode t = ModeFresh \<and> \<not> is_consumer t"

lemma ready_fires:
  assumes t: "ready_to_fire t" and env: "fires_well env" "\<not> rotating env t"
    and tok: "map_option rr_token (ct_last_run t) \<noteq> Some token"
  shows "\<exists>plan ios. fire_task env False (ct_id t) token (Some t) =
      (OutFired, Some (record_fire plan (tv_now env) t), ios) \<and>
    fp_task plan = t \<and> fp_token plan = token \<and> fp_uid plan = tv_uid env \<and> \<not> compact_fire plan"
proof -
  let ?p = "\<lparr> tg_task = ct_id t, tg_prompt = None, tg_mode = None, tg_token = Some token \<rparr>"
  let ?c = "OperatorToken SCHEDULER_CALLER_TOKEN"
  obtain standing ios where s: "standing_for env t = (standing, ios)" by fastforce
  let ?plan = "fire_plan_for env ?c ?p t standing (ct_prompt t)"
  have plan: "fp_task ?plan = t" "fp_token ?plan = token" "fp_uid ?plan = tv_uid env" "\<not> compact_fire ?plan"
    "fp_live ?plan = None"
    using t by (simp_all add: fire_plan_for_def Let_def persistent_target_def ready_to_fire_def compact_fire_def)
  have prep: "prepare_fire env ?c ?p (Some t) = (Inr (Inr ?plan), ios)"
    using t env(2) s
    by (simp add: prepare_fire_def ready_to_fire_def stopped_def caller_may_fire_def load_task_def resolve_prompt_def)
  let ?t' = "t\<lparr> ct_in_flight := Some \<lparr> if_token = token, if_uid = tv_uid env, if_started = tv_now env \<rparr> \<rparr>"
  have arm: "arm_continuous_fire t token (tv_uid env) (tv_now env) True (Some t) = (CtSaved ?t', Some ?t')"
    using t tok
    by (simp add: arm_continuous_fire_def ct_try_modify_def arm_check_def ready_to_fire_def stopped_def)
  obtain eios where ex: "execute_fire env ?plan (tv_now env) = (Inr None, eios)"
    using t env(1) plan
    by (cases "ct_schedule t")
      (auto simp: execute_fire_def stage_consumer_batch_def ready_to_fire_def is_consumer_def Let_def fires_well_def)
  have "finish_fire env ?p ?plan (tv_now env) (Some ?t') =
      (Inr (Fired token (tv_uid env) (ct_mode t) False), Some (record_fire ?plan (tv_now env) ?t'),
       eios @ [audit (plan_seq ?plan) ''fired'' (Some token) (Some (tv_uid env)) (fp_source ?plan) (Some ''running'')])"
    using t env(1) plan ex
    by (simp add: finish_fire_def Let_def disk_modify_valid ready_to_fire_def fires_well_def)
  moreover have "record_fire ?plan (tv_now env) ?t' = record_fire ?plan (tv_now env) t"
    by (simp add: record_fire_def)
  ultimately show ?thesis
    using prep arm plan env(1)
    by (auto simp: fire_task_def trigger_def fires_well_def fire_outcome_of_def)
qed

section \<open>A stranded run\<close>

text \<open>A periodic task whose run has lost its session, past the grace; nothing else is wrong with it.\<close>

definition left_stranded :: "sched_env \<Rightarrow> continuous_task \<Rightarrow> bool" where
  "left_stranded env t \<longleftrightarrow>
     ready_to_fire (t\<lparr> ct_blocked := None, ct_in_flight := None \<rparr>) \<and>
     (\<exists>every. ct_schedule t = Periodic every) \<and> ct_enabled t \<and>
     (ct_engine t = CtCodex \<longrightarrow> ct_blocked t = None) \<and>
     (case stranded_run t of
        None \<Rightarrow> False
      | Some (uid, at, _, _) \<Rightarrow> se_dead env uid \<and> RECONCILE_GRACE_SECS \<le> sat_sub (se_now env) at)"

lemma orphan_frame [simp]:
  "ct_mode (orphan_change now t) = ct_mode t" "ct_enabled (orphan_change now t) = ct_enabled t"
  "ct_next_fire (orphan_change now t) = ct_next_fire t" "ct_paused (orphan_change now t) = ct_paused t"
  "ct_in_flight (orphan_change now t) = None" "ct_blocked (orphan_change now t) = None"
  "ct_id (orphan_change now t) = ct_id t" "ct_schedule (orphan_change now t) = ct_schedule t"
  "ct_adoption (orphan_change now t) = ct_adoption t" "ct_hold (orphan_change now t) = ct_hold t"
  "ct_recovery (orphan_change now t) = ct_recovery t" "ct_retirement (orphan_change now t) = ct_retirement t"
  "ct_drain (orphan_change now t) = ct_drain t" "ct_session (orphan_change now t) = ct_session t"
  "ct_run_count (orphan_change now t) = ct_run_count t"
  "map_option rr_token (ct_last_run (orphan_change now t)) = map_option rr_token (ct_last_run t)"
  "\<not> run_active (orphan_change now t)"
  by (auto simp: orphan_change_def on_last_run_def run_active_def option.map_comp comp_def)

lemma stranded_reconciled:
  assumes "left_stranded env t" and "se_saved env" and "se_others env = id"
  shows "fst (reconcile_orphan env t (Some t)) = Some (orphan_change (se_now env) t)"
    and "ready_to_fire (orphan_change (se_now env) t)"
  using assms
  by (auto simp: left_stranded_def reconcile_orphan_def orphan_verdict_def orphan_exempt_def ready_to_fire_def
      disk_modify_valid not_less stopped_def is_consumer_def split: option.splits)

lemma ready_due_step:
  assumes "ready_to_fire t" and "is_due (se_now env) (se_depths env) t" and "\<not> run_active t"
    and "fires_well (se_fire env)" "\<not> rotating (se_fire env) t" and "se_saved env"
    and "map_option rr_token (ct_last_run t) \<noteq> Some (se_token env)"
  shows "\<exists>plan. fp_task plan = t \<and> fp_token plan = se_token env \<and> fp_uid plan = tv_uid (se_fire env) \<and>
    \<not> compact_fire plan \<and>
    fst (due_step env False False t (Some t)) =
      Some (advance_change OutFired (se_now env) (record_fire plan (tv_now (se_fire env)) t))"
proof -
  obtain plan ios where f: "fire_task (se_fire env) False (ct_id t) (se_token env) (Some t) =
      (OutFired, Some (record_fire plan (tv_now (se_fire env)) t), ios)"
    "fp_task plan = t" "fp_token plan = se_token env" "fp_uid plan = tv_uid (se_fire env)" "\<not> compact_fire plan"
    using ready_fires [OF assms(1,4,5,7)] by blast
  have nb: "\<not> run_active_blocks_fire t"
    using assms(1,3)
    by (auto simp: run_active_blocks_fire_def ready_to_fire_def active_account_block_def fresh_run_active_def
        split: option.splits)
  have valid: "validate_task_id (ct_id t) = None" using assms(1) by (simp add: ready_to_fire_def)
  show ?thesis
    using f nb assms(2,6) disk_modify_valid [OF valid]
    by (intro exI [of _ plan]) (simp add: due_step_def advance_after_fire_def)
qed

section \<open>The first closer of a run\<close>

text \<open>The changes that may still move the outcome of a run that has one.\<close>

definition reopens :: "ct_change \<Rightarrow> bool" where
  "reopens c \<longleftrightarrow> (case c of ChStuck \<Rightarrow> True | ChUnstuck _ \<Rightarrow> True | ChOrphan _ \<Rightarrow> True | ChRelease _ _ \<Rightarrow> True | _ \<Rightarrow> False)"

lemma closed_run_kept:
  assumes "ct_last_run t = Some r" and "rr_status r \<noteq> RunRunning" and "\<not> reopens c"
  shows "ct_last_run (change_task c t) = Some r"
  using assms
  by (cases c; simp add: reopens_def change_defs Let_def owns_running_def force_matches_def still_running_def
      hold_identifies_def
      pool_hold_guard_def block_guard_def recovered_guard_def wedge_guard_def sweep_guard_def
      split: option.splits sum.splits fire_outcome.splits prod.splits)

lemma closed_run_kept_along:
  assumes "ct_last_run t = Some r" and "rr_status r \<noteq> RunRunning" and "\<forall>c\<in>set cs. \<not> reopens c"
  shows "ct_last_run (fold change_task cs t) = Some r"
  using assms by (induction cs arbitrary: t) (auto simp: closed_run_kept)

section \<open>The watchdog\<close>

text \<open>A pass over one task that reads the record it changes.\<close>

definition watch :: "sched_env \<Rightarrow> continuous_task \<Rightarrow> continuous_task" where
  "watch env t = (case fst (watchdog_step env t (Some t)) of Some t' \<Rightarrow> t' | None \<Rightarrow> t)"

text \<open>
  A pass that can act: the lock is free, the investigator (when there is one) is dead or past its
  budget, and a new one can be spawned and recorded.
\<close>

definition can_act :: "u32 \<Rightarrow> sched_env \<Rightarrow> continuous_task \<Rightarrow> bool" where
  "can_act cap env t \<longleftrightarrow>
     se_lock env \<and> se_spawns env \<and> se_saved env \<and> se_others env = id \<and> se_max_investigations env = cap \<and>
     overran env t \<noteq> None \<and> (live_investigator env t = None \<or> investigator_overran env t)"

definition watched :: "continuous_task \<Rightarrow> bool" where
  "watched t \<longleftrightarrow> validate_task_id (ct_id t) = None \<and> \<not> watchdog_off t \<and> ct_drain t = None"

text \<open>What is left of the run's budget of passes.\<close>

definition patience :: "u32 \<Rightarrow> continuous_task \<Rightarrow> nat" where
  "patience cap t =
     2 * (unat cap - unat (ct_investigations t)) + (if ct_investigator t = None then 0 else 1)"

definition run_stuck :: "continuous_task \<Rightarrow> bool" where
  "run_stuck t \<longleftrightarrow> map_option rr_status (ct_last_run t) = Some RunStuck"

lemma watch_acts:
  assumes "watched t" and "can_act cap env t"
  shows "watch env t =
    (if live_investigator env t \<noteq> None then abandon_investigator t
     else if ct_investigations t < cap then record_investigator (se_uid env) (se_now env) t
     else mark_stuck t)"
  using assms
  by (auto simp: watch_def watched_def can_act_def watchdog_step_def load_task_def watchdog_act_def
      abandon_timed_out_investigator_def spawn_investigator_def escalate_stuck_def ct_modify_def disk_modify_def
      Let_def split: option.splits)

lemma unat_bump: "ct_investigations t < cap \<Longrightarrow> unat (sat_add (ct_investigations t) 1) = Suc (unat (ct_investigations t))"
proof -
  assume "ct_investigations t < cap"
  then have "unat (ct_investigations t) < unat cap" by (simp add: word_less_nat_alt)
  moreover have "unat cap < 2 ^ 32" using unsigned_less [of cap] by simp
  ultimately show ?thesis by (simp add: unat_sat_add)
qed

lemma watch_progress:
  assumes "watched t" and "can_act cap env t"
  shows "run_stuck (watch env t) \<or>
    (watched (watch env t) \<and> patience cap (watch env t) < patience cap t \<and>
     ct_last_run (watch env t) = ct_last_run t)"
proof -
  obtain r where r: "ct_last_run t = Some r"
    using assms(2) by (auto simp: can_act_def overran_def split: option.splits)
  consider (abandon) "live_investigator env t \<noteq> None"
    | (spawn) "live_investigator env t = None" "ct_investigations t < cap"
    | (escalate) "live_investigator env t = None" "\<not> ct_investigations t < cap" by blast
  then show ?thesis
  proof cases
    case abandon
    then have "ct_investigator t \<noteq> None" by (auto simp: live_investigator_def split: option.splits)
    then show ?thesis using abandon watch_acts [OF assms] assms(1)
      by (auto simp: abandon_investigator_def patience_def watched_def watchdog_off_def)
  next
    case spawn
    then have "unat (ct_investigations t) < unat cap" by (simp add: word_less_nat_alt)
    then show ?thesis using spawn watch_acts [OF assms] assms(1) unat_bump [OF spawn(2)]
      by (auto simp: record_investigator_def patience_def watched_def watchdog_off_def)
  next
    case escalate
    then show ?thesis using watch_acts [OF assms] r by (simp add: mark_stuck_def on_last_run_def run_stuck_def)
  qed
qed

text \<open>Passes one after the other, each of which can act unless the run is stuck by then.\<close>

fun passes_act :: "u32 \<Rightarrow> sched_env list \<Rightarrow> continuous_task \<Rightarrow> bool" where
  "passes_act cap [] t \<longleftrightarrow> True"
| "passes_act cap (env # envs) t \<longleftrightarrow> can_act cap env t \<and> (run_stuck (watch env t) \<or> passes_act cap envs (watch env t))"

lemma stuck_is_left_alone: "run_stuck t \<Longrightarrow> watch env t = t"
  by (auto simp: watch_def watchdog_step_def load_task_def overran_def run_stuck_def split: option.splits)

lemma stuck_stays: "run_stuck t \<Longrightarrow> fold watch envs t = t"
  by (induction envs) (simp_all add: stuck_is_left_alone)

lemma watchdog_escalates:
  "watched t \<Longrightarrow> passes_act cap envs t \<Longrightarrow> patience cap t < length envs \<Longrightarrow> run_stuck (fold watch envs t)"
proof (induction envs arbitrary: t)
  case (Cons env envs)
  have act: "can_act cap env t" "run_stuck (watch env t) \<or> passes_act cap envs (watch env t)"
    using Cons.prems(2) by simp_all
  show ?case
  proof (cases "run_stuck (watch env t)")
    case True
    then show ?thesis using stuck_stays by simp
  next
    case False
    then show ?thesis using watch_progress [OF Cons.prems(1) act(1)] act(2) Cons by simp
  qed
qed simp

section \<open>A drained task\<close>

text \<open>What \<open>Drained\<close> claims: nothing runs, nothing is owed, and the checkpoint is of this evidence.\<close>

definition run_settled :: "drain_record \<Rightarrow> continuous_task \<Rightarrow> bool" where
  "run_settled d t \<longleftrightarrow>
     (case ct_last_run t of
        None \<Rightarrow> drn_seq d = None
      | Some r \<Rightarrow> drn_token d = Some (rr_token r) \<and> drn_seq d = Some (rr_seq r) \<and> rr_status r \<in> {RunIdle, RunDone})"

definition session_settled :: "session_observation \<Rightarrow> bool" where
  "session_settled s \<longleftrightarrow> \<not> so_failed s \<and> so_reported_done s \<and> (so_exited s \<or> so_final_turn_ended s)"

definition checkpoint_current ::
  "((string \<times> nat option \<times> bool \<times> bool) list \<Rightarrow> string) \<Rightarrow> drain_record \<Rightarrow> session_observation list \<Rightarrow>
   monitor_evidence \<Rightarrow> bool" where
  "checkpoint_current digest d sessions monitors \<longleftrightarrow>
     drn_ack d \<noteq> None \<and>
     (case drn_checkpoint d of
        None \<Rightarrow> False
      | Some c \<Rightarrow> me_fingerprint monitors = Some (dck_monitors c) \<and> digest (worker_rows sessions) = dck_workers c)"

lemma no_task_obligations:
  "task_obligations d t = [] \<Longrightarrow>
    ct_paused t \<and> ct_in_flight t = None \<and> ct_hold t = None \<and> ct_blocked t = None \<and> run_settled d t"
  by (cases "map_option rr_status (ct_last_run t)")
    (auto simp: task_obligations_def run_obligations_def run_settled_def Let_def
      split: if_splits option.splits ct_status.splits intro: ct_status.exhaust)

lemma no_session_obligations: "session_obligations s = [] \<Longrightarrow> session_settled s"
  by (auto simp: session_obligations_def session_settled_def split: if_splits)

lemma no_evidence_obligations:
  assumes "evidence_obligations digest d t sessions monitors = []" and "0 < ct_run_count t \<or> sessions \<noteq> []"
  shows "checkpoint_current digest d sessions monitors"
  using assms
  by (auto simp: evidence_obligations_def checkpoint_obligations_def checkpoint_current_def
      split: if_splits option.splits)

lemma drained_outstanding:
  assumes "status_with_evidence digest t sessions monitors = Some st" and "ds_state st = Drained"
  obtains d where "ct_drain t = Some d" "weighed_obligations digest d t sessions monitors = []"
    "me_outstanding monitors = []"
  using assms by (auto simp: status_with_evidence_def Let_def split: if_splits)

section \<open>Standing instructions\<close>

definition with_file :: "string \<times> string \<Rightarrow> worktree_view \<Rightarrow> worktree_view" where
  "with_file f wv = wv\<lparr> wv_read := (wv_read wv)(fst f := FileText (snd f)) \<rparr>"

lemma render_marked: "take (length STANDING_MARKER) (render_standing preamble t repo) = STANDING_MARKER"
  by (simp add: render_standing_def)

lemma standing_name_apart:
  "standing_file_name e = Some n \<Longrightarrow> n \<noteq> ''AGENTS.md'' \<and> n \<noteq> ''CLAUDE.md''"
  by (auto simp: standing_file_name_def split: ct_engine.splits)

lemma materialize_writes:
  assumes "materialize preamble wv t = (res, Some (n, c))"
  shows "standing_file_name (ct_engine t) = Some n" and "wv_dir wv" and "res = Inr (Some n)"
    and "c = render_standing preamble t (repo_doc wv (ct_engine t))"
    and "\<And>s. wv_read wv n = FileText s \<Longrightarrow> take (length STANDING_MARKER) s = STANDING_MARKER"
    and "\<exists>s. ct_standing t = Some s \<and> \<not> blank s"
  using assms
  by (auto simp: materialize_def Let_def split: option.splits if_splits file_read.splits)

lemma materialize_again:
  assumes "materialize preamble wv t = (res, Some (n, c))"
  shows "materialize preamble (with_file (n, c) wv) t = (Inr (Some n), None)"
    and "standing_remove (with_file (n, c) wv) t = Some n"
proof -
  note w = materialize_writes [OF assms]
  have "wv_read (with_file (n, c) wv) ''AGENTS.md'' = wv_read wv ''AGENTS.md''"
    "wv_read (with_file (n, c) wv) ''CLAUDE.md'' = wv_read wv ''CLAUDE.md''"
    using standing_name_apart [OF w(1)] by (auto simp: with_file_def)
  then have repo: "repo_doc (with_file (n, c) wv) (ct_engine t) = repo_doc wv (ct_engine t)"
    by (simp only: repo_doc_def)
  have there: "wv_read (with_file (n, c) wv) n = FileText c" "wv_dir (with_file (n, c) wv)"
    using w(2) by (simp_all add: with_file_def)
  obtain s where s: "ct_standing t = Some s" "\<not> blank s" using w(6) by blast
  show "materialize preamble (with_file (n, c) wv) t = (Inr (Some n), None)"
    by (simp add: materialize_def w(1) s repo there w(4) [symmetric])
  show "standing_remove (with_file (n, c) wv) t = Some n"
    using w(1,4) render_marked by (simp add: standing_remove_def with_file_def)
qed

section \<open>Staged batches\<close>

lemma pruned_file:
  assumes "f \<in> set (prune_staged_batches (Some names) keep protected)"
  obtains s where "batch_seq f = Some s" "s \<notin> set protected" "f \<in> set names"
proof -
  have "\<exists>s. (s, f) \<in> set (staged_batches names) \<and> s \<notin> set protected"
    using assms by (auto simp: prune_staged_batches_def Let_def split: if_splits dest!: in_set_dropD)
  then show thesis using that [OF sym] by (auto simp: staged_batches_def split: option.splits)
qed

lemma in_drop_sorted:
  fixes f :: "'a \<Rightarrow> nat"
  assumes "x \<in> set (drop k (sort_key f xs))"
  shows "k < length (filter (\<lambda>y. f y \<le> f x) xs)"
proof -
  let ?s = "sort_key f xs"
  obtain i where i: "i < length (drop k ?s)" "drop k ?s ! i = x" using assms by (auto simp: in_set_conv_nth)
  then have n: "k + i < length ?s" "?s ! (k + i) = x" by simp_all
  have sorted: "sorted (map f ?s)" by simp
  have "\<forall>y\<in>set (take (Suc (k + i)) ?s). f y \<le> f x"
  proof
    fix y assume "y \<in> set (take (Suc (k + i)) ?s)"
    then obtain j where j: "j \<le> k + i" "?s ! j = y" using n by (auto simp: in_set_conv_nth less_Suc_eq_le)
    have "map f ?s ! j \<le> map f ?s ! (k + i)" by (rule sorted_nth_mono [OF sorted j(1)]) (use n in simp)
    then show "f y \<le> f x" using j n by simp
  qed
  then have "filter (\<lambda>y. f y \<le> f x) (take (Suc (k + i)) ?s) = take (Suc (k + i)) ?s" by simp
  moreover have "length (filter P (take m zs)) \<le> length (filter P zs)" for P :: "'a \<Rightarrow> bool" and m zs
    by (metis append_take_drop_id filter_append le_add1 length_append)
  ultimately have "Suc (k + i) \<le> length (filter (\<lambda>y. f y \<le> f x) ?s)"
    using n by (metis length_take min.absorb2 Suc_leI)
  also have "\<dots> = length (filter (\<lambda>y. f y \<le> f x) xs)"
    by (simp add: filter_sort)
  finally show ?thesis by simp
qed

text \<open>
  Staging a batch deletes only older staged batches beyond the number kept, and never the one just
  staged, the one of a running run or the one of a blocked run.
\<close>

lemma live_batch_is_kept:
  assumes "stage_consumer_batch env t seq = (r, ios)" and "IoPrune fs \<in> set ios" and "f \<in> set fs"
    and "tv_batches env = Some names"
  shows "\<exists>s. batch_seq f = Some s \<and> s \<noteq> seq \<and>
    (\<forall>run. ct_last_run t = Some run \<longrightarrow> rr_status run = RunRunning \<longrightarrow> s \<noteq> rr_seq run) \<and>
    (\<forall>b. ct_blocked t = Some b \<longrightarrow> s \<noteq> abk_seq b) \<and>
    unat (tv_batch_keep env) < length (filter (\<lambda>b. s \<le> fst b) (staged_batches names))"
proof -
  let ?key = "\<lambda>b :: u64 \<times> string. 2 ^ 64 - unat (fst b)"
  have fs: "f \<in> set (prune_staged_batches (Some names) (tv_batch_keep env) (protected_batch_seqs t seq))"
    using assms
    by (auto simp: stage_consumer_batch_def Let_def release_consumer_batch_def
        split: ct_schedule.splits if_splits option.splits)
  then obtain b where b: "f = snd b" "fst b \<notin> set (protected_batch_seqs t seq)"
    "b \<in> set (drop (unat (tv_batch_keep env)) (sort_key ?key (staged_batches names)))"
    by (auto simp: prune_staged_batches_def Let_def split: if_splits)
  have "unat (fst b) < 2 ^ 64" using unsigned_less [of "fst b"] by simp
  then have le: "?key y \<le> ?key b \<longleftrightarrow> fst b \<le> fst y" for y
    using unsigned_less [of "fst y"] by (auto simp: word_le_nat_alt)
  have "b \<in> set (staged_batches names)" using in_set_dropD [OF b(3)] by simp
  then have "batch_seq f = Some (fst b)"
    by (auto simp: b(1) staged_batches_def split: option.splits)
  then show ?thesis using b(2) in_drop_sorted [OF b(3)] unfolding le
    by (auto simp: protected_batch_seqs_def)
qed

end
