(* ===== verification/ContinuousPass.thy ===== *)
theory ContinuousPass
  imports ContinuousLaws
begin

text \<open>
  A tick of the scheduler for one task, \<open>tick_once\<close> of \<open>continuous/scheduler.rs\<close>: the passes one
  after the other, each on the snapshot the tick loaded, and the proof that what a tick does to the
  file is a run of the machine. The notices of stop requests and the credentials file are left out.
\<close>

section \<open>The tick\<close>

record tick_ctx =
  tx_on :: bool
  tx_orphan :: sched_env
  tx_supervise :: sched_env
  tx_watch :: sched_env
  tx_due :: sched_env
  tx_wedge :: wedge_env
  tx_panics :: bool
  tx_stall :: "u32 option"
  tx_mtime :: "string \<Rightarrow> u64 option"
  tx_between :: "continuous_task \<Rightarrow> continuous_task"

text \<open>\<open>on\<close>: the scheduler is enabled and the daemon does not drain. A task being adopted is passed over.\<close>

definition adopted :: "continuous_task option \<Rightarrow> continuous_task option" where
  "adopted disk = (case disk of None \<Rightarrow> None | Some t \<Rightarrow> if ct_adoption t = None then Some t else None)"

definition tick_task ::
  "tick_ctx \<Rightarrow> sched_latches \<times> u64 option \<Rightarrow> continuous_task option \<Rightarrow>
   continuous_task option \<times> (sched_latches \<times> u64 option) \<times> ct_io list" where
  "tick_task env latches disk =
     (if \<not> tx_on env then (disk, latches, [])
      else case (case adopted disk of None \<Rightarrow> (disk, []) | Some t \<Rightarrow> reconcile_orphan (tx_orphan env) t disk) of
          (d0, ios0) \<Rightarrow>
            let d1 = map_option (tx_between env) d0 in
            (case adopted d1 of
               None \<Rightarrow> (d1, latches, ios0)
             | Some t \<Rightarrow>
                 (case supervision_step (tx_supervise env) (tx_panics env) t d1 of
                    (acted, d2, ios2) \<Rightarrow>
                      (case watchdog_step (tx_watch env) t d2 of
                         (d3, ios3) \<Rightarrow>
                           (case stall_step (tx_stall env) (se_now (tx_watch env)) (se_dead (tx_watch env))
                                   (tx_mtime env) t (snd latches) of
                              (stall, ios4) \<Rightarrow>
                                (case auth_wedge_step (tx_wedge env) t (fst latches) d3 of
                                   (held, lt, d5, ios5) \<Rightarrow>
                                     (case due_step (tx_due env) (tx_panics env) (acted \<or> held) t d5 of
                                        (d6, ios6) \<Rightarrow>
                                          (d6, (lt, stall), ios0 @ ios2 @ ios3 @ ios4 @ ios5 @ ios6))))))))"

section \<open>What the machine reaches\<close>

text \<open>From any world whose first thread is idle, and back to it.\<close>

definition reaches :: "continuous_task option \<Rightarrow> continuous_task option \<Rightarrow> bool" where
  "reaches d d' \<longleftrightarrow>
     (\<forall>w. cw_disk w = d \<longrightarrow> cw_fires w 0 = None \<longrightarrow>
        (\<exists>es. cw_disk (fires.run w es) = d' \<and> cw_fires (fires.run w es) = cw_fires w))"

named_theorems reached

lemma reaches_refl [reached]: "reaches d d"
  unfolding reaches_def by (metis fires.run.simps(1))

lemma reaches_trans [trans]: "reaches a b \<Longrightarrow> reaches b c \<Longrightarrow> reaches a c"
  unfolding reaches_def by (metis fires.run_append)

lemma reaches_event:
  assumes "\<And>w :: ct_world. cw_disk w = d \<Longrightarrow> cw_disk (ct_step w e) = d' \<and> cw_fires (ct_step w e) = cw_fires w"
  shows "reaches d d'"
  unfolding reaches_def
proof (intro allI impI)
  fix w :: ct_world assume "cw_disk w = d"
  then have "cw_disk (fires.run w [e]) = d' \<and> cw_fires (fires.run w [e]) = cw_fires w" using assms by simp
  then show "\<exists>es. cw_disk (fires.run w es) = d' \<and> cw_fires (fires.run w es) = cw_fires w" by blast
qed

lemma reaches_change: "reaches d (saved_change saved (change_task c) d)"
  by (rule reaches_event [of _ "EvChange c saved"]) simp

lemma disk_modify_saved:
  "disk_modify tid saved f d = (if validate_task_id tid = None then saved_change saved f d else d)"
  by (auto simp: disk_modify_def ct_modify_def saved_change_def split: option.splits)

lemma reaches_modify: "(\<And>t. f t = change_task c t) \<Longrightarrow> reaches d (disk_modify tid saved f d)"
proof -
  assume "\<And>t. f t = change_task c t"
  then have "f = change_task c" by (rule ext)
  then show ?thesis using reaches_change reaches_refl by (simp add: disk_modify_saved)
qed

lemma reaches_changes [reached]:
  "reaches d (disk_modify tid saved (advance_change out now) d)"
  "reaches d (disk_modify tid saved (orphan_change now) d)"
  "reaches d (disk_modify tid saved abandon_investigator d)"
  "reaches d (disk_modify tid saved (record_investigator uid now) d)"
  "reaches d (disk_modify tid saved mark_stuck d)"
  "reaches d (disk_modify tid saved (pool_hold_change run uid det cap now) d)"
  "reaches d (disk_modify tid saved (block_change run uid e b) d)"
  "reaches d (disk_modify tid saved (recovered_change seq uid now) d)"
  "reaches d (disk_modify tid saved (wedge_close_change e seq uid now) d)"
  "reaches d (disk_modify tid saved (redrive_change seq uid now) d)"
  "reaches d (disk_modify tid saved (release_change h now) d)"
  "reaches d (disk_modify tid saved (rehold_change h now) d)"
  by (rule reaches_modify, rule change_task.simps [symmetric])+

lemma reaches_others: "reaches d (map_option (fold change_task cs) d)"
proof (induction cs arbitrary: d)
  case Nil
  show ?case by (simp add: reaches_refl id_def option.map_ident)
next
  case (Cons c cs)
  have "reaches d (map_option (change_task c) d)"
    using reaches_change [of d True c] by (simp add: saved_change_def)
  from reaches_trans [OF this Cons.IH] show ?case by (simp add: option.map_comp comp_def)
qed

text \<open>What happens in between is changes of other threads.\<close>

definition by_changes :: "(continuous_task \<Rightarrow> continuous_task) \<Rightarrow> bool" where
  "by_changes f \<longleftrightarrow> (\<exists>cs. f = fold change_task cs)"

lemma reaches_by_changes: "by_changes f \<Longrightarrow> reaches d (map_option f d)"
  using reaches_others by (auto simp: by_changes_def)

lemma reaches_try:
  assumes "\<And>t. or_keep t (f t) = change_task c t"
  shows "reaches d (snd (ct_try_modify tid saved f d))"
proof (cases "validate_task_id tid = None \<and> saved")
  case True
  have "snd (ct_try_modify tid saved f d) = map_option (change_task c) d"
    using True assms
    by (cases d) (auto simp: ct_try_modify_def or_keep_def split: sum.splits, (metis sum.case)+)
  then show ?thesis using reaches_change [of d True c] by (simp add: saved_change_def)
next
  case False
  then have "snd (ct_try_modify tid saved f d) = d"
    by (auto simp: ct_try_modify_def split: option.splits sum.splits)
  then show ?thesis by (simp add: reaches_refl)
qed

lemma reaches_trigger:
  assumes "trigger env caller p d = (res, d', ios)"
    and "by_changes (tv_before_arm env)" and "by_changes (tv_before_record env)"
  shows "reaches d d'"
proof (cases d)
  case None
  then have "d' = None"
    using assms(1) by (auto simp: trigger_def prepare_fire_def load_task_def split: prod.splits option.splits if_splits sum.splits)
  then show ?thesis using None by (simp add: reaches_refl)
next
  case (Some t)
  obtain cs ds where c: "tv_before_arm env = fold change_task cs" "tv_before_record env = fold change_task ds"
    using assms(2,3) by (auto simp: by_changes_def)
  show ?thesis unfolding reaches_def
  proof (intro allI impI)
    fix w :: ct_world assume "cw_disk w = d" "cw_fires w 0 = None"
    then show "\<exists>es. cw_disk (fires.run w es) = d' \<and> cw_fires (fires.run w es) = cw_fires w"
      using trigger_is_a_run [of env caller p w res d' ios t 0 cs ds] assms(1) Some c by auto
  qed
qed

lemma ct_modify_disk: "ct_modify tid saved f d = (r, d') \<Longrightarrow> d' = disk_modify tid saved f d"
  by (simp add: disk_modify_def)

section \<open>The passes\<close>

lemma reaches_fire_task:
  assumes "fire_task env panics tid token d = (out, d', ios)"
    and "by_changes (tv_before_arm env)" and "by_changes (tv_before_record env)"
  shows "reaches d d'"
  using assms reaches_trigger by (auto simp: fire_task_def split: prod.splits)

lemma reaches_advance: "advance_after_fire tid out now saved d = (d', ios) \<Longrightarrow> reaches d d'"
  by (auto simp: advance_after_fire_def intro: reached)

lemma reaches_orphan:
  assumes "reconcile_orphan env t d = (d', ios)" and "by_changes (se_others env)"
  shows "reaches d d'"
proof (cases "orphan_verdict env t")
  case None
  then show ?thesis using assms(1) by (simp add: reconcile_orphan_def reaches_refl)
next
  case (Some v)
  have "reaches d (map_option (se_others env) d)" by (rule reaches_by_changes [OF assms(2)])
  also have "reaches \<dots> d'"
    using assms(1) Some by (auto simp: reconcile_orphan_def intro: reached split: prod.splits)
  finally show ?thesis .
qed

definition calm :: "sched_env \<Rightarrow> bool" where
  "calm env \<longleftrightarrow>
     by_changes (se_others env) \<and> by_changes (tv_before_arm (se_fire env)) \<and>
     by_changes (tv_before_record (se_fire env))"

lemma reaches_supervision:
  assumes "supervision_step env panics t d = (acted, d', ios)" and "calm env"
  shows "reaches d d'"
proof -
  obtain out d1 ios1 where f: "fire_task (se_fire env) panics (ct_id t) (se_token env) d = (out, d1, ios1)"
    by (metis prod_cases3)
  have "reaches d d1" using reaches_fire_task [OF f] assms(2) by (simp add: calm_def)
  moreover have "d' = d \<or> d' = d1 \<or> (\<exists>ios2. advance_after_fire (ct_id t) OutFired (se_now env) (se_saved env) d1 = (d', ios2))"
    using assms(1) f by (auto simp: supervision_step_def split: if_splits option.splits prod.splits)
  ultimately show ?thesis using reaches_advance reaches_trans reaches_refl by metis
qed

lemma reaches_due:
  assumes "due_step env panics acted t d = (d', ios)" and "calm env"
  shows "reaches d d'"
proof -
  obtain out d1 ios1 where f: "fire_task (se_fire env) panics (ct_id t) (se_token env) d = (out, d1, ios1)"
    by (metis prod_cases3)
  have "reaches d d1" using reaches_fire_task [OF f] assms(2) by (simp add: calm_def)
  moreover have "d' = d \<or> (\<exists>out ios2. advance_after_fire (ct_id t) out (se_now env) (se_saved env) d = (d', ios2)) \<or>
      (\<exists>out ios2. advance_after_fire (ct_id t) out (se_now env) (se_saved env) d1 = (d', ios2))"
    using assms(1) f by (auto simp: due_step_def split: if_splits prod.splits)
  ultimately show ?thesis using reaches_advance reaches_trans reaches_refl by metis
qed

lemma reaches_watchdog_act: "watchdog_act env t seq d = (d', ios) \<Longrightarrow> reaches d d'"
  by (auto simp: watchdog_act_def abandon_timed_out_investigator_def spawn_investigator_def escalate_stuck_def Let_def
      dest!: ct_modify_disk intro: reached split: if_splits option.splits prod.splits sum.splits)

lemma reaches_watchdog:
  assumes "watchdog_step env t d = (d', ios)" and "calm env"
  shows "reaches d d'"
proof -
  have "d' = d \<or> (\<exists>u seq. watchdog_act env u seq (map_option (se_others env) d) = (d', ios))"
    using assms(1) by (auto simp: watchdog_step_def split: if_splits option.splits prod.splits)
  moreover have "reaches d (map_option (se_others env) d)"
    using assms(2) reaches_by_changes by (simp add: calm_def)
  ultimately show ?thesis using reaches_watchdog_act reaches_trans reaches_refl by metis
qed

section \<open>The pass over transcript tails\<close>

lemma reaches_diagnostic [reached]:
  "reaches d (snd (record_drain_diagnostic saved tk seq uid detail d))"
proof -
  have "or_keep t (diagnostic_change tk seq uid detail t) = change_task (ChDiagnostic tk seq uid detail) t" for t
    by simp
  then have "reaches d (snd (ct_try_modify (ct_id tk) saved (diagnostic_change tk seq uid detail) d))"
    by (rule reaches_try)
  then show ?thesis
    by (auto simp: record_drain_diagnostic_def split: prod.splits ct_outcome.splits)
qed

lemma reaches_diagnostic_eq: "record_drain_diagnostic saved tk seq uid detail d = (b, d') \<Longrightarrow> reaches d d'"
  using reaches_diagnostic [of d saved tk seq uid detail] by simp

definition calm_wedge :: "wedge_env \<Rightarrow> bool" where
  "calm_wedge env \<longleftrightarrow> by_changes (we_others env) \<and> by_changes (we_recover env)"

lemma reaches_after:
  assumes "by_changes f" and "reaches (map_option f d) d'"
  shows "reaches d d'"
  using reaches_trans [OF reaches_by_changes [OF assms(1)] assms(2)] .

lemma reaches_release:
  assumes "try_release_capacity_hold env tk lt d = (b, lt', d', ios)" and "calm_wedge env"
  shows "reaches d d'"
proof -
  let ?d0 = "map_option (we_others env) d"
  let ?d1 = "\<lambda>h. disk_modify (ct_id tk) (we_saved env) (release_change h (we_now env)) ?d0"
  have "d' = d \<or> (\<exists>h. d' = ?d1 h \<or> d' = disk_modify (ct_id tk) (we_saved env) (rehold_change h (we_now env)) (?d1 h))"
    using assms(1) by (auto simp: try_release_capacity_hold_def Let_def split: option.splits if_splits)
  moreover have "reaches ?d0 (?d1 h)" for h by (rule reached)
  moreover have "reaches (?d1 h) (disk_modify (ct_id tk) (we_saved env) (rehold_change h (we_now env)) (?d1 h))" for h
    by (rule reached)
  ultimately show ?thesis
    using reaches_after reaches_trans reaches_refl assms(2) unfolding calm_wedge_def by metis
qed

lemma reaches_recover:
  assumes "recover_account_block env tk seq uid b lt d = (lt', d', ios)" and "calm_wedge env"
  shows "reaches d d'"
proof -
  let ?d0 = "map_option (we_others env) d"
  have "d' = d \<or> d' = map_option (we_recover env) d \<or>
      d' = disk_modify (ct_id tk) (we_saved env) (recovered_change seq uid (we_now env)) ?d0"
    using assms(1) by (auto simp: recover_account_block_def Let_def split: option.splits if_splits prod.splits bool.splits)
  moreover have "reaches ?d0 (disk_modify (ct_id tk) (we_saved env) (recovered_change seq uid (we_now env)) ?d0)"
    by (rule reached)
  ultimately show ?thesis
    using reaches_after reaches_by_changes reaches_refl assms(2) unfolding calm_wedge_def by metis
qed

lemma reaches_close_wedged:
  assumes "close_wedged_run env tk seq uid d = (d', ios)" and "calm_wedge env"
  shows "reaches d d'"
proof -
  let ?d0 = "map_option (we_others env) d"
  have "d' = d \<or> d' = disk_modify (ct_id tk) (we_saved env) (wedge_close_change (ct_engine tk) seq uid (we_now env)) ?d0"
    using assms(1) by (auto simp: close_wedged_run_def Let_def split: if_splits)
  moreover have "reaches ?d0 (disk_modify (ct_id tk) (we_saved env) (wedge_close_change (ct_engine tk) seq uid (we_now env)) ?d0)"
    by (rule reached)
  ultimately show ?thesis
    using reaches_after reaches_refl assms(2) unfolding calm_wedge_def by metis
qed

lemma reaches_tail_quiet:
  assumes "wedge_tail_quiet env tk run uid mtime tail lt d = (b, lt', d', ios)" and "calm_wedge env"
  shows "reaches d d'"
proof -
  obtain drains d1 where diag: "record_drain_diagnostic (we_saved env) tk (rr_seq run) uid (Some ''no-report'') d = (drains, d1)"
    by fastforce
  have "d' = d \<or> d' = d1 \<or> (\<exists>ios. close_wedged_run env tk (rr_seq run) uid d1 = (d', ios))"
    using assms(1) diag
    by (auto simp: wedge_tail_quiet_def Let_def split: if_splits prod.splits bool.splits)
  then show ?thesis
    using reaches_diagnostic_eq [OF diag] reaches_close_wedged [OF _ assms(2)] reaches_trans reaches_refl by metis
qed

lemma reaches_redrive:
  "redrive_transient_pool_error env tk seq uid lt d = (b, lt', d', ios) \<Longrightarrow> reaches d d'"
  by (auto simp: redrive_transient_pool_error_def Let_def intro: reached split: prod.splits if_splits)

lemma reaches_tail:
  assumes "wedge_tail env tk run uid mtime tail lt d = (b, lt', d', ios)" and "calm_wedge env"
  shows "reaches d d'"
proof -
  let ?lt = "lt\<lparr> lt_evidence := None \<rparr>"
  let ?d1 = "if tl_shape tail = MidTurn then snd (record_drain_diagnostic (we_saved env) tk (rr_seq run) uid None d) else d"
  have d1: "reaches d ?d1" by (simp add: reached)
  obtain own lt2 d2 ios2 where red: "(if tl_transient tail
      then redrive_transient_pool_error env tk (rr_seq run) uid ?lt ?d1 else (False, ?lt, ?d1, [])) = (own, lt2, d2, ios2)"
    by (metis prod_cases4)
  have d2: "reaches ?d1 d2" using red reaches_redrive by (auto split: if_splits intro: reached)
  consider (pool) detail where "tl_pool tail = Some detail" | (block) kb where "tl_pool tail = None" "account_blocker tail = Some kb"
    | (quiet) "tl_pool tail = None" "account_blocker tail = None" by fastforce
  then show ?thesis
  proof cases
    case pool
    have "d' = d2 \<or> d' = disk_modify (ct_id tk) (we_saved env) (pool_hold_change run uid detail (tl_capacity tail) (we_now env)) d2"
      using assms(1) pool red
      by (auto simp: wedge_tail_def Let_def simp del: if_split split: bool.splits)
    then show ?thesis using d1 d2 reaches_trans reaches_changes(6) by metis
  next
    case block
    obtain kind banner where kb: "kb = (kind, banner)" by fastforce
    have "\<exists>b. d' = disk_modify (ct_id tk) (we_saved env) (block_change run uid (ct_engine tk) b) ?d1"
      using assms(1) block kb by (auto simp: wedge_tail_def Let_def split: prod.splits)
    then show ?thesis using d1 reaches_trans reaches_changes(7) by metis
  next
    case quiet
    have "wedge_tail_quiet env tk run uid mtime tail (?lt\<lparr> lt_auth := 0 \<rparr>) ?d1 = (b, lt', d', ios)"
      using assms(1) quiet by (simp add: wedge_tail_def Let_def)
    then have "reaches ?d1 d'" by (rule reaches_tail_quiet [OF _ assms(2)])
    then show ?thesis by (rule reaches_trans [OF d1])
  qed
qed

lemma reaches_wedge:
  assumes "auth_wedge_step env tk lt d = (b, lt', d', ios)" and "calm_wedge env"
  shows "reaches d d'"
proof -
  have running: "reaches d d''" if "wedge_running env tk run uid lt1 d = (b', lt'', d'', ios')" for run uid lt1 b' lt'' d'' ios'
    using that reaches_recover [OF _ assms(2)] reaches_tail [OF _ assms(2)]
    by (auto simp: wedge_running_def Let_def split: option.splits if_splits prod.splits intro: reached)
  obtain rel lt1 d1 ios1 where release: "try_release_capacity_hold env tk lt d = (rel, lt1, d1, ios1)" by (metis prod_cases4)
  have "d' = d \<or> d' = d1 \<or> d' = map_option (we_recover env) d1 \<or>
      (\<exists>seq uid. d' = snd (record_drain_diagnostic (we_saved env) tk seq uid (Some ''engine-identity'') d)) \<or>
      (\<exists>run uid lt1 b' lt'' ios'. wedge_running env tk run uid lt1 d = (b', lt'', d', ios'))"
    using assms(1) release
    by (auto simp: auth_wedge_step_def split: if_splits option.splits prod.splits bool.splits)
  moreover have rec: "reaches d1 (map_option (we_recover env) d1)"
    using assms(2) reaches_by_changes by (simp add: calm_wedge_def)
  moreover note rel = reaches_release [OF release assms(2)]
  ultimately show ?thesis
    using running reaches_trans [OF rel rec] reaches_refl reaches_diagnostic by blast
qed

section \<open>The tick\<close>

lemma reaches_tick:
  assumes tick: "tick_task env latches d = (d', latches', ios)"
    and "by_changes (tx_between env)" "calm (tx_orphan env)" "calm (tx_supervise env)" "calm (tx_watch env)"
    "calm (tx_due env)" "calm_wedge (tx_wedge env)"
  shows "reaches d d'"
proof (cases "tx_on env")
  case False
  then show ?thesis using tick by (simp add: tick_task_def reaches_refl)
next
  case True
  obtain d0 ios0 where o: "(case adopted d of None \<Rightarrow> (d, []) | Some t \<Rightarrow> reconcile_orphan (tx_orphan env) t d) = (d0, ios0)"
    by fastforce
  have "reaches d d0"
    using o reaches_orphan [of "tx_orphan env"] assms(3)
    by (auto simp: calm_def intro: reached split: option.splits)
  also have "reaches d0 (map_option (tx_between env) d0)" by (rule reaches_by_changes [OF assms(2)])
  finally have start: "reaches d (map_option (tx_between env) d0)" .
  let ?d1 = "map_option (tx_between env) d0"
  show ?thesis
  proof (cases "adopted ?d1")
    case None
    then show ?thesis using tick True o start by (simp add: tick_task_def)
  next
    case (Some t)
    obtain acted d2 ios2 where s2: "supervision_step (tx_supervise env) (tx_panics env) t ?d1 = (acted, d2, ios2)"
      by (metis prod_cases3)
    obtain d3 ios3 where s3: "watchdog_step (tx_watch env) t d2 = (d3, ios3)" by fastforce
    obtain stall ios4 where s4: "stall_step (tx_stall env) (se_now (tx_watch env)) (se_dead (tx_watch env))
      (tx_mtime env) t (snd latches) = (stall, ios4)" by fastforce
    obtain held lt d5 ios5 where s5: "auth_wedge_step (tx_wedge env) t (fst latches) d3 = (held, lt, d5, ios5)"
      by (metis prod_cases4)
    obtain d6 ios6 where s6: "due_step (tx_due env) (tx_panics env) (acted \<or> held) t d5 = (d6, ios6)" by fastforce
    have "d' = d6" using tick True o Some s2 s3 s4 s5 s6 by (simp add: tick_task_def)
    have "reaches ?d1 d2" by (rule reaches_supervision [OF s2 assms(4)])
    also have "reaches d2 d3" by (rule reaches_watchdog [OF s3 assms(5)])
    also have "reaches d3 d5" by (rule reaches_wedge [OF s5 assms(7)])
    also have "reaches d5 d6" by (rule reaches_due [OF s6 assms(6)])
    finally show ?thesis using start \<open>d' = d6\<close> reaches_trans by blast
  qed
qed

end
