(* ===== verification/ContinuousProps.thy ===== *)
theory ContinuousProps
  imports ContinuousEnds ContinuousDrain ContinuousPass
begin

text \<open>
  The properties of continuous tasks: fires are serial, a stop admits nothing more, a plan made
  before a stop never fires, \<open>trigger\<close> is a run of the machine, the batch of a fire is settled once,
  the breaker, a stranded run is fired again, a stuck run is escalated, a drained task owes nothing,
  the standing file. Then the flaws, and the witnesses on a periodic task and on a consumer.
\<close>

section \<open>Runs from a fresh start\<close>

definition start_world :: "continuous_task \<Rightarrow> ct_world" where
  "start_world t = \<lparr> cw_disk = Some t, cw_fires = (\<lambda>_. None), cw_log = [] \<rparr>"

lemma start_ok: "validate_task_id (ct_id t) = None \<Longrightarrow> world_ok (start_world t)"
  by (simp add: world_ok_def start_world_def task_ok_def log_ok_def under_way_def)

lemma start_run_ok:
  "validate_task_id (ct_id t) = None \<Longrightarrow> fires.may_run (start_world t) es \<Longrightarrow> world_ok (fires.run (start_world t) es)"
  using start_ok fires.run_inv by blast

text \<open>The run counter counts the log.\<close>

definition counted :: "nat \<Rightarrow> ct_world \<Rightarrow> bool" where
  "counted k w \<longleftrightarrow> (\<exists>t. cw_disk w = Some t \<and> unat (ct_run_count t) = k + length (cw_log w))"

lemma counted_step:
  assumes "world_ok w" and may: "ct_may w e" and c: "counted k w"
  shows "counted k (ct_step w e)"
proof -
  obtain t where t: "cw_disk w = Some t" "task_ok w t" using assms(1) by (rule world_okE)
  have k: "unat (ct_run_count t) = k + length (cw_log w)" using c t(1) by (simp add: counted_def)
  show ?thesis
  proof (cases e)
    case (EvArm n now saved)
    show ?thesis
    proof (cases "\<exists>p plan. cw_fires w n = Some (Planned p plan)")
      case True
      then obtain p plan where th: "cw_fires w n = Some (Planned p plan)" by blast
      obtain out d where arm: "arm_continuous_fire (fp_task plan) (fp_token plan) (fp_uid plan) now saved (Some t) = (out, d)"
        by fastforce
      show ?thesis
      proof (cases "\<exists>t'. out = CtSaved t'")
        case True
        then obtain t' where "out = CtSaved t'" by blast
        with arm_facts [OF arm [unfolded this]] show ?thesis
          using EvArm th arm t(1) k by (simp add: counted_def)
      next
        case False
        then have "d = Some t" using arm_refused [OF arm] by blast
        then show ?thesis using EvArm th arm False t(1) k by (cases out) (auto simp: counted_def)
      qed
    next
      case False
      then have "ct_step w e = w" using EvArm by (auto split: option.splits fire_thread.splits)
      then show ?thesis using c by simp
    qed
  next
    case (EvFinish n saved)
    show ?thesis
    proof (cases "\<exists>p plan s r. cw_fires w n = Some (Ran p plan s r)")
      case True
      then obtain p plan s r where th: "cw_fires w n = Some (Ran p plan s r)" by blast
      have v: "validate_task_id (tg_task p) = None" using task_ok_thread [OF t(2) th] by (simp add: thread_ok_def)
      have "unat (sat_add (ct_run_count t) 1) = Suc (unat (ct_run_count t))"
        using may EvFinish t(1) by (simp add: unat_sat_add)
      then show ?thesis using EvFinish th t(1) k disk_modify_valid [OF v]
        by (cases r) (auto simp: counted_def clear_in_flight_def record_fire_def)
    next
      case False
      then have "ct_step w e = w" using EvFinish by (auto split: option.splits fire_thread.splits)
      then show ?thesis using c by simp
    qed
  qed (use t(1) k in \<open>auto simp: counted_def saved_change_def split: option.splits fire_thread.splits sum.splits\<close>)
qed

lemma start_counted:
  assumes "validate_task_id (ct_id t) = None" and "fires.may_run (start_world t) es"
  shows "counted (unat (ct_run_count t)) (fires.run (start_world t) es)"
proof (rule fires.run_persists [OF _ start_ok [OF assms(1)] assms(2)])
  show "counted (unat (ct_run_count t)) (start_world t)" by (simp add: counted_def start_world_def)
qed (rule counted_step)

section \<open>Fires\<close>


text \<open>A call of an operator that closes admission.\<close>

definition stops :: "ct_change \<Rightarrow> bool" where
  "stops c \<longleftrightarrow>
     (case c of
        ChDrain _ _ \<Rightarrow> True
      | ChPause p \<Rightarrow> pz_paused p \<and> pz_request p = None \<and> pz_revision p = None
      | _ \<Rightarrow> False)"

lemma stops_stops: "stops c \<Longrightarrow> stopped (change_task c t) \<and> \<not> resumes c \<and> \<not> clears_guard c"
  by (cases c) (auto simp: stops_def stopped_def change_defs Let_def split: prod.splits)

lemma halted_may: "fires.may_run w es \<Longrightarrow> \<forall>e\<in>set es. \<not> resuming e \<Longrightarrow> halted.may_run w es"
  by (induction es arbitrary: w) auto


lemma overtaken_plan_is_stale:
  assumes ok: "world_ok w" and u: "cw_disk w = Some u" "ct_revision u < ct_revision (change_task c u)"
    and free: "\<not> under_way w n"
  shows "plan_is_stale n (ct_step w (EvChange c True))"
proof (cases "cw_fires w n")
  case (Some th)
  have "task_ok w u" using ok u(1) by (simp add: world_ok_def)
  then have "ct_revision (fp_task (thread_plan th)) \<le> ct_revision u"
    using Some by (simp add: task_ok_def thread_ok_def)
  then show ?thesis using Some free u
    by (cases th) (auto simp: plan_is_stale_def saved_change_def under_way_def)
qed (simp add: plan_is_stale_def)

text \<open>C11. A fire that has read the task but not yet armed its guard is overtaken by any change that
  counts up the revision (a stop request, a pause, a resume, a hold): it is never admitted any
  more, not even when the task has been resumed in the meantime. Only a plan made afresh can fire.
\<close>
theorem overtaken_plan_never_fires:
  assumes "validate_task_id (ct_id t) = None"
    and "fires.may_run (start_world t) (es @ EvChange c True # fs)"
    and "cw_disk (fires.run (start_world t) es) = Some u" and "ct_revision u < ct_revision (change_task c u)"
    and "\<not> under_way (fires.run (start_world t) es) n" and "\<forall>e\<in>set fs. \<not> plans n e"
  shows "\<not> under_way (fires.run (start_world t) (es @ EvChange c True # fs)) n"
proof -
  let ?w = "fires.run (start_world t) es" and ?v = "ct_step (fires.run (start_world t) es) (EvChange c True)"
  have may: "fires.may_run (start_world t) es" "ct_may ?w (EvChange c True)" "fires.may_run ?v fs"
    using assms(2) by (simp_all add: fires.may_run_append)
  have ok: "world_ok ?w" by (rule start_run_ok [OF assms(1) may(1)])
  have "world_ok v \<Longrightarrow> fires.may_run v fs \<Longrightarrow> plan_is_stale n v \<Longrightarrow> plan_is_stale n (fires.run v fs)" for v
    using assms(6) by (induction fs arbitrary: v) (auto intro: stale_step ct_step_ok)
  then have "plan_is_stale n (fires.run ?v fs)"
    using ct_step_ok [OF ok may(2)] may(3) overtaken_plan_is_stale [OF ok assms(3-5)] by blast
  then show ?thesis
    by (auto simp: fires.run_append plan_is_stale_def under_way_def split: option.splits fire_thread.splits)
qed



text \<open>C12. A fire that claims items of its queue settles that batch once, whatever happens to the fire:
  the items are acknowledged if the answer is that the prompt went out, and released if it is not,
  never both and never neither.
\<close>
theorem batch_is_settled_once:
  assumes "trigger env caller p (Some t) = (res, d, ios)"
    and "claims ios" and "tv_claim env = Some items"
  shows "\<exists>q n w th. ct_schedule t = Consumer q n w th \<and>
    settles q (map qi_id items) (\<exists>a b m. res = Inr (Fired a b m False)) ios"
  using assms by (rule trigger_batch)

section \<open>The schedule\<close>

lemma failed_launches_next:
  assumes "fire_spacing (ct_schedule t) = Some every" and "ct_failures t = 0" and "\<not> ct_paused t"
    and "length nows < 2 ^ 32" and "nows \<noteq> []"
  shows "unat (ct_next_fire (failed_launches nows t)) =
    min (unat (last nows) + min (max 1 (unat every) * 2 ^ min 16 (length nows)) 3600) (2 ^ 64 - 1)"
proof -
  obtain ms now where nows: "nows = ms @ [now]" using assms(5) by (metis rev_exhaust)
  let ?u = "failed_launches ms t"
  have s: "ct_schedule ?u = ct_schedule t"
    unfolding failed_launches_def by (induction ms arbitrary: t) auto
  have "length ms < 2 ^ 32" using assms(4) nows by simp
  then have "unat (ct_failures ?u) = length ms"
    using failed_launches_value [OF assms(1-3)] by blast
  then have f: "unat (sat_add (ct_failures ?u) 1) = length nows"
    using assms(4) nows by (simp add: unat_sat_add)
  have "ct_next_fire (failed_launches nows t) = sat_add now (backoff_secs every (sat_add (ct_failures ?u) 1))"
    using nows s assms(1) by (simp add: failed_launches_def advance_change_def fail_launch_def Let_def)
  then show ?thesis using f nows by (simp add: unat_sat_add backoff_value)
qed

text \<open>C25. Launches that fail one after another are retried with a delay that doubles with every failure
  from twice the spacing and stays at an hour, and the task is paused by the fifth failure, neither
  earlier nor later.
\<close>
theorem breaker_pauses_at_five:
  assumes "fire_spacing (ct_schedule t) = Some every" and "ct_failures t = 0" and "\<not> ct_paused t"
    and "length nows < 2 ^ 32" and "nows \<noteq> []"
  shows "ct_paused (failed_launches nows t) = (5 \<le> length nows) \<and>
    unat (ct_next_fire (failed_launches nows t)) =
      min (unat (last nows) + min (max 1 (unat every) * 2 ^ min 16 (length nows)) 3600) (2 ^ 64 - 1)"
  using failed_launches_value [OF assms(1-4)] failed_launches_next [OF assms] by blast

lemma reconciled_token:
  "map_option rr_token (ct_last_run (orphan_change now t)) = map_option rr_token (ct_last_run t)"
  by simp

lemma refired:
  assumes "ready_to_fire u" and "ct_schedule u = Periodic every" "ct_enabled u" "ct_next_fire u \<le> se_now env"
    and "\<not> run_active u" and "fires_well (se_fire env)" "\<not> rotating (se_fire env) u" "se_saved env"
    and "map_option rr_token (ct_last_run u) \<noteq> Some (se_token env)"
  shows "\<exists>v r. fst (due_step env False False u (Some u)) = Some v \<and> ct_last_run v = Some r \<and>
    rr_seq r = ucast (ct_run_count u) + 1 \<and> rr_token r = se_token env \<and>
    rr_uid r = Some (tv_uid (se_fire env)) \<and> rr_status r = RunRunning \<and> ct_in_flight v = None"
proof -
  have due: "is_due (se_now env) (se_depths env) u"
    using assms(1-4) by (simp add: is_due_def may_be_due_def ready_to_fire_def stopped_def)
  obtain plan where "fp_task plan = u" "fp_token plan = se_token env" "fp_uid plan = tv_uid (se_fire env)"
    "\<not> compact_fire plan"
    "fst (due_step env False False u (Some u)) =
      Some (advance_change OutFired (se_now env) (record_fire plan (tv_now (se_fire env)) u))"
    using ready_due_step [OF assms(1) due assms(5-9)] by blast
  then show ?thesis using assms(2)
    by (simp add: advance_change_def fire_spacing_def record_fire_def fire_run_record_def plan_seq_def)
qed

lemma stranded_waits:
  assumes "left_stranded env t" and "se_saved env'"
  shows "\<exists>d. fst (due_step env' panics False t (Some t)) = Some d \<and> ct_last_run d = ct_last_run t"
proof -
  have v: "validate_task_id (ct_id t) = None"
    using assms(1) by (simp add: left_stranded_def ready_to_fire_def)
  have "ct_in_flight t \<noteq> None \<or> run_active t" "ct_mode t = ModeFresh" "\<not> is_consumer t"
    using assms(1)
    by (auto simp: left_stranded_def stranded_run_def run_active_def ready_to_fire_def is_consumer_def
        split: option.splits if_splits)
  then have "\<not> is_due (se_now env') (se_depths env') t \<or> run_active_blocks_fire t"
    by (auto simp: is_due_def may_be_due_def run_active_blocks_fire_def fresh_run_active_def)
  moreover have "ct_last_run (advance_change OutSkipActive now t) = ct_last_run t" for now
    by (simp add: advance_change_def split: option.splits)
  ultimately show ?thesis
    by (auto simp: due_step_def advance_after_fire_def disk_modify_valid [OF v] split: prod.splits)
qed


lemma watch_bounded:
  assumes "watched t" and "can_act cap env t"
  shows "ct_investigations (watch env t) \<le> max cap (ct_investigations t)"
proof -
  have "ct_investigations t < cap \<Longrightarrow> sat_add (ct_investigations t) 1 \<le> cap"
    using unat_bump [of t cap] by (simp add: word_le_nat_alt word_less_nat_alt)
  then show ?thesis using watch_acts [OF assms]
    by (auto simp: abandon_investigator_def record_investigator_def mark_stuck_def on_last_run_def max_def)
qed

lemma watch_bounded_along:
  "watched t \<Longrightarrow> passes_act cap envs t \<Longrightarrow> ct_investigations (fold watch envs t) \<le> max cap (ct_investigations t)"
proof (induction envs arbitrary: t)
  case (Cons env envs)
  have act: "can_act cap env t" "run_stuck (watch env t) \<or> passes_act cap envs (watch env t)"
    using Cons.prems(2) by simp_all
  note b = watch_bounded [OF Cons.prems(1) act(1)]
  show ?case
  proof (cases "run_stuck (watch env t)")
    case True
    then show ?thesis using b stuck_stays by simp
  next
    case False
    then have "ct_investigations (fold watch envs (watch env t)) \<le> max cap (ct_investigations (watch env t))"
      using watch_progress [OF Cons.prems(1) act(1)] act(2) Cons.IH by blast
    then show ?thesis using b by (auto simp: max_def split: if_splits)
  qed
qed simp


section \<open>A stop request\<close>

text \<open>C24. The status \<open>Drained\<close> is only given to a task that owes nothing: admission is closed, no fire
  is under way, no hold or account block is left, the run that the request captured is the task's
  last one and has ended well, every session of it has reported and ended its last turn, the
  monitors report nothing outstanding, and if anything ever ran, the notice was acknowledged and the
  checkpoint names the monitors and the workers as they are now.
\<close>
theorem drained_owes_nothing:
  assumes "status_with_evidence digest t sessions monitors = Some st" and "ds_state st = Drained"
  shows "\<exists>d. ct_drain t = Some d \<and> ct_paused t \<and> ct_in_flight t = None \<and> ct_hold t = None \<and>
    ct_blocked t = None \<and> run_settled d t \<and> list_all session_settled sessions \<and>
    me_outstanding monitors = [] \<and>
    (0 < ct_run_count t \<or> sessions \<noteq> [] \<longrightarrow> checkpoint_current digest d sessions monitors)"
proof -
  obtain d where d: "ct_drain t = Some d" "weighed_obligations digest d t sessions monitors = []"
    "me_outstanding monitors = []" using assms by (rule drained_outstanding)
  have parts: "task_obligations d t = []" "\<forall>s\<in>set sessions. session_obligations s = []"
    "evidence_obligations digest d t sessions monitors = []"
    using d(2) by (simp_all add: weighed_obligations_def)
  have "list_all session_settled sessions"
    using parts(2) no_session_obligations by (auto simp: list_all_iff)
  then show ?thesis
    using d no_task_obligations [OF parts(1)] no_evidence_obligations [OF parts(3)] by auto
qed

section \<open>The standing file\<close>

text \<open>C37. A refresh of the standing instructions that writes the file writes it in the task's worktree
  under the engine's name, and not over a readable file that lacks the marker; what it writes has
  the marker, a second refresh finds it current and writes nothing, and a removal takes it away.
\<close>
theorem standing_refresh_is_stable:
  assumes "materialize preamble wv t = (res, Some (n, c))"
  shows "standing_file_name (ct_engine t) = Some n \<and> wv_dir wv \<and> res = Inr (Some n) \<and>
    take (length STANDING_MARKER) c = STANDING_MARKER \<and>
    (\<forall>s. wv_read wv n = FileText s \<longrightarrow> take (length STANDING_MARKER) s = STANDING_MARKER) \<and>
    materialize preamble (with_file (n, c) wv) t = (Inr (Some n), None) \<and>
    standing_remove (with_file (n, c) wv) t = Some n"
  using materialize_writes [OF assms] materialize_again [OF assms] render_marked by auto

section \<open>Flaws\<close>

text \<open>The watchdog marks a run stuck that has reported done since the pass looked at it.\<close>

lemma late_escalation_overwrites_done:
  assumes "watched t" and "overran env t = Some (r, uid)" and "live_investigator env t = None"
    and "se_max_investigations env \<le> ct_investigations t" and "se_lock env" "se_saved env"
    and "se_others env = report_flip uid now"
  shows "ct_last_run (report_flip uid now t) = Some (end_run RunDone now r)"
    and "fst (watchdog_step env t (Some t)) = Some (mark_stuck (report_flip uid now t))"
    and "run_stuck (mark_stuck (report_flip uid now t))"
proof -
  have r: "ct_last_run t = Some r" "rr_uid r = Some uid" "rr_status r = RunRunning"
    using assms(2) by (auto simp: overran_def split: option.splits if_splits)
  then show d: "ct_last_run (report_flip uid now t) = Some (end_run RunDone now r)"
    by (simp add: report_flip_def owns_running_def unblock_def clean_close_def on_last_run_def)
  then show "run_stuck (mark_stuck (report_flip uid now t))"
    by (simp add: run_stuck_def mark_stuck_def on_last_run_def)
  show "fst (watchdog_step env t (Some t)) = Some (mark_stuck (report_flip uid now t))"
    using assms
    by (auto simp: watchdog_step_def watched_def load_task_def watchdog_act_def escalate_stuck_def ct_modify_def)
qed

text \<open>An investigator that cannot be spawned is not counted: the run is never escalated.\<close>

lemma failing_spawn_never_escalates:
  assumes "watched t" and "\<not> run_stuck t" and "ct_investigator t = None"
    and "\<forall>env\<in>set envs. \<not> se_spawns env \<and> se_others env = id \<and> ct_investigations t < se_max_investigations env"
  shows "fold watch envs t = t"
proof -
  have "watch env t = t" if "env \<in> set envs" for env
    using assms that
    by (auto simp: watch_def watchdog_step_def watched_def load_task_def watchdog_act_def live_investigator_def
        spawn_investigator_def split: option.splits)
  then show ?thesis by (induction envs) auto
qed

text \<open>A stuck run does not keep the task from firing again.\<close>

lemma stuck_task_fires_again:
  assumes "run_stuck u" and "ready_to_fire u" and "ct_schedule u = Periodic every" "ct_enabled u" "ct_next_fire u \<le> se_now env"
    and "fires_well (se_fire env)" "\<not> rotating (se_fire env) u" "se_saved env"
    and "map_option rr_token (ct_last_run u) \<noteq> Some (se_token env)"
  shows "\<exists>v. fst (due_step env False False u (Some u)) = Some v \<and> run_active v"
proof -
  have "\<not> run_active u" using assms(1) by (auto simp: run_stuck_def run_active_def)
  from refired [OF assms(2-5) this assms(6-9)] show ?thesis by (auto simp: run_active_def)
qed

text \<open>An escalated run keeps its account block, and a task with one is never armed.\<close>

lemma escalated_block_bars_every_fire:
  assumes "ct_blocked t = Some b" and "ct_last_run t \<noteq> None"
  shows "active_account_block (mark_stuck t) = None"
    and "\<And>snapshot token uid now saved. \<exists>out.
      arm_continuous_fire snapshot token uid now saved (Some (mark_stuck t)) = (out, Some (mark_stuck t)) \<and>
      (\<forall>t'. out \<noteq> CtSaved t')"
    and "\<And>seq who now. ct_blocked (recovered_change seq who now (mark_stuck t)) = Some b"
  using assms
  by (auto simp: mark_stuck_def on_last_run_def active_account_block_def arm_continuous_fire_def ct_try_modify_def
      arm_check_def recovered_change_def recovered_guard_def still_running_def split: option.splits sum.splits)

text \<open>The reconciler of a dead guard closes the run before it again, whatever its outcome was.\<close>

lemma orphan_rewrites_a_finished_run:
  assumes "ct_last_run t = Some r"
  shows "\<exists>r'. ct_last_run (orphan_change now t) = Some r' \<and> rr_status r' = RunOrphaned \<and> rr_seq r' = rr_seq r"
  using assms by (simp add: orphan_change_def on_last_run_def)

text \<open>A file that is not UTF-8, or cannot be read, is written over without a look at its marker.\<close>

lemma unreadable_file_is_overwritten:
  assumes "wv_read wv n = FileUnreadable" and "standing_file_name (ct_engine t) = Some n"
    and "ct_standing t = Some s" "\<not> blank s" and "wv_dir wv" "wv_writes wv"
  shows "\<exists>c. materialize preamble wv t = (Inr (Some n), Some (n, c))"
  using assms by (simp add: materialize_def Let_def)

section \<open>Witnesses\<close>

definition demo_task :: "ct_schedule \<Rightarrow> continuous_task" where
  "demo_task s = task_new ''t'' ''/w'' CtClaude ModeFresh s ''go''"

definition empty_scope :: scope_state where
  "empty_scope = \<lparr> sc_sessions = [], sc_exited = [], sc_tree = [], sc_pushed = True, sc_edges = [],
     sc_planning = [], sc_failures = [], sc_task_workspaces = [], sc_bindings = [], sc_workspaces = [] \<rparr>"

definition bare_tree :: worktree_view where
  "bare_tree = \<lparr> wv_dir = True, wv_read = (\<lambda>_. FileAbsent), wv_writes = True \<rparr>"

definition demo_item :: queue_item where
  "demo_item = \<lparr> qi_id = ''i'', qi_payload = JNull, qi_dedupe = None, qi_source = None, qi_enqueued = '''' \<rparr>"

definition demo_fire :: "string \<Rightarrow> string \<Rightarrow> bool \<Rightarrow> fire_env" where
  "demo_fire uid token spawns = \<lparr> tv_scope = empty_scope, tv_rotating = (\<lambda>_. False), tv_live = (\<lambda>_. True),
     tv_preamble = (\<lambda>_. ''''), tv_tree = bare_tree, tv_uid = uid, tv_token = token, tv_now = 100,
     tv_before_arm = id, tv_arm_saved = True, tv_client = True, tv_claim = Some [demo_item],
     tv_staged = True, tv_batches = None, tv_batch_keep = 0, tv_spawns = spawns, tv_still_there = True,
     tv_before_record = id, tv_record_saved = True \<rparr>"

definition demo_params :: trigger_params where
  "demo_params = \<lparr> tg_task = ''t'', tg_prompt = None, tg_mode = None, tg_token = None \<rparr>"

lemma demo_valid [simp]: "validate_task_id ''t'' = None"
  by (simp add: validate_task_id_def ascii_alphanumeric_def)

lemma demo_task_id [simp]: "ct_id (demo_task s) = ''t''"
  by (simp add: demo_task_def task_new_def)

lemma demo_prepare [simp]:
  assumes "ct_id t = ''t''" "ct_paused t = False" "ct_adoption t = None" "ct_standing t = None"
  shows "prepare_fire (demo_fire uid token b) (OperatorToken who) demo_params (Some t) =
    (Inr (Inr (fire_plan_for (demo_fire uid token b) (OperatorToken who) demo_params t None (ct_prompt t))), [])"
  using assms
  by (simp add: prepare_fire_def demo_params_def load_task_def
      caller_may_fire_def standing_for_def materialize_def standing_file_name_def resolve_prompt_def
      rotating_def demo_fire_def split: ct_engine.splits option.splits)

definition plan_at :: "nat \<Rightarrow> string \<Rightarrow> ct_event" where
  "plan_at n token = EvPlan n (demo_fire ''u'' token True) (OperatorToken ''x'') demo_params"

text \<open>The state of a demo run, one event after the other.\<close>

lemmas demo_steps = demo_task_def task_new_def start_world_def plan_at_def under_way_def fire_plan_for_def
  arm_continuous_fire_def ct_try_modify_def arm_check_def execute_fire_def
  compact_fire_def stage_consumer_batch_def persistent_target_def is_consumer_def Let_def
  disk_modify_valid record_fire_def fire_run_record_def plan_seq_def sat_add_def with_thread_def
  clears_guard_def saved_change_def

lemma demo_fire_frame [simp]:
  "tv_uid (demo_fire uid token b) = uid" "tv_token (demo_fire uid token b) = token"
  "tv_now (demo_fire uid token b) = 100" "tv_spawns (demo_fire uid token b) = b"
  "tv_rotating (demo_fire uid token b) x = False" "tv_before_arm (demo_fire uid token b) = id"
  "tv_before_record (demo_fire uid token b) = id" "tv_arm_saved (demo_fire uid token b)"
  "tv_record_saved (demo_fire uid token b)" "tv_claim (demo_fire uid token b) = Some [demo_item]"
  "tv_client (demo_fire uid token b)" "tv_staged (demo_fire uid token b)" "tg_token demo_params = None"
  "tg_task demo_params = ''t''"
  by (simp_all add: demo_fire_def demo_params_def)



definition demo_resume :: pause_params where
  "demo_resume = \<lparr> pz_task = ''t'', pz_paused = False, pz_request = None, pz_revision = None \<rparr>"

lemma overtaken_plan_never_fires_witness:
  "\<not> under_way (fires.run (start_world (demo_task (Periodic 60)))
      ([plan_at 0 ''k''] @ EvChange (ChDrain 7 ''r'') True #
       [EvChange (ChPause demo_resume) True, EvArm 0 100 True])) 0"
  by (rule overtaken_plan_never_fires [where u = "demo_task (Periodic 60)"])
    (simp_all add: demo_steps drain_request_def drain_captured_def)


lemma batch_is_settled_once_witness:
  "\<exists>ios. claims ios \<and> settles ''q'' [''i''] False ios"
proof -
  let ?e = "demo_fire ''u'' ''k'' False" and ?t = "demo_task (Consumer ''q'' 1 0 0)"
  obtain res d ios where t: "trigger ?e (OperatorToken ''x'') demo_params (Some ?t) = (res, d, ios)"
    by (metis prod_cases3)
  then have "IoClaim ''q'' 1 (''t#'' @ show_u64 1) \<in> set ios" "res = Inl TriggerSpawn"
    by (auto simp: trigger_def demo_steps finish_fire_def validate_queue_name_def ascii_alphanumeric_def)
  moreover from this have "claims ios" unfolding claims_def by blast
  ultimately show ?thesis
    using batch_is_settled_once [OF t, of "[demo_item]"] by (auto simp: demo_task_def task_new_def demo_item_def)
qed

lemma breaker_pauses_at_five_witness:
  "ct_paused (failed_launches [1, 2, 3, 4, 5] (demo_task (Periodic 60))) \<and>
   \<not> ct_paused (failed_launches [1, 2, 3, 4] (demo_task (Periodic 60))) \<and>
   unat (ct_next_fire (failed_launches [1, 2, 3, 4] (demo_task (Periodic 60)))) = 964"
  using breaker_pauses_at_five [of "demo_task (Periodic 60)" 60 "[1, 2, 3, 4, 5]"]
    breaker_pauses_at_five [of "demo_task (Periodic 60)" 60 "[1, 2, 3, 4]"]
  by (simp add: demo_task_def task_new_def fire_spacing_def)

definition demo_run_record :: run_record where
  "demo_run_record = \<lparr> rr_seq = 1, rr_token = ''k'', rr_started = 0, rr_finished = None,
     rr_uid = Some ''u'', rr_status = RunRunning, rr_source = ''x'' \<rparr>"

text \<open>A periodic task with a budget of ten seconds whose first run is running.\<close>

definition busy_task :: continuous_task where
  "busy_task = (demo_task (Periodic 60))\<lparr> ct_last_run := Some demo_run_record, ct_run_count := 1,
     ct_session := Some ''u'', ct_max_runtime := Some 10 \<rparr>"

definition demo_sched :: "(string \<Rightarrow> bool) \<Rightarrow> sched_env" where
  "demo_sched dead = \<lparr> se_now = 100, se_dead = dead, se_token = ''l'',
     se_fire = demo_fire ''v'' ''l'' True, se_saved = True, se_others = id, se_depths = [], se_lock = True,
     se_max_investigations = 1, se_investigator_budget = 10, se_uid = ''i'', se_spawns = True,
     se_still_there = True \<rparr>"



definition demo_drained :: continuous_task where
  "demo_drained = busy_task\<lparr> ct_paused := True,
     ct_last_run := Some (demo_run_record\<lparr> rr_status := RunDone \<rparr>),
     ct_drain := Some \<lparr> drn_request = ''r'', drn_requested = 0, drn_token = Some ''k'', drn_seq = Some 1,
       drn_uid = Some ''u'', drn_diagnostic = None,
       drn_ack = Some \<lparr> ack_received = 1, ack_uid = ''u'', ack_seq = Some 1, ack_token = Some ''k'' \<rparr>,
       drn_checkpoint = Some \<lparr> dck_recorded = 2, dck_monitors = ''m'', dck_workers = ''d'', dck_notes = ''n'' \<rparr>,
       drn_notice = None \<rparr> \<rparr>"

definition demo_observed :: session_observation where
  "demo_observed = \<lparr> so_uid = ''u'', so_orchestrator = True, so_exited = False, so_reported_done = True,
     so_final_turn_ended = True, so_reported_at = Some 3, so_last_input = None, so_failed = False \<rparr>"

lemma drained_owes_nothing_witness:
  "list_all session_settled [demo_observed] \<and>
   (\<exists>d. ct_drain demo_drained = Some d \<and> run_settled d demo_drained \<and>
     checkpoint_current (\<lambda>_. ''d'') d [demo_observed] \<lparr> me_fingerprint = Some ''m'', me_outstanding = [] \<rparr>)"
proof -
  let ?m = "\<lparr> me_fingerprint = Some ''m'', me_outstanding = [] \<rparr>"
  obtain st where st: "status_with_evidence (\<lambda>_. ''d'') demo_drained [demo_observed] ?m = Some st"
    by (simp add: status_with_evidence_def demo_drained_def)
  then have "ds_state st = Drained"
    by (auto simp: status_with_evidence_def weighed_obligations_def task_obligations_def run_obligations_def
        session_obligations_def evidence_obligations_def checkpoint_obligations_def Let_def demo_drained_def
        demo_observed_def demo_run_record_def busy_task_def demo_task_def task_new_def)
  from drained_owes_nothing [OF st this] show ?thesis by auto
qed

lemma standing_refresh_is_stable_witness:
  "\<exists>c. take (length STANDING_MARKER) c = STANDING_MARKER \<and>
     standing_remove (with_file (''CLAUDE.local.md'', c) bare_tree)
       ((demo_task OnDemand)\<lparr> ct_standing := Some ''be kind'' \<rparr>) = Some ''CLAUDE.local.md''"
proof -
  let ?t = "(demo_task OnDemand)\<lparr> ct_standing := Some ''be kind'' \<rparr>"
  have "\<exists>c. materialize (\<lambda>_. '''') bare_tree ?t = (Inr (Some ''CLAUDE.local.md''), Some (''CLAUDE.local.md'', c))"
    by (simp add: materialize_def standing_file_name_def demo_task_def task_new_def blank_def ascii_space_def
        bare_tree_def Let_def)
  then obtain c where c: "materialize (\<lambda>_. '''') bare_tree ?t =
    (Inr (Some ''CLAUDE.local.md''), Some (''CLAUDE.local.md'', c))" by blast
  from standing_refresh_is_stable [OF c] show ?thesis by blast
qed

text \<open>
  Without the condition on the changes that clear a guard two fires run at once: the reconciler
  takes the guard of a fire whose session is not registered yet after the grace.
\<close>

lemma orphaned_guard_admits_a_second_fire:
  "let w = fires.run (start_world (demo_task (Periodic 60)))
     [plan_at 0 ''k'', EvArm 0 100 True, EvChange (ChOrphan 200) True, plan_at 1 ''l'', EvArm 1 200 True] in
   under_way w 0 \<and> under_way w 1"
  by (simp add: demo_steps orphan_change_def on_last_run_def)

definition demo_wedge :: wedge_env where
  "demo_wedge = \<lparr> we_now = 100, we_grace = 0, we_limit = 3, we_runtime = (\<lambda>_. None), we_live = (\<lambda>_. None),
     we_dead = (\<lambda>_. True), we_mtime = (\<lambda>_. None), we_tail = None, we_tail_again = None,
     we_probe_ok = (\<lambda>_. False), we_recover = id, we_lock = True, we_others = id, we_saved = True,
     we_batch = None, we_client = True, we_accepts = (\<lambda>_. True), we_sessions = [],
     we_monitors = \<lparr> me_fingerprint = None, me_outstanding = [] \<rparr>, we_delivers = True \<rparr>"

definition demo_tick :: tick_ctx where
  "demo_tick = \<lparr> tx_on = True, tx_orphan = demo_sched (\<lambda>_. True), tx_supervise = demo_sched (\<lambda>_. True),
     tx_watch = demo_sched (\<lambda>_. True), tx_due = demo_sched (\<lambda>_. True), tx_wedge = demo_wedge,
     tx_panics = False, tx_stall = None, tx_mtime = (\<lambda>_. None), tx_between = id \<rparr>"

definition demo_latches :: sched_latches where
  "demo_latches = \<lparr> lt_probe = 0, lt_pool = None, lt_evidence = None, lt_auth = 0, lt_escalated = None,
     lt_release = 0, lt_hold = None \<rparr>"

lemma demo_sched_calm: "calm (demo_sched dead)" "by_changes id"
  by (auto simp: calm_def by_changes_def demo_sched_def intro: exI [of _ "[]"])


end
