(* ===== verification/Spec2Isabelle.thy ===== *)
theory Spec2Isabelle
  imports ChannelLaws SupervisorEnds RestartLaws PollerProps ScopeProps ContinuousProps
begin

text \<open>
  A verification of the core of claude-manager: the holder, a near-frozen process that owns the
  terminal sessions across restarts of the daemon, the supervisor around it, the restart barrier
  of the daemon, the workflow runs that the daemon drives, the continuous tasks that it fires on a
  schedule, and the rule that says which session may act on which. Paths below are relative to
  \<open>src/\<close>.

  \<^bold>\<open>How the program is put together.\<close> The holder (\<open>holder/\<close>) starts the daemon, called the brain,
  as a child and talks to it over one socket. It spawns the session children, keeps their
  terminals and their exit statuses, and serves requests. A supervisor loop restarts a brain that
  crashes, counts strikes against it, and carries out deploys: an upgrade of the brain, an upgrade
  of the holder itself by an exec that carries its state in a sealed file, and a migration in
  both directions between one process and two. Inside the daemon (\<open>daemon/\<close>) a restart barrier
  quiesces the writers before the daemon replaces itself. Workflows are runs of several agent
  sessions that hand work to each other: an RPC moves the run's active role and leaves a pending
  activation in the run's file; the drainer types the role's prompt into its terminal. A continuous
  task is a durable record; a scheduler, operators and agents fire it, which starts a session for
  one run of the task, and several parties may close the run. An agent session that calls an RPC is
  checked against the task tree.

  \<^bold>\<open>Shared.\<close> \<open>Prelude\<close> has the machine integers of the Rust code as words, JSON values, the ordered
  map behind \<open>BTreeMap<String, _>\<close> as a sorted association list, the interface
  \<open>keyed_store\<close> (interpreted on that map) and the interface \<open>invariant_system\<close> of
  a state machine with a guard and an invariant; every machine below interprets it on its own
  step function.

  \<^bold>\<open>Channel and manifests.\<close> \<open>Channel\<close> models \<open>holder-proto/src/channel.rs\<close>: verbs, frames, length
  prefixes, and file descriptors that travel with the first byte of a frame. \<open>ChannelLaws\<close> shows
  the round trip of a payload with fields added by a newer peer, and that descriptors reach
  exactly their frame however the stream is cut. \<open>Manifests\<close> models
  \<open>holder-proto/src/reexec_manifest.rs\<close> and \<open>holder_manifest.rs\<close>; \<open>ManifestLaws\<close> shows that the
  structural checks accept exactly what a declarative description says, and the round trip
  through a sealed file under every schedule of partial and interrupted reads.

  \<^bold>\<open>Holder.\<close> \<open>Kernel\<close> models \<open>holder/src/reap.rs\<close> and \<open>holder/src/spawn.rs\<close> over a model of
  processes and descriptors; \<open>HolderState\<close>, \<open>HolderVerbs\<close>, \<open>HolderDispatch\<close> and \<open>HolderServe\<close> model
  \<open>holder/src/holder.rs\<close>: the records, the request handlers, \<open>Holder::dispatch\<close> and the serve loop
  with its outbound queue. \<open>SessionLife\<close> states the life of one record as an inductive relation,
  the specification of the handlers; \<open>HolderRefines\<close> shows that every operation moves every record
  along it. \<open>HolderInv\<close> and \<open>HolderMachine\<close> make the holder a machine of events with its
  invariant. \<open>HolderLaws\<close> and \<open>VerbLaws\<close> hold what a brain may rely on (authorization, exits that
  are not lost, replies, guards of the verbs), \<open>DeployLaws\<close> what holds of reaping and of deploys,
  and \<open>ServeLaws\<close> that the serve loop refines the machine for every answer of poll, clock and
  socket, and what its queue, its watchdog and its timers do.

  \<^bold>\<open>Supervisor.\<close> \<open>Supervisor\<close> models the breaker and the pins of \<open>holder/src/supervisor.rs\<close>,
  \<open>SupervisorExec\<close> and \<open>SupervisorLoop\<close> the boots, the exec paths, the signals and the loop of
  \<open>holder/src/main.rs\<close>. \<open>SupervisorLaws\<close>, \<open>SupervisorSafety\<close>, \<open>BootLaws\<close>, \<open>MigrationLaws\<close> and
  \<open>SupervisorEnds\<close> show: one brain at a time, the invariant across generations, that a deploy dies
  with the brain that armed it (and the one path on which it does not), what crosses an exec, what
  a migration commits or gives back, and that stopping ends.

  \<^bold>\<open>Restart barrier.\<close> \<open>RestartBarrier\<close> models \<open>daemon/src/restart_coordinator.rs\<close> and the gates it
  closes, as a step function over the operations of all threads; \<open>RestartInv\<close> has its invariants
  and \<open>RestartLaws\<close> shows that nothing moves under the three freezes, that a failed attempt leaves
  no trace, and two gaps of the operator's drain RPC.

  \<^bold>\<open>Workflows.\<close> \<open>Template\<close> and \<open>TemplateLaws\<close> are \<open>daemon/src/workflow/template.rs\<close>: rendering
  is the rendering of literal pieces and holes. \<open>WorkflowRun\<close> is \<open>workflow/run.rs\<close>, the run's record
  and the two ways of changing its file; \<open>WorkflowRpc\<close> has \<open>workflow_transition\<close>, \<open>workflow_done\<close>
  and \<open>stop_workflow\<close> of \<open>daemon/src/control/methods.rs\<close> with their roll backs; \<open>Finalize\<close> is the
  drainer, \<open>workflow/finalize.rs\<close> with \<open>fresh_reset.rs\<close> and \<open>pty_tracker.rs\<close>: one definition for each
  phase, in an effect type that records keystrokes and saves in the order in which they happen.
  \<open>WorkflowLaws\<close> has the invariant of a run, \<open>FinalizeSteps\<close> an inductive relation of the changes
  that the drainer makes and the proof that it makes no other, \<open>WorkflowMachine\<close> the run as a
  machine of RPCs, keys and drainer calls, \<open>DeliveryLaws\<close> and \<open>Delivery\<close> the keystrokes over many
  calls, kills included. \<open>WorkflowProps\<close> states the properties.

  \<^bold>\<open>Poller.\<close> \<open>WorkflowDef\<close> is \<open>workflow/toml_schema.rs\<close>: a definition and its checks, and that a
  definition which passes them gives every idle role at most one hand-off, to a role of its own.
  \<open>Poller\<close> and \<open>PollerTick\<close> are \<open>workflow/poller.rs\<close>: what it reads of the daemon's state, the
  resolver of the prompt templates, the decision about a run, its application through
  \<open>workflow_transition\<close>, the bridges of session ids, the loop of the drainer and the pass over all
  runs. \<open>PollerLaws\<close> shows when it acts and what it then makes of the file, and that the loop of the
  drainer ends; \<open>PollerMachine\<close> puts the passes beside the operations of the run's own machine and
  proves the bound on nudges; \<open>PollerProps\<close> states the properties, among them two ways in which an
  idle role is never nudged.

  \<^bold>\<open>Continuous tasks.\<close> \<open>Continuous\<close> is \<open>continuous/task.rs\<close>, the record and its file under the lock,
  with the stop request of \<open>drain.rs\<close> and the standing file of \<open>instructions.rs\<close>. \<open>ContinuousFire\<close>
  is \<open>trigger\<close> of \<open>control/methods.rs\<close>: plan, guard, the batch of a consumer, executor, record.
  \<open>ContinuousRuns\<close> has what ends a run and what closes admission (\<open>report_done\<close>, \<open>force_done\<close>, the
  exit of a session, \<open>resolve_stuck\<close>, pause, drain), \<open>ContinuousTick\<close> the passes of
  \<open>continuous/scheduler.rs\<close> for one task each, \<open>ContinuousWedge\<close> its pass over transcript tails and
  \<open>startup_sweep.rs\<close>, \<open>ContinuousDrain\<close> the status of a stop request and its receipts. What a
  handler does to the world is a list of effects; what other threads do between two reads of the
  file is a function from the record to the record. \<open>ContinuousMachine\<close> puts it together: a fire is
  four sections, any other operation one change under the lock, and any interleaving of them is a
  run. \<open>ContinuousLaws\<close> shows that \<open>trigger\<close> is a run of that machine, what becomes of a batch, and
  the values of the backoff; \<open>ContinuousPass\<close> composes the passes into a tick and shows that a tick
  is a run of the machine too; \<open>ContinuousEnds\<close> has the stranded run, the first closer, the watchdog,
  the drained task, the standing file and the staged batches; \<open>ContinuousProps\<close> states the
  properties and seven flaws. The machine takes the two steps that clear the guard of any fire (the
  orphan reconciler and the sweep) only while no fire is under way, and records a run only below
  the last number of the 32-bit counter; without the first condition two fires run at once, which
  is one of the flaws.

  \<^bold>\<open>Authorization.\<close> \<open>Scope\<close> models \<open>daemon/src/control/auth.rs\<close>, the pushes that build the task tree
  (\<open>task_update_tree\<close>, \<open>register_agent_subtask\<close> and the restored edges), the read decision, the
  scope checks of the workflow RPCs and \<open>task_parent_refresh.rs\<close>. \<open>ScopeLaws\<close> compares the walk
  with ancestry in the tree, and has the tree as a machine; \<open>ScopeProps\<close> states the properties.

  \<^bold>\<open>Fuel and bounds.\<close> A recursion that is not structural carries the bound of the code: 64 steps
  of the walk to a task's ancestors, 32 hops and 64 lookups of a refresh, four attempts to append
  an event, three strikes of the breaker, three nudges of an idle role. Loops without a bound of
  their own run over the list of answers of the environment (reads, polls, writes), so that every
  finite run is one list and a property that quantifies over the list is about every run; the
  loop that stops the brain has its own measure, and the property about it says that it returns.
  Where a bound is a result, it is proved: nine keystrokes for an activation, six undisturbed
  calls to finish one, nine calls of the drainer in a pass, three nudges of a role that no agent
  moves, five failed launches, two passes of the watchdog for each investigator and two more.

  \<^bold>\<open>The environment.\<close> Clocks, fresh ids, the answers of the file system and the kernel, the
  contents of transcripts and the planning API are arguments of the definitions. Reads of a file
  that other processes write are one function from what was there to what is there. Hash maps
  whose order the code does not use are association lists. Strings are lists of bytes in UTF-8.

  \<^bold>\<open>Not modelled.\<close> The hand-off of the daemon to its successor (\<open>daemon/src/reexec.rs\<close>,
  \<open>migrate.rs\<close>) beyond its manifest and its barrier: it rebuilds the daemon's whole session registry,
  of which no model exists here. Of continuous tasks: the change of engine and the operator's
  reconciliation of a held batch (\<open>migration.rs\<close>, \<open>retirement.rs\<close>), adoption, the probes of accounts
  and transcripts, the credentials preflight, the queueing of stop notices, and the thread of the
  scheduler with its timer. The control server and the methods other than those named above;
  sessions, terminals and attach of the daemon; the daemon's side of the holder channel; the parsers
  of transcripts; the terminal interface under \<open>tui/\<close>; the Python services and the web interface:
  mostly input and output, or calls of what is modelled here.
\<close>

end
